(* ===== verification/F64.thy ===== *)
theory F64
  imports Complex_Main "HOL-Library.Log_Nat"
begin

text \<open>
  The IEEE-754 binary64 arithmetic behind the source's \<open>f64\<close>, as much of it as the source uses:
  a value is a NaN, an infinity or a finite rational, and an arithmetic operation is the exact
  rational result rounded to nearest, ties to even, on the binary64 grid (53 significant bits,
  least exponent -1074, overflow to an infinity at two to the 1024). The two zeros are one value
  here: the source never divides by a negative zero, and prints a value only after it has been
  made positive or compared.
  The lemmas show that rounding is monotone, exact on the grid (so on integers up to two to the
  53), symmetric and idempotent, and carry bounds through the operations.
\<close>

section \<open>Powers of two and the binary exponent\<close>

definition pow2 :: "int \<Rightarrow> rat" where
  "pow2 e = 2 powi e"

lemma pow2_pos [simp, intro]: "0 < pow2 e"
  by (simp add: pow2_def)

lemma pow2_ge0 [simp, intro]: "0 \<le> pow2 e"
  using pow2_pos [of e] by linarith

lemma pow2_nz [simp]: "pow2 e \<noteq> 0"
  using pow2_pos [of e] by linarith

lemma pow2_0 [simp]: "pow2 0 = 1"
  by (simp add: pow2_def)

lemma pow2_add: "pow2 (a + b) = pow2 a * pow2 b"
  by (simp add: pow2_def power_int_add)

lemma pow2_Suc: "pow2 (e + 1) = 2 * pow2 e"
  by (simp add: pow2_add) (simp add: pow2_def)

lemma pow2_nonneg: "0 \<le> e \<Longrightarrow> pow2 e = of_int (2 ^ nat e)"
  by (simp add: pow2_def power_int_def)

lemma pow2_split: "a \<le> b \<Longrightarrow> pow2 b = of_int (2 ^ nat (b - a)) * pow2 a"
  using pow2_add [of "b - a" a] pow2_nonneg [of "b - a"] by simp

lemma pow2_less: "a < b \<Longrightarrow> pow2 a < pow2 b"
  by (simp add: pow2_def power_int_strict_increasing)

lemma pow2_less_iff: "pow2 a < pow2 b \<longleftrightarrow> a < b"
  using pow2_less [of a b] pow2_less [of b a] by (cases a b rule: linorder_cases) auto

lemma pow2_mono: "a \<le> b \<Longrightarrow> pow2 a \<le> pow2 b"
  using pow2_less_iff [of b a] by linarith

text \<open>The bit length by halving: the executable form of the library's \<open>bitlen\<close>.\<close>

function blen :: "int \<Rightarrow> int" where
  "blen n = (if n \<le> 0 then 0 else 1 + blen (n div 2))"
  by pat_completeness auto
termination
  by (relation "measure nat") auto

declare blen.simps [simp del]

lemma bitlen_rec: "0 < n \<Longrightarrow> bitlen n = 1 + bitlen (n div 2)"
  by (simp add: bitlen_def compute_floorlog [of 2 "nat n"] nat_div_distrib)

lemma blen_bitlen: "0 \<le> n \<Longrightarrow> blen n = bitlen n"
proof (induction n rule: blen.induct)
  case (1 n)
  show ?case
  proof (cases "n = 0")
    case True
    then show ?thesis by (simp add: blen.simps)
  next
    case False
    with 1 have "blen n = 1 + bitlen (n div 2)" by (simp add: blen.simps [of n])
    moreover have "bitlen n = 1 + bitlen (n div 2)" using False "1.prems" by (intro bitlen_rec) simp
    ultimately show ?thesis by simp
  qed
qed

definition flog2 :: "rat \<Rightarrow> int" where
  "flog2 x = (let (p, q) = quotient_of x; k = blen p - blen q
              in if pow2 k \<le> x then k else k - 1)"

lemma bitlen_bounds_rat:
  assumes "0 < (p::int)"
  shows "pow2 (bitlen p - 1) \<le> of_int p" and "of_int p < pow2 (bitlen p)"
proof -
  have b: "1 \<le> bitlen p" using bitlen_ge_iff_power [of 1 p] assms by simp
  have "2 ^ nat (bitlen p - 1) \<le> p \<and> p < 2 ^ nat (bitlen p)"
    by (rule bitlen_bounds [OF assms])
  then have "of_int (2 ^ nat (bitlen p - 1)) \<le> (of_int p :: rat)"
    and "(of_int p :: rat) < of_int (2 ^ nat (bitlen p))"
    by (simp_all only: of_int_le_iff of_int_less_iff)
  with b show "pow2 (bitlen p - 1) \<le> of_int p" and "of_int p < pow2 (bitlen p)"
    by (simp_all add: pow2_nonneg)
qed

lemma flog2_bounds:
  assumes "0 < x"
  shows "pow2 (flog2 x) \<le> x" and "x < pow2 (flog2 x + 1)"
proof -
  obtain p q where pq: "quotient_of x = (p, q)" by (cases "quotient_of x")
  then have q: "0 < q" and x: "x = of_int p / of_int q"
    using quotient_of_denom_pos quotient_of_div by blast+
  from assms x q have p: "0 < p" by (simp add: zero_less_divide_iff)
  let ?k = "bitlen p - bitlen q"
  note P = bitlen_bounds_rat [OF p] and Q = bitlen_bounds_rat [OF q]
  have Qn: "(0::rat) < of_int q" using q by simp
  have "pow2 (?k - 1) * of_int q \<le> pow2 (?k - 1) * pow2 (bitlen q)"
    using Q(2) by (intro mult_left_mono) auto
  also have "\<dots> = pow2 (bitlen p - 1)" by (simp flip: pow2_add)
  finally have lo: "pow2 (?k - 1) \<le> x" using P(1) Qn unfolding x by (simp add: pos_le_divide_eq)
  have "pow2 (bitlen p) = pow2 (?k + 1) * pow2 (bitlen q - 1)" by (simp flip: pow2_add)
  also have "\<dots> \<le> pow2 (?k + 1) * of_int q"
    using Q(1) by (intro mult_left_mono) auto
  finally have hi: "x < pow2 (?k + 1)" using P(2) Qn unfolding x by (simp add: pos_divide_less_eq)
  show "pow2 (flog2 x) \<le> x" and "x < pow2 (flog2 x + 1)"
    using lo hi pq p q by (simp_all add: flog2_def Let_def blen_bitlen)
qed

lemma flog2_unique: "pow2 k \<le> x \<Longrightarrow> x < pow2 (k + 1) \<Longrightarrow> flog2 x = k"
proof -
  assume a: "pow2 k \<le> x" "x < pow2 (k + 1)"
  then have x: "0 < x" using pow2_pos [of k] by linarith
  note b = flog2_bounds [OF x]
  have "pow2 k < pow2 (flog2 x + 1)" and "pow2 (flog2 x) < pow2 (k + 1)" using a b by linarith+
  then show ?thesis by (simp add: pow2_less_iff)
qed

lemma flog2_mono: "0 < x \<Longrightarrow> x \<le> y \<Longrightarrow> flog2 x \<le> flog2 y"
proof -
  assume "0 < x" "x \<le> y"
  then have "pow2 (flog2 x) < pow2 (flog2 y + 1)"
    using flog2_bounds(1) [of x] flog2_bounds(2) [of y] by linarith
  then show ?thesis by (simp add: pow2_less_iff)
qed

section \<open>Rounding half to even\<close>

definition rhe :: "rat \<Rightarrow> int" where
  "rhe x = (let f = floor x; d = x - of_int f in
     if d < 1/2 then f else if 1/2 < d then f + 1 else if even f then f else f + 1)"

lemma rhe_bounds: "x - 1/2 \<le> of_int (rhe x)" "of_int (rhe x) \<le> x + 1/2"
  using floor_correct [of x] unfolding rhe_def Let_def by (auto split: if_splits; linarith)+

lemma rhe_of_int [simp]: "rhe (of_int n) = n"
  by (simp add: rhe_def)

lemma rhe_floor: "floor x \<le> rhe x" "rhe x \<le> floor x + 1"
  by (auto simp: rhe_def Let_def)

lemma rhe_mono: "x \<le> y \<Longrightarrow> rhe x \<le> rhe y"
proof -
  assume xy: "x \<le> y"
  show ?thesis
  proof (cases "floor x = floor y")
    case True
    with xy show ?thesis by (auto simp: rhe_def Let_def)
  next
    case False
    with xy floor_mono [OF xy] have "floor x + 1 \<le> floor y" by simp
    with rhe_floor [of x] rhe_floor [of y] show ?thesis by linarith
  qed
qed

lemma rhe_ge: "of_int n \<le> x \<Longrightarrow> n \<le> rhe x"
  using rhe_mono [of "of_int n" x] by simp

lemma rhe_le: "x \<le> of_int n \<Longrightarrow> rhe x \<le> n"
  using rhe_mono [of x "of_int n"] by simp

lemma rhe_uminus: "rhe (- x) = - rhe x"
proof (cases "x = of_int (floor x)")
  case True
  then obtain n where n: "x = of_int n" by blast
  have "rhe (of_int (- n)) = - rhe (of_int n)" by (simp only: rhe_of_int)
  then show ?thesis by (simp add: n)
next
  case False
  then have f: "floor (- x) = - floor x - 1"
    using floor_correct [of x] by (intro floor_unique) (auto simp: less_le)
  show ?thesis unfolding rhe_def Let_def f by auto
qed

section \<open>Rounding to the binary64 grid\<close>

definition ulp_exp :: "rat \<Rightarrow> int" where
  "ulp_exp x = max (flog2 \<bar>x\<bar> - 52) (- 1074)"

definition rnd :: "rat \<Rightarrow> rat" where
  "rnd x = (if x = 0 then 0 else of_int (rhe (x / pow2 (ulp_exp x))) * pow2 (ulp_exp x))"

lemma rnd_0 [simp]: "rnd 0 = 0"
  by (simp add: rnd_def)

lemma rnd_uminus: "rnd (- x) = - rnd x"
  by (simp add: rnd_def ulp_exp_def rhe_uminus)

lemma rnd_pow2_step:
  \<comment> \<open>A power of two at or above the grid step separates the roundings below and above it.\<close>
  assumes "0 < x" and "ulp_exp x \<le> k"
  shows "x \<le> pow2 k \<Longrightarrow> rnd x \<le> pow2 k" and "pow2 k \<le> x \<Longrightarrow> pow2 k \<le> rnd x"
proof -
  let ?e = "ulp_exp x"
  have k: "pow2 k = of_int (2 ^ nat (k - ?e)) * pow2 ?e" by (rule pow2_split [OF assms(2)])
  show "rnd x \<le> pow2 k" if "x \<le> pow2 k"
  proof -
    have "x / pow2 ?e \<le> of_int (2 ^ nat (k - ?e))" using that k by (simp add: pos_divide_le_eq)
    then have "rhe (x / pow2 ?e) \<le> 2 ^ nat (k - ?e)" by (rule rhe_le)
    then have "(of_int (rhe (x / pow2 ?e)) :: rat) \<le> of_int (2 ^ nat (k - ?e))"
      by (simp only: of_int_le_iff)
    with assms(1) show ?thesis unfolding k rnd_def by (auto intro!: mult_right_mono)
  qed
  show "pow2 k \<le> rnd x" if "pow2 k \<le> x"
  proof -
    have "of_int (2 ^ nat (k - ?e)) \<le> x / pow2 ?e" using that k by (simp add: pos_le_divide_eq)
    then have "2 ^ nat (k - ?e) \<le> rhe (x / pow2 ?e)" by (rule rhe_ge)
    then have "of_int (2 ^ nat (k - ?e)) \<le> (of_int (rhe (x / pow2 ?e)) :: rat)"
      by (simp only: of_int_le_iff)
    with assms(1) show ?thesis unfolding k rnd_def by (auto intro!: mult_right_mono)
  qed
qed

lemma rnd_nonneg: "0 \<le> x \<Longrightarrow> 0 \<le> rnd x"
  using rhe_ge [of 0 "x / pow2 (ulp_exp x)"] by (simp add: rnd_def)

lemma rnd_mono_pos:
  assumes "0 < x" and "x \<le> y"
  shows "rnd x \<le> rnd y"
proof (cases "ulp_exp x = ulp_exp y")
  case True
  with assms rhe_mono [of "x / pow2 (ulp_exp x)" "y / pow2 (ulp_exp x)"] show ?thesis
    by (auto simp: rnd_def divide_right_mono intro!: mult_right_mono)
next
  case False
  have y: "0 < y" using assms by linarith
  let ?k = "flog2 y"
  from False flog2_mono [OF assms] assms have lt: "flog2 x + 1 \<le> ?k" and e: "ulp_exp y = ?k - 52"
    by (auto simp: ulp_exp_def max_def split: if_splits)
  have "x \<le> pow2 ?k" using flog2_bounds(2) [OF assms(1)] pow2_mono [OF lt] by linarith
  moreover have "ulp_exp x \<le> ?k" using lt e assms y by (auto simp: ulp_exp_def max_def split: if_splits)
  ultimately have "rnd x \<le> pow2 ?k" using rnd_pow2_step(1) [OF assms(1)] by blast
  moreover have "pow2 ?k \<le> rnd y" using rnd_pow2_step(2) [OF y] e flog2_bounds(1) [OF y] by simp
  ultimately show ?thesis by linarith
qed

lemma rnd_mono: "x \<le> y \<Longrightarrow> rnd x \<le> rnd y"
proof -
  assume xy: "x \<le> y"
  consider "0 < x" | "x \<le> 0" "0 \<le> y" | "y < 0" by linarith
  then show ?thesis
  proof cases
    case 1
    then show ?thesis using xy by (rule rnd_mono_pos)
  next
    case 2
    then have "0 \<le> rnd (- x)" and "0 \<le> rnd y" by (auto intro: rnd_nonneg)
    then show ?thesis by (simp add: rnd_uminus)
  next
    case 3
    with xy have "rnd (- y) \<le> rnd (- x)" by (intro rnd_mono_pos) auto
    then show ?thesis by (simp add: rnd_uminus)
  qed
qed

lemma rnd_grid_pos:
  assumes "0 < n" and "n \<le> 2 ^ 53" and "- 1074 \<le> e"
  shows "rnd (of_int n * pow2 e) = of_int n * pow2 e"
proof -
  let ?x = "of_int n * pow2 e :: rat"
  have x: "0 < ?x" using assms(1) by simp
  have le53: "(of_int n :: rat) \<le> of_int (2 ^ 53)" using assms(2) by (simp only: of_int_le_iff)
  have "\<exists>m. ?x = of_int m * pow2 (ulp_exp ?x)"
  proof (cases "n = 2 ^ 53")
    case True
    then have x53: "?x = pow2 (53 + e)" by (simp add: pow2_add pow2_nonneg)
    then have "flog2 ?x = 53 + e"
      by (intro flog2_unique) (use pow2_less_iff [of "53 + e" "53 + e + 1"] in auto)
    then have u: "ulp_exp ?x = e + 1" using x assms(3) by (simp add: ulp_exp_def)
    show ?thesis unfolding u by (rule exI [of _ "2 ^ 52"]) (simp add: True pow2_Suc)
  next
    case False
    with assms(2) have "n < 2 ^ 53" by simp
    then have "(of_int n :: rat) < of_int (2 ^ 53)" by (simp only: of_int_less_iff)
    then have "?x < pow2 (53 + e)" by (simp add: pow2_add pow2_nonneg)
    then have "pow2 (flog2 ?x) < pow2 (53 + e)" using flog2_bounds(1) [OF x] by linarith
    then have u: "ulp_exp ?x \<le> e" using x assms(3) by (simp add: ulp_exp_def pow2_less_iff)
    show ?thesis
      by (rule exI [of _ "n * 2 ^ nat (e - ulp_exp ?x)"]) (use pow2_split [OF u] in simp)
  qed
  then obtain m where m: "?x = of_int m * pow2 (ulp_exp ?x)" by blast
  then have d: "?x / pow2 (ulp_exp ?x) = of_int m" by (simp add: divide_eq_eq)
  have nz: "(?x = 0) = False" using x by auto
  show ?thesis by (simp only: rnd_def nz d rhe_of_int if_False m [symmetric])
qed

lemma rnd_grid:
  assumes "\<bar>n\<bar> \<le> 2 ^ 53" and "- 1074 \<le> e"
  shows "rnd (of_int n * pow2 e) = of_int n * pow2 e"
proof -
  consider "n = 0" | "0 < n" | "0 < - n" by linarith
  then show ?thesis
  proof cases
    case 2
    with assms show ?thesis by (intro rnd_grid_pos) auto
  next
    case 3
    with assms have "rnd (of_int (- n) * pow2 e) = of_int (- n) * pow2 e" by (intro rnd_grid_pos) auto
    then show ?thesis by (simp add: rnd_uminus)
  qed simp
qed

lemma pow2_uminus: "pow2 (- int k) = 1 / 2 ^ k"
  by (simp add: pow2_def power_int_minus inverse_eq_divide)

lemma rnd_dyadic: "\<bar>n\<bar> \<le> 2 ^ 53 \<Longrightarrow> k \<le> 1074 \<Longrightarrow> rnd (of_int n / 2 ^ k) = of_int n / 2 ^ k"
  using rnd_grid [of n "- int k"] by (simp only: pow2_uminus) simp

lemma rnd_of_int: "\<bar>n\<bar> \<le> 2 ^ 53 \<Longrightarrow> rnd (of_int n) = of_int n"
  using rnd_grid [of n 0] by simp

lemma rnd_on_grid: "\<exists>n e. rnd x = of_int n * pow2 e \<and> \<bar>n\<bar> \<le> 2 ^ 53 \<and> - 1074 \<le> e"
proof (cases "x = 0")
  case True
  then show ?thesis by (intro exI [of _ 0]) simp
next
  case False
  let ?e = "ulp_exp x"
  have x: "0 < \<bar>x\<bar>" using False by simp
  have "\<bar>x\<bar> < pow2 (flog2 \<bar>x\<bar> + 1)" by (rule flog2_bounds(2) [OF x])
  also have "\<dots> \<le> pow2 (53 + ?e)" by (intro pow2_mono) (simp add: ulp_exp_def)
  finally have "\<bar>x\<bar> \<le> of_int (2 ^ 53) * pow2 ?e" by (simp add: pow2_add pow2_nonneg)
  then have "x / pow2 ?e \<le> of_int (2 ^ 53)" and "of_int (- (2 ^ 53)) \<le> x / pow2 ?e"
    by (simp_all add: pos_divide_le_eq pos_le_divide_eq abs_le_iff)
  then have "rhe (x / pow2 ?e) \<le> 2 ^ 53" and "- (2 ^ 53) \<le> rhe (x / pow2 ?e)"
    by (blast intro: rhe_le rhe_ge)+
  with False show ?thesis
    by (intro exI [of _ "rhe (x / pow2 ?e)"] exI [of _ ?e]) (simp add: rnd_def ulp_exp_def abs_le_iff)
qed

lemma rnd_idem [simp]: "rnd (rnd x) = rnd x"
proof -
  obtain n e where "rnd x = of_int n * pow2 e" "\<bar>n\<bar> \<le> 2 ^ 53" "- 1074 \<le> e"
    using rnd_on_grid by blast
  then show ?thesis by (simp add: rnd_grid)
qed

lemma rnd_1 [simp]: "rnd 1 = 1"
  using rnd_of_int [of 1] by simp

lemma rnd_numeral: "numeral k \<le> (2 ^ 53 :: int) \<Longrightarrow> rnd (numeral k) = numeral k"
  using rnd_of_int [of "numeral k"] by simp

section \<open>The type and its operations\<close>

datatype f64 = NaN | Infty bool | Fin rat

definition F :: "rat \<Rightarrow> f64" where
  "F x = (let r = rnd x in
     if pow2 1024 \<le> r then Infty True else if r \<le> - pow2 1024 then Infty False else Fin r)"

text \<open>The values a binary64 register can hold.\<close>

fun f64_ok :: "f64 \<Rightarrow> bool" where
  "f64_ok (Fin x) \<longleftrightarrow> rnd x = x \<and> \<bar>x\<bar> < pow2 1024"
| "f64_ok _ \<longleftrightarrow> True"

fun is_nan :: "f64 \<Rightarrow> bool" where
  "is_nan NaN \<longleftrightarrow> True"
| "is_nan _ \<longleftrightarrow> False"

fun fneg :: "f64 \<Rightarrow> f64" where
  "fneg NaN = NaN"
| "fneg (Infty s) = Infty (\<not> s)"
| "fneg (Fin x) = Fin (- x)"

fun fabs :: "f64 \<Rightarrow> f64" where
  "fabs NaN = NaN"
| "fabs (Infty s) = Infty True"
| "fabs (Fin x) = Fin \<bar>x\<bar>"

fun fadd :: "f64 \<Rightarrow> f64 \<Rightarrow> f64" where
  "fadd (Fin x) (Fin y) = F (x + y)"
| "fadd (Infty s) (Infty t) = (if s = t then Infty s else NaN)"
| "fadd (Infty s) (Fin y) = Infty s"
| "fadd (Fin x) (Infty t) = Infty t"
| "fadd _ _ = NaN"

definition fsub :: "f64 \<Rightarrow> f64 \<Rightarrow> f64" where
  "fsub a b = fadd a (fneg b)"

fun fmul :: "f64 \<Rightarrow> f64 \<Rightarrow> f64" where
  "fmul (Fin x) (Fin y) = F (x * y)"
| "fmul (Infty s) (Infty t) = Infty (s = t)"
| "fmul (Infty s) (Fin y) = (if y = 0 then NaN else Infty (s = (0 < y)))"
| "fmul (Fin x) (Infty t) = (if x = 0 then NaN else Infty ((0 < x) = t))"
| "fmul _ _ = NaN"

fun fdiv :: "f64 \<Rightarrow> f64 \<Rightarrow> f64" where
  "fdiv (Fin x) (Fin y) = (if y = 0 then (if x = 0 then NaN else Infty (0 < x)) else F (x / y))"
| "fdiv (Infty s) (Fin y) = Infty (s = (0 \<le> y))"
| "fdiv (Fin x) (Infty t) = Fin 0"
| "fdiv _ _ = NaN"

text \<open>Comparisons: every one that involves a NaN is false.\<close>

fun fle :: "f64 \<Rightarrow> f64 \<Rightarrow> bool" where
  "fle (Fin x) (Fin y) \<longleftrightarrow> x \<le> y"
| "fle (Infty s) (Infty t) \<longleftrightarrow> (s \<longrightarrow> t)"
| "fle (Infty s) (Fin y) \<longleftrightarrow> \<not> s"
| "fle (Fin x) (Infty t) \<longleftrightarrow> t"
| "fle _ _ \<longleftrightarrow> False"

fun flt :: "f64 \<Rightarrow> f64 \<Rightarrow> bool" where
  "flt (Fin x) (Fin y) \<longleftrightarrow> x < y"
| "flt (Infty s) (Infty t) \<longleftrightarrow> \<not> s \<and> t"
| "flt (Infty s) (Fin y) \<longleftrightarrow> \<not> s"
| "flt (Fin x) (Infty t) \<longleftrightarrow> t"
| "flt _ _ \<longleftrightarrow> False"

text \<open>\<open>f64::max\<close> and \<open>f64::min\<close> return the other operand when one is a NaN.\<close>

definition fmax :: "f64 \<Rightarrow> f64 \<Rightarrow> f64" where
  "fmax a b = (if is_nan a then b else if is_nan b then a else if fle a b then b else a)"

definition fmin :: "f64 \<Rightarrow> f64 \<Rightarrow> f64" where
  "fmin a b = (if is_nan a then b else if is_nan b then a else if fle a b then a else b)"

text \<open>\<open>f64::clamp(lo, hi)\<close>: a NaN stays a NaN.\<close>

definition fclamp :: "f64 \<Rightarrow> f64 \<Rightarrow> f64 \<Rightarrow> f64" where
  "fclamp lo hi x = (if flt x lo then lo else if flt hi x then hi else x)"

text \<open>\<open>as f64\<close> of an integer, and the saturating \<open>as i64\<close> (a NaN gives 0).\<close>

definition f_of_int :: "int \<Rightarrow> f64" where
  "f_of_int n = F (of_int n)"

definition trunc_rat :: "rat \<Rightarrow> int" where
  "trunc_rat x = (if 0 \<le> x then floor x else - floor (- x))"

fun i64_of_f :: "f64 \<Rightarrow> int" where
  "i64_of_f NaN = 0"
| "i64_of_f (Infty s) = (if s then 2 ^ 63 - 1 else - (2 ^ 63))"
| "i64_of_f (Fin x) = max (- (2 ^ 63)) (min (2 ^ 63 - 1) (trunc_rat x))"

text \<open>\<open>f64::round\<close>: half away from zero.\<close>

fun fround :: "f64 \<Rightarrow> f64" where
  "fround (Fin x) = F (of_int (if 0 \<le> x then floor (x + 1/2) else - floor (1/2 - x)))"
| "fround a = a"

text \<open>\<open>Iterator::sum\<close>: left to right.\<close>

definition fsum :: "f64 list \<Rightarrow> f64" where
  "fsum xs = foldl fadd (F 0) xs"

section \<open>Bounds carried by the operations\<close>

text \<open>\<open>fin_in lo hi a\<close>: \<open>a\<close> is finite and lies between \<open>lo\<close> and \<open>hi\<close>.\<close>

fun fin_in :: "rat \<Rightarrow> rat \<Rightarrow> f64 \<Rightarrow> bool" where
  "fin_in lo hi (Fin x) \<longleftrightarrow> lo \<le> x \<and> x \<le> hi"
| "fin_in lo hi _ \<longleftrightarrow> False"

lemma fin_inE: "fin_in lo hi a \<Longrightarrow> (\<And>x. a = Fin x \<Longrightarrow> lo \<le> x \<Longrightarrow> x \<le> hi \<Longrightarrow> P) \<Longrightarrow> P"
  by (cases a) auto

lemma fin_in_weaken: "fin_in lo hi a \<Longrightarrow> lo' \<le> lo \<Longrightarrow> hi \<le> hi' \<Longrightarrow> fin_in lo' hi' a"
  by (cases a) auto

lemma pow2_1024_gt: "2 ^ 100 < pow2 1024"
proof -
  have "pow2 100 < pow2 1024" by (rule pow2_less) simp
  then show ?thesis by (simp add: pow2_def)
qed

lemma F_fin:
  assumes "rnd lo = lo" and "rnd hi = hi" and "lo \<le> x" and "x \<le> hi"
    and "- (2 ^ 100) \<le> lo" and "hi \<le> 2 ^ 100"
  shows "F x = Fin (rnd x)" and "lo \<le> rnd x" and "rnd x \<le> hi"
proof -
  show b: "lo \<le> rnd x" "rnd x \<le> hi" using rnd_mono [OF assms(3)] rnd_mono [OF assms(4)] assms(1,2) by simp_all
  show "F x = Fin (rnd x)" unfolding F_def Let_def using b assms(5,6) pow2_1024_gt by auto
qed

lemma F_in: "rnd lo = lo \<Longrightarrow> rnd hi = hi \<Longrightarrow> - (2 ^ 100) \<le> lo \<Longrightarrow> hi \<le> 2 ^ 100 \<Longrightarrow>
    lo \<le> x \<Longrightarrow> x \<le> hi \<Longrightarrow> fin_in lo hi (F x)"
  using F_fin [of lo hi x] by simp

lemma F_of_int: "\<bar>n\<bar> \<le> 2 ^ 53 \<Longrightarrow> F (of_int n) = Fin (of_int n)"
proof -
  assume n: "\<bar>n\<bar> \<le> 2 ^ 53"
  then have "\<bar>of_int n :: rat\<bar> \<le> of_int (2 ^ 53)" by (simp only: of_int_abs [symmetric] of_int_le_iff)
  then have "\<bar>of_int n :: rat\<bar> \<le> 2 ^ 53" by simp
  with pow2_1024_gt show ?thesis by (auto simp: F_def rnd_of_int [OF n] Let_def abs_le_iff)
qed

lemma F_simps [simp]: "F 0 = Fin 0" "F 1 = Fin 1"
  using F_of_int [of 0] F_of_int [of 1] by simp_all

lemma F_code [code]:
  \<comment> \<open>The overflow test by the binary exponent, so that evaluation needs no large power.\<close>
  "F x = (let r = rnd x in if r = 0 \<or> flog2 \<bar>r\<bar> < 1024 then Fin r else Infty (0 < r))"
proof (cases "rnd x = 0")
  case True
  then show ?thesis by (simp add: F_def Let_def not_le)
next
  case False
  let ?r = "\<bar>rnd x\<bar>"
  have r: "0 < ?r" using False by simp
  have "flog2 ?r < 1024 \<longleftrightarrow> ?r < pow2 1024"
  proof
    assume "flog2 ?r < 1024"
    then have "pow2 (flog2 ?r + 1) \<le> pow2 1024" by (intro pow2_mono) simp
    then show "?r < pow2 1024" using flog2_bounds(2) [OF r] by linarith
  next
    assume "?r < pow2 1024"
    then have "pow2 (flog2 ?r) < pow2 1024" using flog2_bounds(1) [OF r] by linarith
    then show "flog2 ?r < 1024" by (simp add: pow2_less_iff)
  qed
  moreover have "\<not> pow2 1024 \<le> rnd x" if "\<not> 0 < rnd x" using that pow2_pos [of 1024] by linarith
  moreover have "\<not> rnd x \<le> - pow2 1024" if "0 < rnd x" using that pow2_pos [of 1024] by linarith
  ultimately show ?thesis using False by (cases "0 < rnd x") (auto simp: F_def Let_def)
qed

lemma F_ok [simp]: "f64_ok (F x)"
  by (auto simp: F_def Let_def abs_less_iff)

lemma fadd_ok: "f64_ok a \<Longrightarrow> f64_ok b \<Longrightarrow> f64_ok (fadd a b)"
  by (cases "(a, b)" rule: fadd.cases) auto

lemma fmul_ok: "f64_ok (fmul a b)"
  by (cases "(a, b)" rule: fmul.cases) auto

lemma fdiv_ok: "f64_ok (fdiv a b)"
  by (cases "(a, b)" rule: fdiv.cases) auto

lemma fle_refl: "\<not> is_nan a \<Longrightarrow> fle a a"
  by (cases a) auto

lemma fle_trans: "fle a b \<Longrightarrow> fle b c \<Longrightarrow> fle a c"
  by (cases a; cases b; cases c) auto

lemma fle_total: "\<not> is_nan a \<Longrightarrow> \<not> is_nan b \<Longrightarrow> fle a b \<or> fle b a"
  by (cases a; cases b) auto

lemma flt_iff_not_fle: "\<not> is_nan a \<Longrightarrow> \<not> is_nan b \<Longrightarrow> flt a b \<longleftrightarrow> \<not> fle b a"
  by (cases a; cases b) auto

lemma flt_imp_fle: "flt a b \<Longrightarrow> fle a b"
  by (cases "(a, b)" rule: flt.cases) auto

lemma fle_not_nan: "fle a b \<Longrightarrow> \<not> is_nan a \<and> \<not> is_nan b"
  by (cases "(a, b)" rule: fle.cases) auto

lemma fle_antisym: "fle a b \<Longrightarrow> fle b a \<Longrightarrow> a = b"
  by (cases "(a, b)" rule: fle.cases) auto

lemma F_mono: "x \<le> y \<Longrightarrow> fle (F x) (F y)"
  using rnd_mono [of x y] pow2_pos [of 1024] by (auto simp: F_def Let_def)

lemma F_half: "F (1 / 2) = Fin (1 / 2)"
proof -
  have "rnd (1 / 2) = 1 / 2" using rnd_dyadic [of 1 1] by simp
  then show ?thesis using pow2_1024_gt by (auto simp: F_def Let_def)
qed

text \<open>Interval rules for the operations, with bounds on the grid.\<close>

lemma F_numeral [simp]: "numeral k \<le> (2 ^ 53 :: int) \<Longrightarrow> F (numeral k) = Fin (numeral k)"
  using F_of_int [of "numeral k"] by simp

lemma f_of_int_small: "\<bar>n\<bar> \<le> 2 ^ 53 \<Longrightarrow> f_of_int n = Fin (of_int n)"
  by (simp add: f_of_int_def F_of_int)

lemma f_of_int_mono: "m \<le> n \<Longrightarrow> fle (f_of_int m) (f_of_int n)"
  by (simp add: f_of_int_def F_mono)

lemma f_of_int_pos: "0 < n \<Longrightarrow> fle (Fin 1) (f_of_int n)"
  using f_of_int_mono [of 1 n] by (simp add: f_of_int_def)

lemma fadd_in:
  assumes "fin_in a b x" and "fin_in c d y" and "rnd (a + c) = a + c" and "rnd (b + d) = b + d"
    and "- (2 ^ 100) \<le> a + c" and "b + d \<le> 2 ^ 100"
  shows "fin_in (a + c) (b + d) (fadd x y)"
  using assms(1,2) by (cases x; cases y) (auto intro!: F_in assms(3-))

lemma fmul_in:
  assumes "fin_in 0 b x" and "fin_in 0 d y" and "rnd (b * d) = b * d" and "b * d \<le> 2 ^ 100"
  shows "fin_in 0 (b * d) (fmul x y)"
  using assms(1,2) by (cases x; cases y) (auto intro!: F_in assms(3-) mult_mono mult_nonneg_nonneg)

lemma fdiv_in:
  assumes "fin_in 0 b x" and "fin_in c d y" and "0 < c" and "rnd h = h" and "b \<le> h * c"
    and "h \<le> 2 ^ 100"
  shows "fin_in 0 h (fdiv x y)"
proof (rule fin_inE [OF assms(1)], rule fin_inE [OF assms(2)])
  fix p q assume x: "x = Fin p" "0 \<le> p" "p \<le> b" and y: "y = Fin q" "c \<le> q" "q \<le> d"
  have q: "0 < q" using y assms(3) by linarith
  have "0 \<le> h * c" using assms(5) x by linarith
  then have "0 \<le> h" using assms(3) by (simp add: zero_le_mult_iff)
  then have "h * c \<le> h * q" using y by (intro mult_left_mono)
  then have "p / q \<le> h" using q x assms(5) by (simp add: pos_divide_le_eq)
  then show "fin_in 0 h (fdiv x y)" using q x y assms(4,6) by (auto intro!: F_in)
qed

lemma fsub1_in: "fin_in 0 1 y \<Longrightarrow> fin_in 0 1 (fsub (Fin 1) y)"
  by (cases y) (auto simp: fsub_def intro!: F_in)

lemma fmul01_in: "fin_in 0 h x \<Longrightarrow> fin_in 0 1 y \<Longrightarrow> rnd h = h \<Longrightarrow> h \<le> 2 ^ 100 \<Longrightarrow> fin_in 0 h (fmul x y)"
  using fmul_in [of h x 1 y] by simp

lemma fmul01_le:
  \<comment> \<open>Scaling a representable value by a factor between 0 and 1 never raises it.\<close>
  assumes "fin_in 0 h x" and "f64_ok x" and "fin_in 0 1 y"
  shows "fle (fmul x y) x"
  using assms by (cases x; cases y) (auto simp: mult_left_le F_def Let_def abs_less_iff
      dest!: rnd_mono [OF mult_left_le] intro: order.trans)

lemma fmax_ge: "\<not> is_nan b \<Longrightarrow> fle b (fmax a b)"
  by (cases a; cases b) (auto simp: fmax_def)

section \<open>Monotonicity\<close>

lemma F_not_nan [simp]: "F x \<noteq> NaN" "\<not> is_nan (F x)"
  by (simp_all add: F_def Let_def)

lemma fle_infty [simp]: "fle (Infty False) a \<longleftrightarrow> a \<noteq> NaN" "fle a (Infty True) \<longleftrightarrow> a \<noteq> NaN"
  by (cases a; simp)+

lemma fadd_mono: "fle a b \<Longrightarrow> x \<le> y \<Longrightarrow> fle (fadd a (Fin x)) (fadd b (Fin y))"
  by (cases a; cases b) (auto simp: F_mono)

lemma fmul_mono: "fle a b \<Longrightarrow> 0 \<le> z \<Longrightarrow> fin_in l h a \<Longrightarrow> fin_in l h b \<Longrightarrow> fle (fmul a (Fin z)) (fmul b (Fin z))"
  by (cases a; cases b) (auto intro!: F_mono mult_right_mono)

lemma fdiv_mono: "fle a b \<Longrightarrow> 0 < z \<Longrightarrow> fle (fdiv a (Fin z)) (fdiv b (Fin z))"
  by (cases a; cases b) (auto intro!: F_mono divide_right_mono)

lemma fsub_anti: "fle a b \<Longrightarrow> fle (fsub (Fin x) b) (fsub (Fin x) a)"
  by (cases a; cases b) (auto simp: fsub_def intro!: F_mono)

lemma fin_in_not_nan: "fin_in l h a \<Longrightarrow> \<not> is_nan a"
  by (cases a) auto

lemma scale_mono: "fle a b \<Longrightarrow> fin_in 0 h a \<Longrightarrow> fin_in 0 h b \<Longrightarrow> fin_in 0 1 c \<Longrightarrow> fle (fmul a c) (fmul b c)"
  by (cases c) (auto intro: fmul_mono)

end
