(* ===== verification/Prelude.thy ===== *)
theory Prelude
  imports F64 "HOL-Library.List_Lexorder" "HOL-Library.Char_ord" "HOL-Library.Word"
begin

text \<open>
  What the components share: the source's strings (a Rust \<open>String\<close> is its UTF-8 bytes, so a
  \<open>char\<close> here is a byte and \<open>length\<close> is \<open>String::len\<close>), the string operations of the standard
  library the source calls, decimal formatting, JSON values, fixed-width wrap-around, and keyed
  tables (a database table with a primary key) as association lists with their laws.
\<close>

named_theorems model_defs \<open>definitions the component proofs unfold\<close>
named_theorems str_simps \<open>facts about the string operations\<close>

type_synonym str = string

section \<open>Fixed-width integers\<close>

text \<open>\<open>i32w\<close> and \<open>i64w\<close> read an integer modulo the width, as \<open>as i32\<close> and release-mode
  arithmetic do.\<close>

definition i32w :: "int \<Rightarrow> int" where
  "i32w n = (n + 2 ^ 31) mod 2 ^ 32 - 2 ^ 31"

definition i64w :: "int \<Rightarrow> int" where
  "i64w n = (n + 2 ^ 63) mod 2 ^ 64 - 2 ^ 63"

lemma i64w_id: "- (2 ^ 63) \<le> n \<Longrightarrow> n < 2 ^ 63 \<Longrightarrow> i64w n = n"
  by (simp add: i64w_def)

lemma i32w_id: "- (2 ^ 31) \<le> n \<Longrightarrow> n < 2 ^ 31 \<Longrightarrow> i32w n = n"
  by (simp add: i32w_def)

lemma i32w_range: "- (2 ^ 31) \<le> i32w n \<and> i32w n < 2 ^ 31"
  unfolding i32w_def using pos_mod_bound [of "2 ^ 32" "n + 2 ^ 31"] pos_mod_sign [of "2 ^ 32" "n + 2 ^ 31"]
  by simp

section \<open>Strings\<close>

fun strip_prefix :: "str \<Rightarrow> str \<Rightarrow> str option" where
  "strip_prefix [] s = Some s"
| "strip_prefix (p # ps) [] = None"
| "strip_prefix (p # ps) (c # s) = (if p = c then strip_prefix ps s else None)"

definition starts_with :: "str \<Rightarrow> str \<Rightarrow> bool" where
  "starts_with s p \<longleftrightarrow> strip_prefix p s \<noteq> None"

definition ends_with :: "str \<Rightarrow> str \<Rightarrow> bool" where
  "ends_with s p \<longleftrightarrow> starts_with (rev s) (rev p)"

lemma strip_prefix_iff: "strip_prefix p s = Some r \<longleftrightarrow> s = p @ r"
  by (induction p s rule: strip_prefix.induct) auto

lemma strip_prefix_append [simp, str_simps]: "strip_prefix p (p @ r) = Some r"
  by (simp add: strip_prefix_iff)

lemma starts_with_iff: "starts_with s p \<longleftrightarrow> (\<exists>r. s = p @ r)"
  by (auto simp: starts_with_def strip_prefix_iff)

lemma ends_with_iff: "ends_with s p \<longleftrightarrow> (\<exists>r. s = r @ p)"
  unfolding ends_with_def starts_with_iff by (metis rev_append rev_rev_ident)

text \<open>\<open>s.contains(sub)\<close>.\<close>

fun contains :: "str \<Rightarrow> str \<Rightarrow> bool" where
  "contains [] p \<longleftrightarrow> p = []"
| "contains (c # s) p \<longleftrightarrow> starts_with (c # s) p \<or> contains s p"

text \<open>\<open>s.split_once(c)\<close>, and the part before the first of some separators
  (\<open>s.split([..]).next()\<close>).\<close>

fun split_once :: "char \<Rightarrow> str \<Rightarrow> (str \<times> str) option" where
  "split_once d [] = None"
| "split_once d (c # s) = (if c = d then Some ([], s)
     else map_option (\<lambda>(a, b). (c # a, b)) (split_once d s))"

definition before_any :: "char list \<Rightarrow> str \<Rightarrow> str" where
  "before_any ds s = takeWhile (\<lambda>c. c \<notin> set ds) s"

lemma split_once_Some: "split_once d s = Some (a, b) \<Longrightarrow> s = a @ d # b \<and> d \<notin> set a"
  by (induction d s arbitrary: a rule: split_once.induct) (auto split: if_splits)

lemma split_once_None: "split_once d s = None \<longleftrightarrow> d \<notin> set s"
  by (induction d s rule: split_once.induct) auto

fun join :: "str \<Rightarrow> str list \<Rightarrow> str" where
  "join sep [] = []"
| "join sep [s] = s"
| "join sep (s # t # ss) = s @ sep @ join sep (t # ss)"

definition is_ascii_digit :: "char \<Rightarrow> bool" where
  "is_ascii_digit c \<longleftrightarrow> CHR ''0'' \<le> c \<and> c \<le> CHR ''9''"

definition is_ascii_hexdigit :: "char \<Rightarrow> bool" where
  "is_ascii_hexdigit c \<longleftrightarrow> is_ascii_digit c \<or> (CHR ''a'' \<le> c \<and> c \<le> CHR ''f'')
     \<or> (CHR ''A'' \<le> c \<and> c \<le> CHR ''F'')"

definition char_lower :: "char \<Rightarrow> char" where
  "char_lower c = (if CHR ''A'' \<le> c \<and> c \<le> CHR ''Z'' then char_of (of_char c + 32 :: nat) else c)"

text \<open>\<open>to_ascii_lowercase\<close>; also \<open>to_lowercase\<close> on the ASCII strings it is called with here
  (hexadecimal addresses).\<close>

definition to_lower :: "str \<Rightarrow> str" where
  "to_lower s = map char_lower s"

definition is_space :: "char \<Rightarrow> bool" where
  "is_space c \<longleftrightarrow> c = CHR '' '' \<or> (CHR 0x09 \<le> c \<and> c \<le> CHR 0x0D)"

definition trim :: "str \<Rightarrow> str" where
  "trim s = rev (dropWhile is_space (rev (dropWhile is_space s)))"

definition trim_end_matches :: "char \<Rightarrow> str \<Rightarrow> str" where
  "trim_end_matches d s = rev (dropWhile (\<lambda>c. c = d) (rev s))"

lemma length_trim: "length (trim s) \<le> length s"
  unfolding trim_def using length_dropWhile_le [of is_space] by (metis length_rev order.trans)

section \<open>Decimal formatting\<close>

function show_nat :: "nat \<Rightarrow> str" where
  "show_nat n = (if n < 10 then [char_of (48 + n)] else show_nat (n div 10) @ [char_of (48 + n mod 10)])"
  by pat_completeness auto
termination
  by (relation "measure id") auto

declare show_nat.simps [simp del]

definition show_int :: "int \<Rightarrow> str" where
  "show_int n = (if n < 0 then CHR ''-'' # show_nat (nat (- n)) else show_nat (nat n))"

lemma show_nat_nonempty: "show_nat n \<noteq> []"
  by (subst show_nat.simps) simp

lemma char_of_digit: "n < 10 \<Longrightarrow> is_ascii_digit (char_of (48 + n :: nat))"
  by (simp add: is_ascii_digit_def less_eq_char_def)

lemma show_nat_digits: "\<forall>c \<in> set (show_nat n). is_ascii_digit c"
proof (induction n rule: show_nat.induct)
  case (1 n)
  then show ?case by (subst show_nat.simps) (auto simp: char_of_digit)
qed

text \<open>Parsing decimal digits, as \<open>str::parse\<close> of an unsigned integer does (no overflow here: the
  callers add the bound of their type).\<close>

fun nat_of_digits :: "nat \<Rightarrow> str \<Rightarrow> nat option" where
  "nat_of_digits acc [] = Some acc"
| "nat_of_digits acc (c # s) =
     (if is_ascii_digit c then nat_of_digits (10 * acc + (of_char c - 48)) s else None)"

definition parse_nat :: "str \<Rightarrow> nat option" where
  "parse_nat s = (if s = [] then None else nat_of_digits 0 s)"

lemma nat_of_digits_append: "nat_of_digits acc (s @ t) =
    (case nat_of_digits acc s of None \<Rightarrow> None | Some m \<Rightarrow> nat_of_digits m t)"
  by (induction acc s rule: nat_of_digits.induct) auto

lemma nat_of_digits_show: "nat_of_digits 0 (show_nat n) = Some n"
proof (induction n rule: show_nat.induct)
  case (1 n)
  show ?case
  proof (cases "n < 10")
    case True
    then show ?thesis by (subst show_nat.simps) (simp add: char_of_digit)
  next
    case False
    with 1 show ?thesis
      by (subst show_nat.simps) (simp add: char_of_digit nat_of_digits_append)
  qed
qed

lemma parse_show_nat [simp]: "parse_nat (show_nat n) = Some n"
  by (simp add: parse_nat_def nat_of_digits_show show_nat_nonempty)

text \<open>\<open>format!("{:.p}", x)\<close>: the exact value rounded half to even at \<open>p\<close> decimals.\<close>

definition fmt_frac :: "nat \<Rightarrow> nat \<Rightarrow> str" where
  "fmt_frac p n = (let s = show_nat n in replicate (p - length s) (CHR ''0'') @ s)"

fun fmt_f :: "nat \<Rightarrow> f64 \<Rightarrow> str" where
  "fmt_f p NaN = ''NaN''"
| "fmt_f p (Infty s) = (if s then ''inf'' else ''-inf'')"
| "fmt_f p (Fin x) = (let n = nat (rhe (\<bar>x\<bar> * 10 ^ p)) in
     (if x < 0 then ''-'' else '''') @ show_nat (n div 10 ^ p) @
     (if p = 0 then '''' else ''.'' @ fmt_frac p (n mod 10 ^ p)))"

text \<open>The three bytes of the em dash the source's messages use.\<close>

definition emdash :: str where
  "emdash = [CHR 0xE2, CHR 0x80, CHR 0x94]"

section \<open>JSON values\<close>

datatype jnum = NInt int | NFloat f64

datatype json = JNull | JBool bool | JNum jnum | JStr str | JArr "json list"
  | JObj "(str \<times> json) list"

text \<open>What \<open>json!\<close> makes of a Rust value: an option is its value or \<open>null\<close>, and a float that is
  not finite is \<open>null\<close>.\<close>

definition jint :: "int \<Rightarrow> json" where "jint n = JNum (NInt n)"

fun jf :: "f64 \<Rightarrow> json" where
  "jf (Fin x) = JNum (NFloat (Fin x))"
| "jf _ = JNull"

definition jopt :: "('a \<Rightarrow> json) \<Rightarrow> 'a option \<Rightarrow> json" where
  "jopt f x = (case x of None \<Rightarrow> JNull | Some a \<Rightarrow> f a)"

text \<open>\<open>Value::get(key)\<close> and indexing \<open>v[key]\<close> (which gives \<open>null\<close> when absent).\<close>

fun jget :: "str \<Rightarrow> json \<Rightarrow> json option" where
  "jget k (JObj m) = map_of m k"
| "jget k _ = None"

definition jidx :: "json \<Rightarrow> str \<Rightarrow> json" where
  "jidx v k = (case jget k v of None \<Rightarrow> JNull | Some x \<Rightarrow> x)"

fun as_str :: "json \<Rightarrow> str option" where
  "as_str (JStr s) = Some s"
| "as_str _ = None"

text \<open>\<open>Value::as_i64\<close>: an integer in the signed range; a float is not one.\<close>

fun as_i64 :: "json \<Rightarrow> int option" where
  "as_i64 (JNum (NInt n)) = (if - (2 ^ 63) \<le> n \<and> n < 2 ^ 63 then Some n else None)"
| "as_i64 _ = None"

fun as_array :: "json \<Rightarrow> json list option" where
  "as_array (JArr xs) = Some xs"
| "as_array _ = None"

fun as_bool :: "json \<Rightarrow> bool option" where
  "as_bool (JBool b) = Some b"
| "as_bool _ = None"

text \<open>\<open>v.pointer("/a/b")\<close> along object keys.\<close>

fun jpointer :: "str list \<Rightarrow> json \<Rightarrow> json option" where
  "jpointer [] v = Some v"
| "jpointer (k # ks) v = (case jget k v of None \<Rightarrow> None | Some w \<Rightarrow> jpointer ks w)"

section \<open>Keyed tables\<close>

text \<open>
  A database table with a primary key is a list of rows without repeated keys; \<open>tput\<close> is
  \<open>INSERT .. ON CONFLICT (key) DO UPDATE\<close>, \<open>tput_new\<close> is \<open>.. DO NOTHING\<close>, and \<open>tdel\<close> deletes by
  a condition on the row.
\<close>

type_synonym ('k, 'v) table = "('k \<times> 'v) list"

fun tput :: "'k \<Rightarrow> 'v \<Rightarrow> ('k, 'v) table \<Rightarrow> ('k, 'v) table" where
  "tput k v [] = [(k, v)]"
| "tput k v ((k', v') # t) = (if k = k' then (k, v) # t else (k', v') # tput k v t)"

definition tput_new :: "'k \<Rightarrow> 'v \<Rightarrow> ('k, 'v) table \<Rightarrow> ('k, 'v) table" where
  "tput_new k v t = (if map_of t k = None then t @ [(k, v)] else t)"

definition tdel :: "('k \<Rightarrow> 'v \<Rightarrow> bool) \<Rightarrow> ('k, 'v) table \<Rightarrow> ('k, 'v) table" where
  "tdel p t = filter (\<lambda>(k, v). \<not> p k v) t"

definition twf :: "('k, 'v) table \<Rightarrow> bool" where
  "twf t \<longleftrightarrow> distinct (map fst t)"

lemma map_of_tput [simp]: "map_of (tput k v t) = (map_of t)(k \<mapsto> v)"
  by (induction t) auto

lemma dom_tput: "set (map fst (tput k v t)) = insert k (set (map fst t))"
  by (induction k v t rule: tput.induct) auto

lemma twf_tput [simp]: "twf t \<Longrightarrow> twf (tput k v t)"
  unfolding twf_def by (induction k v t rule: tput.induct) (auto simp: dom_tput simp flip: set_map)

lemma twf_tput_new [simp]: "twf t \<Longrightarrow> twf (tput_new k v t)"
  by (auto simp: twf_def tput_new_def map_of_eq_None_iff)

lemma map_of_tput_new: "map_of (tput_new k v t) =
    (if map_of t k = None then (map_of t)(k \<mapsto> v) else map_of t)"
  by (auto simp: tput_new_def map_add_def split: option.splits)

lemma twf_tdel [simp]: "twf t \<Longrightarrow> twf (tdel p t)"
  by (simp add: twf_def tdel_def distinct_map_filter)

lemma map_of_tdel: "twf t \<Longrightarrow> map_of (tdel p t) k =
    (case map_of t k of None \<Rightarrow> None | Some v \<Rightarrow> if p k v then None else Some v)"
  by (induction t) (auto simp: tdel_def twf_def map_of_eq_None_iff image_iff split: option.splits)

text \<open>The contract the components rely on: a store that an upsert writes at one key only, and
  that a delete empties at the rows it selects.\<close>

locale keyed_store =
  fixes get :: "'s \<Rightarrow> 'k \<Rightarrow> 'v option"
    and put :: "'k \<Rightarrow> 'v \<Rightarrow> 's \<Rightarrow> 's"
    and del :: "('k \<Rightarrow> 'v \<Rightarrow> bool) \<Rightarrow> 's \<Rightarrow> 's"
    and wf :: "'s \<Rightarrow> bool"
  assumes get_put: "get (put k v s) = (get s)(k \<mapsto> v)"
    and wf_put: "wf s \<Longrightarrow> wf (put k v s)"
    and get_del: "wf s \<Longrightarrow> get (del p s) k =
      (case get s k of None \<Rightarrow> None | Some v \<Rightarrow> if p k v then None else Some v)"
    and wf_del: "wf s \<Longrightarrow> wf (del p s)"
begin

lemma put_all: "get (fold (\<lambda>x. put (f x) (g x)) xs s) k =
    (case map_of (rev (map (\<lambda>x. (f x, g x)) xs)) k of None \<Rightarrow> get s k | Some v \<Rightarrow> Some v)"
  by (induction xs arbitrary: s) (auto simp: get_put map_add_def split: option.splits)

lemma wf_put_all: "wf s \<Longrightarrow> wf (fold (\<lambda>x. put (f x) (g x)) xs s)"
  by (induction xs arbitrary: s) (auto simp: wf_put)

lemma replace_all:
  \<comment> \<open>Delete every row, then insert: the store holds exactly what was inserted.\<close>
  "wf s \<Longrightarrow> get (fold (\<lambda>x. put (f x) (g x)) xs (del (\<lambda>_ _. True) s)) k =
     map_of (rev (map (\<lambda>x. (f x, g x)) xs)) k"
  by (simp add: put_all get_del split: option.splits)

end

interpretation tbl: keyed_store map_of tput tdel twf
  by unfold_locales (auto simp: map_of_tdel)

section \<open>Grouping\<close>

text \<open>\<open>map.entry(k).or_default().push(v)\<close> over a list of pairs: the keys in order of first
  appearance, each with its values in order.\<close>

definition mm_push :: "'k \<Rightarrow> 'v \<Rightarrow> ('k \<times> 'v list) list \<Rightarrow> ('k \<times> 'v list) list" where
  "mm_push k v m = tput k ((case map_of m k of None \<Rightarrow> [] | Some vs \<Rightarrow> vs) @ [v]) m"

definition group_pairs :: "('k \<times> 'v) list \<Rightarrow> ('k \<times> 'v list) list" where
  "group_pairs ps = foldl (\<lambda>m (k, v). mm_push k v m) [] ps"

definition values_at :: "'k \<Rightarrow> ('k \<times> 'v) list \<Rightarrow> 'v list" where
  "values_at k ps = map snd (filter (\<lambda>p. fst p = k) ps)"

lemma values_at_simps [simp]: "values_at k [] = []"
  "values_at k ((k', v) # ps) = (if k' = k then v # values_at k ps else values_at k ps)"
  "values_at k (ps @ qs) = values_at k ps @ values_at k qs"
  by (auto simp: values_at_def)

lemma values_at_Nil: "values_at k ps = [] \<longleftrightarrow> k \<notin> fst ` set ps"
  by (induction ps) (auto split: if_splits)

lemma group_pairs_snoc: "group_pairs (ps @ [(k, v)]) = mm_push k v (group_pairs ps)"
  by (simp add: group_pairs_def)

lemma map_of_group: "map_of (group_pairs ps) k =
    (if values_at k ps = [] then None else Some (values_at k ps))"
proof (induction ps rule: rev_induct)
  case (snoc p ps)
  then show ?case by (cases p) (auto simp: group_pairs_snoc mm_push_def)
qed (simp add: group_pairs_def)

lemma twf_group [simp]: "twf (group_pairs ps)"
proof (induction ps rule: rev_induct)
  case (snoc p ps)
  then show ?case by (cases p) (simp add: group_pairs_snoc mm_push_def)
qed (simp add: group_pairs_def twf_def)

lemma group_entry: "(k, vs) \<in> set (group_pairs ps) \<longleftrightarrow> vs = values_at k ps \<and> k \<in> fst ` set ps"
proof -
  have "(k, vs) \<in> set (group_pairs ps) \<longleftrightarrow> map_of (group_pairs ps) k = Some vs"
    using twf_group [of ps] by (simp add: twf_def)
  then show ?thesis by (auto simp: map_of_group values_at_Nil split: if_splits)
qed

lemma group_keys: "fst ` set (group_pairs ps) = fst ` set ps"
proof -
  have "k \<in> fst ` set (group_pairs ps) \<longleftrightarrow> (\<exists>vs. (k, vs) \<in> set (group_pairs ps))" for k
    by force
  then show ?thesis by (auto simp: group_entry)
qed

lemma group_empty [simp]: "group_pairs ps = [] \<longleftrightarrow> ps = []"
proof
  assume "group_pairs ps = []"
  then have "fst ` set ps = {}" by (metis group_keys image_empty list.set(1))
  then show "ps = []" by simp
qed (simp add: group_pairs_def)

end
