(* ===== verification/Score.thy ===== *)
theory Score
  imports Config
begin

text \<open>
  The judgement core, \<open>foghorn-core/src/score.rs\<close>: sub-scores, the composite and its penalties,
  grades, verdicts, attention items and the unrated branch, in the source's order. Arithmetic is
  binary64 (theory \<open>F64\<close>), operation by operation, so the bounds are those of the rounded
  computation.
\<close>

record score_inputs =
  si_indexer_address :: str
  si_window_days :: int
  probes_answered :: int
  correctness_faults :: int
  error_observations :: int
  total_observations :: int
  recent_observations :: int
  recent_errors :: int
  recent_faults :: int
  self_stake_grt :: "f64 option"
  allocation_count :: "int option"
  qos_success_rate :: "f64 option"
  qos_blocks_behind :: "f64 option"
  measured_blocks_behind :: "f64 option"
  qos_query_count :: "int option"
  reo_status :: "str option"
  ens_name :: "str option"
  qos_deployments_measured :: int
  qos_deployments_erroring :: int
  sybil_cluster_id :: "str option"
  sybil_confidence :: "f64 option"

record score_outcome =
  oc_score :: indexer_score
  oc_verdicts :: "verdict list"
  oc_attention :: "attention_item list"

definition SYBIL_VERDICT_CONFIDENCE :: f64 where
  "SYBIL_VERDICT_CONFIDENCE = F (6 / 10)"

definition clamp01 :: "f64 \<Rightarrow> f64" where
  "clamp01 x = fmin (fmax x (F 0)) (F 1)"

definition grade_for :: "f64 \<Rightarrow> scoring_config \<Rightarrow> str" where
  "grade_for c cfg =
     (if fle (grade_a cfg) c then ''A''
      else if fle (grade_b cfg) c then ''B''
      else if fle (grade_c cfg) c then ''C''
      else if fle (grade_d cfg) c then ''D''
      else ''F'')"

section \<open>Sub-scores\<close>

definition complement100 :: "f64 \<Rightarrow> f64" where
  \<comment> \<open>The expression \<open>100.0 * (1.0 - r)\<close>, which four of the scores end with.\<close>
  "complement100 r = fmul (F 100) (fsub (F 1) r)"

definition correctness_score :: "score_inputs \<Rightarrow> f64 option" where
  "correctness_score i =
     (if probes_answered i \<le> 0 then None
      else let fault_rate = fdiv (f_of_int (correctness_faults i)) (f_of_int (probes_answered i))
           in Some (complement100 (clamp01 fault_rate)))"

definition serving_broken_fraction :: "score_inputs \<Rightarrow> scoring_config \<Rightarrow> f64 option" where
  "serving_broken_fraction i cfg =
     (if qos_deployments_measured i < serving_min_deployments cfg then None
      else Some (clamp01 (fdiv (f_of_int (qos_deployments_erroring i))
                               (f_of_int (qos_deployments_measured i)))))"

definition serving_broken_severity :: "score_inputs \<Rightarrow> scoring_config \<Rightarrow> f64 option" where
  "serving_broken_severity i cfg =
     (case serving_broken_fraction i cfg of
        None \<Rightarrow> None
      | Some fraction \<Rightarrow>
          let count_factor = clamp01 (fdiv (f_of_int (qos_deployments_erroring i))
                                           (f_of_int (max (serving_broken_count_ref cfg) 1)))
          in Some (fmax fraction (fmul (F (5 / 10)) count_factor)))"

definition availability_parts :: "score_inputs \<Rightarrow> scoring_config \<Rightarrow> f64 list" where
  "availability_parts i cfg =
     (if 0 < total_observations i
      then let err_rate = fdiv (f_of_int (error_observations i)) (f_of_int (total_observations i))
           in [complement100 (clamp01 err_rate)]
      else []) @
     (case serving_broken_fraction i cfg of
        Some broken \<Rightarrow> [complement100 broken]
      | None \<Rightarrow> [])"

definition availability_score :: "score_inputs \<Rightarrow> scoring_config \<Rightarrow> f64 option" where
  "availability_score i cfg =
     (let parts = availability_parts i cfg in
      if parts = [] then None
      else Some (fdiv (fsum parts) (f_of_int (int (length parts)))))"

definition lag_to_score :: "f64 \<Rightarrow> int \<Rightarrow> f64" where
  "lag_to_score lag behind_blocks =
     (let max_lag = fmul (f_of_int (max behind_blocks 1)) (F 4)
      in complement100 (clamp01 (fdiv lag max_lag)))"

definition freshness_score :: "score_inputs \<Rightarrow> scoring_config \<Rightarrow> f64 option" where
  "freshness_score i cfg =
     (case measured_blocks_behind i of
        None \<Rightarrow> None
      | Some bb \<Rightarrow> Some (lag_to_score (fmax bb (F 0)) (behind_lag_blocks cfg)))"

definition coverage_score :: "score_inputs \<Rightarrow> scoring_config \<Rightarrow> f64 option" where
  "coverage_score i cfg =
     (case allocation_count i of
        None \<Rightarrow> None
      | Some n \<Rightarrow>
          let target = fmul (f_of_int (max (low_coverage_subgraphs cfg) 1)) (F 2)
          in Some (fmul (F 100) (clamp01 (fdiv (f_of_int n) target))))"

section \<open>Rated or not\<close>

definition is_active :: "score_inputs \<Rightarrow> bool" where
  "is_active i \<longleftrightarrow> 0 < probes_answered i
     \<or> (case qos_query_count i of Some q \<Rightarrow> 0 < q | None \<Rightarrow> False)
     \<or> (case allocation_count i of Some n \<Rightarrow> 0 < n | None \<Rightarrow> False)"

definition is_measured :: "score_inputs \<Rightarrow> scoring_config \<Rightarrow> bool" where
  "is_measured i cfg \<longleftrightarrow> correctness_score i \<noteq> None \<or> availability_score i cfg \<noteq> None
     \<or> freshness_score i cfg \<noteq> None"

definition is_rated :: "score_inputs \<Rightarrow> scoring_config \<Rightarrow> bool" where
  "is_rated i cfg \<longleftrightarrow> is_active i \<and> is_measured i cfg"

definition fault_rate :: "score_inputs \<Rightarrow> f64" where
  "fault_rate i = (if 0 < probes_answered i
     then fdiv (f_of_int (correctness_faults i)) (f_of_int (probes_answered i)) else F 0)"

definition recent_error_rate :: "score_inputs \<Rightarrow> f64" where
  "recent_error_rate i = (if 0 < recent_observations i
     then fdiv (f_of_int (recent_errors i)) (f_of_int (recent_observations i)) else F 0)"

definition is_serving_bad_data :: "score_inputs \<Rightarrow> scoring_config \<Rightarrow> bool" where
  "is_serving_bad_data i cfg \<longleftrightarrow> bad_data_min_faults cfg \<le> correctness_faults i
     \<and> fle (bad_data_min_rate cfg) (fault_rate i)"

definition qos_failing :: "score_inputs \<Rightarrow> scoring_config \<Rightarrow> bool" where
  "qos_failing i cfg \<longleftrightarrow> (case (qos_success_rate i, qos_query_count i) of
      (Some sr, Some q) \<Rightarrow> qos_min_queries cfg \<le> q
         \<and> flt sr (fmul (fsub (F 1) (no_data_min_error_rate cfg)) (F 100))
    | _ \<Rightarrow> False)"

definition is_serving_no_data :: "score_inputs \<Rightarrow> scoring_config \<Rightarrow> bool" where
  "is_serving_no_data i cfg \<longleftrightarrow> qos_failing i cfg
     \<or> (3 \<le> recent_observations i \<and> fle (no_data_min_error_rate cfg) (recent_error_rate i))"

definition is_behind :: "score_inputs \<Rightarrow> scoring_config \<Rightarrow> bool" where
  "is_behind i cfg \<longleftrightarrow> (case measured_blocks_behind i of
      Some b \<Rightarrow> flt (f_of_int (behind_lag_blocks cfg)) b | None \<Rightarrow> False)"

definition is_leech :: "score_inputs \<Rightarrow> scoring_config \<Rightarrow> bool" where
  "is_leech i cfg \<longleftrightarrow> (case (self_stake_grt i, qos_query_count i) of
      (Some s, Some q) \<Rightarrow> fle (leech_min_stake_grt cfg) s \<and> q \<le> leech_max_queries cfg
    | _ \<Rightarrow> False)"

definition is_sybil :: "score_inputs \<Rightarrow> bool" where
  "is_sybil i \<longleftrightarrow> (case sybil_confidence i of
      Some c \<Rightarrow> fle SYBIL_VERDICT_CONFIDENCE c | None \<Rightarrow> False)"

definition unrated_reason :: "score_inputs \<Rightarrow> scoring_config \<Rightarrow> str" where
  "unrated_reason i cfg =
     (if is_leech i cfg
      then ''not rated '' @ emdash @ '' stake is idle, and Lodestar has not measured this indexer in the window''
      else if is_active i
      then ''not rated '' @ emdash @ '' active, but Lodestar has not measured this indexer in the window''
      else ''inactive '' @ emdash @ '' no queries, allocations, or probe coverage'')"

definition STRUCTURAL_VERDICTS :: "str list" where
  "STRUCTURAL_VERDICTS = [''leech'', ''low-coverage'', ''sybil-swarm-member'']"

section \<open>Verdicts\<close>

definition mk_verdict :: "score_inputs \<Rightarrow> str \<Rightarrow> severity \<Rightarrow> str \<Rightarrow> json \<Rightarrow> verdict" where
  "mk_verdict i k sev title ev = \<lparr>
     vd_indexer_address = si_indexer_address i, vd_kind = k, vd_severity = sev,
     vd_title = title, vd_evidence = ev, vd_window_days = Some (si_window_days i)\<rparr>"

definition is_dispute :: "score_inputs \<Rightarrow> scoring_config \<Rightarrow> bool" where
  "is_dispute i cfg \<longleftrightarrow> i64w (bad_data_min_faults cfg * 2) \<le> correctness_faults i
     \<and> fle (fmul (bad_data_min_rate cfg) (F 2)) (fault_rate i)"

definition reo_failing :: "score_inputs \<Rightarrow> scoring_config \<Rightarrow> f64 \<Rightarrow> str list" where
  "reo_failing i cfg score =
     (if flt score (grade_d cfg) then [''composite below D grade''] else []) @
     (if is_serving_bad_data i cfg then [''serving bad data''] else []) @
     (if is_serving_no_data i cfg then [''serving no data''] else []) @
     (if is_leech i cfg then [''leech (high stake, negligible queries)''] else [])"

definition derive_verdicts :: "score_inputs \<Rightarrow> scoring_config \<Rightarrow> f64 \<Rightarrow> verdict list" where
  "derive_verdicts i cfg score =
     (if is_serving_bad_data i cfg then
        mk_verdict i ''serving-bad-data'' Critical
          (''Serving divergent data on '' @ fmt_f 0 (fmul (fault_rate i) (F 100)) @ ''% of probes'')
          (JObj [(''faults'', jint (correctness_faults i)), (''probes'', jint (probes_answered i)),
                 (''fault_rate'', jf (fault_rate i))]) #
        (if is_dispute i cfg then
           [mk_verdict i ''dispute-candidate'' Critical
              (''Sustained correctness faults '' @ emdash @ '' POI dispute candidate'')
              (JObj [(''faults'', jint (correctness_faults i)), (''fault_rate'', jf (fault_rate i))])]
         else [])
      else []) @
     (if is_serving_no_data i cfg then
        [mk_verdict i ''serving-no-data'' Critical ''Serving errors / no data''
          (JObj [(''qos_success_rate'', jopt jf (qos_success_rate i)),
                 (''qos_query_count'', jopt jint (qos_query_count i)),
                 (''recent_error_rate'', jf (recent_error_rate i)),
                 (''recent_observations'', jint (recent_observations i))])]
      else []) @
     (if is_behind i cfg then
        [mk_verdict i ''behind-chainhead'' High ''Behind chainhead''
          (JObj [(''measured_blocks_behind'', jopt jf (measured_blocks_behind i))])]
      else []) @
     (case allocation_count i of
        Some n \<Rightarrow> if n < low_coverage_subgraphs cfg then
          [mk_verdict i ''low-coverage'' Medium (''Narrow coverage: '' @ show_int n @ '' subgraphs'')
            (JObj [(''allocation_count'', jint n), (''threshold'', jint (low_coverage_subgraphs cfg))])]
          else []
      | None \<Rightarrow> []) @
     (if is_leech i cfg then
        [mk_verdict i ''leech'' High ''High stake, negligible queries served''
          (JObj [(''self_stake_grt'', jopt jf (self_stake_grt i)),
                 (''query_count'', jopt jint (qos_query_count i))])]
      else []) @
     (if reo_status i = Some ''eligible'' \<and> reo_failing i cfg score \<noteq> [] then
        [mk_verdict i ''reo-ineligible-candidate'' High
          (''REO-eligible but failing: '' @ join '', '' (reo_failing i cfg score))
          (JObj [(''failing'', JArr (map JStr (reo_failing i cfg score))), (''composite'', jf score),
                 (''grade_d_threshold'', jf (grade_d cfg))])]
      else []) @
     (if is_sybil i then
        [mk_verdict i ''sybil-swarm-member'' High ''Probable operator-swarm member''
          (JObj [(''cluster_id'', jopt JStr (sybil_cluster_id i)),
                 (''confidence'', jopt jf (sybil_confidence i))])]
      else [])"

definition mk_attention :: "score_inputs \<Rightarrow> str \<Rightarrow> severity \<Rightarrow> f64 \<Rightarrow> str \<Rightarrow> json \<Rightarrow> attention_item" where
  "mk_attention i k sev urg title det = \<lparr>
     at_indexer_address = si_indexer_address i, at_kind = k, at_deployment_id = '''',
     at_severity = sev, at_urgency = urg, at_title = title, at_detail = det\<rparr>"

definition opt_or :: "'a option \<Rightarrow> 'a \<Rightarrow> 'a" where
  "opt_or x d = (case x of Some a \<Rightarrow> a | None \<Rightarrow> d)"

definition derive_attention :: "score_inputs \<Rightarrow> scoring_config \<Rightarrow> attention_item list" where
  "derive_attention i cfg =
     (if is_serving_no_data i cfg then
        [mk_attention i ''serving-no-data'' Critical
          (fadd (F 100) (fmax (fsub (F 100) (opt_or (qos_success_rate i) (F 100))) (F 0)))
          ''Serving errors / no data''
          (JObj [(''qos_success_rate'', jopt jf (qos_success_rate i)),
                 (''qos_query_count'', jopt jint (qos_query_count i)),
                 (''recent_errors'', jint (recent_errors i)),
                 (''recent_observations'', jint (recent_observations i))])]
      else []) @
     (if is_serving_bad_data i cfg then
        [mk_attention i ''serving-bad-data'' Critical
          (fadd (F 90) (f_of_int (min (correctness_faults i) 100)))
          ''Serving divergent (likely wrong) data''
          (JObj [(''faults'', jint (correctness_faults i)), (''probes'', jint (probes_answered i))])]
      else []) @
     (if is_behind i cfg then
        let lag = fmax (opt_or (measured_blocks_behind i) (F 0)) (F 0) in
        [mk_attention i ''behind-chainhead'' High
          (fadd (F 50) (fdiv (fmin lag (F 1000)) (F 20)))
          (''Behind chainhead (~'' @ fmt_f 0 lag @ '' blocks)'')
          (JObj [(''measured_blocks_behind'', jopt jf (measured_blocks_behind i))])]
      else [])"

section \<open>Reasons\<close>

definition build_reasons :: "score_inputs \<Rightarrow> scoring_config \<Rightarrow> f64 option \<Rightarrow> f64 option \<Rightarrow>
    f64 option \<Rightarrow> f64 option \<Rightarrow> str list" where
  "build_reasons i cfg corr avail fresh cov =
     (case corr of
        Some _ \<Rightarrow>
          if 0 < correctness_faults i then
            [''served minority (divergent) data on '' @ show_int (correctness_faults i) @ ''/''
               @ show_int (probes_answered i) @ '' probes'']
          else if 0 < probes_answered i then
            [''in consensus on all '' @ show_int (probes_answered i) @ '' probes'']
          else []
      | None \<Rightarrow> [''no Foghorn probe coverage in window'']) @
     (case (avail, qos_success_rate i) of
        (Some _, Some q) \<Rightarrow> [''QoS success rate '' @ fmt_f 0 q @ ''%'']
      | _ \<Rightarrow> []) @
     (if 0 < total_observations i \<and> 0 < error_observations i then
        [show_int (error_observations i) @ ''/'' @ show_int (total_observations i)
           @ '' probe responses errored'']
      else []) @
     (case measured_blocks_behind i of
        Some bb \<Rightarrow> if flt (f_of_int (behind_lag_blocks cfg)) bb
          then [''behind chainhead (~'' @ fmt_f 0 bb @ '' blocks, measured)''] else []
      | None \<Rightarrow> []) @
     (if qos_failing i cfg then
        [''low QoS success rate '' @ fmt_f 0 (opt_or (qos_success_rate i) (F 0)) @ ''% over ''
           @ show_int (opt_or (qos_query_count i) 0) @ '' queries'']
      else []) @
     (case serving_broken_fraction i cfg of
        Some broken \<Rightarrow> if flt (F 0) broken
          then [''serving errors on '' @ show_int (qos_deployments_erroring i) @ ''/''
                  @ show_int (qos_deployments_measured i) @ '' materially-queried deployments'']
          else []
      | None \<Rightarrow> []) @
     (case (cov, allocation_count i) of
        (Some _, Some n) \<Rightarrow> if n < low_coverage_subgraphs cfg
          then [''narrow coverage: '' @ show_int n @ '' subgraphs (< ''
                  @ show_int (low_coverage_subgraphs cfg) @ '')'']
          else []
      | _ \<Rightarrow> []) @
     (if ens_name i = None then [''anonymous (no ENS name)''] else []) @
     (if is_sybil i then
        [''member of probable operator swarm '' @ opt_or (sybil_cluster_id i) ''?'' @ '' (''
           @ fmt_f 0 (fmul (opt_or (sybil_confidence i) (F 0)) (F 100)) @ ''% confidence)'']
      else [])"

section \<open>The judgement\<close>

text \<open>The accumulation loop over the weighted sub-scores: numerator and denominator.\<close>

fun weigh :: "f64 \<times> f64 \<Rightarrow> (f64 option \<times> f64) list \<Rightarrow> f64 \<times> f64" where
  "weigh (num, den) [] = (num, den)"
| "weigh (num, den) ((Some v, w) # rest) = weigh (fadd num (fmul v w), fadd den w) rest"
| "weigh (num, den) ((None, w) # rest) = weigh (num, den) rest"

definition weighted_mean :: "(f64 option \<times> f64) list \<Rightarrow> f64" where
  "weighted_mean ws = (let (num, den) = weigh (F 0, F 0) ws
     in if flt (F 0) den then fdiv num den else F 0)"

definition raw_composite :: "score_inputs \<Rightarrow> scoring_config \<Rightarrow> f64" where
  "raw_composite i cfg = weighted_mean
     [(correctness_score i, w_correctness cfg), (availability_score i cfg, w_availability cfg),
      (freshness_score i cfg, w_freshness cfg), (coverage_score i cfg, w_coverage cfg)]"

definition sybil_penalised :: "score_inputs \<Rightarrow> scoring_config \<Rightarrow> f64 \<Rightarrow> f64" where
  "sybil_penalised i cfg raw =
     (if is_sybil i
      then fmul raw (fsub (F 1) (fmul (opt_or (sybil_confidence i) (F 0)) (sybil_grade_penalty cfg)))
      else raw)"

definition serving_penalised :: "score_inputs \<Rightarrow> scoring_config \<Rightarrow> f64 \<Rightarrow> f64" where
  "serving_penalised i cfg c =
     (case serving_broken_severity i cfg of
        Some sev \<Rightarrow> fmul c (fsub (F 1) (fmul sev (serving_grade_penalty cfg)))
      | None \<Rightarrow> c)"

definition composite_of :: "score_inputs \<Rightarrow> scoring_config \<Rightarrow> f64" where
  "composite_of i cfg = serving_penalised i cfg (sybil_penalised i cfg (raw_composite i cfg))"

definition judge_unrated :: "score_inputs \<Rightarrow> scoring_config \<Rightarrow> score_outcome" where
  "judge_unrated i cfg = \<lparr>
     oc_score = \<lparr>
       sc_indexer_address = si_indexer_address i, sc_window_days = si_window_days i,
       composite = F 0, grade = ''NR'', rated = False,
       sc_correctness = None, sc_availability = None, sc_freshness = None, sc_coverage = None,
       sc_value = None, sybil_flag = False, sc_sybil_cluster_id = None, probe_count = 0,
       reasons = [unrated_reason i cfg],
       sub_scores = JObj [(''correctness'', JNull), (''availability'', JNull), (''freshness'', JNull),
                          (''coverage'', JNull), (''value'', JNull)]\<rparr>,
     oc_verdicts = filter (\<lambda>v. vd_kind v \<in> set STRUCTURAL_VERDICTS) (derive_verdicts i cfg (F 0)),
     oc_attention = []\<rparr>"

definition judge_rated :: "score_inputs \<Rightarrow> scoring_config \<Rightarrow> score_outcome" where
  "judge_rated i cfg =
     (let corr = correctness_score i; avail = availability_score i cfg;
          fresh = freshness_score i cfg; cov = coverage_score i cfg;
          score = composite_of i cfg in
      \<lparr> oc_score = \<lparr>
          sc_indexer_address = si_indexer_address i, sc_window_days = si_window_days i,
          composite = score, grade = grade_for score cfg, rated = True,
          sc_correctness = corr, sc_availability = avail, sc_freshness = fresh, sc_coverage = cov,
          sc_value = None, sybil_flag = is_sybil i,
          sc_sybil_cluster_id = (if is_sybil i then sybil_cluster_id i else None),
          probe_count = i32w (probes_answered i),
          reasons = build_reasons i cfg corr avail fresh cov,
          sub_scores = JObj [(''correctness'', jopt jf corr), (''availability'', jopt jf avail),
                             (''freshness'', jopt jf fresh), (''coverage'', jopt jf cov),
                             (''value'', JNull)]\<rparr>,
        oc_verdicts = derive_verdicts i cfg score,
        oc_attention = derive_attention i cfg\<rparr>)"

definition judge :: "score_inputs \<Rightarrow> scoring_config \<Rightarrow> score_outcome" where
  "judge i cfg = (if \<not> is_rated i cfg then judge_unrated i cfg else judge_rated i cfg)"

section \<open>Ranges of the sub-scores\<close>

lemma clamp01_in [simp, intro]: "fin_in 0 1 (clamp01 x)"
  by (cases x) (auto simp: clamp01_def fmax_def fmin_def)

lemma complement100_in: "fin_in 0 1 r \<Longrightarrow> fin_in 0 100 (complement100 r)"
  using fmul01_in [of 100 "Fin 100" "fsub (Fin 1) r"] fsub1_in [of r]
  by (simp add: complement100_def rnd_numeral)

lemma correctness_in: "correctness_score i = Some s \<Longrightarrow> fin_in 0 100 s"
  by (auto simp: correctness_score_def Let_def complement100_in split: if_splits)

lemma broken_fraction_in: "serving_broken_fraction i cfg = Some r \<Longrightarrow> fin_in 0 1 r"
  by (auto simp: serving_broken_fraction_def split: if_splits)

lemma availability_parts_in: "p \<in> set (availability_parts i cfg) \<Longrightarrow> fin_in 0 100 p"
  by (auto simp: availability_parts_def Let_def complement100_in broken_fraction_in
      split: if_splits option.splits)

lemma length_availability_parts: "length (availability_parts i cfg) \<le> 2"
  by (auto simp: availability_parts_def Let_def split: option.splits)

lemma mean_of_two_in:
  assumes "ps \<noteq> []" and "length ps \<le> 2" and "\<And>p. p \<in> set ps \<Longrightarrow> fin_in 0 100 p"
  shows "fin_in 0 100 (fdiv (fsum ps) (f_of_int (int (length ps))))"
proof -
  from assms consider p where "ps = [p]" | p q where "ps = [p, q]"
    by (cases ps; cases "tl ps") auto
  then show ?thesis
  proof cases
    case 1
    then have "fin_in (0 + 0) (0 + 100) (fadd (Fin 0) p)"
      using assms(3) by (intro fadd_in) (auto simp: rnd_numeral)
    then have "fin_in 0 100 (fsum ps)" by (simp add: 1 fsum_def)
    then show ?thesis using 1
      by (intro fdiv_in [of 100 _ 1 1]) (auto simp: rnd_numeral f_of_int_small)
  next
    case 2
    then have "fin_in (0 + 0) (0 + 100) (fadd (Fin 0) p)"
      using assms(3) by (intro fadd_in) (auto simp: rnd_numeral)
    then have "fin_in (0 + 0) (100 + 100) (fadd (fadd (Fin 0) p) q)"
      using assms(3) 2 by (intro fadd_in) (auto simp: rnd_numeral)
    then have "fin_in 0 200 (fsum ps)" by (simp add: 2 fsum_def)
    then show ?thesis using 2
      by (intro fdiv_in [of 200 _ 2 2]) (auto simp: rnd_numeral f_of_int_small)
  qed
qed

lemma availability_in: "availability_score i cfg = Some s \<Longrightarrow> fin_in 0 100 s"
  using mean_of_two_in [of "availability_parts i cfg"] availability_parts_in length_availability_parts
  by (auto simp: availability_score_def Let_def split: if_splits)

lemma freshness_in: "freshness_score i cfg = Some s \<Longrightarrow> fin_in 0 100 s"
  by (auto simp: freshness_score_def lag_to_score_def Let_def complement100_in split: option.splits)

lemma coverage_in: "coverage_score i cfg = Some s \<Longrightarrow> fin_in 0 100 s"
  using fmul01_in [of 100 "Fin 100"]
  by (auto simp: coverage_score_def Let_def rnd_numeral split: option.splits)

lemmas sub_score_in = correctness_in availability_in freshness_in coverage_in

section \<open>The weighted mean\<close>

definition g20 :: "int \<Rightarrow> rat" where
  \<comment> \<open>A point of the grid of step two to the minus 20, on which the bounds below are exact.\<close>
  "g20 n = of_int n / 2 ^ 20"

lemma rnd_g20: "\<bar>n\<bar> \<le> 2 ^ 53 \<Longrightarrow> rnd (g20 n) = g20 n"
  unfolding g20_def by (rule rnd_dyadic) auto

lemma g20_add: "g20 m + g20 n = g20 (m + n)"
  by (simp add: g20_def add_divide_distrib)

lemma g20_scale: "of_int k * g20 n = g20 (k * n)"
  by (simp add: g20_def)

lemma g20_le: "m \<le> 2 ^ 40 \<Longrightarrow> g20 m \<le> 2 ^ 100" and g20_ge: "0 \<le> m \<Longrightarrow> 0 \<le> g20 m"
proof -
  show "g20 m \<le> 2 ^ 100" if "m \<le> 2 ^ 40"
  proof -
    have "(of_int m :: rat) \<le> of_int (2 ^ 40)" using that by (simp only: of_int_le_iff)
    then show ?thesis by (simp add: g20_def)
  qed
  show "0 \<le> g20 m" if "0 \<le> m" using that by (simp add: g20_def)
qed

lemma weight_cell:
  assumes "fin_in (1 / 32) 1 w"
  obtains a where "fin_in (g20 a) (g20 (a + 1)) w" and "32768 \<le> a" and "a \<le> 1048576"
proof -
  obtain q where q: "w = Fin q" "1 / 32 \<le> q" "q \<le> 1" using assms by (rule fin_inE)
  let ?a = "floor (q * 2 ^ 20)"
  have "of_int ?a \<le> q * 2 ^ 20" "q * 2 ^ 20 \<le> of_int ?a + 1"
    using floor_correct [of "q * 2 ^ 20"] by auto
  then have "fin_in (g20 ?a) (g20 (?a + 1)) w"
    using q by (simp add: g20_def pos_divide_le_eq pos_le_divide_eq)
  moreover have "32768 \<le> ?a" using q by (simp add: le_floor_iff)
  moreover have "?a \<le> 1048576" using q by (simp add: floor_le_iff)
  ultimately show ?thesis by (rule that)
qed

definition cell_inv :: "int \<Rightarrow> int \<Rightarrow> f64 \<times> f64 \<Rightarrow> bool" where
  "cell_inv A j nd \<longleftrightarrow> 32768 * j \<le> A \<and> A \<le> 1048576 * j \<and> 0 \<le> j \<and> j \<le> 4
     \<and> fin_in 0 (g20 (100 * (A + j))) (fst nd) \<and> fin_in (g20 A) (of_int j) (snd nd)"

lemma cell_step:
  assumes inv: "cell_inv A j (num, den)" and "j < 4"
    and v: "fin_in 0 100 v" and w: "fin_in (1 / 32) 1 w"
  shows "\<exists>A'. cell_inv A' (j + 1) (fadd num (fmul v w), fadd den w)"
proof -
  obtain a where a: "fin_in (g20 a) (g20 (a + 1)) w" "32768 \<le> a" "a \<le> 1048576"
    using weight_cell [OF w] .
  note I = inv [unfolded cell_inv_def, simplified]
  have bA: "A \<le> 4194304" using I assms(2) by linarith
  have "fin_in 0 (g20 (a + 1)) w" using a by (auto intro: fin_in_weaken simp: g20_ge)
  then have "fin_in 0 (100 * g20 (a + 1)) (fmul v w)"
    using v a g20_scale [of 100 "a + 1"] rnd_g20 [of "100 * (a + 1)"] g20_le [of "100 * (a + 1)"]
    by (intro fmul_in) auto
  then have t: "fin_in 0 (g20 (100 * (a + 1))) (fmul v w)"
    using g20_scale [of 100 "a + 1"] by simp
  have "fin_in (0 + 0) (g20 (100 * (A + j)) + g20 (100 * (a + 1))) (fadd num (fmul v w))"
    using I t a bA assms(2) g20_le [of "100 * (A + j) + 100 * (a + 1)"]
    by (intro fadd_in) (auto simp: g20_add intro!: rnd_g20)
  then have n: "fin_in 0 (g20 (100 * ((A + a) + (j + 1)))) (fadd num (fmul v w))"
    by (simp add: g20_add algebra_simps)
  have w1: "fin_in (g20 a) 1 w" using a w by (cases w) auto
  have "fin_in (g20 A + g20 a) (of_int j + 1) (fadd den w)"
    using I w1 a bA assms(2) g20_ge [of "A + a"] rnd_of_int [of "j + 1"]
    by (intro fadd_in) (auto simp: g20_add intro!: rnd_g20)
  then have d: "fin_in (g20 (A + a)) (of_int (j + 1)) (fadd den w)" by (simp add: g20_add)
  have "cell_inv (A + a) (j + 1) (fadd num (fmul v w), fadd den w)"
    using I n d a assms(2) by (simp add: cell_inv_def)
  then show ?thesis by blast
qed

definition good_part :: "f64 option \<times> f64 \<Rightarrow> bool" where
  "good_part p \<longleftrightarrow> (case fst p of Some v \<Rightarrow> fin_in 0 100 v | None \<Rightarrow> True) \<and> fin_in (1 / 32) 1 (snd p)"

lemma weigh_cells:
  "cell_inv A j nd \<Longrightarrow> j + int (length ws) \<le> 4 \<Longrightarrow> list_all good_part ws \<Longrightarrow>
     \<exists>A' j'. cell_inv A' j' (weigh nd ws)"
proof (induction nd ws arbitrary: A j rule: weigh.induct)
  case (2 num den v w rest)
  then obtain A' where "cell_inv A' (j + 1) (fadd num (fmul v w), fadd den w)"
    using cell_step [of A j num den v w] by (auto simp: good_part_def)
  then show ?case using 2 by auto
qed auto

lemma rnd_top: "rnd (100 + 1 / 64) = 100 + 1 / 64"
  using rnd_dyadic [of 6401 6] by simp

lemma weighted_mean_in:
  assumes "list_all good_part ws" and "length ws \<le> 4"
  shows "fin_in 0 (100 + 1 / 64) (weighted_mean ws)"
proof -
  have "cell_inv 0 0 (F 0, F 0)" by (simp add: cell_inv_def g20_def)
  with assms obtain A j where I: "cell_inv A j (weigh (F 0, F 0) ws)"
    using weigh_cells by fastforce
  obtain num den where nd: "weigh (F 0, F 0) ws = (num, den)" by (cases "weigh (F 0, F 0) ws")
  note I' = I [unfolded nd cell_inv_def, simplified]
  note rh = rnd_top
  have nd': "weigh (Fin 0, Fin 0) ws = (num, den)" using nd by simp
  show ?thesis
  proof (cases "0 < j")
    case True
    then have A: "32768 \<le> A" using I' by linarith
    then have c: "0 < g20 A" by (simp add: g20_def)
    have "32768 * j \<le> A" and "0 \<le> j" using I' by auto
    then have "6400 * j \<le> A" using mult_right_mono [of 6400 32768 j] by simp
    then have "6400 * (A + j) \<le> 6401 * A" by (simp add: algebra_simps)
    then have "(of_int (6400 * (A + j)) :: rat) \<le> of_int (6401 * A)" by (simp only: of_int_le_iff)
    then have "g20 (100 * (A + j)) \<le> (100 + 1 / 64) * g20 A" by (simp add: g20_def field_simps)
    then have "fin_in 0 (100 + 1 / 64) (fdiv num den)"
      using I' c rh by (intro fdiv_in) auto
    then show ?thesis by (simp add: weighted_mean_def nd')
  next
    case False
    with I' have "den = Fin 0" by (cases den) (auto simp: g20_def)
    then show ?thesis by (simp add: weighted_mean_def nd')
  qed
qed

text \<open>What a sane configuration gives: weights of ordinary size, penalties that are fractions.\<close>

definition sane_config :: "scoring_config \<Rightarrow> bool" where
  "sane_config cfg \<longleftrightarrow>
     list_all (fin_in (1 / 32) 1) [w_correctness cfg, w_availability cfg, w_freshness cfg, w_coverage cfg]
     \<and> fin_in 0 1 (sybil_grade_penalty cfg) \<and> fin_in 0 1 (serving_grade_penalty cfg)"

definition sane_confidence :: "score_inputs \<Rightarrow> bool" where
  "sane_confidence i \<longleftrightarrow> (case sybil_confidence i of Some c \<Rightarrow> fin_in 0 1 c | None \<Rightarrow> True)"

lemma raw_composite_in: "sane_config cfg \<Longrightarrow> fin_in 0 (100 + 1 / 64) (raw_composite i cfg)"
  unfolding raw_composite_def
  by (rule weighted_mean_in)
    (auto simp: good_part_def sane_config_def sub_score_in split: option.splits)

lemma severity_in: "serving_broken_severity i cfg = Some s \<Longrightarrow> fin_in 0 1 s"
proof -
  assume s: "serving_broken_severity i cfg = Some s"
  then obtain r where r: "serving_broken_fraction i cfg = Some r"
    by (auto simp: serving_broken_severity_def split: option.splits)
  have "fin_in 0 1 (fmul (F (5 / 10)) (clamp01 x))" for x
    using fmul01_in [of 1 "Fin (1 / 2)" "clamp01 x"] by (simp add: F_half)
  then show ?thesis using s broken_fraction_in [OF r] r
    by (auto simp: serving_broken_severity_def Let_def fmax_def split: if_splits)
qed

lemma penalty_factor_in: "fin_in 0 1 c \<Longrightarrow> fin_in 0 1 p \<Longrightarrow> fin_in 0 1 (fsub (F 1) (fmul c p))"
  using fmul01_in [of 1 c p] fsub1_in by simp

lemma sybil_factor_in: "sane_config cfg \<Longrightarrow> sane_confidence i \<Longrightarrow>
    fin_in 0 1 (fsub (F 1) (fmul (opt_or (sybil_confidence i) (F 0)) (sybil_grade_penalty cfg)))"
  by (rule penalty_factor_in) (auto simp: sane_config_def sane_confidence_def opt_or_def split: option.splits)

lemma weighted_mean_ok: "f64_ok (weighted_mean ws)"
  by (simp add: weighted_mean_def fdiv_ok split: prod.splits)

lemma sybil_penalised_in:
  assumes "sane_config cfg" and "sane_confidence i" and "fin_in 0 (100 + 1 / 64) c" and "f64_ok c"
  shows "fin_in 0 (100 + 1 / 64) (sybil_penalised i cfg c)" and "fle (sybil_penalised i cfg c) c"
    and "f64_ok (sybil_penalised i cfg c)"
  using assms fmul01_in [OF assms(3) sybil_factor_in [OF assms(1,2)] rnd_top]
    fmul01_le [OF assms(3,4) sybil_factor_in [OF assms(1,2)]]
  by (auto simp: sybil_penalised_def fmul_ok intro: fle_refl elim!: fin_inE)

lemma serving_penalised_in:
  assumes "sane_config cfg" and "fin_in 0 (100 + 1 / 64) c" and "f64_ok c"
  shows "fin_in 0 (100 + 1 / 64) (serving_penalised i cfg c)" and "fle (serving_penalised i cfg c) c"
proof -
  have p: "fin_in 0 1 (fsub (F 1) (fmul s (serving_grade_penalty cfg)))"
    if "serving_broken_severity i cfg = Some s" for s
    using that assms(1) by (intro penalty_factor_in) (auto simp: severity_in sane_config_def)
  show "fin_in 0 (100 + 1 / 64) (serving_penalised i cfg c)"
    using assms(2) fmul01_in [OF assms(2) p rnd_top] by (auto simp: serving_penalised_def split: option.splits)
  show "fle (serving_penalised i cfg c) c"
    using assms(2) fmul01_le [OF assms(2,3) p]
    by (auto simp: serving_penalised_def intro: fle_refl elim!: fin_inE split: option.splits)
qed

lemma composite_of_in:
  assumes "sane_config cfg" and "sane_confidence i"
  shows "fin_in 0 (100 + 1 / 64) (composite_of i cfg)" and "fle (composite_of i cfg) (raw_composite i cfg)"
proof -
  have ok: "f64_ok (raw_composite i cfg)" by (simp add: raw_composite_def weighted_mean_ok)
  note s = sybil_penalised_in [OF assms raw_composite_in [OF assms(1)] ok]
  note v = serving_penalised_in [OF assms(1) s(1,3)]
  show "fin_in 0 (100 + 1 / 64) (composite_of i cfg)" and "fle (composite_of i cfg) (raw_composite i cfg)"
    using v s(2) by (auto simp: composite_of_def intro: fle_trans)
qed

end
