(* ===== verification/Score_Props.thy ===== *)
theory Score_Props
  imports Score
begin

text \<open>
  What the judgement of theory \<open>Score\<close> promises: sub-scores and composite stay on their scale,
  penalties only lower, more faults never help, an unmeasured indexer is not graded, verdicts fire
  exactly when their conditions hold, and the stale oracle feed is not an input.
\<close>

section \<open>A concrete indexer\<close>

definition healthy :: score_inputs where
  \<comment> \<open>The source's test fixture, with a measured chainhead lag of zero.\<close>
  "healthy = \<lparr>
     si_indexer_address = ''0xgood'', si_window_days = 7,
     probes_answered = 50, correctness_faults = 0, error_observations = 0, total_observations = 50,
     recent_observations = 0, recent_errors = 0, recent_faults = 0,
     self_stake_grt = Some (F 500000), allocation_count = Some 60,
     qos_success_rate = Some (F 99), qos_blocks_behind = Some (F 1),
     measured_blocks_behind = Some (F 0), qos_query_count = Some 50000,
     reo_status = Some ''eligible'', ens_name = Some ''good.eth'',
     qos_deployments_measured = 0, qos_deployments_erroring = 0,
     sybil_cluster_id = None, sybil_confidence = None\<rparr>"

lemma rnd_1_32: "rnd (1 / 32) = 1 / 32"
  using rnd_dyadic [of 1 5] by simp

lemma sane_default: "sane_config scoring_default"
  by (simp add: sane_config_def scoring_default_def)
    (intro conjI F_in; simp add: rnd_1_32)

lemma healthy_confidence: "sane_confidence healthy"
  by (simp add: sane_confidence_def healthy_def)

lemma healthy_rated: "is_rated healthy cfg"
  by (simp add: is_rated_def is_active_def is_measured_def correctness_score_def healthy_def)

section \<open>Ranges\<close>

definition on_scale :: "f64 option \<Rightarrow> bool" where
  "on_scale x \<longleftrightarrow> (case x of None \<Rightarrow> True | Some s \<Rightarrow> fin_in 0 100 s)"

text \<open>
  Every sub-score the judgement reports is absent or a number between 0 and 100, for every
  input: no count, lag or configuration value (negative, zero, infinite or NaN) makes one leave
  the scale.
\<close>

theorem sub_scores_in_range:
  "list_all on_scale
     [sc_correctness (oc_score (judge i cfg)), sc_availability (oc_score (judge i cfg)),
      sc_freshness (oc_score (judge i cfg)), sc_coverage (oc_score (judge i cfg))]"
  by (auto simp: judge_def judge_rated_def judge_unrated_def Let_def on_scale_def sub_score_in
      split: option.splits)

text \<open>
  C30. With weights between 1/32 and 1 and penalties between 0 and 1, the composite of every
  judgement is a number between 0 and 100 + 1/64, for every input whose swarm confidence is a
  fraction: no combination of missing sub-scores divides by zero or leaves the scale by more than
  rounding.
\<close>

theorem composite_bounded:
  assumes "sane_config cfg" and "sane_confidence i"
  shows "fin_in 0 (100 + 1 / 64) (composite (oc_score (judge i cfg)))"
  using composite_of_in(1) [OF assms] by (simp add: judge_def judge_rated_def judge_unrated_def Let_def)

theorem composite_bounded_witness:
  "fin_in 0 (100 + 1 / 64) (composite (oc_score (judge healthy scoring_default)))"
  by (rule composite_bounded [OF sane_default healthy_confidence])

text \<open>
  Penalties only lower a rated composite: the swarm and serving penalties leave it at most the
  weighted mean of the sub-scores.
\<close>

theorem penalties_never_raise:
  assumes "sane_config cfg" and "sane_confidence i" and "is_rated i cfg"
  shows "fle (composite (oc_score (judge i cfg))) (raw_composite i cfg)"
  using composite_of_in(2) [OF assms(1,2)] assms(3) by (simp add: judge_def judge_rated_def Let_def)

theorem penalties_never_raise_witness:
  "fle (composite (oc_score (judge healthy scoring_default))) (raw_composite healthy scoring_default)"
  by (rule penalties_never_raise [OF sane_default healthy_confidence healthy_rated])

section \<open>More faults never help\<close>

lemma clamp01_mono: "fle a b \<Longrightarrow> fle (clamp01 a) (clamp01 b)"
  by (cases a; cases b) (auto simp: clamp01_def fmax_def fmin_def)

lemma complement100_anti: "fle a b \<Longrightarrow> fin_in 0 1 a \<Longrightarrow> fin_in 0 1 b \<Longrightarrow> fle (complement100 b) (complement100 a)"
  unfolding complement100_def
  using fmul_mono [of "fsub (Fin 1) b" "fsub (Fin 1) a" 100 0 1] fsub_anti [of a b 1] fsub1_in [of a] fsub1_in [of b]
  by (cases "fsub (Fin 1) a"; cases "fsub (Fin 1) b") (auto simp: mult.commute)

definition i64_range :: "int \<Rightarrow> bool" where
  "i64_range n \<longleftrightarrow> - (2 ^ 63) \<le> n \<and> n < 2 ^ 63"

lemma f_of_i64: "0 < n \<Longrightarrow> i64_range n \<Longrightarrow> fin_in 1 (2 ^ 63) (f_of_int n)"
proof -
  assume n: "0 < n" "i64_range n"
  then have "(of_int 1 :: rat) \<le> of_int n" "(of_int n :: rat) \<le> of_int (2 ^ 63)"
    unfolding i64_range_def by (simp_all only: of_int_le_iff, simp_all)
  moreover have "rnd (2 ^ 63) = 2 ^ 63"
    using rnd_grid [of 1 63] by (simp add: pow2_def)
  ultimately show ?thesis unfolding f_of_int_def by (intro F_in) simp_all
qed

lemma correctness_anti:
  assumes "i64_range (probes_answered i)" and "correctness_faults i \<le> m"
  shows "rel_option fle (correctness_score (i\<lparr>correctness_faults := m\<rparr>)) (correctness_score i)"
proof (cases "probes_answered i \<le> 0")
  case False
  with assms have "fin_in 1 (2 ^ 63) (f_of_int (probes_answered i))" by (intro f_of_i64) auto
  then obtain p where p: "f_of_int (probes_answered i) = Fin p" "1 \<le> p" by (rule fin_inE)
  show ?thesis using False p assms(2)
    by (auto simp: correctness_score_def Let_def intro!: complement100_anti clamp01_mono fdiv_mono f_of_int_mono)
qed (simp add: correctness_score_def)
definition part_le :: "f64 option \<times> f64 \<Rightarrow> f64 option \<times> f64 \<Rightarrow> bool" where
  "part_le p q \<longleftrightarrow> snd p = snd q \<and> rel_option fle (fst p) (fst q)"

lemma weigh_mono:
  "fle n' n \<Longrightarrow> list_all good_part ws \<Longrightarrow> list_all good_part ws' \<Longrightarrow> list_all2 part_le ws' ws \<Longrightarrow>
     fle (fst (weigh (n', d) ws')) (fst (weigh (n, d) ws)) \<and> snd (weigh (n', d) ws') = snd (weigh (n, d) ws)"
proof (induction "(n, d)" ws arbitrary: n d n' ws' rule: weigh.induct)
  case (2 num den v w rest)
  note P = "2.prems"
  obtain v' rest' where ws': "ws' = (Some v', w) # rest'" and le: "fle v' v"
    using P by (cases ws') (auto simp: part_le_def option_rel_Some2)
  have g: "fin_in 0 100 v" "fin_in 0 100 v'" "fin_in (1 / 32) 1 w"
    using P ws' by (auto simp: good_part_def)
  obtain z where z: "w = Fin z" "0 \<le> z" using g(3) by (cases w) auto
  have "fle (fmul v' w) (fmul v w)"
    unfolding z(1) using g le z(2) by (intro fmul_mono [of _ _ _ 0 100])
  moreover have "fin_in 0 100 (fmul v w)" "fin_in 0 100 (fmul v' w)"
    using g by (auto intro!: fmul01_in simp: rnd_numeral elim: fin_in_weaken)
  ultimately have "fle (fadd n' (fmul v' w)) (fadd num (fmul v w))"
    using P by (cases "fmul v w"; cases "fmul v' w") (auto intro: fadd_mono)
  then show ?case using "2.hyps" P ws' by simp
next
  case (3 num den w rest)
  then show ?case by (cases ws') (auto simp: part_le_def)
qed simp

lemma weighted_mean_mono:
  assumes "list_all good_part ws" and "list_all good_part ws'" and "list_all2 part_le ws' ws" and "length ws \<le> 4"
  shows "fle (weighted_mean ws') (weighted_mean ws)"
proof -
  have "cell_inv 0 0 (Fin 0, Fin 0)" by (simp add: cell_inv_def g20_def)
  then obtain A j where "cell_inv A j (weigh (Fin 0, Fin 0) ws)"
    using weigh_cells [of 0 0 "(Fin 0, Fin 0)" ws] assms(1,4) by auto
  then obtain q where q: "snd (weigh (Fin 0, Fin 0) ws) = Fin q"
    by (cases "snd (weigh (Fin 0, Fin 0) ws)") (auto simp: cell_inv_def)
  show ?thesis using weigh_mono [of "Fin 0" "Fin 0" ws ws' "Fin 0"] q assms(1-3)
    by (auto simp: weighted_mean_def fdiv_mono split: prod.splits)
qed

lemma faults_same [simp]:
  "availability_score (i\<lparr>correctness_faults := m\<rparr>) cfg = availability_score i cfg"
  "freshness_score (i\<lparr>correctness_faults := m\<rparr>) cfg = freshness_score i cfg"
  "coverage_score (i\<lparr>correctness_faults := m\<rparr>) cfg = coverage_score i cfg"
  "serving_broken_severity (i\<lparr>correctness_faults := m\<rparr>) cfg = serving_broken_severity i cfg"
  "is_sybil (i\<lparr>correctness_faults := m\<rparr>) = is_sybil i"
  by (simp_all add: availability_score_def availability_parts_def freshness_score_def coverage_score_def
      serving_broken_severity_def serving_broken_fraction_def is_sybil_def cong: option.case_cong)

lemma rated_same [simp]: "is_rated (i\<lparr>correctness_faults := m\<rparr>) cfg = is_rated i cfg"
  by (simp add: is_rated_def is_active_def is_measured_def correctness_score_def Let_def)

lemma rel_option_refl: "(\<And>s. x = Some s \<Longrightarrow> \<not> is_nan s) \<Longrightarrow> rel_option fle x x"
  by (cases x) (auto intro: fle_refl)

lemma raw_composite_anti:
  assumes "sane_config cfg" and "i64_range (probes_answered i)" and "correctness_faults i \<le> m"
  shows "fle (raw_composite (i\<lparr>correctness_faults := m\<rparr>) cfg) (raw_composite i cfg)"
proof -
  have gp: "list_all good_part
     [(correctness_score j, w_correctness cfg), (availability_score j cfg, w_availability cfg),
      (freshness_score j cfg, w_freshness cfg), (coverage_score j cfg, w_coverage cfg)]" for j
    using assms(1) by (auto simp: good_part_def sane_config_def sub_score_in split: option.splits)
  show ?thesis unfolding raw_composite_def
    using gp [of i] gp [of "i\<lparr>correctness_faults := m\<rparr>"] correctness_anti [OF assms(2,3)]
    by (intro weighted_mean_mono)
      (auto simp: part_le_def intro!: rel_option_refl dest!: sub_score_in(2-4) dest: fin_in_not_nan)
qed

lemma composite_of_anti:
  assumes "sane_config cfg" and "sane_confidence i" and "i64_range (probes_answered i)" and "correctness_faults i \<le> m"
  shows "fle (composite_of (i\<lparr>correctness_faults := m\<rparr>) cfg) (composite_of i cfg)"
proof -
  let ?i = "i\<lparr>correctness_faults := m\<rparr>" and ?h = "100 + 1 / 64 :: rat"
  have c: "sane_confidence ?i" using assms(2) by (simp add: sane_confidence_def)
  have ok: "f64_ok (raw_composite j cfg)" for j by (simp add: raw_composite_def weighted_mean_ok)
  note raw = raw_composite_in [OF assms(1)]
  note s = sybil_penalised_in [OF assms(1) _ raw ok, of ]
  have "fle (sybil_penalised ?i cfg (raw_composite ?i cfg)) (sybil_penalised i cfg (raw_composite i cfg))"
    using raw_composite_anti [OF assms(1,3,4)] sybil_factor_in [OF assms(1,2)] raw
    by (auto simp: sybil_penalised_def intro!: scale_mono [where h = ?h])
  moreover have "fin_in 0 ?h (sybil_penalised ?i cfg (raw_composite ?i cfg))"
    "fin_in 0 ?h (sybil_penalised i cfg (raw_composite i cfg))"
    using sybil_penalised_in(1) [OF assms(1) c raw ok] sybil_penalised_in(1) [OF assms(1,2) raw ok] by auto
  moreover have "fin_in 0 1 (fsub (F 1) (fmul v (serving_grade_penalty cfg)))"
    if "serving_broken_severity i cfg = Some v" for v
    using that assms(1) by (intro penalty_factor_in) (auto simp: severity_in sane_config_def)
  ultimately show ?thesis
    by (auto simp: composite_of_def serving_penalised_def split: option.splits intro!: scale_mono [where h = ?h])
qed

definition grade_rank :: "str \<Rightarrow> nat" where
  "grade_rank g = (if g = ''A'' then 5 else if g = ''B'' then 4 else if g = ''C'' then 3
     else if g = ''D'' then 2 else if g = ''F'' then 1 else 0)"

lemma grade_for_mono: "fle c d \<Longrightarrow> grade_rank (grade_for c cfg) \<le> grade_rank (grade_for d cfg)"
  unfolding grade_rank_def grade_for_def using fle_trans [of _ c d] by auto

text \<open>
  C4. Where weights lie between 1/32 and 1 and penalties between 0 and 1, more faults never help: for every input
  whose swarm confidence is a fraction and whose count of answered probes is a 64-bit integer, raising the fault
  count, everything else equal, leaves the indexer rated or unrated as it was, never raises its composite
  (rounding included) and never improves its grade. The configuration is read without a check of its ranges; the
  defaults are within them.
\<close>

theorem more_faults_never_help:
  assumes "sane_config cfg" and "sane_confidence i" and "i64_range (probes_answered i)"
    and "correctness_faults i \<le> m" and "r = oc_score (judge i cfg)"
    and "r' = oc_score (judge (i\<lparr>correctness_faults := m\<rparr>) cfg)"
  shows "rated r' = rated r \<and> fle (composite r') (composite r) \<and> grade_rank (grade r') \<le> grade_rank (grade r)"
  using composite_of_anti [OF assms(1-4)] grade_for_mono [of _ _ cfg] assms(5,6)
  by (auto simp: judge_def judge_rated_def judge_unrated_def Let_def)

theorem more_faults_never_help_witness:
  "fle (composite (oc_score (judge (healthy\<lparr>correctness_faults := 20\<rparr>) scoring_default)))
       (composite (oc_score (judge healthy scoring_default)))"
proof -
  have "i64_range (probes_answered healthy)" and "correctness_faults healthy \<le> 20"
    by (simp_all add: healthy_def i64_range_def)
  then show ?thesis
    using more_faults_never_help [OF sane_default healthy_confidence _ _ refl refl] by blast
qed

section \<open>The unrated branch\<close>

text \<open>
  An indexer that answered no probe, was never observed, has too few measured deployments and
  no measured lag is not graded, whatever its coverage, stake or oracle figures: grade NR,
  composite zero, nothing in the attention list, and only structural verdicts.
\<close>

theorem unrated_outcome:
  assumes "\<not> (0 < probes_answered i \<or> 0 < total_observations i
       \<or> serving_min_deployments cfg \<le> qos_deployments_measured i \<or> measured_blocks_behind i \<noteq> None)"
  shows "grade (oc_score (judge i cfg)) = ''NR'' \<and> composite (oc_score (judge i cfg)) = F 0
     \<and> \<not> rated (oc_score (judge i cfg)) \<and> oc_attention (judge i cfg) = []
     \<and> vd_kind ` set (oc_verdicts (judge i cfg)) \<subseteq> set STRUCTURAL_VERDICTS"
proof -
  have "\<not> is_rated i cfg" using assms
    by (simp add: is_rated_def is_measured_def correctness_score_def availability_score_def
        availability_parts_def freshness_score_def serving_broken_fraction_def Let_def)
  then show ?thesis by (auto simp: judge_def judge_unrated_def)
qed


theorem unrated_outcome_witness:
  "grade (oc_score (judge (healthy\<lparr>probes_answered := 0, total_observations := 0,
     measured_blocks_behind := None\<rparr>) scoring_default)) = ''NR''"
  using unrated_outcome [of "healthy\<lparr>probes_answered := 0, total_observations := 0,
     measured_blocks_behind := None\<rparr>" scoring_default]
  by (simp add: healthy_def scoring_default_def)

section \<open>The stale oracle is not an input\<close>

lemma oracle_indep [simp]:
  "correctness_score (i\<lparr>qos_success_rate := a, qos_blocks_behind := b, qos_query_count := c\<rparr>) = correctness_score i"
  "availability_score (i\<lparr>qos_success_rate := a, qos_blocks_behind := b, qos_query_count := c\<rparr>) cfg = availability_score i cfg"
  "freshness_score (i\<lparr>qos_success_rate := a, qos_blocks_behind := b, qos_query_count := c\<rparr>) cfg = freshness_score i cfg"
  "coverage_score (i\<lparr>qos_success_rate := a, qos_blocks_behind := b, qos_query_count := c\<rparr>) cfg = coverage_score i cfg"
  "serving_broken_severity (i\<lparr>qos_success_rate := a, qos_blocks_behind := b, qos_query_count := c\<rparr>) cfg = serving_broken_severity i cfg"
  "is_sybil (i\<lparr>qos_success_rate := a, qos_blocks_behind := b, qos_query_count := c\<rparr>) = is_sybil i"
  "sybil_confidence (i\<lparr>qos_success_rate := a, qos_blocks_behind := b, qos_query_count := c\<rparr>) = sybil_confidence i"
  by (simp_all add: correctness_score_def availability_score_def availability_parts_def freshness_score_def coverage_score_def
      serving_broken_severity_def serving_broken_fraction_def is_sybil_def cong: option.case_cong)

text \<open>
  The canonical oracle's figures do not enter the composite: success rate, chainhead lag and
  query count can be anything without changing it.
\<close>

theorem oracle_feed_not_scored:
  "composite_of (i\<lparr>qos_success_rate := a, qos_blocks_behind := b, qos_query_count := c\<rparr>) cfg = composite_of i cfg"
  by (simp add: composite_of_def raw_composite_def sybil_penalised_def serving_penalised_def
      cong: option.case_cong)

text \<open>
  The oracle's chainhead lag changes nothing at all in the judgement: score, reasons, verdicts
  and attention items are the same.
\<close>

theorem oracle_lag_ignored: "judge (i\<lparr>qos_blocks_behind := b\<rparr>) cfg = judge i cfg"
proof -
  note ds = correctness_score_def availability_score_def availability_parts_def freshness_score_def coverage_score_def
      serving_broken_severity_def serving_broken_fraction_def is_sybil_def 
  have 1: "correctness_score (i\<lparr>qos_blocks_behind := b\<rparr>) = correctness_score i"
  "availability_score (i\<lparr>qos_blocks_behind := b\<rparr>) cfg = availability_score i cfg"
  "freshness_score (i\<lparr>qos_blocks_behind := b\<rparr>) cfg = freshness_score i cfg"
  "coverage_score (i\<lparr>qos_blocks_behind := b\<rparr>) cfg = coverage_score i cfg"
  "serving_broken_severity (i\<lparr>qos_blocks_behind := b\<rparr>) cfg = serving_broken_severity i cfg"
  "serving_broken_fraction (i\<lparr>qos_blocks_behind := b\<rparr>) cfg = serving_broken_fraction i cfg"
  "is_sybil (i\<lparr>qos_blocks_behind := b\<rparr>) = is_sybil i" by (simp_all add: ds)
  have 2: "fault_rate (i\<lparr>qos_blocks_behind := b\<rparr>) = fault_rate i"
    "recent_error_rate (i\<lparr>qos_blocks_behind := b\<rparr>) = recent_error_rate i"
   "qos_failing (i\<lparr>qos_blocks_behind := b\<rparr>) cfg = qos_failing i cfg"
   "is_behind (i\<lparr>qos_blocks_behind := b\<rparr>) cfg = is_behind i cfg"
   "is_leech (i\<lparr>qos_blocks_behind := b\<rparr>) cfg = is_leech i cfg"
   "is_active (i\<lparr>qos_blocks_behind := b\<rparr>) = is_active i"
   by (simp_all add: fault_rate_def recent_error_rate_def qos_failing_def is_behind_def is_leech_def is_active_def)
  have 3: "is_serving_bad_data (i\<lparr>qos_blocks_behind := b\<rparr>) cfg = is_serving_bad_data i cfg"
    "is_serving_no_data (i\<lparr>qos_blocks_behind := b\<rparr>) cfg = is_serving_no_data i cfg"
    "is_rated (i\<lparr>qos_blocks_behind := b\<rparr>) cfg = is_rated i cfg"
    "is_dispute (i\<lparr>qos_blocks_behind := b\<rparr>) cfg = is_dispute i cfg"
    "composite_of (i\<lparr>qos_blocks_behind := b\<rparr>) cfg = composite_of i cfg"
    by (simp_all add: 1 2 is_serving_bad_data_def is_serving_no_data_def is_rated_def is_measured_def is_dispute_def
      composite_of_def raw_composite_def sybil_penalised_def serving_penalised_def cong: option.case_cong)
  have 4: "mk_verdict (i\<lparr>qos_blocks_behind := b\<rparr>) = mk_verdict i"
    "mk_attention (i\<lparr>qos_blocks_behind := b\<rparr>) = mk_attention i" by (intro ext, simp add: mk_verdict_def mk_attention_def)+
  have "derive_verdicts (i\<lparr>qos_blocks_behind := b\<rparr>) cfg s = derive_verdicts i cfg s" for s
    by (simp add: derive_verdicts_def 1 2 3 4 reo_failing_def cong: if_cong option.case_cong)
  moreover have "derive_attention (i\<lparr>qos_blocks_behind := b\<rparr>) cfg = derive_attention i cfg"
    by (simp add: derive_attention_def 1 2 3 4 cong: if_cong)
  moreover have "build_reasons (i\<lparr>qos_blocks_behind := b\<rparr>) cfg = build_reasons i cfg"
    by (intro ext, simp add: build_reasons_def 1 2 3 4 cong: if_cong option.case_cong)
  moreover have "unrated_reason (i\<lparr>qos_blocks_behind := b\<rparr>) cfg = unrated_reason i cfg"
    by (simp add: unrated_reason_def 2)
  ultimately show ?thesis
    by (simp add: judge_def judge_rated_def judge_unrated_def 1 2 3 4 Let_def)
qed

section \<open>Verdicts and attention\<close>

definition verdict_table :: "score_inputs \<Rightarrow> scoring_config \<Rightarrow> f64 \<Rightarrow> (bool \<times> str) list" where
  "verdict_table i cfg score = 
    [(is_serving_bad_data i cfg, ''serving-bad-data''),
     (is_serving_bad_data i cfg \<and> is_dispute i cfg, ''dispute-candidate''),
     (is_serving_no_data i cfg, ''serving-no-data''),
     (is_behind i cfg, ''behind-chainhead''),
     (case allocation_count i of Some n \<Rightarrow> n < low_coverage_subgraphs cfg | None \<Rightarrow> False, ''low-coverage''),
     (is_leech i cfg, ''leech''),
     (reo_status i = Some ''eligible'' \<and>
       (flt score (grade_d cfg) \<or> is_serving_bad_data i cfg \<or> is_serving_no_data i cfg \<or> is_leech i cfg),
      ''reo-ineligible-candidate''),
     (is_sybil i, ''sybil-swarm-member'')]"

definition listed :: "(bool \<times> 'a) list \<Rightarrow> 'a list" where
  "listed ps = map snd (filter fst ps)"

lemma listed_Cons: "listed ((c, k) # ps) = (if c then [k] else []) @ listed ps" and listed_Nil: "listed [] = []"
  by (simp_all add: listed_def)

lemma kind_mk [simp]: "vd_kind (mk_verdict i k s t e) = k" by (simp add: mk_verdict_def)

lemma map_if: "map f (if c then xs else ys) = (if c then map f xs else map f ys)" by simp

lemma derive_kinds: "map vd_kind (derive_verdicts i cfg s) = listed (verdict_table i cfg s)"
proof -
  have r: "reo_failing i cfg s \<noteq> [] \<longleftrightarrow> flt s (grade_d cfg) \<or> is_serving_bad_data i cfg \<or> is_serving_no_data i cfg \<or> is_leech i cfg"
    by (simp add: reo_failing_def)
  have bad: "(if c then x # (if d then [y] else []) else []) =
      (if c then [x] else []) @ (if c \<and> d then [y] else [])" for c d and x y :: str
    by simp
  have cov: "map vd_kind (case m of Some n \<Rightarrow> if n < l then [mk_verdict i k s (t n) (e n)] else [] | None \<Rightarrow> [])
      = (if (case m of Some n \<Rightarrow> n < l | None \<Rightarrow> False) then [k] else [])" for m :: "int option" and l k s t e
    by (simp split: option.split)
  show ?thesis unfolding derive_verdicts_def verdict_table_def map_append r cov map_if list.map kind_mk bad
    by (simp only: listed_Cons listed_Nil append_Nil2 append_assoc)
qed

text \<open>
  The verdicts are exactly those whose conditions hold, in one order, each kind once; an
  unrated indexer keeps only the structural ones.
\<close>

theorem verdicts_exact:
  "map vd_kind (oc_verdicts (judge i cfg)) =
     (if is_rated i cfg then listed (verdict_table i cfg (composite_of i cfg))
      else filter (\<lambda>k. k \<in> set STRUCTURAL_VERDICTS) (listed (verdict_table i cfg (F 0))))"
  by (simp add: judge_def judge_rated_def judge_unrated_def Let_def filter_map comp_def flip: derive_kinds)

text \<open>
  Nothing urgent without a verdict: every attention item of a judgement has a verdict of the
  same kind, severity and indexer beside it.
\<close>

theorem attention_has_verdict:
  "(\<lambda>a. (at_kind a, at_severity a, at_indexer_address a)) ` set (oc_attention (judge i cfg))
     \<subseteq> (\<lambda>v. (vd_kind v, vd_severity v, vd_indexer_address v)) ` set (oc_verdicts (judge i cfg))"
proof -
  let ?v = "\<lambda>v. (vd_kind v, vd_severity v, vd_indexer_address v)"
  have "is_serving_no_data i cfg \<Longrightarrow> (''serving-no-data'', Critical, si_indexer_address i) \<in> ?v ` set (derive_verdicts i cfg s)"
    "is_serving_bad_data i cfg \<Longrightarrow> (''serving-bad-data'', Critical, si_indexer_address i) \<in> ?v ` set (derive_verdicts i cfg s)"
    "is_behind i cfg \<Longrightarrow> (''behind-chainhead'', High, si_indexer_address i) \<in> ?v ` set (derive_verdicts i cfg s)" for s
    by (simp_all add: derive_verdicts_def mk_verdict_def image_Un)
  then show ?thesis
    by (auto simp: judge_def judge_rated_def judge_unrated_def Let_def derive_attention_def mk_attention_def)
qed

section \<open>Rounding at the top of the scale\<close>

lemma healthy_parts:
  "correctness_score healthy = Some (Fin 100)" "availability_score healthy scoring_default = Some (Fin 100)"
  "freshness_score healthy scoring_default = Some (Fin 100)"
  "coverage_score healthy scoring_default = Some (Fin 100)"
  by code_simp+

lemma healthy_mean: "weighted_mean [(Some (Fin 100), F (40 / 100)), (Some (Fin 100), F (30 / 100)),
    (Some (Fin 100), F (20 / 100)), (Some (Fin 100), F (10 / 100))]
  = Fin (7036874417766401 / 70368744177664)"
  by code_simp

lemma healthy_composite: "composite_of healthy scoring_default = Fin (7036874417766401 / 70368744177664)"
proof -
  have "\<not> is_sybil healthy" and "serving_broken_severity healthy scoring_default = None"
    by (simp_all add: is_sybil_def serving_broken_severity_def serving_broken_fraction_def healthy_def
        scoring_default_def)
  moreover have "raw_composite healthy scoring_default = Fin (7036874417766401 / 70368744177664)"
    unfolding raw_composite_def healthy_parts using healthy_mean by (simp add: scoring_default_def)
  ultimately show ?thesis by (simp add: composite_of_def sybil_penalised_def serving_penalised_def)
qed

text \<open>
  The composite is documented as 0 to 100; the rounded weighted mean of four perfect
  sub-scores under the default weights is the next binary64 number above 100.
\<close>

theorem perfect_composite_exceeds_100:
  "flt (F 100) (composite (oc_score (judge healthy scoring_default)))"
  by (simp add: judge_def judge_rated_def Let_def healthy_rated healthy_composite)

end
