(* ===== verification/Numbers.thy ===== *)
theory Numbers
  imports Prelude
begin

text \<open>
  The number parsing and printing of the Rust standard library the source uses: \<open>str::parse\<close> of
  integers and of \<open>f64\<close>, and \<open>f64::to_string\<close>, the shortest decimal that reads back as the same
  number. The round trip is what the alert state, stored as text, relies on.
\<close>

section \<open>Integers\<close>

definition split_sign :: "str \<Rightarrow> bool \<times> str" where
  "split_sign s = (case s of
      c # r \<Rightarrow> if c = CHR ''-'' then (True, r) else if c = CHR ''+'' then (False, r) else (False, s)
    | [] \<Rightarrow> (False, []))"

definition parse_i64 :: "str \<Rightarrow> int option" where
  "parse_i64 s = (let (neg, r) = split_sign s in
     case parse_nat r of
       None \<Rightarrow> None
     | Some n \<Rightarrow> let v = (if neg then - int n else int n) in
         if - (2 ^ 63) \<le> v \<and> v < 2 ^ 63 then Some v else None)"

text \<open>\<open>parse\<close> of an unsigned type with a largest value.\<close>

definition parse_unsigned :: "nat \<Rightarrow> str \<Rightarrow> nat option" where
  "parse_unsigned mx s = (let (neg, r) = split_sign s in
     if neg then None else case parse_nat r of
       None \<Rightarrow> None | Some n \<Rightarrow> if n \<le> mx then Some n else None)"

lemma digit_not_sign: "is_ascii_digit c \<Longrightarrow> c \<noteq> CHR ''-'' \<and> c \<noteq> CHR ''+'' \<and> c \<noteq> CHR ''.''"
  by (auto simp: is_ascii_digit_def less_eq_char_def)

lemma show_nat_Cons: "\<exists>c r. show_nat n = c # r \<and> is_ascii_digit c"
  using show_nat_nonempty [of n] show_nat_digits [of n] by (cases "show_nat n") auto

lemma split_sign_show_nat [simp]: "split_sign (show_nat n) = (False, show_nat n)"
  using show_nat_Cons [of n] digit_not_sign by (fastforce simp: split_sign_def)

lemma parse_show_i64 [simp]: "- (2 ^ 63) \<le> n \<Longrightarrow> n < 2 ^ 63 \<Longrightarrow> parse_i64 (show_int n) = Some n"
  by (auto simp: parse_i64_def show_int_def split_sign_def [of "CHR ''-'' # _"] Let_def)

section \<open>Reading a float\<close>

definition parse_exponent :: "str \<Rightarrow> int option" where
  "parse_exponent s = (case s of
      [] \<Rightarrow> Some 0
    | c # t \<Rightarrow> if c = CHR ''e'' \<or> c = CHR ''E''
        then let (neg, r) = split_sign t in
          map_option (\<lambda>n. if neg then - int n else int n) (parse_nat r)
        else None)"

definition ten :: "int \<Rightarrow> rat" where
  "ten k = 10 powi k"

definition with_sign :: "bool \<Rightarrow> rat \<Rightarrow> rat" where
  "with_sign neg x = (if neg then - x else x)"

definition parse_f64 :: "str \<Rightarrow> f64 option" where
  "parse_f64 s =
     (let (neg, r) = split_sign s; l = to_lower r in
      if l = ''inf'' \<or> l = ''infinity'' then Some (Infty (\<not> neg))
      else if l = ''nan'' then Some NaN
      else
        let ip = takeWhile is_ascii_digit r;
            r1 = dropWhile is_ascii_digit r;
            (fp, r2) = (case r1 of
                c # t \<Rightarrow> if c = CHR ''.'' then (takeWhile is_ascii_digit t, dropWhile is_ascii_digit t)
                         else ([], r1)
              | [] \<Rightarrow> ([], [])) in
        case (parse_nat (ip @ fp), parse_exponent r2) of
          (Some n, Some e) \<Rightarrow> Some (F (with_sign neg (of_nat n * ten (e - int (length fp)))))
        | _ \<Rightarrow> None)"

section \<open>Printing a float\<close>

text \<open>The decimal \<open>n * 10 ^ k\<close> without an exponent.\<close>

definition show_decimal :: "nat \<Rightarrow> int \<Rightarrow> str" where
  "show_decimal n k =
     (if 0 \<le> k then show_nat (n * 10 ^ nat k)
      else let m = nat (- k) in show_nat (n div 10 ^ m) @ CHR ''.'' # fmt_frac m (n mod 10 ^ m))"

text \<open>The candidates at one power of ten, nearest first; the first power, going down, at which one
  of them reads back as \<open>x\<close>. Seventeen digits always suffice, so the last clause, the exact
  expansion of a number on the subnormal grid, is only a total answer.\<close>

definition candidates :: "rat \<Rightarrow> int \<Rightarrow> nat list" where
  "candidates x k = (let y = x / ten k; lo = floor y in
     if y - of_int lo \<le> 1 / 2 then [nat lo, nat lo + 1] else [nat lo + 1, nat lo])"

fun shortest :: "nat \<Rightarrow> int \<Rightarrow> rat \<Rightarrow> nat \<times> int" where
  "shortest 0 k x = (nat (floor (x / ten (- 1074))), - 1074)"
| "shortest (Suc fuel) k x =
     (case find (\<lambda>n. F (of_nat n * ten k) = Fin x) (candidates x k) of
        Some n \<Rightarrow> (n, k)
      | None \<Rightarrow> shortest fuel (k - 1) x)"

definition top_power :: "rat \<Rightarrow> int" where
  "top_power x = (let l = flog2 x + 1 in (if 0 \<le> l then l * 31 else l * 30) div 100 + 1)"

fun show_f64 :: "f64 \<Rightarrow> str" where
  "show_f64 NaN = ''NaN''"
| "show_f64 (Infty s) = (if s then ''inf'' else ''-inf'')"
| "show_f64 (Fin x) =
     (if x = 0 then ''0''
      else let (n, k) = shortest 24 (top_power \<bar>x\<bar>) \<bar>x\<bar> in
        (if x < 0 then ''-'' else '''') @ show_decimal n k)"

section \<open>The round trip\<close>

lemma ten_0 [simp]: "ten 0 = 1"
  by (simp add: ten_def)

lemma ten_nonneg: "0 \<le> k \<Longrightarrow> ten k = of_nat (10 ^ nat k)"
  by (simp add: ten_def power_int_def)

lemma ten_neg: "k < 0 \<Longrightarrow> ten k = 1 / of_nat (10 ^ nat (- k))"
  by (simp add: ten_def power_int_def inverse_eq_divide power_one_over)

lemma takeWhile_digits: "\<forall>c \<in> set s. is_ascii_digit c \<Longrightarrow>
    takeWhile is_ascii_digit (s @ t) = s @ takeWhile is_ascii_digit t
    \<and> dropWhile is_ascii_digit (s @ t) = dropWhile is_ascii_digit t"
  by (induction s) auto

lemma nat_of_digits_zeros: "nat_of_digits acc (replicate j (CHR ''0'') @ s) = nat_of_digits (acc * 10 ^ j) s"
  by (induction j arbitrary: acc) (simp_all add: is_ascii_digit_def mult.assoc mult.left_commute)

lemma nat_of_digits_acc: "nat_of_digits 0 s = Some n \<Longrightarrow> nat_of_digits acc s = Some (acc * 10 ^ length s + n)"
proof (induction s arbitrary: acc n rule: rev_induct)
  case (snoc c s)
  then obtain m where m: "nat_of_digits 0 s = Some m" "is_ascii_digit c" "n = 10 * m + (of_char c - 48)"
    by (auto simp: nat_of_digits_append split: option.splits if_splits)
  then show ?case using snoc.IH [OF m(1)] by (simp add: nat_of_digits_append algebra_simps)
qed simp

lemma show_nat_length: "n < 10 ^ m \<Longrightarrow> 0 < m \<Longrightarrow> length (show_nat n) \<le> m"
proof (induction n arbitrary: m rule: show_nat.induct)
  case (1 n)
  show ?case
  proof (cases "n < 10")
    case True
    then show ?thesis using 1(3) by (subst show_nat.simps) simp
  next
    case False
    then obtain j where m: "m = Suc (Suc j)" using 1(2,3)
      by (cases m; cases "m - 1") auto
    have "n div 10 < 10 ^ Suc j" using 1(2) m by (simp add: less_mult_imp_div_less mult.commute)
    then show ?thesis using 1(1) [OF False, of "Suc j"] False m by (subst show_nat.simps) simp
  qed
qed

lemma fmt_frac_length: "n < 10 ^ m \<Longrightarrow> 0 < m \<Longrightarrow> length (fmt_frac m n) = m"
  using show_nat_length [of n m] by (simp add: fmt_frac_def Let_def)

lemma fmt_frac_digits: "\<forall>c \<in> set (fmt_frac m n). is_ascii_digit c"
  using show_nat_digits [of n] by (auto simp: fmt_frac_def Let_def is_ascii_digit_def less_eq_char_def)

lemma fmt_frac_value: "nat_of_digits acc (fmt_frac m n) = Some (acc * 10 ^ length (fmt_frac m n) + n)"
  using nat_of_digits_acc [OF nat_of_digits_show [of n]]
  by (simp add: fmt_frac_def Let_def nat_of_digits_zeros power_add mult.assoc)

lemma word_not_number: "is_ascii_digit c \<Longrightarrow> to_lower (c # s) \<notin> {''inf'', ''infinity'', ''nan''}"
  by (auto simp: to_lower_def char_lower_def is_ascii_digit_def less_eq_char_def)

lemma parse_show_decimal:
  "parse_f64 (show_decimal n k) = Some (F (of_nat n * ten k))
   \<and> parse_f64 (CHR ''-'' # show_decimal n k) = Some (F (- (of_nat n * ten k)))"
proof -
  obtain ip fp where sd: "show_decimal n k = ip @ fp" "ip = show_nat (if 0 \<le> k then n * 10 ^ nat k else n div 10 ^ nat (- k))"
      "fp = (if 0 \<le> k then [] else CHR ''.'' # fmt_frac (nat (- k)) (n mod 10 ^ nat (- k)))"
    by (auto simp: show_decimal_def Let_def)
  obtain c r where c: "ip = c # r" "is_ascii_digit c" using show_nat_Cons sd(2) by metis
  have ipd: "\<forall>c \<in> set ip. is_ascii_digit c" using show_nat_digits sd(2) by metis
  have low: "to_lower (ip @ fp) \<notin> {''inf'', ''infinity'', ''nan''}"
    using word_not_number [OF c(2), of "r @ fp"] c(1) by simp
  have sgn: "split_sign (ip @ fp) = (False, ip @ fp)" "split_sign (CHR ''-'' # ip @ fp) = (True, ip @ fp)"
    using c digit_not_sign by (auto simp: split_sign_def)
  show ?thesis
  proof (cases "0 \<le> k")
    case True
    then have f: "fp = []" and p: "parse_nat ip = Some (n * 10 ^ nat k)" using sd by simp_all
    have t: "takeWhile is_ascii_digit ip = ip" "dropWhile is_ascii_digit ip = []"
      using takeWhile_digits [OF ipd, of "[]"] by simp_all
    show ?thesis using low sgn True f p
      by (simp add: parse_f64_def sd(1) Let_def parse_exponent_def with_sign_def ten_nonneg t)
  next
    case False
    define m where "m = nat (- k)"
    have m: "0 < m" "k = - int m" using False by (auto simp: m_def)
    let ?q = "n mod 10 ^ m"
    have fp: "fp = CHR ''.'' # fmt_frac m ?q" using False sd(3) m_def by simp
    have len: "length (fmt_frac m ?q) = m" using m by (intro fmt_frac_length) simp_all
    have t: "takeWhile is_ascii_digit (ip @ fp) = ip" "dropWhile is_ascii_digit (ip @ fp) = fp"
      using takeWhile_digits [OF ipd, of fp] fp by (simp_all add: is_ascii_digit_def less_eq_char_def)
    have u: "takeWhile is_ascii_digit (fmt_frac m ?q) = fmt_frac m ?q"
        "dropWhile is_ascii_digit (fmt_frac m ?q) = []"
      using takeWhile_digits [OF fmt_frac_digits, of m ?q "[]"] by simp_all
    have "nat_of_digits 0 (ip @ fmt_frac m ?q) = Some (n div 10 ^ m * 10 ^ m + ?q)"
      using False m_def sd(2) len by (simp add: nat_of_digits_append nat_of_digits_show fmt_frac_value)
    also have "n div 10 ^ m * 10 ^ m + ?q = n" by (rule div_mult_mod_eq)
    finally have p: "parse_nat (ip @ fmt_frac m ?q) = Some n" using c(1) by (simp add: parse_nat_def)
    have sd': "show_decimal n (- int m) = ip @ CHR ''.'' # fmt_frac m ?q" using sd(1) fp m(2) by simp
    show ?thesis using low sgn p len unfolding m(2)
      by (simp add: parse_f64_def sd' Let_def parse_exponent_def with_sign_def t [unfolded fp] u fp)
  qed
qed

lemma grid_integral:
  assumes "x = of_int m * pow2 e" and "- int g \<le> e" and "0 < x"
  shows "of_nat (nat (floor (x / ten (- int g)))) * ten (- int g) = x"
proof -
  have "pow2 e = of_int (2 ^ nat (e + int g)) * pow2 (- int g)" using pow2_split [of "- int g" e] assms(2) by simp
  then have "x = of_int (m * 2 ^ nat (e + int g)) / 2 ^ g" using assms(1) by (simp add: pow2_uminus)
  moreover have t: "ten (- int g) = 1 / 10 ^ g" by (simp add: ten_def power_int_def inverse_eq_divide power_one_over)
  ultimately have "x / ten (- int g) = of_int (m * 2 ^ nat (e + int g)) * (10 ^ g / 2 ^ g)" by simp
  also have "(10 ^ g / 2 ^ g :: rat) = (10 / 2) ^ g" by (simp only: power_divide)
  also have "\<dots> = of_int (5 ^ g)" by simp
  finally obtain i :: int where i: "x / ten (- int g) = of_int i" by (metis of_int_mult)
  have "0 < x / ten (- int g)" using assms(3) t by simp
  then have "0 < i" using i by simp
  then have "of_nat (nat (floor (x / ten (- int g)))) = x / ten (- int g)" using i by simp
  then show ?thesis using t by simp
qed

lemma shortest_exact:
  assumes "f64_ok (Fin x)" and "0 < x" and "shortest fuel k x = (n, j)"
  shows "F (of_nat n * ten j) = Fin x"
  using assms(3)
proof (induction fuel arbitrary: k)
  case 0
  have F: "F x = Fin x" using assms(1) by (auto simp: F_def Let_def)
  obtain m e where x: "x = of_int m * pow2 e" "- int 1074 \<le> e"
    using rnd_on_grid [of x] assms(1) by auto
  have "n = nat (floor (x / ten (- int 1074)))" "j = - int 1074" using 0 by auto
  then have "of_nat n * ten j = x" using grid_integral [OF x assms(2)] by (simp only:)
  then show ?case using F by simp
next
  case (Suc fuel)
  then show ?case by (auto split: option.splits simp: find_Some_iff)
qed

theorem parse_show_f64: "f64_ok a \<Longrightarrow> parse_f64 (show_f64 a) = Some a"
proof (cases a)
  case (Fin x)
  assume ok: "f64_ok a"
  obtain n k where s: "shortest 24 (top_power \<bar>x\<bar>) \<bar>x\<bar> = (n, k)" by force
  show ?thesis
  proof (cases "x = 0")
    case False
    have ok': "f64_ok (Fin \<bar>x\<bar>)" using ok Fin rnd_uminus [of x] by (cases "0 \<le> x") auto
    have e: "F (of_nat n * ten k) = Fin \<bar>x\<bar>" using shortest_exact [OF ok' _ s] False by simp
    then have "F (- (of_nat n * ten k)) = Fin (- \<bar>x\<bar>)"
      using pow2_pos [of 1024] by (auto simp: F_def Let_def rnd_uminus split: if_splits)
    then show ?thesis using Fin False s e parse_show_decimal [of n k] by (auto simp: Let_def)
  next
    case True
    have "show_decimal 0 0 = ''0''" by code_simp
    then have "parse_f64 ''0'' = Some (F 0)" using parse_show_decimal [of 0 0] by simp
    then show ?thesis using Fin True by simp
  qed
next
  case (Infty s)
  have "parse_f64 ''inf'' = Some (Infty True)" "parse_f64 ''-inf'' = Some (Infty False)" by code_simp+
  then show ?thesis using Infty by simp
next
  case NaN
  have "parse_f64 ''NaN'' = Some NaN" by code_simp
  then show ?thesis using NaN by simp
qed

end
