(* ===== verification/Normalize.thy ===== *)
theory Normalize
  imports Prelude "HOL-Library.Multiset"
begin

text \<open>
  Response canonicalisation, \<open>foghorn-core/src/normalize.rs\<close>, and deployment ids,
  \<open>foghorn-core/src/deployment.rs\<close>. Text of a JSON string and of a float, the digest (SHA-256 in
  hexadecimal), the JSON parser and base58 are not repository code: they are the arguments \<open>qs\<close>,
  \<open>sf\<close>, \<open>digest\<close>, \<open>parse\<close>, \<open>unhex\<close> and \<open>b58\<close>. A JSON object is the insertion-ordered list of
  its entries, and its \<open>remove\<close> moves the last entry into the gap, as the map type the source
  builds with does.
\<close>

section \<open>Volatile fields\<close>

fun swap_remove :: "str \<Rightarrow> (str \<times> 'a) list \<Rightarrow> (str \<times> 'a) list" where
  "swap_remove k [] = []"
| "swap_remove k ((k', v) # t) =
     (if k = k' then (if t = [] then [] else last t # butlast t) else (k', v) # swap_remove k t)"

definition strip_data :: "json \<Rightarrow> json" where
  "strip_data v = (case v of JObj data \<Rightarrow> JObj (swap_remove ''_meta'' data) | other \<Rightarrow> other)"

fun strip_volatile :: "json \<Rightarrow> json" where
  "strip_volatile (JObj m) =
     (let m = swap_remove ''headers'' (swap_remove ''extensions'' m)
      in JObj (map (\<lambda>(k, v). (k, if k = ''data'' then strip_data v else v)) m))"
| "strip_volatile other = other"

section \<open>Canonical text\<close>

text \<open>Collecting into a \<open>BTreeMap\<close>: sorted by key, a repeated key keeps the later value.\<close>

fun bt_insert :: "str \<Rightarrow> 'a \<Rightarrow> (str \<times> 'a) list \<Rightarrow> (str \<times> 'a) list" where
  "bt_insert k v [] = [(k, v)]"
| "bt_insert k v ((k', v') # t) =
     (if k < k' then (k, v) # (k', v') # t
      else if k = k' then (k, v) # t
      else (k', v') # bt_insert k v t)"

definition btree :: "(str \<times> 'a) list \<Rightarrow> (str \<times> 'a) list" where
  "btree m = fold (\<lambda>(k, v). bt_insert k v) m []"

fun jnum_text :: "(f64 \<Rightarrow> str) \<Rightarrow> jnum \<Rightarrow> str" where
  "jnum_text sf (NInt n) = show_int n"
| "jnum_text sf (NFloat x) = sf x"

definition entry_text :: "(str \<Rightarrow> str) \<Rightarrow> str \<times> str \<Rightarrow> str" where
  "entry_text qs e = qs (fst e) @ '':'' @ snd e"

primrec jcs_text :: "(str \<Rightarrow> str) \<Rightarrow> (f64 \<Rightarrow> str) \<Rightarrow> json \<Rightarrow> str" where
  "jcs_text qs sf JNull = ''null''"
| "jcs_text qs sf (JBool b) = (if b then ''true'' else ''false'')"
| "jcs_text qs sf (JNum n) = jnum_text sf n"
| "jcs_text qs sf (JStr s) = qs s"
| "jcs_text qs sf (JArr xs) = ''['' @ join '','' (map (jcs_text qs sf) xs) @ '']''"
| "jcs_text qs sf (JObj m) =
     ''{'' @ join '','' (map (entry_text qs) (btree (map (map_prod id (jcs_text qs sf)) m))) @ ''}''"

text \<open>The assertion on numbers: a NaN or an infinity anywhere panics.\<close>

fun finite_num :: "jnum \<Rightarrow> bool" where
  "finite_num (NFloat (Fin _)) \<longleftrightarrow> True"
| "finite_num (NFloat _) \<longleftrightarrow> False"
| "finite_num (NInt _) \<longleftrightarrow> True"

primrec jcs_ok :: "json \<Rightarrow> bool" where
  "jcs_ok JNull \<longleftrightarrow> True"
| "jcs_ok (JBool b) \<longleftrightarrow> True"
| "jcs_ok (JNum n) \<longleftrightarrow> finite_num n"
| "jcs_ok (JStr s) \<longleftrightarrow> True"
| "jcs_ok (JArr xs) \<longleftrightarrow> list_all id (map jcs_ok xs)"
| "jcs_ok (JObj m) \<longleftrightarrow> list_all snd (btree (map (map_prod id jcs_ok) m))"

definition jcs_serialize :: "(str \<Rightarrow> str) \<Rightarrow> (f64 \<Rightarrow> str) \<Rightarrow> json \<Rightarrow> str option" where
  \<comment> \<open>\<open>None\<close> is the panic.\<close>
  "jcs_serialize qs sf v = (if jcs_ok v then Some (jcs_text qs sf v) else None)"

definition hash_response :: "(str \<Rightarrow> str) \<Rightarrow> (f64 \<Rightarrow> str) \<Rightarrow> (str \<Rightarrow> str) \<Rightarrow> json \<Rightarrow> str option" where
  "hash_response qs sf digest v = map_option digest (jcs_serialize qs sf v)"

text \<open>A body that does not parse is the outer \<open>None\<close>.\<close>

definition normalize_and_hash :: "(str \<Rightarrow> json option) \<Rightarrow> (str \<Rightarrow> str) \<Rightarrow> (f64 \<Rightarrow> str) \<Rightarrow>
    (str \<Rightarrow> str) \<Rightarrow> str \<Rightarrow> str option option" where
  "normalize_and_hash parse qs sf digest raw =
     map_option (\<lambda>v. hash_response qs sf digest (strip_volatile v)) (parse raw)"

definition normalize_and_hash_with_value :: "(str \<Rightarrow> json option) \<Rightarrow> (str \<Rightarrow> str) \<Rightarrow> (f64 \<Rightarrow> str) \<Rightarrow>
    (str \<Rightarrow> str) \<Rightarrow> str \<Rightarrow> (str option \<times> json) option" where
  "normalize_and_hash_with_value parse qs sf digest raw =
     (case parse raw of
        None \<Rightarrow> None
      | Some v \<Rightarrow> let stripped = strip_volatile v in Some (hash_response qs sf digest stripped, stripped))"

section \<open>Deployment ids\<close>

definition CIDV0_PREFIX :: "8 word list" where
  "CIDV0_PREFIX = [0x12, 0x20]"

definition normalise_deployment_id :: "(str \<Rightarrow> 8 word list option) \<Rightarrow> (8 word list \<Rightarrow> str) \<Rightarrow> str \<Rightarrow> str" where
  "normalise_deployment_id unhex b58 s =
     (let trimmed = trim s;
          hex_body = (case strip_prefix ''0x'' trimmed of Some r \<Rightarrow> r | None \<Rightarrow> trimmed) in
      if length hex_body \<noteq> 64 \<or> \<not> list_all is_ascii_hexdigit hex_body then trimmed
      else case unhex hex_body of
             None \<Rightarrow> trimmed
           | Some digest \<Rightarrow> b58 (CIDV0_PREFIX @ digest))"

section \<open>Objects as maps\<close>

text \<open>An object as its parser builds it: no key twice, at any depth.\<close>

primrec jwf :: "json \<Rightarrow> bool" where
  "jwf JNull \<longleftrightarrow> True"
| "jwf (JBool b) \<longleftrightarrow> True"
| "jwf (JNum n) \<longleftrightarrow> True"
| "jwf (JStr s) \<longleftrightarrow> True"
| "jwf (JArr xs) \<longleftrightarrow> list_all id (map jwf xs)"
| "jwf (JObj m) \<longleftrightarrow> twf m \<and> list_all snd (map (map_prod id jwf) m)"

lemma swap_remove_perm: "map_of m k = Some v \<Longrightarrow> \<exists>l r. m = l @ (k, v) # r \<and> k \<notin> fst ` set l
     \<and> mset (swap_remove k m) = mset (l @ r)"
proof (induction k m rule: swap_remove.induct)
  case (2 k k' v' t)
  show ?case
  proof (cases "k = k'")
    case True
    have "t \<noteq> [] \<Longrightarrow> mset (last t # butlast t) = mset t"
      by (induction t) (auto split: if_splits)
    with True 2(2) show ?thesis by (intro exI [of _ "[]"] exI [of _ t]) auto
  next
    case False
    with 2 obtain l r where "t = l @ (k, v) # r" "k \<notin> fst ` set l" "mset (swap_remove k t) = mset (l @ r)"
      by auto
    with False show ?thesis by (intro exI [of _ "(k', v') # l"] exI [of _ r]) auto
  qed
qed simp

lemma swap_remove_absent: "map_of m k = None \<Longrightarrow> swap_remove k m = m"
  by (induction k m rule: swap_remove.induct) (auto split: if_splits)

lemma map_of_mset: "twf m \<Longrightarrow> mset m' = mset m \<Longrightarrow> map_of m' = map_of m \<and> twf m'"
proof -
  assume a: "twf m" "mset m' = mset m"
  then have "mset (map fst m') = mset (map fst m)" and s: "set m' = set m"
    using mset_eq_setD [of m' m] by simp_all
  then have d: "twf m'" using a(1) unfolding twf_def by (metis mset_eq_imp_distinct_iff)
  have "map_of m' k = map_of m k" for k
    using a(1) d s by (metis map_of_eq_Some_iff not_None_eq twf_def)
  then show ?thesis using d by blast
qed

lemma swap_remove_twf: "twf m \<Longrightarrow> twf (swap_remove k m)"
  and map_of_swap_remove: "twf m \<Longrightarrow> map_of (swap_remove k m) = (map_of m)(k := None)"
proof -
  have "twf (swap_remove k m) \<and> map_of (swap_remove k m) = (map_of m)(k := None)" if w: "twf m"
  proof (cases "map_of m k")
    case None
    then show ?thesis using w by (auto simp: swap_remove_absent)
  next
    case (Some v)
    then obtain l r where m: "m = l @ (k, v) # r" "mset (swap_remove k m) = mset (l @ r)"
      using swap_remove_perm by metis
    have lr: "twf (l @ r)" "map_of (l @ r) = (map_of m)(k := None)"
      using w unfolding m(1)
      by (auto simp: twf_def map_add_def fun_eq_iff image_iff map_of_eq_None_iff
          dest: map_of_SomeD split: option.splits)
    then show ?thesis using map_of_mset [OF lr(1) m(2)] by simp
  qed
  then show "twf m \<Longrightarrow> twf (swap_remove k m)"
    and "twf m \<Longrightarrow> map_of (swap_remove k m) = (map_of m)(k := None)" by auto
qed

lemma map_of_bt_insert: "map_of (bt_insert k v m) = (map_of m)(k \<mapsto> v)"
  by (induction k v m rule: bt_insert.induct) (auto simp: fun_eq_iff)

lemma sorted_bt_insert: "sorted_wrt (<) (map fst m) \<Longrightarrow> sorted_wrt (<) (map fst (bt_insert k v m))
    \<and> set (map fst (bt_insert k v m)) = insert k (set (map fst m))"
  by (induction k v m rule: bt_insert.induct) (auto simp flip: set_map intro: order.strict_trans)

lemma btree_props: "sorted_wrt (<) (map fst (btree m)) \<and> map_of (btree m) = map_of (rev m)"
proof -
  have "sorted_wrt (<) (map fst a) \<Longrightarrow> sorted_wrt (<) (map fst (fold (\<lambda>(k, v). bt_insert k v) m a))
     \<and> map_of (fold (\<lambda>(k, v). bt_insert k v) m a) = map_of a ++ map_of (rev m)" for a
    by (induction m arbitrary: a) (auto simp: sorted_bt_insert map_of_bt_insert map_add_def fun_eq_iff split: option.splits)
  from this [of "[]"] show ?thesis by (simp add: btree_def)
qed


lemma btree_map: "btree (map (map_prod id f) m) = map (map_prod id f) (btree m)"
proof -
  have ins: "bt_insert k (f v) (map (map_prod id f) t) = map (map_prod id f) (bt_insert k v t)" for k v t
    by (induction k v t rule: bt_insert.induct) auto
  have "fold (\<lambda>(k, v). bt_insert k v) (map (map_prod id f) m) (map (map_prod id f) a)
      = map (map_prod id f) (fold (\<lambda>(k, v). bt_insert k v) m a)" for a
    by (induction m arbitrary: a) (auto simp: ins)
  from this [of "[]"] show ?thesis by (simp add: btree_def)
qed

lemma btree_unique: "btree m = btree m' \<longleftrightarrow> map_of (rev m) = map_of (rev m')"
proof
  have d: "distinct (map fst (btree x)) \<and> sorted (map fst (btree x))" for x :: "(str \<times> 'a) list"
    using btree_props [of x] strict_sorted_iff by blast
  assume "map_of (rev m) = map_of (rev m')"
  then have e: "map_of (btree m) = map_of (btree m')" by (simp add: btree_props)
  have "set x = {(k, v). map_of x k = Some v}" if "distinct (map fst x)" for x :: "(str \<times> 'a) list"
    using that by auto
  then have "set (btree m) = set (btree m')" using d e by metis
  then show "btree m = btree m'"
    using d [of m] d [of m'] by (intro map_sorted_distinct_set_unique [where f = fst])
      (auto simp: distinct_map)
next
  show "btree m = btree m' \<Longrightarrow> map_of (rev m) = map_of (rev m')" by (metis btree_props)
qed

section \<open>Canonical values\<close>

text \<open>The canonical form of a value sorts every object; two objects with the same entries have the
  same one. \<open>ser\<close> writes a value without sorting, so the canonical text is \<open>ser\<close> of the
  canonical form.\<close>

primrec canon :: "json \<Rightarrow> json" where
  "canon JNull = JNull"
| "canon (JBool b) = JBool b"
| "canon (JNum n) = JNum n"
| "canon (JStr s) = JStr s"
| "canon (JArr xs) = JArr (map canon xs)"
| "canon (JObj m) = JObj (btree (map (map_prod id canon) m))"

primrec ser :: "(str \<Rightarrow> str) \<Rightarrow> (f64 \<Rightarrow> str) \<Rightarrow> json \<Rightarrow> str" where
  "ser qs sf JNull = ''null''"
| "ser qs sf (JBool b) = (if b then ''true'' else ''false'')"
| "ser qs sf (JNum n) = jnum_text sf n"
| "ser qs sf (JStr s) = qs s"
| "ser qs sf (JArr xs) = ''['' @ join '','' (map (ser qs sf) xs) @ '']''"
| "ser qs sf (JObj m) = ''{'' @ join '','' (map (entry_text qs) (map (map_prod id (ser qs sf)) m)) @ ''}''"

lemma jcs_text_canon: "jcs_text qs sf v = ser qs sf (canon v)"
proof (induction v)
  case (JObj m)
  then have "map (map_prod id (jcs_text qs sf)) m = map (map_prod id (ser qs sf)) (map (map_prod id canon) m)"
    by auto
  then show ?case by (simp add: btree_map del: map_map)
qed (simp_all cong: map_cong)

lemma map_of_rev: "twf m \<Longrightarrow> map_of (rev m) = map_of m"
  using map_of_mset [of m "rev m"] by simp

lemma map_of_values: "map_of (map (map_prod id f) m) k = map_option f (map_of m k)"
  by (induction m) auto

lemma twf_values [simp]: "twf (map (map_prod id f) m) \<longleftrightarrow> twf m"
  by (simp add: twf_def comp_def)

lemma canon_obj_eq: "twf m \<Longrightarrow> twf m' \<Longrightarrow> canon (JObj m) = canon (JObj m') \<longleftrightarrow>
    (\<forall>k. map_option canon (map_of m k) = map_option canon (map_of m' k))"
proof -
  assume w: "twf m" "twf m'"
  show ?thesis by (simp add: btree_unique map_of_rev map_of_values w fun_eq_iff)
qed

section \<open>The text determines the value\<close>

text \<open>What the two writers of the JSON library promise: a quoted string can be read back off the
  front of any text, and a finite float is written with a point or an exponent in characters no
  delimiter shares, different floats differently.\<close>

definition num_char :: "char \<Rightarrow> bool" where
  "num_char c \<longleftrightarrow> is_ascii_digit c \<or> c \<in> set ''+-.eE''"

definition string_law :: "(str \<Rightarrow> str) \<Rightarrow> bool" where
  "string_law qs \<longleftrightarrow> (\<forall>s. \<exists>t. qs s = CHR 0x22 # t) \<and> (\<forall>s s' r r'. qs s @ r = qs s' @ r' \<longrightarrow> s = s' \<and> r = r')"

definition float_law :: "(f64 \<Rightarrow> str) \<Rightarrow> bool" where
  "float_law sf \<longleftrightarrow> (\<forall>x. sf (Fin x) \<noteq> [] \<and> list_all num_char (sf (Fin x))
     \<and> (\<exists>c \<in> set (sf (Fin x)). c \<in> set ''.eE'')) \<and> inj (\<lambda>x. sf (Fin x))"

definition delimited :: "str \<Rightarrow> bool" where
  "delimited r \<longleftrightarrow> r = [] \<or> \<not> num_char (hd r)"

lemma num_span: "list_all P a \<Longrightarrow> list_all P b \<Longrightarrow> r = [] \<or> \<not> P (hd r) \<Longrightarrow> r' = [] \<or> \<not> P (hd r') \<Longrightarrow>
    a @ r = b @ r' \<Longrightarrow> a = b \<and> r = r'"
proof (induction a arbitrary: b)
  case Nil
  then show ?case by (cases b) auto
next
  case (Cons x a)
  then show ?case by (cases b) auto
qed

lemma show_int_chars: "list_all num_char (show_int n) \<and> show_int n \<noteq> [] \<and> set (show_int n) \<inter> set ''.eE'' = {}"
proof -
  have d: "c \<in> set (show_nat k) \<Longrightarrow> is_ascii_digit c" for k c using show_nat_digits by blast
  have "\<not> is_ascii_digit (CHR ''.'')" "\<not> is_ascii_digit (CHR ''e'')" "\<not> is_ascii_digit (CHR ''E'')"
    by (simp_all add: is_ascii_digit_def less_eq_char_def)
  then show ?thesis
    using d show_nat_nonempty by (auto simp: show_int_def list_all_iff num_char_def)
qed

lemma show_nat_inj: "show_nat a = show_nat b \<Longrightarrow> a = b"
  by (metis option.inject parse_show_nat)

lemma show_nat_no_minus: "show_nat a \<noteq> CHR ''-'' # s"
proof
  assume "show_nat a = CHR ''-'' # s"
  with show_nat_digits [of a] show False by (simp add: is_ascii_digit_def less_eq_char_def)
qed

lemma show_int_inj: "show_int a = show_int b \<Longrightarrow> a = b"
  by (auto simp: show_int_def show_nat_no_minus show_nat_no_minus [symmetric] dest!: show_nat_inj split: if_splits)

lemma jnum_text_inj:
  assumes "float_law sf" and "finite_num m" and "finite_num n" and "delimited r" and "delimited r'"
    and e: "jnum_text sf m @ r = jnum_text sf n @ r'"
  shows "m = n \<and> r = r'"
proof -
  have t: "list_all num_char (jnum_text sf k)" if "finite_num k" for k
    using that assms(1) show_int_chars by (cases k rule: finite_num.cases) (auto simp: float_law_def)
  then have "jnum_text sf m = jnum_text sf n" and r: "r = r'"
    using num_span [of num_char "jnum_text sf m" "jnum_text sf n" r r'] e assms(2-5)
    by (simp_all add: delimited_def)
  moreover have "sf (Fin x) \<noteq> show_int k" "show_int k \<noteq> sf (Fin x)" for x k
    using assms(1) show_int_chars [of k] unfolding float_law_def by (metis disjoint_iff)+
  moreover have "sf (Fin x) = sf (Fin y) \<Longrightarrow> x = y" for x y
    using assms(1) unfolding float_law_def inj_def by blast
  ultimately have "m = n" using assms(2,3)
    by (cases m rule: finite_num.cases; cases n rule: finite_num.cases) (simp_all add: show_int_inj)
  with r show ?thesis by simp
qed

text \<open>Every number finite, without the sorting: the panic's condition on canonical forms.\<close>

primrec all_finite :: "json \<Rightarrow> bool" where
  "all_finite JNull \<longleftrightarrow> True"
| "all_finite (JBool b) \<longleftrightarrow> True"
| "all_finite (JNum n) \<longleftrightarrow> finite_num n"
| "all_finite (JStr s) \<longleftrightarrow> True"
| "all_finite (JArr xs) \<longleftrightarrow> list_all id (map all_finite xs)"
| "all_finite (JObj m) \<longleftrightarrow> list_all snd (map (map_prod id all_finite) m)"

lemma jcs_ok_canon: "jcs_ok v \<longleftrightarrow> all_finite (canon v)"
proof (induction v)
  case (JObj m)
  then have "map (map_prod id jcs_ok) m = map (map_prod id all_finite) (map (map_prod id canon) m)"
    by auto
  then show ?case by (simp add: btree_map del: map_map)
next
  case (JArr xs)
  then show ?case by (simp add: list_all_iff)
qed simp_all

lemma join_cons: "join sep (x # xs) = x @ concat (map (\<lambda>y. sep @ y) xs)"
  by (induction xs arbitrary: x) auto

lemma ser_head:
  assumes "string_law qs" and "float_law sf" and "all_finite v"
  shows "\<exists>c t. ser qs sf v = c # t \<and>
     (case v of JNull \<Rightarrow> c = CHR ''n'' | JBool b \<Rightarrow> c = (if b then CHR ''t'' else CHR ''f'')
      | JNum _ \<Rightarrow> num_char c | JStr _ \<Rightarrow> c = CHR 0x22 | JArr _ \<Rightarrow> c = CHR ''['' | JObj _ \<Rightarrow> c = CHR ''{'')"
proof (cases v)
  case (JNum n)
  have "list_all num_char (jnum_text sf n) \<and> jnum_text sf n \<noteq> []"
    using assms JNum show_int_chars by (cases n rule: finite_num.cases) (auto simp: float_law_def)
  then show ?thesis using JNum by (cases "jnum_text sf n") auto
next
  case (JStr s)
  obtain t where "qs s = CHR 0x22 # t" using assms(1) unfolding string_law_def by blast
  then show ?thesis using JStr by simp
qed simp_all

lemma not_num_chars [simp]: "\<not> num_char (CHR ''n'')" "\<not> num_char (CHR ''t'')" "\<not> num_char (CHR ''f'')"
  "\<not> num_char (CHR 0x22)" "\<not> num_char (CHR ''['')" "\<not> num_char (CHR ''{'')"
  "\<not> num_char (CHR '','')" "\<not> num_char (CHR '']'')" "\<not> num_char (CHR ''}'')"
  by (simp_all add: num_char_def is_ascii_digit_def less_eq_char_def)

text \<open>A bracketed, comma-separated list is read back when its items are.\<close>

definition readable :: "('a \<Rightarrow> str) \<Rightarrow> 'a \<Rightarrow> 'a \<Rightarrow> bool" where
  "readable f x y \<longleftrightarrow> (\<forall>r r'. delimited r \<longrightarrow> delimited r' \<longrightarrow> f x @ r = f y @ r' \<longrightarrow> x = y \<and> r = r')"

lemma readableD: "readable f x y \<Longrightarrow> delimited r \<Longrightarrow> delimited r' \<Longrightarrow> f x @ r = f y @ r' \<Longrightarrow> x = y \<and> r = r'"
  unfolding readable_def by blast

lemma list_tail_inj:
  "\<forall>x \<in> set xs. \<forall>y \<in> set ys. readable f x y \<Longrightarrow> d \<in> {CHR '']'', CHR ''}''} \<Longrightarrow>
    concat (map (\<lambda>x. CHR '','' # f x) xs) @ d # r = concat (map (\<lambda>x. CHR '','' # f x) ys) @ d # r' \<Longrightarrow>
    xs = ys \<and> r = r'"
proof (induction xs arbitrary: ys)
  case Nil
  then show ?case by (cases ys) auto
next
  case (Cons x xs)
  then obtain y ys' where ys: "ys = y # ys'" by (cases ys) auto
  have del: "delimited (concat (map (\<lambda>x. CHR '','' # f x) zs) @ d # s)" for zs s
    using Cons.prems(2) by (cases zs) (auto simp: delimited_def)
  have "readable f x y" using Cons.prems(1) ys by simp
  then have "x = y \<and> concat (map (\<lambda>x. CHR '','' # f x) xs) @ d # r =
      concat (map (\<lambda>x. CHR '','' # f x) ys') @ d # r'"
    using Cons.prems(3) ys by (intro readableD [OF _ del del, of f]) simp_all
  then show ?case using Cons.IH [of ys'] Cons.prems(1,2) ys by simp
qed

lemma list_inj:
  assumes "\<forall>x \<in> set xs. \<forall>y \<in> set ys. readable f x y" and "d \<in> {CHR '']'', CHR ''}''}"
    and "\<forall>x \<in> set xs \<union> set ys. \<exists>c t. f x = c # t \<and> c \<noteq> d"
    and e: "join '','' (map f xs) @ d # r = join '','' (map f ys) @ d # r'"
  shows "xs = ys \<and> r = r'"
proof -
  have join: "join '','' (map f (z # zs)) = f z @ concat (map (\<lambda>x. CHR '','' # f x) zs)" for z zs
    by (simp add: join_cons comp_def)
  show ?thesis
  proof (cases "xs = [] \<or> ys = []")
    case True
    moreover have "join '','' (map f []) = []" by simp
    ultimately show ?thesis using assms(3) e by (cases xs; cases ys) (auto simp: join simp del: list.map)
  next
    case False
    then obtain x xs' y ys' where l: "xs = x # xs'" "ys = y # ys'" by (cases xs; cases ys) auto
    then have "concat (map (\<lambda>x. CHR '','' # f x) xs) @ d # r = concat (map (\<lambda>x. CHR '','' # f x) ys) @ d # r'"
      using e by (simp add: join del: list.map) simp
    with list_tail_inj [OF assms(1,2)] show ?thesis by blast
  qed
qed

lemma ser_readable:
  assumes "string_law qs" and "float_law sf"
  shows "all_finite v \<Longrightarrow> all_finite w \<Longrightarrow> readable (ser qs sf) v w"
proof (induction v arbitrary: w)
  note head = ser_head [OF assms]
  {
    case (JNum n)
    show ?case unfolding readable_def
    proof (intro allI impI)
      fix r r' assume d: "delimited r" "delimited r'" and e: "ser qs sf (JNum n) @ r = ser qs sf w @ r'"
      obtain n' where w: "w = JNum n'"
        using head [OF JNum.prems(1)] head [OF JNum.prems(2)] e by (cases w) (auto split: if_splits)
      show "JNum n = w \<and> r = r'"
        using jnum_text_inj [OF assms(2) _ _ d, of n n'] e w JNum.prems by simp
    qed
  next
    case (JStr s)
    have q: "qs s @ r = qs s' @ r' \<Longrightarrow> s = s' \<and> r = r'" for s' r r'
      using assms(1) unfolding string_law_def by blast
    show ?case unfolding readable_def
    proof (intro allI impI)
      fix r r' assume "delimited r" "delimited r'" and e: "ser qs sf (JStr s) @ r = ser qs sf w @ r'"
      then obtain s' where w: "w = JStr s'"
        using head [OF JStr.prems(2)] head [OF JStr.prems(1)] by (cases w) (auto split: if_splits)
      then show "JStr s = w \<and> r = r'" using q [of r s' r'] e by simp
    qed
  next
    case (JArr xs)
    show ?case unfolding readable_def
    proof (intro allI impI)
      fix r r' assume r: "delimited r" "delimited r'" "ser qs sf (JArr xs) @ r = ser qs sf w @ r'"
      then obtain ys where w: "w = JArr ys" using head [OF JArr.prems(2)] by (cases w) (auto split: if_splits)
      have "\<exists>c t. ser qs sf x = c # t \<and> c \<noteq> CHR '']''" if "all_finite x" for x
        using head [OF that] by (cases x) auto
      then have "xs = ys \<and> r = r'"
        using r JArr w by (intro list_inj [where f = "ser qs sf" and d = "CHR '']''"]) (auto simp: list_all_iff)
      then show "JArr xs = w \<and> r = r'" using w by simp
    qed
  next
    case (JObj m)
    let ?f = "\<lambda>e. entry_text qs (map_prod id (ser qs sf) e)"
    show ?case unfolding readable_def
    proof (intro allI impI)
      fix r r' assume r: "delimited r" "delimited r'" "ser qs sf (JObj m) @ r = ser qs sf w @ r'"
      then obtain m' where w: "w = JObj m'" using head [OF JObj.prems(2)] by (cases w) (auto split: if_splits)
      have h: "\<exists>c t. ?f e = c # t \<and> c \<noteq> CHR ''}''" for e
      proof -
        obtain t where "qs (fst e) = CHR 0x22 # t" using assms(1) unfolding string_law_def by blast
        then show ?thesis by (cases e) (simp add: entry_text_def)
      qed
      have q: "qs k @ s = qs k' @ s' \<Longrightarrow> k = k' \<and> s = s'" for k k' s s'
        using assms(1) unfolding string_law_def by blast
      have "readable ?f a b" if "a \<in> set m" "b \<in> set m'" for a b
      proof -
        have "readable (ser qs sf) (snd a) (snd b)"
          using JObj that w by (cases a; cases b) (fastforce simp: list_all_iff)
        then show ?thesis unfolding readable_def entry_text_def
          by (cases a; cases b) (auto dest!: q)
      qed
      then have "m = m' \<and> r = r'"
        using r JObj w h by (intro list_inj [where f = ?f and d = "CHR ''}''"]) (auto simp: comp_def)
      then show "JObj m = w \<and> r = r'" using w by simp
    qed
  next
    case JNull
    show ?case unfolding readable_def using head [OF JNull.prems(2)] by (cases w) (auto split: if_splits)
  next
    case (JBool b)
    show ?case unfolding readable_def using head [OF JBool.prems(2)] by (cases w) (auto split: if_splits)
  }
qed

section \<open>Concrete writers\<close>

text \<open>An escaping string writer and a fraction writer that keep the two laws.\<close>

fun escape :: "char \<Rightarrow> char \<Rightarrow> str \<Rightarrow> str" where
  "escape q b [] = []"
| "escape q b (c # s) = (if c = q \<or> c = b then b # c # escape q b s else c # escape q b s)"

definition quote :: "str \<Rightarrow> str" where
  "quote s = CHR 0x22 # escape (CHR 0x22) (CHR 0x5C) s @ [CHR 0x22]"

fun write_float :: "f64 \<Rightarrow> str" where
  "write_float (Fin x) = show_int (fst (quotient_of x)) @ ''.'' @ show_int (snd (quotient_of x))"
| "write_float _ = []"

lemma escape_inj: "q \<noteq> b \<Longrightarrow> escape q b s @ q # r = escape q b s' @ q # r' \<Longrightarrow> s = s' \<and> r = r'"
proof (induction s arbitrary: s')
  case Nil
  then show ?case by (cases s') (auto split: if_splits)
next
  case (Cons c s)
  note P = Cons.prems
  obtain c' t where s': "s' = c' # t" using P by (cases s') (simp_all split: if_splits)
  then have "c = c' \<and> escape q b s @ q # r = escape q b t @ q # r'"
    using P by (simp split: if_splits)
  then show ?case using Cons.IH [of t] P(1) s' by blast
qed

lemma quote_law: "string_law quote"
  unfolding string_law_def
proof (intro conjI allI impI)
  show "\<exists>t. quote s = CHR 0x22 # t" for s by (simp add: quote_def)
  fix s s' r r' assume "quote s @ r = quote s' @ r'"
  then have "escape (CHR 0x22) (CHR 0x5C) s @ CHR 0x22 # r = escape (CHR 0x22) (CHR 0x5C) s' @ CHR 0x22 # r'"
    by (simp add: quote_def)
  from escape_inj [OF _ this] show "s = s'" "r = r'" by simp_all
qed

lemma write_float_law: "float_law write_float"
proof -
  have d: "CHR ''.'' \<notin> set (show_int n)" for n using show_int_chars [of n] by auto
  have "x = y" if e: "write_float (Fin x) = write_float (Fin y)" for x y
  proof -
    have "show_int (fst (quotient_of x)) = show_int (fst (quotient_of y))
        \<and> ''.'' @ show_int (snd (quotient_of x)) = ''.'' @ show_int (snd (quotient_of y))"
      using e d by (intro num_span [of "\<lambda>c. c \<noteq> CHR ''.''"]) (auto simp: list_all_iff)
    then have "fst (quotient_of x) = fst (quotient_of y)" "snd (quotient_of x) = snd (quotient_of y)"
      using show_int_inj by simp_all
    then show ?thesis by (intro quotient_of_inject) (simp add: prod_eq_iff)
  qed
  then show ?thesis
    using show_int_chars by (auto simp: float_law_def inj_def list_all_iff num_char_def)
qed

section \<open>What the hash means\<close>

definition same_at :: "str \<Rightarrow> (str \<times> json) list \<Rightarrow> (str \<times> json) list \<Rightarrow> bool" where
  "same_at k m m' \<longleftrightarrow> map_option canon (map_of m k) = map_option canon (map_of m' k)"

text \<open>Two responses carry the same data: the same entries up to order, apart from \<open>extensions\<close>,
  \<open>headers\<close> and \<open>data._meta\<close>.\<close>

definition same_data :: "json \<Rightarrow> json \<Rightarrow> bool" where
  "same_data v w \<longleftrightarrow> (case (v, w) of
     (JObj m, JObj m') \<Rightarrow>
       (\<forall>k. k = ''extensions'' \<or> k = ''headers'' \<or> k = ''data'' \<or> same_at k m m') \<and>
       (case (map_of m ''data'', map_of m' ''data'') of
          (Some (JObj d), Some (JObj d')) \<Rightarrow> \<forall>k. k = ''_meta'' \<or> same_at k d d'
        | _ \<Rightarrow> same_at ''data'' m m')
   | _ \<Rightarrow> canon v = canon w)"

lemma canon_strip_data: "jwf x \<Longrightarrow> jwf y \<Longrightarrow> canon (strip_data x) = canon (strip_data y) \<longleftrightarrow>
    (case (x, y) of (JObj d, JObj d') \<Rightarrow> \<forall>k. k = ''_meta'' \<or> same_at k d d' | _ \<Rightarrow> canon x = canon y)"
proof (cases "\<exists>d d'. x = JObj d \<and> y = JObj d'")
  case True
  moreover assume "jwf x" "jwf y"
  ultimately obtain d d' where o: "x = JObj d" "y = JObj d'" "twf d" "twf d'" by auto
  then have "canon (strip_data x) = canon (strip_data y) \<longleftrightarrow>
     (\<forall>k. map_option canon (((map_of d)(''_meta'' := None)) k) = map_option canon (((map_of d')(''_meta'' := None)) k))"
    unfolding strip_data_def
    by (simp only: json.case canon_obj_eq swap_remove_twf map_of_swap_remove)
  then show ?thesis using o by (auto simp: same_at_def)
next
  case False
  then show ?thesis by (cases x; cases y) (auto simp: strip_data_def)
qed

lemma map_of_strip: "twf m \<Longrightarrow>
    map_of (map (\<lambda>(k, v). (k, if k = ''data'' then strip_data v else v))
       (swap_remove ''headers'' (swap_remove ''extensions'' m))) k =
    (if k = ''headers'' \<or> k = ''extensions'' then None
     else map_option (if k = ''data'' then strip_data else id) (map_of m k))"
proof -
  assume w: "twf m"
  have "map_of (map (\<lambda>(k, v). (k, if k = ''data'' then strip_data v else v)) t) k =
     map_option (if k = ''data'' then strip_data else id) (map_of t k)" for t
    by (induction t) auto
  then show ?thesis using w by (simp add: map_of_swap_remove swap_remove_twf)
qed

lemma twf_strip: "twf m \<Longrightarrow> twf (map (\<lambda>(k, v). (k, if k = ''data'' then strip_data v else v))
       (swap_remove ''headers'' (swap_remove ''extensions'' m)))"
proof -
  assume "twf m"
  then have "twf (swap_remove ''headers'' (swap_remove ''extensions'' m))" by (simp add: swap_remove_twf)
  then show ?thesis by (simp add: twf_def comp_def case_prod_beta)
qed

lemma jwf_entry: "jwf (JObj m) \<Longrightarrow> map_of m k = Some x \<Longrightarrow> jwf x"
  by (force simp: list_all_iff dest: map_of_SomeD)

lemma all_split: "a \<noteq> c \<Longrightarrow> b \<noteq> c \<Longrightarrow> (\<forall>k. k = a \<or> k = b \<or> (if k = c then D else S k)) \<longleftrightarrow>
    (\<forall>k. k = b \<or> k = a \<or> k = c \<or> S k) \<and> D"
  by metis

lemma canon_strip: "jwf v \<Longrightarrow> jwf w \<Longrightarrow>
    canon (strip_volatile v) = canon (strip_volatile w) \<longleftrightarrow> same_data v w"
proof (cases "\<exists>m m'. v = JObj m \<and> w = JObj m'")
  case True
  moreover assume j: "jwf v" "jwf w"
  ultimately obtain m m' where o: "v = JObj m" "w = JObj m'" "twf m" "twf m'" by auto
  let ?d = "map_of m ''data''" and ?d' = "map_of m' ''data''"
  have d: "map_option canon (map_option strip_data ?d) = map_option canon (map_option strip_data ?d') \<longleftrightarrow>
     (case (?d, ?d') of (Some (JObj d), Some (JObj d')) \<Rightarrow> \<forall>k. k = ''_meta'' \<or> same_at k d d'
        | _ \<Rightarrow> same_at ''data'' m m')"
  proof (cases "?d"; cases "?d'")
    fix x y assume xy: "?d = Some x" "?d' = Some y"
    then have "jwf x" "jwf y" using j o jwf_entry by blast+
    from canon_strip_data [OF this] show ?thesis
      by (cases x; cases y) (simp_all add: xy same_at_def)
  qed (auto simp: same_at_def split: json.split)
  have "canon (strip_volatile v) = canon (strip_volatile w) \<longleftrightarrow>
     (\<forall>k. k = ''headers'' \<or> k = ''extensions'' \<or> (if k = ''data''
         then map_option canon (map_option strip_data ?d) = map_option canon (map_option strip_data ?d')
         else same_at k m m'))"
    unfolding o strip_volatile.simps Let_def canon_obj_eq [OF twf_strip [OF o(3)] twf_strip [OF o(4)]]
      map_of_strip [OF o(3)] map_of_strip [OF o(4)] same_at_def
    by (intro all_cong1) (simp add: option.map_id)
  also have "\<dots> \<longleftrightarrow> same_data v w"
    unfolding same_data_def o by (subst all_split) (simp_all only: prod.case json.case d, simp_all)
  finally show ?thesis .
next
  case False
  then show ?thesis by (cases v; cases w) (auto simp: same_data_def Let_def)
qed

lemma serialize_eq:
  assumes "string_law qs" and "float_law sf" and "jcs_serialize qs sf v = Some t" and "jcs_serialize qs sf w = Some u"
  shows "t = u \<longleftrightarrow> canon v = canon w"
proof -
  have t: "t = ser qs sf (canon v)" "u = ser qs sf (canon w)" "all_finite (canon v)" "all_finite (canon w)"
    using assms(3,4) by (auto simp: jcs_serialize_def jcs_text_canon jcs_ok_canon split: if_splits)
  have "delimited []" by (simp add: delimited_def)
  then show ?thesis
    using readableD [OF ser_readable [OF assms(1,2) t(3,4)], of "[]" "[]"] t(1,2) by auto
qed

text \<open>
  C11. Canonicalisation is exact: two values serialise to the same text if and only if they are
  equal up to the order of object keys, at every depth.
\<close>

theorem canonical_text_exact:
  assumes "string_law qs" and "float_law sf" and "jcs_serialize qs sf v = Some t" and "jcs_serialize qs sf w = Some u"
  shows "t = u \<longleftrightarrow> canon v = canon w"
  by (rule serialize_eq [OF assms])

definition sample_a :: json where
  "sample_a = JObj [(''b'', JArr [jint 1, JStr ''x'']), (''a'', JNull)]"

definition sample_b :: json where
  "sample_b = JObj [(''a'', JNull), (''b'', JArr [jint 1, JStr ''x''])]"

lemma samples_ok: "jcs_serialize qs sf sample_a = Some (jcs_text qs sf sample_a)"
  "jcs_serialize qs sf sample_b = Some (jcs_text qs sf sample_b)"
  by (simp_all add: jcs_serialize_def sample_a_def sample_b_def jint_def btree_def)

lemma samples_canon: "canon sample_a = canon sample_b"
  by (simp add: sample_a_def sample_b_def jint_def btree_def)

theorem canonical_text_exact_witness:
  "jcs_text quote write_float sample_a = jcs_text quote write_float sample_b"
  using canonical_text_exact [OF quote_law write_float_law samples_ok] samples_canon by simp

text \<open>
  C12. Where the digest tells the two texts apart, two response bodies hash equal if and only if
  they carry the same data: key order, \<open>extensions\<close>, \<open>headers\<close> and \<open>data._meta\<close> never make a
  divergence, and any other difference always does.
\<close>

theorem hash_equal_iff_same_data:
  assumes "string_law qs" and "float_law sf" and "jwf v" and "jwf w"
    and "parse a = Some v" and "parse b = Some w"
    and "normalize_and_hash parse qs sf digest a = Some (Some h)"
    and "normalize_and_hash parse qs sf digest b = Some (Some h')"
    and "digest (jcs_text qs sf (strip_volatile v)) = digest (jcs_text qs sf (strip_volatile w)) \<Longrightarrow>
      jcs_text qs sf (strip_volatile v) = jcs_text qs sf (strip_volatile w)"
  shows "h = h' \<longleftrightarrow> same_data v w"
proof -
  obtain t u where tu: "jcs_serialize qs sf (strip_volatile v) = Some t" "digest t = h"
      "jcs_serialize qs sf (strip_volatile w) = Some u" "digest u = h'"
    using assms(5-8) by (auto simp: normalize_and_hash_def hash_response_def)
  then have "t = jcs_text qs sf (strip_volatile v)" "u = jcs_text qs sf (strip_volatile w)"
    by (auto simp: jcs_serialize_def split: if_splits)
  then have "h = h' \<longleftrightarrow> t = u" using assms(9) tu by auto
  also have "\<dots> \<longleftrightarrow> same_data v w"
    using serialize_eq [OF assms(1,2) tu(1,3)] canon_strip [OF assms(3,4)] by simp
  finally show ?thesis .
qed

definition body_a :: json where
  "body_a = JObj [(''data'', JObj [(''_meta'', jint 7), (''x'', jint 1)]), (''extensions'', JNull)]"

definition body_b :: json where
  "body_b = JObj [(''data'', JObj [(''x'', jint 1), (''_meta'', jint 8)])]"

definition sample_parse :: "str \<Rightarrow> json option" where
  "sample_parse s = (if s = ''a'' then Some body_a else if s = ''b'' then Some body_b else None)"

theorem hash_equal_iff_same_data_witness:
  "normalize_and_hash sample_parse quote write_float id ''a'' = normalize_and_hash sample_parse quote write_float id ''b''"
proof -
  have n: "normalize_and_hash sample_parse quote write_float id ''a'' = Some (Some (jcs_text quote write_float (strip_volatile body_a)))"
    "normalize_and_hash sample_parse quote write_float id ''b'' = Some (Some (jcs_text quote write_float (strip_volatile body_b)))"
    by (simp_all add: normalize_and_hash_def hash_response_def jcs_serialize_def sample_parse_def body_a_def
        body_b_def strip_data_def jint_def btree_def)
  have w: "jwf body_a" "jwf body_b" by (simp_all add: body_a_def body_b_def twf_def jint_def)
  have "same_data body_a body_b" by (simp add: same_data_def same_at_def body_a_def body_b_def jint_def)
  then show ?thesis
    using hash_equal_iff_same_data [OF quote_law write_float_law w _ _ n] n by (simp add: sample_parse_def)
qed

section \<open>Deployment id laws\<close>

lemma trim_ends: "trim s = [] \<or> \<not> is_space (hd (trim s)) \<and> \<not> is_space (last (trim s))"
proof -
  let ?u = "dropWhile is_space s" and ?t = "trim s"
  obtain sp where sp: "?u = ?t @ sp"
    unfolding trim_def by (metis rev_append rev_rev_ident takeWhile_dropWhile_id)
  have "?t \<noteq> [] \<Longrightarrow> \<not> is_space (last ?t)"
    unfolding trim_def by (simp add: last_rev hd_dropWhile)
  moreover have "\<not> is_space (hd ?t)" if "?t \<noteq> []"
  proof -
    have "?u \<noteq> []" using sp that by auto
    then have "\<not> is_space (hd ?u)" using hd_dropWhile by blast
    then show ?thesis using sp that by simp
  qed
  ultimately show ?thesis by blast
qed

lemma trim_id: "s = [] \<or> \<not> is_space (hd s) \<and> \<not> is_space (last s) \<Longrightarrow> trim s = s"
proof -
  assume a: "s = [] \<or> \<not> is_space (hd s) \<and> \<not> is_space (last s)"
  then have 1: "dropWhile is_space s = s" by (cases s) auto
  from a have "dropWhile is_space (rev s) = rev s" by (cases s rule: rev_cases) auto
  with 1 show ?thesis by (simp add: trim_def)
qed

lemma trim_trim [simp]: "trim (trim s) = trim s"
  using trim_ends trim_id by blast

text \<open>What the two codecs promise: 64 hexadecimal digits decode to 32 bytes, and the base58 text of
  a 34-byte multihash with this prefix has 46 characters, the first a letter, none a space.\<close>

definition codec_laws :: "(str \<Rightarrow> 8 word list option) \<Rightarrow> (8 word list \<Rightarrow> str) \<Rightarrow> bool" where
  "codec_laws unhex b58 \<longleftrightarrow>
     (\<forall>s. length s = 64 \<longrightarrow> list_all is_ascii_hexdigit s \<longrightarrow> (\<exists>d. unhex s = Some d \<and> length d = 32)) \<and>
     (\<forall>d. length d = 32 \<longrightarrow> length (b58 (CIDV0_PREFIX @ d)) = 46 \<and> list_all (\<lambda>c. \<not> is_space c) (b58 (CIDV0_PREFIX @ d)))"

lemma short_id: "length (trim s) < 64 \<Longrightarrow> normalise_deployment_id unhex b58 s = trim s"
  unfolding normalise_deployment_id_def Let_def
  by (auto split: option.splits simp: strip_prefix_iff)

text \<open>
  Normalising a deployment id twice is normalising it once, and the \<open>0x\<close> prefix of a bytes32
  id does not matter.
\<close>

theorem normalise_idempotent:
  assumes "codec_laws unhex b58"
  shows "normalise_deployment_id unhex b58 (normalise_deployment_id unhex b58 s) = normalise_deployment_id unhex b58 s
    \<and> (list_all is_ascii_hexdigit d \<and> length d = 64 \<longrightarrow>
        normalise_deployment_id unhex b58 (''0x'' @ d) = normalise_deployment_id unhex b58 d)"
proof (intro conjI impI)
  let ?n = "normalise_deployment_id unhex b58"
  define h where "h = (case strip_prefix ''0x'' (trim s) of Some r \<Rightarrow> r | None \<Rightarrow> trim s)"
  show "?n (?n s) = ?n s"
  proof (cases "length h = 64 \<and> list_all is_ascii_hexdigit h")
    case False
    then have e: "?n s = trim s" by (auto simp: normalise_deployment_id_def h_def Let_def)
    then have "?n (trim s) = trim s" using False by (auto simp: normalise_deployment_id_def h_def Let_def)
    then show ?thesis using e by simp
  next
    case True
    then obtain dg where d: "unhex h = Some dg" "length dg = 32" using assms unfolding codec_laws_def by blast
    let ?b = "b58 (CIDV0_PREFIX @ dg)"
    have e: "?n s = ?b" using True d by (simp add: normalise_deployment_id_def h_def Let_def)
    have b: "length ?b = 46" "list_all (\<lambda>c. \<not> is_space c) ?b" using assms d unfolding codec_laws_def by blast+
    then have "trim ?b = ?b" by (intro trim_id) (auto simp: list_all_iff)
    then show ?thesis using short_id [of ?b unhex b58] b e by simp
  qed
next
  assume d: "list_all is_ascii_hexdigit d \<and> length d = 64"
  have ns: "is_ascii_hexdigit c \<Longrightarrow> \<not> is_space c" for c
    by (auto simp: is_ascii_hexdigit_def is_ascii_digit_def is_space_def less_eq_char_def)
  have ne: "d \<noteq> []" using d by auto
  then have l: "\<not> is_space (hd d)" "\<not> is_space (last d)"
    using d ns [of "hd d"] ns [of "last d"] by (simp_all add: list_all_iff)
  then have t: "trim d = d" "trim (''0x'' @ d) = ''0x'' @ d"
    using ne by (simp_all add: trim_id is_space_def less_eq_char_def)
  have "strip_prefix ''0x'' d = None"
  proof (rule ccontr)
    assume "strip_prefix ''0x'' d \<noteq> None"
    then have "CHR ''x'' \<in> set d" by (auto simp: strip_prefix_iff)
    then have "is_ascii_hexdigit (CHR ''x'')" using d by (simp add: list_all_iff)
    then show False by (simp add: is_ascii_hexdigit_def is_ascii_digit_def less_eq_char_def)
  qed
  moreover obtain g where "unhex d = Some g" using assms d unfolding codec_laws_def by blast
  ultimately show "normalise_deployment_id unhex b58 (''0x'' @ d) = normalise_deployment_id unhex b58 d"
    using d t by (simp add: normalise_deployment_id_def Let_def)
qed

theorem normalise_idempotent_witness:
  "normalise_deployment_id (\<lambda>s. Some (replicate 32 0)) (\<lambda>d. replicate 46 (CHR ''Q''))
     (normalise_deployment_id (\<lambda>s. Some (replicate 32 0)) (\<lambda>d. replicate 46 (CHR ''Q'')) (''0x'' @ replicate 64 (CHR ''a'')))
   = normalise_deployment_id (\<lambda>s. Some (replicate 32 0)) (\<lambda>d. replicate 46 (CHR ''Q'')) (''0x'' @ replicate 64 (CHR ''a''))"
proof -
  have "codec_laws (\<lambda>s. Some (replicate 32 0)) (\<lambda>d. replicate 46 (CHR ''Q''))"
    by (simp add: codec_laws_def list_all_iff is_space_def less_eq_char_def)
  from normalise_idempotent [OF this] show ?thesis by blast
qed

end
