(* ===== verification/Executor.thy ===== *)
theory Executor
  imports Normalize "HOL-Library.Monad_Syntax"
begin

text \<open>
  One probe, \<open>foghorn-probe/src/executor.rs\<close>: the three ways of asking an indexer (gateway, direct,
  paid), the classification of what comes back, and attestation signers. The JSON parser and
  writer, hexadecimal, Keccak and the signature scheme are the fields of \<open>lib\<close>; the network is an
  argument, a function from the request to the reply. A panic of the number assertion in the hash
  is unreachable, the parser yields finite numbers only, and is read as no hash.
\<close>

unbundle bit_operations_syntax

record lib =
  lib_parse :: "str \<Rightarrow> json option"
  lib_text :: "json \<Rightarrow> str"
  lib_quote :: "str \<Rightarrow> str"
  lib_float :: "f64 \<Rightarrow> str"
  lib_digest :: "str \<Rightarrow> str"
  lib_unhex :: "str \<Rightarrow> 8 word list option"
  lib_hex :: "8 word list \<Rightarrow> str"
  lib_keccak :: "8 word list \<Rightarrow> 8 word list"
  lib_recover :: "8 word list \<Rightarrow> 8 word list \<Rightarrow> 8 word list \<Rightarrow> 8 word \<Rightarrow> 8 word list option"

section \<open>Hexadecimal constants\<close>

definition hex_nibble :: "8 word \<Rightarrow> 8 word" where
  "hex_nibble b =
     (if of_char (CHR ''0'') \<le> b \<and> b \<le> of_char (CHR ''9'') then b - of_char (CHR ''0'')
      else if of_char (CHR ''a'') \<le> b \<and> b \<le> of_char (CHR ''f'') then b - of_char (CHR ''a'') + 10
      else if of_char (CHR ''A'') \<le> b \<and> b \<le> of_char (CHR ''F'') then b - of_char (CHR ''A'') + 10
      else 0)"

definition hex_bytes :: "nat \<Rightarrow> str \<Rightarrow> 8 word list" where
  "hex_bytes n s = map (\<lambda>i. push_bit 4 (hex_nibble (of_char (s ! (i * 2))))
     OR hex_nibble (of_char (s ! (i * 2 + 1)))) [0..<n]"

definition RECEIPT_TYPEHASH :: "8 word list" where
  "RECEIPT_TYPEHASH = hex_bytes 32 ''32dd026408194a0d7e54cc66a2ab6c856efc55cfcd4dd258fde5b1a55222baa6''"

definition DOMAIN_SEPARATOR :: "8 word list" where
  "DOMAIN_SEPARATOR = hex_bytes 32 ''334534ebf2bc5646180e51fb57f74e967114b2abe197d4aed526f908494a87ce''"

section \<open>Requests and observations\<close>

record probe_request =
  pq_indexer_address :: str
  pq_indexer_url :: str
  pq_deployment_ipfs_hash :: str
  pq_query :: str
  pq_block_hash :: str
  pq_auth_token :: "str option"
  pq_stake_weight :: f64

record gateway_probe_request =
  gq_gateway_url :: str
  gq_api_key :: str
  gq_subgraph_id :: str
  gq_deployment_id :: str
  gq_query :: str
  gq_block_hash :: str

record paid_probe_request =
  dq_indexer_address :: str
  dq_indexer_url :: str
  dq_allocation_id :: str
  dq_deployment_ipfs_hash :: str
  dq_query :: str
  dq_block_hash :: str
  dq_stake_weight :: f64

record raw_observation =
  ro_indexer_address :: str
  ro_response_hash :: "str option"
  ro_raw_response :: "str option"
  ro_latency_ms :: int
  ro_meta_block_number :: "int option"
  ro_meta_block_hash :: "str option"
  ro_http_status :: "int option"
  ro_error_class :: "str option"
  ro_stake_weight :: f64
  ro_request_cid :: "str option"
  ro_response_cid :: "str option"
  ro_attestation :: "str option"
  ro_dispatch_mode :: str

definition DISPATCH_PAID :: str where "DISPATCH_PAID = ''paid''"

definition DISPATCH_GATEWAY :: str where "DISPATCH_GATEWAY = ''gateway''"

definition failed_observation :: "str \<Rightarrow> f64 \<Rightarrow> int \<Rightarrow> int option \<Rightarrow> str \<Rightarrow> str \<Rightarrow> raw_observation" where
  \<comment> \<open>The literal every error path of the source writes out: no answer, no evidence.\<close>
  "failed_observation addr stake latency status class mode = \<lparr>
     ro_indexer_address = addr, ro_response_hash = None, ro_raw_response = None,
     ro_latency_ms = latency, ro_meta_block_number = None, ro_meta_block_hash = None,
     ro_http_status = status, ro_error_class = Some class, ro_stake_weight = stake,
     ro_request_cid = None, ro_response_cid = None, ro_attestation = None, ro_dispatch_mode = mode\<rparr>"

definition gateway_error_observation :: "str \<Rightarrow> raw_observation" where
  "gateway_error_observation class =
     failed_observation ''gateway-error'' (F 1) 0 None class DISPATCH_GATEWAY"

definition error_observation :: "str \<Rightarrow> f64 \<Rightarrow> int option \<Rightarrow> str \<Rightarrow> raw_observation" where
  "error_observation addr stake latency class =
     failed_observation addr stake (case latency of Some l \<Rightarrow> l | None \<Rightarrow> 0) None class DISPATCH_PAID"

section \<open>Attestations\<close>

fun trim_start_0x :: "str \<Rightarrow> str" where
  "trim_start_0x (a # b # s) =
     (if a = CHR ''0'' \<and> b = CHR ''x'' then trim_start_0x s else a # b # s)"
| "trim_start_0x s = s"

fun as_u64 :: "json \<Rightarrow> int option" where
  "as_u64 (JNum (NInt n)) = (if 0 \<le> n \<and> n < 2 ^ 64 then Some n else None)"
| "as_u64 _ = None"

definition parse_hex32 :: "lib \<Rightarrow> json \<Rightarrow> str \<Rightarrow> 8 word list option" where
  "parse_hex32 L v key = do {
     t \<leftarrow> as_str (jidx v key);
     let s = trim_start_0x t;
     if length s \<noteq> 64 then None
     else do {
       bytes \<leftarrow> lib_unhex L s;
       if length bytes = 32 then Some bytes else None
     }
   }"

definition try_recover_signer :: "lib \<Rightarrow> json \<Rightarrow> str option" where
  "try_recover_signer L v = do {
     request_cid \<leftarrow> parse_hex32 L v ''requestCID'';
     response_cid \<leftarrow> parse_hex32 L v ''responseCID'';
     deployment_id \<leftarrow> parse_hex32 L v ''subgraphDeploymentID'';
     r \<leftarrow> parse_hex32 L v ''r'';
     s \<leftarrow> parse_hex32 L v ''s'';
     n \<leftarrow> as_u64 (jidx v ''v'');
     let receipt_hash = lib_keccak L (RECEIPT_TYPEHASH @ request_cid @ response_cid @ deployment_id);
     let msg_hash = lib_keccak L ([0x19, 0x01] @ DOMAIN_SEPARATOR @ receipt_hash);
     vk \<leftarrow> lib_recover L msg_hash r s (word_of_int n);
     Some (''0x'' @ lib_hex L (drop 12 (lib_keccak L (drop 1 vk))))
   }"

definition parse_attestation_address :: "lib \<Rightarrow> str \<Rightarrow> str" where
  "parse_attestation_address L header =
     (case lib_parse L header of
        None \<Rightarrow> ''gateway-bad-attestation''
      | Some v \<Rightarrow> (case try_recover_signer L v of Some a \<Rightarrow> a | None \<Rightarrow> ''gateway-unresolved''))"

definition cid :: "json \<Rightarrow> str \<Rightarrow> str option" where
  "cid v k = (case as_str (jidx v k) of
      None \<Rightarrow> None
    | Some s \<Rightarrow> if length (trim_start_0x s) = 64 then Some s else None)"

definition attestation_cids :: "lib \<Rightarrow> str \<Rightarrow> (str \<times> str) option" where
  "attestation_cids L header = do {
     v \<leftarrow> lib_parse L header;
     _ \<leftarrow> try_recover_signer L v;
     rq \<leftarrow> cid v ''requestCID'';
     rs \<leftarrow> cid v ''responseCID'';
     Some (rq, rs)
   }"

definition extract_meta :: "json \<Rightarrow> int option \<times> str option" where
  "extract_meta v =
     (case jpointer [''data'', ''_meta'', ''block''] v of
        Some b \<Rightarrow> (as_i64 (jidx b ''number''), as_str (jidx b ''hash''))
      | None \<Rightarrow> (None, None))"

definition meta_of :: "json option \<Rightarrow> int option \<times> str option" where
  "meta_of parsed = (case parsed of Some v \<Rightarrow> extract_meta v | None \<Rightarrow> (None, None))"

definition hash_body :: "lib \<Rightarrow> str \<Rightarrow> str option" where
  "hash_body L body = Option.bind
     (normalize_and_hash (lib_parse L) (lib_quote L) (lib_float L) (lib_digest L) body) id"

section \<open>Gateway probes\<close>

datatype http_reply =
    NoClient
  | SendFailed int
  | Response int int "str option" "str option"

text \<open>A response carries its status, its latency, the attestation header and the body, the body
  absent when reading it failed.\<close>

definition is_success :: "int \<Rightarrow> bool" where
  "is_success status \<longleftrightarrow> 200 \<le> status \<and> status < 300"

definition graphql_body :: "str \<Rightarrow> str \<Rightarrow> json" where
  "graphql_body query block_hash = JObj [(''query'', JStr query),
     (''variables'', JObj [(''block'', JObj [(''hash'', JStr block_hash)])])]"

definition gateway_url :: "gateway_probe_request \<Rightarrow> str" where
  "gateway_url req = trim_end_matches (CHR ''/'') (gq_gateway_url req) @ ''/'' @ gq_api_key req @ ''/''
     @ (if starts_with (gq_subgraph_id req) ''Qm'' then ''deployments/id'' else ''subgraphs/id'')
     @ ''/'' @ gq_subgraph_id req"

definition graphql_error :: "json option \<Rightarrow> str option" where
  \<comment> \<open>The unpaid paths: any \<open>errors\<close> field is an error.\<close>
  "graphql_error parsed = (case parsed of
      Some v \<Rightarrow> if jget ''errors'' v \<noteq> None then Some ''graphql_error'' else None
    | None \<Rightarrow> None)"

definition execute_gateway_probe :: "lib \<Rightarrow> (str \<Rightarrow> json \<Rightarrow> http_reply) \<Rightarrow> gateway_probe_request \<Rightarrow>
    raw_observation" where
  "execute_gateway_probe L net req =
     (case net (gateway_url req) (graphql_body (gq_query req) (gq_block_hash req)) of
        NoClient \<Rightarrow> gateway_error_observation ''client_build''
      | SendFailed _ \<Rightarrow> gateway_error_observation ''network_error''
      | Response status latency header body \<Rightarrow>
          if \<not> is_success status
          then failed_observation ''gateway-error'' (F 1) (i32w latency) (Some status) ''http_error'' DISPATCH_GATEWAY
          else (case body of
              None \<Rightarrow> gateway_error_observation ''body_error''
            | Some body_text \<Rightarrow>
                let parsed = lib_parse L body_text;
                    error_class = graphql_error parsed;
                    cids = Option.bind header (attestation_cids L) in
                \<lparr>ro_indexer_address = (case header of
                     Some h \<Rightarrow> parse_attestation_address L h | None \<Rightarrow> ''gateway-no-attestation''),
                 ro_response_hash = (if error_class = None then hash_body L body_text else None),
                 ro_raw_response = Some body_text, ro_latency_ms = i32w latency,
                 ro_meta_block_number = fst (meta_of parsed), ro_meta_block_hash = snd (meta_of parsed),
                 ro_http_status = Some status, ro_error_class = error_class, ro_stake_weight = F 1,
                 ro_request_cid = map_option fst cids, ro_response_cid = map_option snd cids,
                 ro_attestation = header, ro_dispatch_mode = DISPATCH_GATEWAY\<rparr>))"

section \<open>Direct probes\<close>

definition execute_probe :: "lib \<Rightarrow> (str \<Rightarrow> str option \<Rightarrow> json \<Rightarrow> http_reply) \<Rightarrow> probe_request \<Rightarrow>
    raw_observation" where
  "execute_probe L net req =
     (case net (trim_end_matches (CHR ''/'') (pq_indexer_url req) @ ''/subgraphs/id/'' @ pq_deployment_ipfs_hash req)
            (pq_auth_token req) (graphql_body (pq_query req) (pq_block_hash req)) of
        NoClient \<Rightarrow> error_observation (pq_indexer_address req) (pq_stake_weight req) None ''client_build''
      | SendFailed elapsed \<Rightarrow>
          error_observation (pq_indexer_address req) (pq_stake_weight req) (Some (i32w elapsed)) ''network_error''
      | Response status latency header body \<Rightarrow>
          if \<not> is_success status
          then failed_observation (pq_indexer_address req) (pq_stake_weight req) (i32w latency) (Some status)
                 ''http_error'' DISPATCH_PAID
          else (case body of
              None \<Rightarrow> failed_observation (pq_indexer_address req) (pq_stake_weight req) (i32w latency)
                        (Some status) ''body_error'' DISPATCH_PAID
            | Some body_text \<Rightarrow>
                let parsed = lib_parse L body_text;
                    error_class = (case graphql_error parsed of
                      Some c \<Rightarrow> Some c
                    | None \<Rightarrow> if parsed = None then Some ''invalid_json'' else None) in
                \<lparr>ro_indexer_address = pq_indexer_address req,
                 ro_response_hash = (if error_class = None then hash_body L body_text else None),
                 ro_raw_response = Some body_text, ro_latency_ms = i32w latency,
                 ro_meta_block_number = fst (meta_of parsed), ro_meta_block_hash = snd (meta_of parsed),
                 ro_http_status = Some status, ro_error_class = error_class,
                 ro_stake_weight = pq_stake_weight req,
                 ro_request_cid = None, ro_response_cid = None,
                 ro_attestation = None, ro_dispatch_mode = DISPATCH_PAID\<rparr>))"

section \<open>Paid probes\<close>

record paid_reply =
  py_status :: int
  py_body :: str
  py_latency_ms :: int

definition payment_class :: "int \<Rightarrow> str \<Rightarrow> str option" where
  \<comment> \<open>The replies that say we could not pay, before anything is read as the indexer's.\<close>
  "payment_class status body =
     (if status = 402 then Some ''payment_refused''
      else if status = 400 then
        (let body = to_lower body in
         if contains body ''denylist'' then Some ''payment_denylisted''
         else if contains body ''issues with provided receipt'' \<or> contains body ''receipt error''
         then Some ''payment_refused''
         else None)
      else None)"

definition paid_payload :: "lib \<Rightarrow> str \<Rightarrow> str \<times> str option" where
  "paid_payload L body =
     (case lib_parse L body of
        Some v \<Rightarrow> ((case Option.bind (jget ''graphQLResponse'' v) as_str of Some s \<Rightarrow> s | None \<Rightarrow> body),
                  map_option (lib_text L) (jget ''attestation'' v))
      | None \<Rightarrow> (body, None))"

definition paid_error :: "json option \<Rightarrow> str option" where
  \<comment> \<open>The paid path: only a non-empty \<open>errors\<close> array is a GraphQL error.\<close>
  "paid_error parsed =
     (case parsed of
        None \<Rightarrow> Some ''invalid_json''
      | Some v \<Rightarrow> (case Option.bind (jget ''errors'' v) as_array of
            Some (x # xs) \<Rightarrow> Some ''graphql_error''
          | _ \<Rightarrow> None))"

definition execute_paid_probe :: "lib \<Rightarrow> (str \<Rightarrow> 'a option) \<Rightarrow>
    (str \<Rightarrow> 'a \<Rightarrow> 'a \<Rightarrow> str \<Rightarrow> str \<Rightarrow> paid_reply option) \<Rightarrow> paid_probe_request \<Rightarrow> raw_observation" where
  "execute_paid_probe L parse_address client req =
     (let addr = dq_indexer_address req; stake = dq_stake_weight req in
      case parse_address addr of
        None \<Rightarrow> error_observation addr stake None ''bad_indexer_address''
      | Some indexer \<Rightarrow>
      (case parse_address (dq_allocation_id req) of
        None \<Rightarrow> error_observation addr stake None ''bad_allocation_id''
      | Some allocation \<Rightarrow>
      (case client (dq_indexer_url req) indexer allocation (dq_deployment_ipfs_hash req)
              (lib_text L (graphql_body (dq_query req) (dq_block_hash req))) of
        None \<Rightarrow> error_observation addr stake None ''network_error''
      | Some resp \<Rightarrow>
          let latency = i32w (py_latency_ms resp) in
          (case payment_class (py_status resp) (py_body resp) of
             Some class \<Rightarrow> error_observation addr stake (Some latency) class
           | None \<Rightarrow>
             if py_status resp \<noteq> 200
             then failed_observation addr stake latency (Some (i32w (py_status resp))) ''http_error'' DISPATCH_PAID
             else let (payload, attestation) = paid_payload L (py_body resp);
                      cids = Option.bind attestation (attestation_cids L);
                      parsed = lib_parse L payload;
                      error_class = paid_error parsed in
                \<lparr>ro_indexer_address = addr,
                 ro_response_hash = (if error_class = None then hash_body L payload else None),
                 ro_raw_response = Some payload, ro_latency_ms = latency,
                 ro_meta_block_number = fst (meta_of parsed), ro_meta_block_hash = snd (meta_of parsed),
                 ro_http_status = Some 200, ro_error_class = error_class, ro_stake_weight = stake,
                 ro_request_cid = map_option fst cids, ro_response_cid = map_option snd cids,
                 ro_attestation = attestation, ro_dispatch_mode = DISPATCH_PAID\<rparr>))))"

end
