(* ===== verification/Cluster.thy ===== *)
theory Cluster
  imports Normalize
begin

text \<open>
  Response clustering, \<open>foghorn-probe/src/cluster.rs\<close>. The iteration order of the hash map, which
  the language leaves open, is the argument \<open>ord\<close>; the JSON parser and the JSON patch diff are the
  arguments \<open>parse\<close> and \<open>jdiff\<close>. A panic is \<open>None\<close>.
\<close>

record cluster_input =
  ci_indexer_address :: str
  ci_response_hash :: "str option"
  ci_raw_response :: "str option"
  ci_stake_weight :: f64

record cluster_result =
  cluster_count :: int
  diff_patches :: json
  largest_by_count_hash :: str
  largest_by_count_size :: int
  largest_by_stake_hash :: str
  largest_by_stake_weight :: f64
  is_divergent :: bool

record cluster =
  cg_hash :: str
  cg_members :: "str list"
  cg_stake_weight :: f64

type_synonym members = "(str \<times> (str \<times> f64) list) list"

definition hash_members :: "cluster_input list \<Rightarrow> members" where
  "hash_members inputs = group_pairs (List.map_filter
     (\<lambda>i. map_option (\<lambda>h. (h, (ci_indexer_address i, ci_stake_weight i))) (ci_response_hash i)) inputs)"

definition hash_to_raw :: "cluster_input list \<Rightarrow> (str, str) table" where
  "hash_to_raw inputs = foldl (\<lambda>m i. case (ci_response_hash i, ci_raw_response i) of
       (Some h, Some raw) \<Rightarrow> tput_new h raw m | _ \<Rightarrow> m) [] inputs"

text \<open>\<open>max_by_key\<close> keeps the last of equal maxima; \<open>max_by\<close> with an unwrapped partial comparison
  panics on a NaN.\<close>

definition max_by_key :: "('a \<Rightarrow> nat) \<Rightarrow> 'a list \<Rightarrow> 'a option" where
  "max_by_key f xs = (case xs of [] \<Rightarrow> None
     | a # as \<Rightarrow> Some (foldl (\<lambda>x y. if f y < f x then x else y) a as))"

fun max_by_f64 :: "('a \<Rightarrow> f64) \<Rightarrow> 'a \<Rightarrow> 'a list \<Rightarrow> 'a option" where
  "max_by_f64 f x [] = Some x"
| "max_by_f64 f x (y # ys) =
     (if is_nan (f x) \<or> is_nan (f y) then None
      else max_by_f64 f (if flt (f y) (f x) then x else y) ys)"

definition compute_diff :: "(str \<Rightarrow> json option) \<Rightarrow> (json \<Rightarrow> json \<Rightarrow> json) \<Rightarrow> str \<Rightarrow> str \<Rightarrow> json" where
  "compute_diff parse jdiff raw_a raw_b =
     (case parse raw_a of None \<Rightarrow> JArr []
      | Some a \<Rightarrow> (case parse raw_b of None \<Rightarrow> JArr []
                 | Some b \<Rightarrow> jdiff (strip_volatile a) (strip_volatile b)))"

definition cluster_list :: "(members \<Rightarrow> members) \<Rightarrow> cluster_input list \<Rightarrow> cluster list" where
  "cluster_list ord inputs = map (\<lambda>(h, ms).
     \<lparr>cg_hash = h, cg_members = map fst ms, cg_stake_weight = fsum (map snd ms)\<rparr>)
     (ord (hash_members inputs))"

definition by_count_idx :: "cluster list \<Rightarrow> nat" where
  "by_count_idx cs =
     (case max_by_key (\<lambda>(i, c). length (cg_members c)) (enumerate 0 cs) of Some (i, _) \<Rightarrow> i | None \<Rightarrow> 0)"

definition by_stake_idx :: "cluster list \<Rightarrow> nat option" where
  "by_stake_idx cs = (case enumerate 0 cs of [] \<Rightarrow> Some 0
     | a # as \<Rightarrow> map_option fst (max_by_f64 (\<lambda>(i, c). cg_stake_weight c) a as))"

definition second_idx :: "cluster list \<Rightarrow> nat" where
  "second_idx cs =
     (case max_by_key (\<lambda>(i, c). length (cg_members c))
         (filter (\<lambda>(i, _). i \<noteq> by_count_idx cs) (enumerate 0 cs)) of
        Some (i, _) \<Rightarrow> i
      | None \<Rightarrow> if by_count_idx cs = 0 then 1 else 0)"

definition empty_clusters :: cluster_result where
  "empty_clusters = \<lparr>cluster_count = 0, diff_patches = JArr [], largest_by_count_hash = '''',
     largest_by_count_size = 0, largest_by_stake_hash = '''', largest_by_stake_weight = F 0,
     is_divergent = False\<rparr>"

definition compute_clusters :: "(str \<Rightarrow> json option) \<Rightarrow> (json \<Rightarrow> json \<Rightarrow> json) \<Rightarrow> (members \<Rightarrow> members) \<Rightarrow>
    cluster_input list \<Rightarrow> cluster_result option" where
  "compute_clusters parse jdiff ord inputs =
     (if hash_members inputs = [] then Some empty_clusters
      else let cs = cluster_list ord inputs;
               divergent = 1 < length cs;
               c = cs ! by_count_idx cs in
        case by_stake_idx cs of
          None \<Rightarrow> None
        | Some si \<Rightarrow> Some \<lparr>
            cluster_count = i32w (int (length cs)),
            diff_patches = (if divergent
              then case (map_of (hash_to_raw inputs) (cg_hash c),
                         map_of (hash_to_raw inputs) (cg_hash (cs ! second_idx cs))) of
                     (Some a, Some b) \<Rightarrow> compute_diff parse jdiff a b
                   | _ \<Rightarrow> JArr []
              else JArr []),
            largest_by_count_hash = cg_hash c,
            largest_by_count_size = i32w (int (length (cg_members c))),
            largest_by_stake_hash = cg_hash (cs ! si),
            largest_by_stake_weight = cg_stake_weight (cs ! si),
            is_divergent = divergent\<rparr>)"

section \<open>Largest elements\<close>

lemma foldl_max: "foldl (\<lambda>x y. if (f y :: nat) < f x then x else y) a as \<in> insert a (set as) \<and>
    (\<forall>x \<in> insert a (set as). f x \<le> f (foldl (\<lambda>x y. if f y < f x then x else y) a as))"
  by (induction as arbitrary: a) (auto split: if_splits intro: order.trans, fastforce+)

lemma max_by_key_Some: "max_by_key f xs = Some m \<Longrightarrow> m \<in> set xs \<and> (\<forall>x \<in> set xs. f x \<le> f m)"
  using foldl_max [of f "hd xs" "tl xs"] by (cases xs) (auto simp: max_by_key_def)

lemma max_by_key_None: "max_by_key f xs = None \<longleftrightarrow> xs = []"
  by (cases xs) (auto simp: max_by_key_def)

lemma max_by_f64_in: "max_by_f64 f x ys = Some m \<Longrightarrow> m \<in> insert x (set ys)"
  by (induction f x ys rule: max_by_f64.induct) (auto split: if_splits)

lemma max_by_f64_total: "\<forall>z \<in> insert x (set ys). \<not> is_nan (f z) \<Longrightarrow> max_by_f64 f x ys \<noteq> None"
  by (induction f x ys rule: max_by_f64.induct) auto

lemma in_enumerate: "(i, c) \<in> set (enumerate 0 cs) \<Longrightarrow> i < length cs \<and> cs ! i = c"
  by (auto simp: in_set_enumerate_eq)

lemma by_count_spec:
  assumes "cs \<noteq> []"
  shows "by_count_idx cs < length cs"
    and "c \<in> set cs \<Longrightarrow> length (cg_members c) \<le> length (cg_members (cs ! by_count_idx cs))"
proof -
  let ?f = "\<lambda>(i :: nat, c). length (cg_members c)"
  have "enumerate 0 cs \<noteq> []" using assms by (cases cs) auto
  then obtain m where m: "max_by_key ?f (enumerate 0 cs) = Some m" using max_by_key_None by blast
  obtain i d where id: "m = (i, d)" by (cases m)
  have s: "(i, d) \<in> set (enumerate 0 cs)" "\<And>x. x \<in> set (enumerate 0 cs) \<Longrightarrow> ?f x \<le> ?f (i, d)"
    using max_by_key_Some [OF m] id by auto
  have b: "by_count_idx cs = i" using m id by (simp add: by_count_idx_def)
  then show "by_count_idx cs < length cs" using in_enumerate [OF s(1)] by simp
  show "length (cg_members c) \<le> length (cg_members (cs ! by_count_idx cs))" if c: "c \<in> set cs"
  proof -
    obtain j where "j < length cs" "cs ! j = c" using c by (auto simp: in_set_conv_nth)
    then have "(j, c) \<in> set (enumerate 0 cs)" by (auto simp: in_set_enumerate_eq)
    from s(2) [OF this] show ?thesis using b in_enumerate [OF s(1)] by simp
  qed
qed

section \<open>What the clusters are\<close>

definition hash_count :: "str \<Rightarrow> cluster_input list \<Rightarrow> nat" where
  "hash_count h inputs = length (filter (\<lambda>i. ci_response_hash i = Some h) inputs)"

definition answered :: "cluster_input list \<Rightarrow> nat" where
  "answered inputs = length (filter (\<lambda>i. ci_response_hash i \<noteq> None) inputs)"

definition hashes :: "cluster_input list \<Rightarrow> str list" where
  "hashes inputs = remdups (List.map_filter ci_response_hash inputs)"

definition permutes :: "(members \<Rightarrow> members) \<Rightarrow> bool" where
  "permutes ord \<longleftrightarrow> (\<forall>m. mset (ord m) = mset m)"

lemma members_at: "values_at h (List.map_filter
     (\<lambda>i. map_option (\<lambda>h. (h, (ci_indexer_address i, ci_stake_weight i))) (ci_response_hash i)) inputs)
   = map (\<lambda>i. (ci_indexer_address i, ci_stake_weight i)) (filter (\<lambda>i. ci_response_hash i = Some h) inputs)"
  by (induction inputs) (auto simp: map_filter_simps split: option.splits)

lemma members_keys: "fst ` set (List.map_filter
     (\<lambda>i. map_option (\<lambda>h. (h, (ci_indexer_address i, ci_stake_weight i))) (ci_response_hash i)) inputs)
   = {h. Some h \<in> ci_response_hash ` set inputs}"
  by (induction inputs) (auto simp: map_filter_simps split: option.splits)

lemma hash_members_entry: "(h, ms) \<in> set (hash_members inputs) \<longleftrightarrow>
    Some h \<in> ci_response_hash ` set inputs \<and>
    ms = map (\<lambda>i. (ci_indexer_address i, ci_stake_weight i)) (filter (\<lambda>i. ci_response_hash i = Some h) inputs)"
  unfolding hash_members_def group_entry members_at members_keys by auto

lemma hash_members_empty: "hash_members inputs = [] \<longleftrightarrow> answered inputs = 0"
  unfolding hash_members_def group_empty answered_def
  by (induction inputs) (auto simp: map_filter_simps split: option.splits)

lemma cluster_list_entry:
  assumes "permutes ord"
  shows "c \<in> set (cluster_list ord inputs) \<longleftrightarrow>
    Some (cg_hash c) \<in> ci_response_hash ` set inputs \<and>
    c = \<lparr>cg_hash = cg_hash c,
         cg_members = map ci_indexer_address (filter (\<lambda>i. ci_response_hash i = Some (cg_hash c)) inputs),
         cg_stake_weight = fsum (map ci_stake_weight (filter (\<lambda>i. ci_response_hash i = Some (cg_hash c)) inputs))\<rparr>"
proof -
  have "set (ord (hash_members inputs)) = set (hash_members inputs)"
    using assms unfolding permutes_def by (metis mset_eq_setD)
  then show ?thesis
    unfolding cluster_list_def set_map image_iff
    by (cases c) (auto simp: hash_members_entry comp_def Bex_def image_iff)
qed

lemma cluster_size: "permutes ord \<Longrightarrow> c \<in> set (cluster_list ord inputs) \<Longrightarrow>
    length (cg_members c) = hash_count (cg_hash c) inputs"
  by (cases c) (auto simp: cluster_list_entry hash_count_def)

lemma answered_split: "h \<noteq> h' \<Longrightarrow> hash_count h inputs + hash_count h' inputs \<le> answered inputs"
  unfolding hash_count_def answered_def by (induction inputs) auto
lemma compute_nonempty:
  assumes "answered inputs \<noteq> 0" and "permutes ord" and "compute_clusters parse jdiff ord inputs = Some r"
  obtains c where "c \<in> set (cluster_list ord inputs)" and "largest_by_count_hash r = cg_hash c"
    and "largest_by_count_size r = i32w (int (length (cg_members c)))"
    and "\<And>d. d \<in> set (cluster_list ord inputs) \<Longrightarrow> length (cg_members d) \<le> length (cg_members c)"
proof -
  let ?cs = "cluster_list ord inputs"
  have "hash_members inputs \<noteq> []" using assms(1) by (simp add: hash_members_empty)
  moreover have "mset (ord (hash_members inputs)) = mset (hash_members inputs)"
    using assms(2) by (simp add: permutes_def)
  ultimately have "?cs \<noteq> []" by (auto simp: cluster_list_def)
  with \<open>hash_members inputs \<noteq> []\<close> show ?thesis
    using that [of "?cs ! by_count_idx ?cs"] by_count_spec [of ?cs] assms(3)
    by (auto simp: compute_clusters_def Let_def split: option.splits)
qed

lemma cluster_of: "permutes ord \<Longrightarrow> hash_count h inputs \<noteq> 0 \<Longrightarrow>
    \<exists>c \<in> set (cluster_list ord inputs). cg_hash c = h"
proof -
  assume p: "permutes ord" and h: "hash_count h inputs \<noteq> 0"
  then have "Some h \<in> ci_response_hash ` set inputs"
    unfolding hash_count_def by (metis (mono_tags, lifting) filter_False image_eqI length_0_conv)
  then show ?thesis using cluster_list_entry [OF p, of "\<lparr>cg_hash = h,
      cg_members = map ci_indexer_address (filter (\<lambda>i. ci_response_hash i = Some h) inputs),
      cg_stake_weight = fsum (map ci_stake_weight (filter (\<lambda>i. ci_response_hash i = Some h) inputs))\<rparr>" inputs]
    by (metis cluster.select_convs(1))
qed

lemma largest_cluster:
  assumes "permutes ord" and "length inputs < 2 ^ 31" and "compute_clusters parse jdiff ord inputs = Some r"
  shows "largest_by_count_size r = int (hash_count (largest_by_count_hash r) inputs)
     \<or> answered inputs = 0 \<and> r = empty_clusters"
    and "int (hash_count h inputs) \<le> largest_by_count_size r"
    and "answered inputs < 2 * hash_count h inputs \<Longrightarrow> largest_by_count_hash r = h"
proof -
  have le: "hash_count h inputs \<le> answered inputs" for h
    unfolding hash_count_def answered_def by (induction inputs) auto
  have "answered inputs \<le> length inputs" by (simp add: answered_def)
  then have small: "i32w (int (hash_count h inputs)) = int (hash_count h inputs)" for h
    using assms(2) le [of h] by (intro i32w_id) auto
  show A: "largest_by_count_size r = int (hash_count (largest_by_count_hash r) inputs)
     \<or> answered inputs = 0 \<and> r = empty_clusters"
  proof (cases "answered inputs = 0")
    case True
    then show ?thesis using assms(3) hash_members_empty [of inputs] by (auto simp: compute_clusters_def)
  next
    case False
    from compute_nonempty [OF this assms(1,3)] show ?thesis
      by (metis cluster_size [OF assms(1)] small)
  qed
  show M: "int (hash_count h inputs) \<le> largest_by_count_size r" for h
  proof (cases "answered inputs = 0 \<or> hash_count h inputs = 0")
    case True
    then have "hash_count h inputs = 0" using le [of h] by auto
    then show ?thesis using A by (auto simp: empty_clusters_def)
  next
    case False
    then have nz: "answered inputs \<noteq> 0" by simp
    obtain d where d: "d \<in> set (cluster_list ord inputs)" "cg_hash d = h"
      using cluster_of [OF assms(1)] False by blast
    show ?thesis
      by (rule compute_nonempty [OF nz assms(1,3)])
        (metis cluster_size [OF assms(1)] d small of_nat_le_iff)
  qed
  show "largest_by_count_hash r = h" if "answered inputs < 2 * hash_count h inputs"
  proof (rule ccontr)
    assume ne: "largest_by_count_hash r \<noteq> h"
    have "answered inputs \<noteq> 0" using that le [of h] by auto
    then have "hash_count h inputs \<le> hash_count (largest_by_count_hash r) inputs"
      using A M [of h] by auto
    with answered_split [OF ne, of inputs] that show False by linarith
  qed
qed

lemma fsum_not_nan: "list_all (\<lambda>w. \<exists>q. w = Fin q \<and> 0 \<le> q) ws \<Longrightarrow> \<not> is_nan (fsum ws)"
proof -
  have F: "a \<noteq> NaN \<Longrightarrow> a \<noteq> Infty False \<Longrightarrow> (\<And>q. a = Fin q \<Longrightarrow> 0 \<le> q) \<Longrightarrow>
      list_all (\<lambda>w. \<exists>q. w = Fin q \<and> 0 \<le> q) ws \<Longrightarrow> \<not> is_nan (foldl fadd a ws)" for a
  proof (induction ws arbitrary: a)
    case Nil
    then show ?case by (cases a) auto
  next
    case (Cons w ws)
    then obtain q where q: "w = Fin q" "0 \<le> q" by auto
    have "- pow2 1024 < (0 :: rat)" using pow2_pos [of 1024] by linarith
    have nn: "F x \<noteq> Infty False \<and> (\<forall>q. F x = Fin q \<longrightarrow> 0 \<le> q)" if "0 \<le> x" for x
      using rnd_nonneg [OF that] pow2_pos [of 1024] by (auto simp: F_def Let_def)
    have "fadd a w \<noteq> NaN \<and> fadd a w \<noteq> Infty False \<and> (\<forall>q. fadd a w = Fin q \<longrightarrow> 0 \<le> q)"
      using Cons.prems(1-3) q nn [THEN conjunct1] nn [THEN conjunct2, rule_format]
      by (cases a) (auto dest: nn [THEN conjunct2, rule_format, rotated])
    then show ?case using Cons.IH [of "fadd a w"] Cons.prems(4) by auto
  qed
  assume "list_all (\<lambda>w. \<exists>q. w = Fin q \<and> 0 \<le> q) ws"
  then show ?thesis unfolding fsum_def by (intro F) auto
qed

lemma compute_total:
  assumes "permutes ord" and "list_all (\<lambda>i. \<exists>q. ci_stake_weight i = Fin q \<and> 0 \<le> q) inputs"
  shows "\<exists>r. compute_clusters parse jdiff ord inputs = Some r"
proof -
  let ?cs = "cluster_list ord inputs"
  have "\<not> is_nan (cg_stake_weight c)" if "c \<in> set ?cs" for c
  proof -
    have "cg_stake_weight c = fsum (map ci_stake_weight (filter (\<lambda>i. ci_response_hash i = Some (cg_hash c)) inputs))"
      using that cluster_list_entry [OF assms(1), of c inputs] by (metis cluster.select_convs(3))
    moreover have "list_all (\<lambda>w. \<exists>q. w = Fin q \<and> 0 \<le> q)
       (map ci_stake_weight (filter (\<lambda>i. ci_response_hash i = Some (cg_hash c)) inputs))"
      using assms(2) by (auto simp: list_all_iff)
    ultimately show ?thesis using fsum_not_nan by simp
  qed
  then have "\<forall>z \<in> set (enumerate 0 ?cs). \<not> is_nan ((\<lambda>(i, c). cg_stake_weight c) z)"
    by (auto dest: in_enumerate)
  then have "by_stake_idx ?cs \<noteq> None"
    using max_by_f64_total [of "hd (enumerate 0 ?cs)" "tl (enumerate 0 ?cs)" "\<lambda>(i, c). cg_stake_weight c"]
    by (cases "enumerate 0 ?cs") (auto simp: by_stake_idx_def)
  then show ?thesis by (auto simp: compute_clusters_def Let_def)
qed

lemma cluster_list_length: "permutes ord \<Longrightarrow> length (cluster_list ord inputs) = card {h. Some h \<in> ci_response_hash ` set inputs}"
proof -
  assume p: "permutes ord"
  have "mset (ord (hash_members inputs)) = mset (hash_members inputs)" using p by (simp add: permutes_def)
  then have "length (cluster_list ord inputs) = length (hash_members inputs)"
    unfolding cluster_list_def length_map by (rule mset_eq_length)
  also have "\<dots> = card (set (map fst (hash_members inputs)))"
    unfolding hash_members_def by (subst distinct_card) (simp_all add: twf_group [unfolded twf_def])
  also have "set (map fst (hash_members inputs)) = {h. Some h \<in> ci_response_hash ` set inputs}"
    unfolding set_map hash_members_def group_keys members_keys ..
  finally show ?thesis .
qed

lemma divergence_count:
  assumes "permutes ord" and "length inputs < 2 ^ 31" and "compute_clusters parse jdiff ord inputs = Some r"
  shows "cluster_count r = int (card {h. Some h \<in> ci_response_hash ` set inputs})"
    and "is_divergent r \<longleftrightarrow> 2 \<le> card {h. Some h \<in> ci_response_hash ` set inputs}"
proof -
  let ?H = "{h. Some h \<in> ci_response_hash ` set inputs}"
  have "?H \<subseteq> the ` ci_response_hash ` set inputs"
  proof
    fix h assume "h \<in> ?H"
    then have "the (Some h) \<in> the ` ci_response_hash ` set inputs" by (intro imageI) simp
    then show "h \<in> the ` ci_response_hash ` set inputs" by simp
  qed
  then have "card ?H \<le> length inputs"
    by (metis (no_types, lifting) List.finite_set card_image_le card_length card_mono finite_imageI order.trans)
  then have small: "i32w (int (card ?H)) = int (card ?H)" using assms(2) by (intro i32w_id) auto
  have e: "?H = {}" if "hash_members inputs = []"
    using that hash_members_empty [of inputs] by (auto simp: answered_def filter_empty_conv image_iff)
  show "cluster_count r = int (card ?H)" and "is_divergent r \<longleftrightarrow> 2 \<le> card ?H"
    using assms(3) e small cluster_list_length [OF assms(1), of inputs]
    by (auto simp: compute_clusters_def Let_def empty_clusters_def split: if_splits option.splits)
qed

section \<open>Properties\<close>

definition three_answers :: "cluster_input list" where
  "three_answers =
     [\<lparr>ci_indexer_address = ''0xa'', ci_response_hash = Some ''h1'', ci_raw_response = None, ci_stake_weight = Fin 1\<rparr>,
      \<lparr>ci_indexer_address = ''0xb'', ci_response_hash = Some ''h2'', ci_raw_response = None, ci_stake_weight = Fin 5\<rparr>,
      \<lparr>ci_indexer_address = ''0xc'', ci_response_hash = Some ''h1'', ci_raw_response = None, ci_stake_weight = Fin 1\<rparr>,
      \<lparr>ci_indexer_address = ''0xd'', ci_response_hash = None, ci_raw_response = None, ci_stake_weight = Fin 1\<rparr>]"

lemma permutes_id: "permutes (\<lambda>m. m)" and permutes_rev: "permutes rev"
  by (simp_all add: permutes_def)

text \<open>
  C14. The largest cluster is a largest one, and a strict majority is found: the reported size is
  the number of answers with the reported hash, no hash has more, and a hash that more than half of
  the answers share is the reported one, whatever order the hash map iterates in.
\<close>

theorem majority_found:
  assumes "permutes ord" and "length inputs < 2 ^ 31" and "compute_clusters parse jdiff ord inputs = Some r"
    and "answered inputs \<noteq> 0"
  shows "largest_by_count_size r = int (hash_count (largest_by_count_hash r) inputs)
    \<and> (\<forall>h. int (hash_count h inputs) \<le> largest_by_count_size r)
    \<and> (\<forall>h. answered inputs < 2 * hash_count h inputs \<longrightarrow> largest_by_count_hash r = h)"
  using largest_cluster [OF assms(1-3)] assms(4) by blast

theorem majority_found_witness:
  "\<exists>r. compute_clusters (\<lambda>_. None) (\<lambda>_ _. JArr []) rev three_answers = Some r \<and> largest_by_count_hash r = ''h1''"
proof -
  have "\<exists>r. compute_clusters (\<lambda>_. None) (\<lambda>_ _. JArr []) rev three_answers = Some r"
    by (rule compute_total [OF permutes_rev]) (simp add: three_answers_def)
  then obtain r where r: "compute_clusters (\<lambda>_. None) (\<lambda>_ _. JArr []) rev three_answers = Some r" ..
  have "length three_answers < 2 ^ 31" "answered three_answers \<noteq> 0"
    "answered three_answers < 2 * hash_count ''h1'' three_answers"
    by (simp_all add: three_answers_def answered_def hash_count_def)
  with majority_found [OF permutes_rev _ r] r show ?thesis by auto
qed

text \<open>
  The hash map's iteration order does not decide a finding: under any two orders the number of
  clusters, the divergence flag and the size of the largest cluster are the same.
\<close>

theorem clustering_order_free:
  assumes "permutes ord" and "permutes ord'" and "length inputs < 2 ^ 31"
    and "compute_clusters parse jdiff ord inputs = Some r" and "compute_clusters parse jdiff ord' inputs = Some r'"
  shows "cluster_count r = cluster_count r' \<and> (is_divergent r \<longleftrightarrow> is_divergent r')
    \<and> largest_by_count_size r = largest_by_count_size r'"
proof -
  note a = largest_cluster [OF assms(1,3,4)] and b = largest_cluster [OF assms(2,3,5)]
  have "0 \<le> largest_by_count_size r" "0 \<le> largest_by_count_size r'"
    using a(2) [of undefined] b(2) [of undefined] by linarith+
  then have "largest_by_count_size r \<le> largest_by_count_size r'"
    and "largest_by_count_size r' \<le> largest_by_count_size r"
    using a(1) b(1) a(2) [of "largest_by_count_hash r'"] b(2) [of "largest_by_count_hash r"]
    by (auto simp: empty_clusters_def)
  then have "largest_by_count_size r = largest_by_count_size r'" by (rule antisym)
  then show ?thesis
    using divergence_count [OF assms(1,3,4)] divergence_count [OF assms(2,3,5)] by simp
qed

theorem clustering_order_free_witness:
  "\<exists>r r'. compute_clusters (\<lambda>_. None) (\<lambda>_ _. JArr []) (\<lambda>m. m) three_answers = Some r
     \<and> compute_clusters (\<lambda>_. None) (\<lambda>_ _. JArr []) rev three_answers = Some r'
     \<and> cluster_count r = cluster_count r' \<and> largest_by_count_size r = largest_by_count_size r'"
proof -
  have w: "list_all (\<lambda>i. \<exists>q. ci_stake_weight i = Fin q \<and> 0 \<le> q) three_answers"
    by (simp add: three_answers_def)
  obtain r r' where a: "compute_clusters (\<lambda>_. None) (\<lambda>_ _. JArr []) (\<lambda>m. m) three_answers = Some r"
    and b: "compute_clusters (\<lambda>_. None) (\<lambda>_ _. JArr []) rev three_answers = Some r'"
    using compute_total [OF permutes_id w, of "\<lambda>_. None" "\<lambda>_ _. JArr []"]
      compute_total [OF permutes_rev w, of "\<lambda>_. None" "\<lambda>_ _. JArr []"] by blast
  have "length three_answers < 2 ^ 31" by (simp add: three_answers_def)
  from clustering_order_free [OF permutes_id permutes_rev this a b] show ?thesis
    using a b by blast
qed

text \<open>
  Clustering does not panic when every stake weight is a finite number that is not negative:
  the unwrapped comparison of stakes never meets a NaN.
\<close>

theorem clustering_total:
  assumes "permutes ord" and "list_all (\<lambda>i. \<exists>q. ci_stake_weight i = Fin q \<and> 0 \<le> q) inputs"
  shows "\<exists>r. compute_clusters parse jdiff ord inputs = Some r"
  by (rule compute_total [OF assms])

theorem clustering_total_witness:
  "\<exists>r. compute_clusters (\<lambda>_. None) (\<lambda>_ _. JArr []) rev three_answers = Some r"
  by (rule clustering_total [OF permutes_rev]) (simp add: three_answers_def)

end
