(* ===== verification/Allocations.thy ===== *)
theory Allocations
  imports Normalize "HOL-Library.Product_Lexorder"
begin

text \<open>
  The set of allocations a paid probe may bill: reading it from the nest
  (\<open>foghorn-probe/src/nest.rs\<close>), replacing the table with it, reading it page by page from the
  gateway instead, and the payable targets (\<open>foghorn-probe/src/allocations.rs\<close>). The nest and the
  gateway are arguments (what each request returns); so are the hexadecimal decoder, base58 and the
  database's cast to a number. A transaction commits all its rows or none.
\<close>

section \<open>The nest\<close>

definition MAX_LAG_BLOCKS :: nat where "MAX_LAG_BLOCKS = 10000"

record ready_body =
  rb_ready :: bool
  rb_lag_blocks :: "nat option"

record 'a sql_body =
  sb_rows :: "'a list"
  sb_truncated :: bool

text \<open>A reply: the request failed, or a status with the body, absent when it did not parse.\<close>

datatype 'a reply = Unreachable | Reply int "'a option"

datatype nest_error =
    NestUnreachable
  | NestUnparseable
  | NestHttp int
  | NestTruncated
  | NestNotReady
  | NestNoLag
  | NestBehind nat
  | NestEmpty
  | BadNumeric
  | GatewayRejected
  | GatewayUnreachable

record nest_allocation =
  na_allocation_id :: str
  na_indexer :: str
  na_deployment_id :: str
  na_tokens :: "str option"

record nest_endpoint =
  ne_indexer :: str
  ne_data :: str

record nest =
  nest_ready :: "ready_body reply"
  nest_allocation_rows :: "nest_allocation sql_body reply"
  nest_endpoint_rows :: "nest_endpoint sql_body reply"

definition ok_status :: "int \<Rightarrow> bool" where
  "ok_status s \<longleftrightarrow> 200 \<le> s \<and> s < 300"

definition nest_sql :: "'a sql_body reply \<Rightarrow> nest_error + 'a list" where
  "nest_sql r = (case r of
      Unreachable \<Rightarrow> Inl NestUnreachable
    | Reply status body \<Rightarrow>
        if \<not> ok_status status then Inl (NestHttp status)
        else (case body of
            None \<Rightarrow> Inl NestUnparseable
          | Some b \<Rightarrow> if sb_truncated b then Inl NestTruncated else Inr (sb_rows b)))"

definition lag_blocks :: "nest \<Rightarrow> nest_error + nat" where
  "lag_blocks n = (case nest_ready n of
      Unreachable \<Rightarrow> Inl NestUnreachable
    | Reply status None \<Rightarrow> Inl NestUnparseable
    | Reply status (Some b) \<Rightarrow>
        if \<not> ok_status status \<and> status \<noteq> 503 then Inl (NestHttp status)
        else if \<not> rb_ready b then Inl NestNotReady
        else (case rb_lag_blocks b of None \<Rightarrow> Inl NestNoLag | Some l \<Rightarrow> Inr l))"

definition allocations :: "(str \<Rightarrow> 8 word list option) \<Rightarrow> (8 word list \<Rightarrow> str) \<Rightarrow> nest \<Rightarrow>
    nest_error + nest_allocation list" where
  "allocations unhex b58 n = (case lag_blocks n of
      Inl e \<Rightarrow> Inl e
    | Inr lag \<Rightarrow>
        if MAX_LAG_BLOCKS < lag then Inl (NestBehind lag)
        else (case nest_sql (nest_allocation_rows n) of
            Inl e \<Rightarrow> Inl e
          | Inr rows \<Rightarrow>
              if rows = [] then Inl NestEmpty
              else Inr (map (\<lambda>a. a\<lparr>na_deployment_id := normalise_deployment_id unhex b58 (na_deployment_id a)\<rparr>) rows)))"

section \<open>Service endpoints\<close>

text \<open>\<open>String::from_utf8_lossy\<close> on bytes: how long the next sequence is, and whether it is valid;
  an invalid one becomes the three bytes of the replacement character.\<close>

definition is_cont :: "8 word list \<Rightarrow> nat \<Rightarrow> bool" where
  "is_cont bs i \<longleftrightarrow> i < length bs \<and> 0x80 \<le> bs ! i \<and> bs ! i \<le> 0xBF"

definition second_ok :: "8 word \<Rightarrow> 8 word list \<Rightarrow> bool" where
  "second_ok b bs \<longleftrightarrow> is_cont bs 1 \<and> (b = 0xE0 \<longrightarrow> 0xA0 \<le> bs ! 1) \<and> (b = 0xED \<longrightarrow> bs ! 1 \<le> 0x9F)
     \<and> (b = 0xF0 \<longrightarrow> 0x90 \<le> bs ! 1) \<and> (b = 0xF4 \<longrightarrow> bs ! 1 \<le> 0x8F)"

definition utf8_next :: "8 word list \<Rightarrow> bool \<times> nat" where
  "utf8_next bs = (let b = hd bs in
     if b < 0x80 then (True, 1)
     else if 0xC2 \<le> b \<and> b \<le> 0xDF then (if is_cont bs 1 then (True, 2) else (False, 1))
     else if 0xE0 \<le> b \<and> b \<le> 0xEF then
       (if \<not> second_ok b bs then (False, 1) else if is_cont bs 2 then (True, 3) else (False, 2))
     else if 0xF0 \<le> b \<and> b \<le> 0xF4 then
       (if \<not> second_ok b bs then (False, 1) else if \<not> is_cont bs 2 then (False, 2)
        else if is_cont bs 3 then (True, 4) else (False, 3))
     else (False, 1))"

lemma utf8_next_pos: "0 < snd (utf8_next bs)"
  by (simp add: utf8_next_def Let_def)

function from_utf8_lossy :: "8 word list \<Rightarrow> str" where
  "from_utf8_lossy bs = (if bs = [] then []
     else let (ok, n) = utf8_next bs in
       (if ok then map (\<lambda>b. char_of (unat b)) (take n bs) else [CHR 0xEF, CHR 0xBF, CHR 0xBD])
         @ from_utf8_lossy (drop n bs))"
  by pat_completeness auto
termination
proof (relation "measure length")
  fix bs x ok n assume b: "bs \<noteq> []" and "x = utf8_next bs" and "(ok :: bool, n) = x"
  then have "0 < n" using utf8_next_pos [of bs] by (metis snd_conv)
  with b show "(drop n bs, bs) \<in> measure length" by (cases bs) auto
qed simp

declare from_utf8_lossy.simps [simp del]

text \<open>\<open>bytes.get(start..end)\<close> on machine-word indices: \<open>None\<close> out of range or when the range is
  backwards.\<close>

definition slice :: "8 word list \<Rightarrow> 64 word \<Rightarrow> 64 word \<Rightarrow> 8 word list option" where
  "slice bs a b = (if a \<le> b \<and> unat b \<le> length bs then Some (take (unat b - unat a) (drop (unat a) bs)) else None)"

definition be_u64 :: "8 word list \<Rightarrow> 64 word" where
  "be_u64 bs = foldl (\<lambda>a b. a * 256 + ucast b) 0 bs"

definition abi_word :: "8 word list \<Rightarrow> 64 word \<Rightarrow> 64 word option" where
  \<comment> \<open>\<open>at + 32\<close> wraps, as it does in a release build.\<close>
  "abi_word bytes pos = (case slice bytes pos (pos + 32) of
      None \<Rightarrow> None
    | Some w \<Rightarrow> if list_ex (\<lambda>b. b \<noteq> 0) (take 24 w) then None else Some (be_u64 (take 8 (drop 24 w))))"

definition checked_add :: "64 word \<Rightarrow> 64 word \<Rightarrow> 64 word option" where
  "checked_add a b = (if unat a + unat b < 2 ^ 64 then Some (a + b) else None)"

definition decode_service_url :: "(str \<Rightarrow> 8 word list option) \<Rightarrow> str \<Rightarrow> str option" where
  "decode_service_url unhex data_hex =
     (case unhex (case strip_prefix ''0x'' data_hex of Some r \<Rightarrow> r | None \<Rightarrow> data_hex) of
        None \<Rightarrow> None
      | Some bytes \<Rightarrow>
      (case abi_word bytes 0 of None \<Rightarrow> None | Some url_off \<Rightarrow>
      (case abi_word bytes url_off of None \<Rightarrow> None | Some url_len \<Rightarrow>
      (case checked_add url_off 32 of None \<Rightarrow> None | Some start \<Rightarrow>
      (case checked_add start url_len of None \<Rightarrow> None | Some stop \<Rightarrow>
      (case slice bytes start stop of None \<Rightarrow> None | Some raw \<Rightarrow> Some (trim (from_utf8_lossy raw))))))))"

definition endpoints :: "(str \<Rightarrow> 8 word list option) \<Rightarrow> nest \<Rightarrow> nest_error + (str \<times> str) list" where
  "endpoints unhex n = (case nest_sql (nest_endpoint_rows n) of
      Inl e \<Rightarrow> Inl e
    | Inr rows \<Rightarrow> Inr (List.map_filter (\<lambda>r. case decode_service_url unhex (ne_data r) of
          Some url \<Rightarrow> if url \<noteq> [] then Some (to_lower (ne_indexer r), url) else None
        | None \<Rightarrow> None) rows))"

section \<open>The allocation table\<close>

record active_row =
  aa_indexer_address :: str
  aa_deployment_id :: str
  aa_indexer_url :: "str option"
  aa_allocated_tokens :: "rat option"
  aa_refreshed_at :: int

type_synonym active_table = "(str, active_row) table"

text \<open>One statement of the transaction: the row's token text must cast to a number.\<close>

definition insert_active :: "(str \<Rightarrow> rat option) \<Rightarrow> int \<Rightarrow>
    str \<times> str \<times> str \<times> str option \<times> str option \<Rightarrow> active_table option \<Rightarrow> active_table option" where
  "insert_active numeric now row t = (case (row, t) of
      (_, None) \<Rightarrow> None
    | ((aid, indexer, dep, url, tokens), Some t) \<Rightarrow>
       (case tokens of
          None \<Rightarrow> Some (tput aid \<lparr>aa_indexer_address = indexer, aa_deployment_id = dep, aa_indexer_url = url,
                       aa_allocated_tokens = None, aa_refreshed_at = now\<rparr> t)
        | Some s \<Rightarrow> (case numeric s of
            None \<Rightarrow> None
          | Some x \<Rightarrow> Some (tput aid \<lparr>aa_indexer_address = indexer, aa_deployment_id = dep, aa_indexer_url = url,
                         aa_allocated_tokens = Some x, aa_refreshed_at = now\<rparr> t))))"

definition replace_active :: "(str \<Rightarrow> rat option) \<Rightarrow> int \<Rightarrow>
    (str \<times> str \<times> str \<times> str option \<times> str option) list \<Rightarrow> active_table \<Rightarrow> active_table option" where
  "replace_active numeric now rows t = fold (insert_active numeric now) rows (Some (tdel (\<lambda>_ _. True) t))"

definition nest_row :: "(str \<times> str) list \<Rightarrow> nest_allocation \<Rightarrow> str \<times> str \<times> str \<times> str option \<times> str option" where
  \<comment> \<open>Collecting the endpoints into a map keeps the last of a repeated indexer.\<close>
  "nest_row eps a = (to_lower (na_allocation_id a), to_lower (na_indexer a), na_deployment_id a,
     map_of (rev eps) (to_lower (na_indexer a)), na_tokens a)"

definition sync_from_nest :: "(str \<Rightarrow> 8 word list option) \<Rightarrow> (8 word list \<Rightarrow> str) \<Rightarrow> (str \<Rightarrow> rat option) \<Rightarrow>
    int \<Rightarrow> nest \<Rightarrow> active_table \<Rightarrow> (nest_error + nat) \<times> active_table" where
  "sync_from_nest unhex b58 numeric now n t = (case allocations unhex b58 n of
      Inl e \<Rightarrow> (Inl e, t)
    | Inr allocs \<Rightarrow>
        let eps = (case endpoints unhex n of Inl _ \<Rightarrow> [] | Inr es \<Rightarrow> es) in
        (case replace_active numeric now (map (nest_row eps) allocs) t of
           None \<Rightarrow> (Inl BadNumeric, t)
         | Some t' \<Rightarrow> (Inr (length allocs), t')))"

section \<open>The gateway's pages\<close>

type_synonym alloc_row = "str \<times> str \<times> str \<times> str option \<times> str option"

definition json_str_at :: "str list \<Rightarrow> json \<Rightarrow> str option" where
  "json_str_at path v = Option.bind (jpointer path v) as_str"

definition gateway_row :: "json \<Rightarrow> alloc_row option" where
  "gateway_row a = (case (as_str (jidx a ''id''), json_str_at [''indexer'', ''id''] a,
        json_str_at [''subgraphDeployment'', ''ipfsHash''] a) of
      (Some aid, Some indexer, Some dep) \<Rightarrow>
        Some (to_lower aid, to_lower indexer, dep, json_str_at [''indexer'', ''url''] a,
              as_str (jidx a ''allocatedTokens''))
    | _ \<Rightarrow> None)"

text \<open>The keyset pagination loop: at most \<open>fuel\<close> requests (40), each asking for the ids above the
  last one seen; \<open>fetch\<close> gives the parsed body, or \<open>None\<close> when the request failed.\<close>

fun gateway_pages :: "(str \<Rightarrow> json option) \<Rightarrow> nat \<Rightarrow> str \<Rightarrow> alloc_row list \<Rightarrow> nest_error + alloc_row list" where
  "gateway_pages fetch 0 last_id rows = Inr rows"
| "gateway_pages fetch (Suc fuel) last_id rows =
     (case fetch last_id of
        None \<Rightarrow> Inl GatewayUnreachable
      | Some v \<Rightarrow>
          if jget ''errors'' v \<noteq> None then Inl GatewayRejected
          else (case Option.bind (jpointer [''data'', ''allocations''] v) as_array of
              None \<Rightarrow> Inr rows
            | Some items \<Rightarrow>
                if items = [] then Inr rows
                else let full = (length items = 1000);
                         last_id' = (case as_str (jidx (last items) ''id'') of Some s \<Rightarrow> s | None \<Rightarrow> '''');
                         rows' = rows @ List.map_filter gateway_row items in
                  if \<not> full \<or> last_id' = '''' then Inr rows'
                  else gateway_pages fetch fuel last_id' rows'))"

definition sync_once :: "(str \<Rightarrow> json option) \<Rightarrow> (str \<Rightarrow> rat option) \<Rightarrow> int \<Rightarrow> active_table \<Rightarrow>
    (nest_error + nat) \<times> active_table" where
  "sync_once fetch numeric now t = (case gateway_pages fetch 40 '''' [] of
      Inl e \<Rightarrow> (Inl e, t)
    | Inr rows \<Rightarrow>
        if rows = [] then (Inl NestEmpty, t)
        else (case replace_active numeric now rows t of
            None \<Rightarrow> (Inl BadNumeric, t)
          | Some t' \<Rightarrow> (Inr (length rows), t')))"

text \<open>One pass of the loop: the nest when it is configured and the chain tip is known, the gateway
  when that did not succeed.\<close>

definition allocation_sync_pass :: "(str \<Rightarrow> 8 word list option) \<Rightarrow> (8 word list \<Rightarrow> str) \<Rightarrow>
    (str \<Rightarrow> rat option) \<Rightarrow> int \<Rightarrow> nest option \<Rightarrow> nat option \<Rightarrow> (str \<Rightarrow> json option) \<Rightarrow> active_table \<Rightarrow> active_table" where
  "allocation_sync_pass unhex b58 numeric now n tip fetch t =
     (let (synced, t) = (case (n, tip) of
          (Some nst, Some _) \<Rightarrow> (case sync_from_nest unhex b58 numeric now nst t of
              (Inr _, t') \<Rightarrow> (True, t') | (Inl _, t') \<Rightarrow> (False, t'))
        | _ \<Rightarrow> (False, t))
      in if synced then t else snd (sync_once fetch numeric now t))"

section \<open>Payable targets\<close>

record payable_target =
  pt_allocation_id :: str
  pt_indexer_address :: str
  pt_deployment_id :: str
  pt_indexer_url :: "str option"

type_synonym escrow_table = "(str, rat option) table"

definition payable_row :: "escrow_table \<Rightarrow> str list \<Rightarrow> active_row \<Rightarrow> bool" where
  "payable_row escrow excluded a \<longleftrightarrow>
     (case aa_indexer_url a of Some u \<Rightarrow> u \<noteq> '''' | None \<Rightarrow> False)
     \<and> (case map_of escrow (aa_indexer_address a) of Some (Some b) \<Rightarrow> 0 < b | _ \<Rightarrow> False)
     \<and> aa_indexer_address a \<notin> set (map to_lower excluded)"

text \<open>\<open>ORDER BY allocated_tokens DESC NULLS LAST\<close>; ties, which SQL leaves open, keep table order.\<close>

definition tokens_key :: "active_row \<Rightarrow> nat \<times> rat" where
  "tokens_key a = (case aa_allocated_tokens a of Some x \<Rightarrow> (0, - x) | None \<Rightarrow> (1, 0))"

definition target_of :: "str \<times> active_row \<Rightarrow> payable_target" where
  "target_of r = \<lparr>pt_allocation_id = fst r, pt_indexer_address = aa_indexer_address (snd r),
     pt_deployment_id = aa_deployment_id (snd r), pt_indexer_url = aa_indexer_url (snd r)\<rparr>"

definition payable_targets :: "active_table \<Rightarrow> escrow_table \<Rightarrow> nat \<Rightarrow> str list \<Rightarrow> payable_target list" where
  "payable_targets t escrow limit excluded = take limit (map target_of
     (sort_key (tokens_key \<circ> snd) (filter (payable_row escrow excluded \<circ> snd) t)))"

definition payable_targets_for_deployment :: "active_table \<Rightarrow> escrow_table \<Rightarrow> str \<Rightarrow> str list \<Rightarrow> payable_target list" where
  "payable_targets_for_deployment t escrow dep excluded = map target_of
     (sort_key (tokens_key \<circ> snd)
       (filter (\<lambda>r. aa_deployment_id (snd r) = dep \<and> payable_row escrow excluded (snd r)) t))"

section \<open>Lemmas\<close>

lemma replace_active_rows: "fold (insert_active numeric now) rows None = None"
  by (induction rows) (auto simp: insert_active_def)

lemma replace_active_Some:
  "fold (insert_active numeric now) rows (Some t) = Some t' \<Longrightarrow>
    \<exists>g. t' = fold (\<lambda>r. tput (fst r) (g r)) rows t \<and>
      (\<forall>r. aa_indexer_address (g r) = fst (snd r) \<and> aa_deployment_id (g r) = fst (snd (snd r))
        \<and> aa_indexer_url (g r) = fst (snd (snd (snd r)))
        \<and> aa_allocated_tokens (g r) = Option.bind (snd (snd (snd (snd r)))) numeric \<and> aa_refreshed_at (g r) = now)"
proof -
  let ?g = "\<lambda>r. \<lparr>aa_indexer_address = fst (snd r), aa_deployment_id = fst (snd (snd r)),
     aa_indexer_url = fst (snd (snd (snd r))),
     aa_allocated_tokens = Option.bind (snd (snd (snd (snd r)))) numeric, aa_refreshed_at = now\<rparr>"
  assume "fold (insert_active numeric now) rows (Some t) = Some t'"
  then have "t' = fold (\<lambda>r. tput (fst r) (?g r)) rows t"
  proof (induction rows arbitrary: t)
    case (Cons r rows)
    obtain aid ix dep url tok where r: "r = (aid, ix, dep, url, tok)" by (cases r)
    have "\<exists>u. insert_active numeric now r (Some t) = Some u"
      using Cons.prems replace_active_rows [of numeric now rows]
      by (cases "insert_active numeric now r (Some t)") auto
    then have "insert_active numeric now r (Some t) = Some (tput (fst r) (?g r) t)"
      using r by (auto simp: insert_active_def split: option.splits)
    then show ?case using Cons by simp
  qed simp
  then show ?thesis by (intro exI [of _ ?g]) simp
qed

text \<open>The store after a replacement is what the rows say and nothing else: the law of the table
  interface, on this table.\<close>

definition active_of :: "(str \<Rightarrow> rat option) \<Rightarrow> int \<Rightarrow> alloc_row \<Rightarrow> active_row" where
  "active_of numeric now r = \<lparr>aa_indexer_address = fst (snd r), aa_deployment_id = fst (snd (snd r)),
     aa_indexer_url = fst (snd (snd (snd r))),
     aa_allocated_tokens = Option.bind (snd (snd (snd (snd r)))) numeric, aa_refreshed_at = now\<rparr>"

lemma replace_active_lookup:
  assumes "twf t" and "replace_active numeric now rows t = Some t'"
  shows "map_of t' k = map_of (rev (map (\<lambda>r. (fst r, active_of numeric now r)) rows)) k" and "twf t'"
proof -
  obtain g where g: "t' = fold (\<lambda>r. tput (fst r) (g r)) rows (tdel (\<lambda>_ _. True) t)"
    and "\<And>r. aa_indexer_address (g r) = fst (snd r) \<and> aa_deployment_id (g r) = fst (snd (snd r))
        \<and> aa_indexer_url (g r) = fst (snd (snd (snd r)))
        \<and> aa_allocated_tokens (g r) = Option.bind (snd (snd (snd (snd r)))) numeric \<and> aa_refreshed_at (g r) = now"
    using assms(2) replace_active_Some unfolding replace_active_def by blast
  then have "g = active_of numeric now" by (intro ext) (simp add: active_of_def)
  then show "map_of t' k = map_of (rev (map (\<lambda>r. (fst r, active_of numeric now r)) rows)) k" and "twf t'"
    using tbl.replace_all [OF assms(1), of fst g rows k] tbl.wf_put_all [OF tbl.wf_del [OF assms(1)], of fst g rows] g
    by auto
qed

lemma insert_active_None: "fold (insert_active numeric now) rows None = None"
  by (induction rows) (simp_all add: insert_active_def)

text \<open>A replacement succeeds exactly when every token text is a number.\<close>

lemma replace_active_ok: "replace_active numeric now rows t \<noteq> None \<longleftrightarrow>
    (\<forall>r \<in> set rows. \<forall>s. snd (snd (snd (snd r))) = Some s \<longrightarrow> numeric s \<noteq> None)"
proof -
  have "fold (insert_active numeric now) rows (Some u) \<noteq> None \<longleftrightarrow>
      (\<forall>r \<in> set rows. \<forall>s. snd (snd (snd (snd r))) = Some s \<longrightarrow> numeric s \<noteq> None)" for u
  proof (induction rows arbitrary: u)
    case (Cons r rows)
    obtain aid ix dep url tok where r: "r = (aid, ix, dep, url, tok)" by (cases r)
    show ?case
    proof (cases "insert_active numeric now r (Some u)")
      case None
      then have "\<exists>s. tok = Some s \<and> numeric s = None" by (auto simp: r insert_active_def split: option.splits)
      then show ?thesis using None by (auto simp: r insert_active_None)
    next
      case (Some v)
      then have "\<forall>s. tok = Some s \<longrightarrow> numeric s \<noteq> None" by (auto simp: r insert_active_def split: option.splits)
      then show ?thesis using Cons.IH [of v] Some by (simp add: r)
    qed
  qed simp
  then show ?thesis by (simp add: replace_active_def)
qed

text \<open>What a nest must have answered to be believed: it is ready, at most ten thousand blocks behind (a 503
  explains itself in its body, so it is read too), and it gave its allocations whole.\<close>

definition answered_in_full :: "nest \<Rightarrow> nest_allocation list \<Rightarrow> bool" where
  "answered_in_full n rows \<longleftrightarrow>
     (\<exists>status lag. nest_ready n = Reply status (Some \<lparr>rb_ready = True, rb_lag_blocks = Some lag\<rparr>)
        \<and> (200 \<le> status \<and> status < 300 \<or> status = 503) \<and> lag \<le> 10000)
     \<and> (\<exists>status. nest_allocation_rows n = Reply status (Some \<lparr>sb_rows = rows, sb_truncated = False\<rparr>)
        \<and> 200 \<le> status \<and> status < 300)
     \<and> rows \<noteq> []"

lemma lag_blocks_Inr: "lag_blocks n = Inr lag \<longleftrightarrow>
    (\<exists>status. nest_ready n = Reply status (Some \<lparr>rb_ready = True, rb_lag_blocks = Some lag\<rparr>)
       \<and> (200 \<le> status \<and> status < 300 \<or> status = 503))"
proof -
  have "b = \<lparr>rb_ready = True, rb_lag_blocks = Some lag\<rparr> \<longleftrightarrow> rb_ready b \<and> rb_lag_blocks b = Some lag" for b :: ready_body
    by (cases b) auto
  then show ?thesis by (auto simp: lag_blocks_def ok_status_def split: reply.splits option.splits)
qed

lemma nest_sql_Inr: "nest_sql r = Inr rows \<longleftrightarrow>
    (\<exists>status. r = Reply status (Some \<lparr>sb_rows = rows, sb_truncated = False\<rparr>) \<and> 200 \<le> status \<and> status < 300)"
proof -
  have "b = \<lparr>sb_rows = rows, sb_truncated = False\<rparr> \<longleftrightarrow> \<not> sb_truncated b \<and> sb_rows b = rows" for b
    by (cases b) auto
  then show ?thesis by (auto simp: nest_sql_def ok_status_def split: reply.splits option.splits)
qed

definition normalised :: "(str \<Rightarrow> 8 word list option) \<Rightarrow> (8 word list \<Rightarrow> str) \<Rightarrow> nest_allocation \<Rightarrow> nest_allocation" where
  "normalised unhex b58 a = a\<lparr>na_deployment_id := normalise_deployment_id unhex b58 (na_deployment_id a)\<rparr>"

lemma allocations_Inr: "allocations unhex b58 n = Inr as \<longleftrightarrow>
    (\<exists>rows. answered_in_full n rows \<and> as = map (normalised unhex b58) rows)"
proof -
  have "allocations unhex b58 n = Inr as \<longleftrightarrow> (\<exists>lag rows. lag_blocks n = Inr lag \<and> lag \<le> 10000
      \<and> nest_sql (nest_allocation_rows n) = Inr rows \<and> rows \<noteq> [] \<and> as = map (normalised unhex b58) rows)"
    by (auto simp: allocations_def MAX_LAG_BLOCKS_def normalised_def [abs_def] split: sum.splits)
  then show ?thesis unfolding lag_blocks_Inr nest_sql_Inr answered_in_full_def by blast
qed

section \<open>Properties\<close>

text \<open>
  C17. A partial nest never shrinks the probe set. A sync from the nest succeeds exactly when the nest says it is
  ready and at most ten thousand blocks behind, answers the query for its allocations with a success, at least one
  row and no truncation, and every token count is a number; then the table holds exactly those allocations, a
  repeated one as it was last given, with the nest's indexer, deployment and tokens and the endpoint registered for
  the indexer. Otherwise the table is what it was.
\<close>

theorem nest_sync_all_or_nothing:
  assumes "twf t" and "sync_from_nest unhex b58 numeric now n t = (res, t')"
    and "eps = (case endpoints unhex n of Inl _ \<Rightarrow> [] | Inr es \<Rightarrow> es)"
  shows "(case res of
      Inl _ \<Rightarrow> t' = t
        \<and> (\<nexists>rows. answered_in_full n rows \<and> (\<forall>a \<in> set rows. \<forall>s. na_tokens a = Some s \<longrightarrow> numeric s \<noteq> None))
    | Inr k \<Rightarrow> \<exists>rows. answered_in_full n rows \<and> k = length rows
        \<and> (\<forall>i. map_of t' i = map_of (rev (map (\<lambda>a. (to_lower (na_allocation_id a),
             \<lparr>aa_indexer_address = to_lower (na_indexer a),
              aa_deployment_id = normalise_deployment_id unhex b58 (na_deployment_id a),
              aa_indexer_url = map_of (rev eps) (to_lower (na_indexer a)),
              aa_allocated_tokens = Option.bind (na_tokens a) numeric, aa_refreshed_at = now\<rparr>)) rows)) i))"
proof (cases "allocations unhex b58 n")
  case (Inl e)
  then have "\<nexists>rows. answered_in_full n rows" using allocations_Inr [of unhex b58 n] by auto
  then show ?thesis using assms(2) Inl by (auto simp: sync_from_nest_def)
next
  case (Inr as)
  then obtain rows where rows: "answered_in_full n rows" "as = map (normalised unhex b58) rows"
    unfolding allocations_Inr by blast
  have whole: "answered_in_full n rows' \<Longrightarrow> rows' = rows" for rows' using rows(1) by (auto simp: answered_in_full_def)
  let ?rs = "map (nest_row eps) as"
  have sync: "(res, t') = (case replace_active numeric now ?rs t of None \<Rightarrow> (Inl BadNumeric, t) | Some u \<Rightarrow> (Inr (length as), u))"
    using assms(2) Inr by (simp add: sync_from_nest_def assms(3) Let_def)
  have ok: "replace_active numeric now ?rs t \<noteq> None \<longleftrightarrow> (\<forall>a \<in> set rows. \<forall>s. na_tokens a = Some s \<longrightarrow> numeric s \<noteq> None)"
    unfolding replace_active_ok by (simp add: rows(2) nest_row_def normalised_def)
  show ?thesis
  proof (cases "replace_active numeric now ?rs t")
    case None
    then show ?thesis using sync ok whole by auto
  next
    case (Some u)
    from replace_active_lookup(1) [OF assms(1) Some] show ?thesis using sync rows Some
      by (auto simp: comp_def nest_row_def normalised_def active_of_def intro!: exI [of _ rows])
  qed
qed

definition sample_nest :: nest where
  "sample_nest = \<lparr>nest_ready = Reply 200 (Some \<lparr>rb_ready = True, rb_lag_blocks = Some 3\<rparr>),
     nest_allocation_rows = Reply 200 (Some \<lparr>sb_rows =
       [\<lparr>na_allocation_id = ''0xA1'', na_indexer = ''0xI1'', na_deployment_id = ''Qm1'', na_tokens = None\<rparr>],
       sb_truncated = False\<rparr>),
     nest_endpoint_rows = Unreachable\<rparr>"

theorem nest_sync_all_or_nothing_witness:
  "\<exists>k t'. sync_from_nest (\<lambda>_. None) (\<lambda>_. []) (\<lambda>_. None) 5 sample_nest [] = (Inr k, t') \<and> k = 1
     \<and> map_option aa_indexer_address (map_of t' ''0xa1'') = Some ''0xi1''"
proof -
  have full: "answered_in_full sample_nest rows \<longleftrightarrow>
      rows = [\<lparr>na_allocation_id = ''0xA1'', na_indexer = ''0xI1'', na_deployment_id = ''Qm1'', na_tokens = None\<rparr>]" for rows
    by (auto simp: answered_in_full_def sample_nest_def)
  obtain res t' where s: "sync_from_nest (\<lambda>_. None) (\<lambda>_. []) (\<lambda>_. None) 5 sample_nest [] = (res, t')"
    by (cases "sync_from_nest (\<lambda>_. None) (\<lambda>_. []) (\<lambda>_. None) 5 sample_nest []")
  have "twf ([] :: active_table)" by (simp add: twf_def)
  note p = nest_sync_all_or_nothing [OF this s refl]
  have "to_lower ''0xA1'' = ''0xa1''" "to_lower ''0xI1'' = ''0xi1''" by code_simp+
  then show ?thesis using p s by (cases res) (auto simp: full)
qed

text \<open>
  Payable targets are exactly the allocations we can pay for: an allocation is offered for a
  deployment if and only if its row is for that deployment, has a service URL, belongs to an
  indexer we hold a positive escrow with, and that indexer is not excluded.
\<close>

theorem payable_targets_exact:
  "set (payable_targets_for_deployment t escrow dep excluded) = {target_of (i, a) | i a.
     (i, a) \<in> set t \<and> aa_deployment_id a = dep
     \<and> (\<exists>u. aa_indexer_url a = Some u \<and> u \<noteq> '''')
     \<and> (\<exists>b. map_of escrow (aa_indexer_address a) = Some (Some b) \<and> 0 < b)
     \<and> aa_indexer_address a \<notin> to_lower ` set excluded}"
proof -
  have p: "payable_row escrow excluded a \<longleftrightarrow> (\<exists>u. aa_indexer_url a = Some u \<and> u \<noteq> '''')
     \<and> (\<exists>b. map_of escrow (aa_indexer_address a) = Some (Some b) \<and> 0 < b)
     \<and> aa_indexer_address a \<notin> to_lower ` set excluded" for a
    by (auto simp: payable_row_def split: option.splits)
  show ?thesis unfolding payable_targets_for_deployment_def by (auto simp: p image_iff) blast
qed

section \<open>Decoding a registration\<close>

text \<open>The word at a byte offset over natural numbers, where nothing wraps.\<close>

definition abi_nat :: "8 word list \<Rightarrow> nat \<Rightarrow> nat option" where
  "abi_nat bytes i = (if i + 32 \<le> length bytes \<and> list_all (\<lambda>b. b = 0) (take 24 (drop i bytes))
     then Some (unat (be_u64 (take 8 (drop (i + 24) bytes)))) else None)"

lemma unat_add32: "unat (a + 32 :: 64 word) = (unat a + 32) mod 2 ^ 64"
  by (simp add: unat_word_ariths)

lemma abi_word_nat:
  assumes "length bytes < 2 ^ 63"
  shows "abi_word bytes p = map_option of_nat (abi_nat bytes (unat p))"
proof (cases "unat p + 32 \<le> length bytes")
  case True
  then have u: "unat (p + 32) = unat p + 32" using assms by (simp add: unat_add32)
  then have "p \<le> p + 32" by (simp add: word_le_nat_alt)
  then have "slice bytes p (p + 32) = Some (take 32 (drop (unat p) bytes))"
    using True u by (simp add: slice_def)
  then show ?thesis using True
    by (auto simp: abi_word_def abi_nat_def list_all_iff list_ex_iff min_def take_drop add.commute)
next
  case False
  have "slice bytes p (p + 32) = None"
  proof (cases "unat p + 32 < 2 ^ 64")
    case True
    then have "unat (p + 32) = unat p + 32" by (simp add: unat_add32)
    then show ?thesis using False by (simp add: slice_def)
  next
    case wrap: False
    have "unat p < 2 ^ 64" using unsigned_less [of p] by simp
    then have "unat (p + 32) = unat p + 32 - 2 ^ 64" using wrap by (simp add: unat_add32 le_mod_geq)
    then have "\<not> p \<le> p + 32" using wrap \<open>unat p < 2 ^ 64\<close> by (simp add: word_le_nat_alt)
    then show ?thesis by (simp add: slice_def)
  qed
  then show ?thesis using False by (simp add: abi_word_def abi_nat_def)
qed

lemma abi_nat_bound: "abi_nat bytes i = Some w \<Longrightarrow> i + 32 \<le> length bytes \<and> w < 2 ^ 64"
  using unsigned_less [of "be_u64 (take 8 (drop (i + 24) bytes))"] by (auto simp: abi_nat_def split: if_splits)

text \<open>
  C19. The registration decoder is exact and never reads out of range: on a blob that fits in
  memory it returns the bytes the two offset words delimit, when they delimit a range inside the
  blob, and nothing otherwise, although its indices are machine words that wrap.
\<close>

theorem decode_service_url_exact:
  assumes "unhex (case strip_prefix ''0x'' d of Some r \<Rightarrow> r | None \<Rightarrow> d) = Some bytes" and "length bytes < 2 ^ 63"
  shows "decode_service_url unhex d = Some u \<longleftrightarrow> (\<exists>off len. abi_nat bytes 0 = Some off
     \<and> abi_nat bytes off = Some len \<and> off + 32 + len \<le> length bytes
     \<and> u = trim (from_utf8_lossy (take len (drop (off + 32) bytes))))"
proof (cases "abi_nat bytes 0")
  case None
  then show ?thesis using assms by (simp add: decode_service_url_def abi_word_nat)
next
  case (Some off)
  then have off: "unat (word_of_nat off :: 64 word) = off"
    using abi_nat_bound [of bytes 0 off] by (simp add: unat_of_nat)
  show ?thesis
  proof (cases "abi_nat bytes off")
    case None
    then show ?thesis using assms Some off by (simp add: decode_service_url_def abi_word_nat)
  next
    case len: (Some len)
    have b: "off + 32 \<le> length bytes" "len < 2 ^ 64" using abi_nat_bound [OF len] by auto
    then have l: "unat (word_of_nat len :: 64 word) = len" by (simp add: unat_of_nat)
    have s: "checked_add (word_of_nat off) 32 = Some (word_of_nat off + 32 :: 64 word)"
      "unat (word_of_nat off + 32 :: 64 word) = off + 32"
      using b assms(2) off by (simp_all add: checked_add_def unat_add32)
    show ?thesis
    proof (cases "off + 32 + len < 2 ^ 64")
      case True
      then have e: "checked_add (word_of_nat off + 32) (word_of_nat len) = Some (word_of_nat off + 32 + word_of_nat len :: 64 word)"
        "unat (word_of_nat off + 32 + word_of_nat len :: 64 word) = off + 32 + len"
        using s l by (simp_all add: checked_add_def unat_word_ariths)
      then have le: "(word_of_nat off + 32 :: 64 word) \<le> word_of_nat off + 32 + word_of_nat len"
        using s by (simp add: word_le_nat_alt)
      show ?thesis using assms Some off len s e le
        by (auto simp: decode_service_url_def abi_word_nat slice_def)
    next
      case False
      then have "checked_add (word_of_nat off + 32) (word_of_nat len) = (None :: 64 word option)"
        using s l by (simp add: checked_add_def)
      then show ?thesis using assms Some off len s False
        by (auto simp: decode_service_url_def abi_word_nat)
    qed
  qed
qed

definition sample_blob :: "8 word list" where
  "sample_blob = replicate 31 0 @ [32] @ replicate 31 0 @ [2] @ [0x68, 0x69]"

theorem decode_service_url_exact_witness:
  "decode_service_url (\<lambda>s. Some sample_blob) ''0x'' = Some ''hi''"
proof -
  have b: "length sample_blob < 2 ^ 63" by (simp add: sample_blob_def)
  have n: "abi_nat sample_blob 0 = Some 32" "abi_nat sample_blob 32 = Some 2"
    by code_simp+
  have "trim (from_utf8_lossy (take 2 (drop (32 + 32) sample_blob))) = ''hi''"
    by code_simp
  with n have "\<exists>off len. abi_nat sample_blob 0 = Some off \<and> abi_nat sample_blob off = Some len
     \<and> off + 32 + len \<le> length sample_blob
     \<and> ''hi'' = trim (from_utf8_lossy (take len (drop (off + 32) sample_blob)))"
    by (intro exI [of _ 32] exI [of _ 2]) (simp add: sample_blob_def)
  then show ?thesis
    using decode_service_url_exact [of "\<lambda>s. Some sample_blob" "''0x''" sample_blob "''hi''"] b by simp
qed

end
