(* ===== verification/Scheduler.thy ===== *)
theory Scheduler
  imports Config Numbers Executor Cluster Allocations
begin

text \<open>
  A probe round, \<open>foghorn-probe/src/scheduler.rs\<close> with \<open>discovery.rs\<close>: the block to pin, the
  queries, the observations of every dispatch mode, keeping one per address, clustering, and what
  is written to the probe, observation and divergence tables. Every statement is its own
  transaction there, so an error leaves what was written before it. The network, the clock and the
  identifiers are the fields of \<open>world\<close>; each is indexed by the number of the probe.
\<close>

section \<open>The tables\<close>

record probe_row =
  pr_deployment_id :: str
  pr_block_hash :: str
  pr_block_number :: int
  pr_query_hash :: str
  pr_query_category :: str
  pr_query_text :: str
  pr_dispatched_at :: int

record observation_row =
  ob_response_hash :: "str option"
  ob_latency_ms :: int
  ob_meta_block_number :: "int option"
  ob_meta_block_hash :: "str option"
  ob_http_status :: "int option"
  ob_error_class :: "str option"
  ob_stake_weight :: f64
  ob_dispatch_mode :: str
  ob_request_cid :: "str option"
  ob_response_cid :: "str option"
  ob_attestation :: "json option"

record divergence_row =
  dv_cluster_count :: int
  dv_diff_patches :: json
  dv_largest_by_count_hash :: str
  dv_largest_by_count_size :: int
  dv_largest_by_stake_hash :: str
  dv_largest_by_stake_weight :: f64
  dv_created_at :: int

record probe_db =
  probes :: "(str, probe_row) table"
  observations :: "(str \<times> str, observation_row) table"
  divergences :: "(str, divergence_row) table"

section \<open>One observation per address\<close>

definition is_payment_error :: "str option \<Rightarrow> bool" where
  "is_payment_error e \<longleftrightarrow> (case e of Some c \<Rightarrow> starts_with c ''payment_'' | None \<Rightarrow> False)"

definition rank :: "raw_observation \<Rightarrow> nat" where
  "rank o' = (if ro_response_hash o' \<noteq> None then 2
     else if \<not> is_payment_error (ro_error_class o') then 1 else 0)"

fun dedup_put :: "raw_observation \<Rightarrow> raw_observation list \<Rightarrow> raw_observation list" where
  "dedup_put o' [] = [o']"
| "dedup_put o' (b # best) =
     (if ro_indexer_address b = ro_indexer_address o'
      then (if rank b < rank o' then o' # best else b # best)
      else b # dedup_put o' best)"

definition dedup_by_address :: "raw_observation list \<Rightarrow> raw_observation list" where
  "dedup_by_address obs = foldl (\<lambda>best o'. dedup_put o' best) [] obs"

definition parse_stake_weight :: "(f64 \<Rightarrow> f64) \<Rightarrow> str option \<Rightarrow> f64" where
  "parse_stake_weight log_e s = (case Option.bind s parse_f64 of
      Some grt \<Rightarrow> log_e (fadd (F 1) (fdiv grt (F 100000)))
    | None \<Rightarrow> F 1)"

section \<open>Writing a probe\<close>

definition observation_of :: "(str \<Rightarrow> json option) \<Rightarrow> raw_observation \<Rightarrow> observation_row option" where
  \<comment> \<open>\<open>CAST(attestation AS jsonb)\<close>: text that is not JSON fails the statement.\<close>
  "observation_of jsonb o' =
     (let row = (\<lambda>att. \<lparr>ob_response_hash = ro_response_hash o', ob_latency_ms = ro_latency_ms o',
          ob_meta_block_number = ro_meta_block_number o', ob_meta_block_hash = ro_meta_block_hash o',
          ob_http_status = ro_http_status o', ob_error_class = ro_error_class o',
          ob_stake_weight = ro_stake_weight o', ob_dispatch_mode = ro_dispatch_mode o',
          ob_request_cid = ro_request_cid o', ob_response_cid = ro_response_cid o', ob_attestation = att\<rparr>)
      in case ro_attestation o' of
           None \<Rightarrow> Some (row None)
         | Some t \<Rightarrow> (case jsonb t of None \<Rightarrow> None | Some j \<Rightarrow> Some (row (Some j))))"

fun insert_observations :: "(str \<Rightarrow> json option) \<Rightarrow> str \<Rightarrow> raw_observation list \<Rightarrow> probe_db \<Rightarrow> bool \<times> probe_db" where
  "insert_observations jsonb pid [] d = (True, d)"
| "insert_observations jsonb pid (o' # os) d =
     (case observation_of jsonb o' of
        None \<Rightarrow> (False, d)
      | Some row \<Rightarrow> insert_observations jsonb pid os
          (d\<lparr>observations := tput_new (pid, ro_indexer_address o') row (observations d)\<rparr>))"

definition divergence_of :: "cluster_result \<Rightarrow> int \<Rightarrow> divergence_row" where
  "divergence_of r at' = \<lparr>dv_cluster_count = cluster_count r, dv_diff_patches = diff_patches r,
     dv_largest_by_count_hash = largest_by_count_hash r, dv_largest_by_count_size = largest_by_count_size r,
     dv_largest_by_stake_hash = largest_by_stake_hash r, dv_largest_by_stake_weight = largest_by_stake_weight r,
     dv_created_at = at'\<rparr>"

text \<open>\<open>True\<close> when every statement succeeded; the tables as they are then either way.\<close>

definition store_results :: "(str \<Rightarrow> json option) \<Rightarrow> str \<Rightarrow> probe_row \<Rightarrow> raw_observation list \<Rightarrow>
    cluster_result \<Rightarrow> probe_db \<Rightarrow> bool \<times> probe_db" where
  "store_results jsonb pid p obs clusters d =
     (let d1 = d\<lparr>probes := tput_new pid p (probes d)\<rparr>;
          (ok, d2) = insert_observations jsonb pid obs d1 in
      if \<not> ok then (False, d2)
      else if 2 \<le> largest_by_count_size clusters \<and> largest_by_count_hash clusters \<noteq> ''''
      then (True, d2\<lparr>divergences := tput_new pid (divergence_of clusters (pr_dispatched_at p)) (divergences d2)\<rparr>)
      else (True, d2))"

section \<open>The block to pin\<close>

definition hex_value :: "char \<Rightarrow> nat option" where
  "hex_value c = (if is_ascii_digit c then Some (of_char c - 48)
     else if CHR ''a'' \<le> c \<and> c \<le> CHR ''f'' then Some (of_char c - 87)
     else if CHR ''A'' \<le> c \<and> c \<le> CHR ''F'' then Some (of_char c - 55) else None)"

fun hex_digits :: "nat \<Rightarrow> str \<Rightarrow> nat option" where
  "hex_digits acc [] = Some acc"
| "hex_digits acc (c # s) = (case hex_value c of None \<Rightarrow> None | Some d \<Rightarrow> hex_digits (16 * acc + d) s)"

definition u64_from_hex :: "str \<Rightarrow> nat option" where
  \<comment> \<open>\<open>u64::from_str_radix(s, 16)\<close>: a leading plus is allowed, no digits or overflow is an error.\<close>
  "u64_from_hex s = (let t = (case s of CHR ''+'' # r \<Rightarrow> r | _ \<Rightarrow> s) in
     if t = [] then None
     else (case hex_digits 0 t of Some n \<Rightarrow> if n < 2 ^ 64 then Some n else None | None \<Rightarrow> None))"

definition hex_char :: "nat \<Rightarrow> char" where
  "hex_char d = char_of (if d < 10 then 48 + d else 87 + d)"

function show_hex :: "nat \<Rightarrow> str" where
  "show_hex n = (if n < 16 then [hex_char n] else show_hex (n div 16) @ [hex_char (n mod 16)])"
  by pat_completeness auto
termination
  by (relation "measure id") auto

declare show_hex.simps [simp del]

definition get_safe_block :: "(str \<Rightarrow> json \<Rightarrow> json option) \<Rightarrow> nat \<Rightarrow> (nat \<times> str) option" where
  "get_safe_block rpc threshold = do {
     resp \<leftarrow> rpc ''eth_blockNumber'' (JArr []);
     hex_num \<leftarrow> as_str (jidx resp ''result'');
     current_block \<leftarrow> u64_from_hex (trim_start_0x hex_num);
     let safe_block = current_block - threshold;
     resp \<leftarrow> rpc ''eth_getBlockByNumber'' (JArr [JStr (''0x'' @ show_hex safe_block), JBool False]);
     hash \<leftarrow> as_str (jidx (jidx resp ''result'') ''hash'');
     Some (safe_block, hash)
   }"

section \<open>A round\<close>

record test_query =
  tq_category :: str
  tq_template :: str
  tq_entity_ids :: "str list"

record test_set =
  ts_id :: str
  ts_ipfs_hash :: str
  ts_network :: str
  ts_description :: str
  ts_gateway_subgraph_id :: "str option"
  ts_queries :: "test_query list"

text \<open>\<open>str::replace\<close>: every occurrence of a pattern that is not empty, left to right.\<close>

function replace_all_str :: "str \<Rightarrow> str \<Rightarrow> str \<Rightarrow> str" where
  "replace_all_str pat by' s =
     (if s = [] \<or> pat = [] then s
      else (case strip_prefix pat s of
          Some r \<Rightarrow> by' @ replace_all_str pat by' r
        | None \<Rightarrow> hd s # replace_all_str pat by' (tl s)))"
  by pat_completeness auto
termination
  by (relation "measure (\<lambda>(p, b, s). length s)") (auto simp: strip_prefix_iff)

declare replace_all_str.simps [simp del]

definition final_query :: "test_query \<Rightarrow> str \<Rightarrow> str option \<Rightarrow> str" where
  "final_query q block_hash entity = (case entity of
      Some i \<Rightarrow> replace_all_str ''$block_hash'' block_hash (replace_all_str ''$id'' i (tq_template q))
    | None \<Rightarrow> replace_all_str ''$block_hash'' block_hash (tq_template q))"

definition parameterisations :: "test_query \<Rightarrow> str option list" where
  "parameterisations q = (if tq_entity_ids q = [] then [None] else map Some (tq_entity_ids q))"

record job =
  jb_test_set :: test_set
  jb_category :: str
  jb_query :: str
  jb_block_number :: nat
  jb_block_hash :: str

record 'a world =
  wd_rpc :: "nat \<Rightarrow> str \<Rightarrow> str \<Rightarrow> json \<Rightarrow> json option"
  wd_gateway :: "nat \<Rightarrow> nat \<Rightarrow> str \<Rightarrow> json \<Rightarrow> http_reply"
  wd_direct :: "nat \<Rightarrow> str \<Rightarrow> str option \<Rightarrow> json \<Rightarrow> http_reply"
  wd_paid :: "nat \<Rightarrow> str \<Rightarrow> 'a \<Rightarrow> 'a \<Rightarrow> str \<Rightarrow> str \<Rightarrow> paid_reply option"
  wd_address :: "str \<Rightarrow> 'a option"
  wd_uuid :: "nat \<Rightarrow> str"
  wd_now :: "nat \<Rightarrow> int"
  wd_sha256 :: "str \<Rightarrow> str"
  wd_jsonb :: "str \<Rightarrow> json option"
  wd_jdiff :: "json \<Rightarrow> json \<Rightarrow> json"
  wd_order :: "nat \<Rightarrow> members \<Rightarrow> members"
  wd_ln :: "f64 \<Rightarrow> f64"
  wd_active :: active_table
  wd_escrow :: escrow_table

definition jobs_of :: "'a world \<Rightarrow> foghorn_config \<Rightarrow> nat \<times> test_set \<Rightarrow> job list" where
  "jobs_of W cfg kt = (case map_of (rpc_urls cfg) (ts_network (snd kt)) of
      None \<Rightarrow> []
    | Some url \<Rightarrow> (case get_safe_block (wd_rpc W (fst kt) url) (reorg_threshold cfg) of
          None \<Rightarrow> []
        | Some (number, hash) \<Rightarrow> concat (map (\<lambda>q.
            if tq_category q = ''Q_freshness'' then []
            else map (\<lambda>e. \<lparr>jb_test_set = snd kt, jb_category = tq_category q, jb_query = final_query q hash e,
                jb_block_number = number, jb_block_hash = hash\<rparr>) (parameterisations q))
            (ts_queries (snd kt)))))"

definition paid_observations :: "lib \<Rightarrow> 'a world \<Rightarrow> foghorn_config \<Rightarrow> nat option \<Rightarrow> nat \<Rightarrow> job \<Rightarrow> raw_observation list" where
  \<comment> \<open>\<open>paid\<close> is the target cap of the paid client, \<open>None\<close> without one.\<close>
  "paid_observations L W cfg paid n j = (case paid of
      None \<Rightarrow> []
    | Some cap \<Rightarrow> map (\<lambda>t. execute_paid_probe L (wd_address W) (wd_paid W n)
          \<lparr>dq_indexer_address = pt_indexer_address t, dq_indexer_url = (case pt_indexer_url t of Some u \<Rightarrow> u | None \<Rightarrow> []),
           dq_allocation_id = pt_allocation_id t, dq_deployment_ipfs_hash = ts_ipfs_hash (jb_test_set j),
           dq_query = jb_query j, dq_block_hash = jb_block_hash j, dq_stake_weight = F 1\<rparr>)
        (take cap (payable_targets_for_deployment (wd_active W) (wd_escrow W) (ts_ipfs_hash (jb_test_set j))
           (tap_excluded_indexers (tap cfg)))))"

definition gateway_observations :: "lib \<Rightarrow> 'a world \<Rightarrow> gateway_config \<Rightarrow> nat \<Rightarrow> job \<Rightarrow> raw_observation list" where
  "gateway_observations L W gw n j = map (\<lambda>i. execute_gateway_probe L (wd_gateway W n i)
      \<lparr>gq_gateway_url = gw_url gw, gq_api_key = gw_api_key gw,
       gq_subgraph_id = (case ts_gateway_subgraph_id (jb_test_set j) of
          Some s \<Rightarrow> s | None \<Rightarrow> ts_ipfs_hash (jb_test_set j)),
       gq_deployment_id = ts_id (jb_test_set j), gq_query = jb_query j, gq_block_hash = jb_block_hash j\<rparr>)
    [0..<gw_probe_count gw]"

definition direct_observations :: "lib \<Rightarrow> 'a world \<Rightarrow> foghorn_config \<Rightarrow> nat \<Rightarrow> job \<Rightarrow> raw_observation list" where
  "direct_observations L W cfg n j = map (\<lambda>x. execute_probe L (wd_direct W n)
      \<lparr>pq_indexer_address = ic_address x, pq_indexer_url = ic_url x,
       pq_deployment_ipfs_hash = ts_ipfs_hash (jb_test_set j), pq_query = jb_query j,
       pq_block_hash = jb_block_hash j, pq_auth_token = ic_auth_token x,
       pq_stake_weight = parse_stake_weight (wd_ln W) (ic_stake_grt x)\<rparr>)
    (opted_in_indexers cfg)"

text \<open>The observations of one probe, paid ones first; \<open>None\<close> is the early return of the direct mode
  without indexers.\<close>

definition observe :: "lib \<Rightarrow> 'a world \<Rightarrow> foghorn_config \<Rightarrow> nat option \<Rightarrow> nat \<Rightarrow> job \<Rightarrow> raw_observation list option" where
  "observe L W cfg paid n j = (case gateway cfg of
      Some gw \<Rightarrow> Some (paid_observations L W cfg paid n j @ gateway_observations L W gw n j)
    | None \<Rightarrow> if opted_in_indexers cfg = [] then None
        else Some (paid_observations L W cfg paid n j @ direct_observations L W cfg n j))"

definition cluster_input_of :: "raw_observation \<Rightarrow> cluster_input" where
  "cluster_input_of o' = \<lparr>ci_indexer_address = ro_indexer_address o', ci_response_hash = ro_response_hash o',
     ci_raw_response = ro_raw_response o', ci_stake_weight = ro_stake_weight o'\<rparr>"

datatype round_result = RoundOk nat | RoundErr | RoundPanic

fun run_jobs :: "lib \<Rightarrow> 'a world \<Rightarrow> foghorn_config \<Rightarrow> nat option \<Rightarrow> nat \<Rightarrow> job list \<Rightarrow> probe_db \<Rightarrow> round_result \<times> probe_db" where
  "run_jobs L W cfg paid n [] d = (RoundOk n, d)"
| "run_jobs L W cfg paid n (j # js) d =
     (case observe L W cfg paid n j of
        None \<Rightarrow> (RoundOk 0, d)
      | Some raw \<Rightarrow>
          let obs = dedup_by_address raw in
          (case compute_clusters (lib_parse L) (wd_jdiff W) (wd_order W n) (map cluster_input_of obs) of
             None \<Rightarrow> (RoundPanic, d)
           | Some clusters \<Rightarrow>
               let p = \<lparr>pr_deployment_id = ts_id (jb_test_set j), pr_block_hash = jb_block_hash j,
                     pr_block_number = i64w (int (jb_block_number j)), pr_query_hash = wd_sha256 W (jb_query j),
                     pr_query_category = jb_category j, pr_query_text = jb_query j, pr_dispatched_at = wd_now W n\<rparr>;
                   (ok, d') = store_results (wd_jsonb W) (wd_uuid W n) p obs clusters d in
               if ok then run_jobs L W cfg paid (Suc n) js d' else (RoundErr, d')))"

definition run_probe_round :: "lib \<Rightarrow> 'a world \<Rightarrow> foghorn_config \<Rightarrow> nat option \<Rightarrow> test_set list \<Rightarrow> probe_db \<Rightarrow>
    round_result \<times> probe_db" where
  "run_probe_round L W cfg paid test_sets d =
     run_jobs L W cfg paid 0 (concat (map (jobs_of W cfg) (enumerate 0 test_sets))) d"

section \<open>What is probed\<close>

text \<open>Curated sets win over discovered ones for the same deployment; the ids of curated sets are
  normalised when they are loaded, a file that does not parse is skipped.\<close>

definition load_test_sets :: "(str \<Rightarrow> 8 word list option) \<Rightarrow> (8 word list \<Rightarrow> str) \<Rightarrow> test_set option list \<Rightarrow> test_set list" where
  "load_test_sets unhex b58 files =
     map (\<lambda>ts. ts\<lparr>ts_id := normalise_deployment_id unhex b58 (ts_id ts)\<rparr>) (List.map_filter id files)"

definition merge_discovered :: "nat \<Rightarrow> test_set list \<Rightarrow> test_set list \<Rightarrow> test_set list" where
  "merge_discovered limit curated discovered =
     (if 0 < limit then curated @ filter (\<lambda>ts. ts_id ts \<notin> set (map ts_id curated)) discovered
      else curated)"

text \<open>The cap of the paid client, when its configuration is usable: a signer key that is not empty
  and parses, and three addresses that parse.\<close>

definition build_paid_client :: "(str \<Rightarrow> bool) \<Rightarrow> (str \<Rightarrow> bool) \<Rightarrow> foghorn_config \<Rightarrow> nat option" where
  "build_paid_client key_ok addr_ok cfg =
     (case tap_signer_key (tap cfg) of
        None \<Rightarrow> None
      | Some key \<Rightarrow>
          if key = '''' \<or> \<not> key_ok key \<or> \<not> addr_ok (tap_verifier (tap cfg))
             \<or> \<not> addr_ok (tap_data_service (tap cfg)) \<or> \<not> addr_ok (tap_payer (tap cfg)) then None
          else Some (case gateway cfg of Some g \<Rightarrow> gw_probe_count g | None \<Rightarrow> 8))"

definition paid_of :: "(str \<Rightarrow> bool) \<Rightarrow> (str \<Rightarrow> bool) \<Rightarrow> foghorn_config \<Rightarrow> nat option" where
  "paid_of key_ok addr_ok cfg = (if tap_enabled (tap cfg) then build_paid_client key_ok addr_ok cfg else None)"

end
