(* ===== verification/Probe_Props.thy ===== *)
theory Probe_Props
  imports Scheduler
begin

text \<open>
  What the probing of theories \<open>Executor\<close> and \<open>Scheduler\<close> promises: evidence only from verified
  attestations, no answer counted beside an error, our own payment failures told apart, one
  observation per address, and what a round leaves in the tables.
\<close>

section \<open>A library and its replies, for the concrete instances\<close>

definition sample_lib :: lib where
  "sample_lib = \<lparr>
     lib_parse = (\<lambda>s. if s = ''{}'' then Some (JObj [(''data'', JObj [])])
       else if s = ''att'' then Some (JObj [(''requestCID'', JStr (replicate 64 (CHR ''a''))),
          (''responseCID'', JStr (replicate 64 (CHR ''b''))), (''subgraphDeploymentID'', JStr (replicate 64 (CHR ''c''))),
          (''r'', JStr (replicate 64 (CHR ''d''))), (''s'', JStr (replicate 64 (CHR ''e''))), (''v'', jint 1)])
       else None),
     lib_text = (\<lambda>_. ''text''), lib_quote = quote, lib_float = write_float, lib_digest = (\<lambda>_. ''digest''),
     lib_unhex = (\<lambda>_. Some (replicate 32 0)), lib_hex = (\<lambda>_. ''signer''), lib_keccak = (\<lambda>_. replicate 32 0),
     lib_recover = (\<lambda>_ _ _ _. Some (replicate 65 0))\<rparr>"

definition sample_gateway_request :: gateway_probe_request where
  "sample_gateway_request = \<lparr>gq_gateway_url = ''https://g/'', gq_api_key = ''k'', gq_subgraph_id = ''Qm1'',
     gq_deployment_id = ''Qm1'', gq_query = ''q'', gq_block_hash = ''b''\<rparr>"

definition sample_paid_request :: paid_probe_request where
  "sample_paid_request = \<lparr>dq_indexer_address = ''0xi'', dq_indexer_url = ''u'', dq_allocation_id = ''0xa'',
     dq_deployment_ipfs_hash = ''Qm1'', dq_query = ''q'', dq_block_hash = ''b'', dq_stake_weight = Fin 1\<rparr>"

definition sample_probe_request :: probe_request where
  "sample_probe_request = \<lparr>pq_indexer_address = ''0xi'', pq_indexer_url = ''u'', pq_deployment_ipfs_hash = ''Qm1'',
     pq_query = ''q'', pq_block_hash = ''b'', pq_auth_token = None, pq_stake_weight = Fin 1\<rparr>"

section \<open>Observations\<close>

lemmas observation_defs = failed_observation_def error_observation_def gateway_error_observation_def

lemma gateway_cases:
  "(\<exists>c. ro_error_class (execute_gateway_probe L net req) = Some c \<and>
       c \<in> {''client_build'', ''network_error'', ''http_error'', ''body_error''} \<and>
       ro_response_hash (execute_gateway_probe L net req) = None \<and>
       ro_request_cid (execute_gateway_probe L net req) = None)
   \<or> (\<exists>status latency header body. net (gateway_url req) (graphql_body (gq_query req) (gq_block_hash req))
         = Response status latency header (Some body) \<and> is_success status)"
  by (auto simp: execute_gateway_probe_def observation_defs Let_def split: http_reply.splits option.splits)

lemma cids_verified: "attestation_cids L h = Some (rq, rs) \<Longrightarrow> \<exists>v signer. lib_parse L h = Some v
    \<and> try_recover_signer L v = Some signer \<and> as_str (jidx v ''requestCID'') = Some rq
    \<and> as_str (jidx v ''responseCID'') = Some rs"
  by (auto simp: attestation_cids_def cid_def bind_eq_Some_conv split: option.splits if_splits)


lemma sample_gateway: "execute_gateway_probe sample_lib (\<lambda>_ _. Response 200 7 (Some ''att'') (Some ''{}'')) sample_gateway_request
  = \<lparr>ro_indexer_address = ''0xsigner'', ro_response_hash = Some ''digest'', ro_raw_response = Some ''{}'',
     ro_latency_ms = 7, ro_meta_block_number = None, ro_meta_block_hash = None, ro_http_status = Some 200,
     ro_error_class = None, ro_stake_weight = F 1, ro_request_cid = Some (replicate 64 (CHR ''a'')),
     ro_response_cid = Some (replicate 64 (CHR ''b'')), ro_attestation = Some ''att'', ro_dispatch_mode = ''gateway''\<rparr>"
  by code_simp


text \<open>
  An answer and an error never coexist: an observation with a response hash has no error class
  and a successful HTTP status, whichever way the indexer was asked.
\<close>

theorem hash_means_success:
  assumes "o' = execute_gateway_probe L net greq \<or> o' = execute_probe L net' dreq
       \<or> o' = execute_paid_probe L addr client preq"
    and "ro_response_hash o' = Some h"
  shows "ro_error_class o' = None \<and> (\<exists>s. ro_http_status o' = Some s \<and> is_success s)"
  using assms
proof (elim disjE)
  assume "o' = execute_gateway_probe L net greq"
  then show ?thesis using assms(2)
    by (auto simp: execute_gateway_probe_def observation_defs Let_def split: http_reply.splits option.splits if_splits)
next
  assume "o' = execute_probe L net' dreq"
  then show ?thesis using assms(2)
    by (auto simp: execute_probe_def observation_defs Let_def split: http_reply.splits option.splits if_splits)
next
  assume "o' = execute_paid_probe L addr client preq"
  then show ?thesis using assms(2)
    by (auto simp: execute_paid_probe_def observation_defs Let_def is_success_def
        split: option.splits if_splits prod.splits)
qed

theorem hash_means_success_witness:
  "ro_error_class (execute_gateway_probe sample_lib (\<lambda>_ _. Response 200 7 (Some ''att'') (Some ''{}'')) sample_gateway_request) = None"
  using hash_means_success [OF disjI1 [OF sample_gateway [symmetric]]] sample_gateway by simp

text \<open>The replies that say we could not pay, by status and words, and what they are called.\<close>

definition mentions :: "str \<Rightarrow> str \<Rightarrow> bool" where
  "mentions body w \<longleftrightarrow> (\<exists>u v. to_lower body = u @ w @ v)"

definition refuses_payment :: "paid_reply \<Rightarrow> str \<Rightarrow> bool" where
  "refuses_payment r class \<longleftrightarrow>
     py_status r = 402 \<and> class = ''payment_refused''
     \<or> py_status r = 400 \<and> mentions (py_body r) ''denylist'' \<and> class = ''payment_denylisted''
     \<or> py_status r = 400 \<and> \<not> mentions (py_body r) ''denylist''
       \<and> (mentions (py_body r) ''issues with provided receipt'' \<or> mentions (py_body r) ''receipt error'')
       \<and> class = ''payment_refused''"

lemma contains_iff: "contains s w \<longleftrightarrow> (\<exists>u v. s = u @ w @ v)"
proof (induction s w rule: contains.induct)
  case (2 c s p)
  have "(\<exists>u v. c # s = u @ p @ v) \<longleftrightarrow> (\<exists>v. c # s = p @ v) \<or> (\<exists>u v. s = u @ p @ v)"
  proof
    assume "\<exists>u v. c # s = u @ p @ v"
    then obtain u v where "c # s = u @ p @ v" by blast
    then show "(\<exists>v. c # s = p @ v) \<or> (\<exists>u v. s = u @ p @ v)" by (cases u) auto
  next
    assume "(\<exists>v. c # s = p @ v) \<or> (\<exists>u v. s = u @ p @ v)"
    then show "\<exists>u v. c # s = u @ p @ v" by (metis append_Cons append_Nil)
  qed
  then show ?case using 2 by (simp add: starts_with_iff)
qed auto

lemma payment_class_iff: "payment_class (py_status r) (py_body r) = Some c \<longleftrightarrow> refuses_payment r c"
  by (auto simp: payment_class_def refuses_payment_def mentions_def contains_iff Let_def split: if_splits)

lemma paid_error_class: "paid_error p \<noteq> Some (''payment_'' @ e)"
  by (auto simp: paid_error_def split: option.splits list.splits)

text \<open>The class of a paid probe that begins with payment: the reply refused it, and nothing was read from it.\<close>

lemma paid_probe_refused:
  assumes "o' = execute_paid_probe L addr client req"
  shows "ro_error_class o' = Some (''payment_'' @ e) \<longleftrightarrow>
    (\<exists>a b r. addr (dq_indexer_address req) = Some a \<and> addr (dq_allocation_id req) = Some b
       \<and> client (dq_indexer_url req) a b (dq_deployment_ipfs_hash req)
           (lib_text L (graphql_body (dq_query req) (dq_block_hash req))) = Some r
       \<and> refuses_payment r (''payment_'' @ e))"
    and "ro_error_class o' = Some (''payment_'' @ e) \<Longrightarrow>
      ro_response_hash o' = None \<and> ro_raw_response o' = None \<and> ro_http_status o' = None \<and> ro_attestation o' = None"
  unfolding payment_class_iff [symmetric] assms
  by (auto simp: execute_paid_probe_def observation_defs Let_def paid_error_class [simplified] split: option.splits prod.splits if_splits)

text \<open>
  The two paths disagree on what a GraphQL error is: the reply with data and an empty
  \<open>errors\<close> array is an error through the gateway or directly, and an answer when it is paid for.
\<close>

theorem error_detection_differs:
  "graphql_error (Some (JObj [(''data'', JObj []), (''errors'', JArr [])])) = Some ''graphql_error''
   \<and> paid_error (Some (JObj [(''data'', JObj []), (''errors'', JArr [])])) = None"
  by (simp add: graphql_error_def paid_error_def)

section \<open>One observation per address\<close>

lemma dedup_put_addr: "set (map ro_indexer_address (dedup_put o' best)) =
    insert (ro_indexer_address o') (set (map ro_indexer_address best))"
  by (induction o' best rule: dedup_put.induct) auto

lemma dedup_put_distinct: "distinct (map ro_indexer_address best) \<Longrightarrow>
    distinct (map ro_indexer_address (dedup_put o' best))"
proof (induction o' best rule: dedup_put.induct)
  case (2 o' b best)
  then show ?case using dedup_put_addr [of o' best] by (auto simp flip: set_map)
qed simp

lemma dedup_put_sub: "set (dedup_put o' best) \<subseteq> insert o' (set best)"
  by (induction o' best rule: dedup_put.induct) auto

lemma dedup_put_rank: "x \<in> insert o' (set best) \<Longrightarrow>
    \<exists>b \<in> set (dedup_put o' best). ro_indexer_address b = ro_indexer_address x \<and> rank x \<le> rank b"
proof (induction o' best rule: dedup_put.induct)
  case (2 o' b best)
  then show ?case by (cases "ro_indexer_address b = ro_indexer_address o'") (auto intro: less_imp_le)
qed auto

lemma dedup_inv:
  "distinct (map ro_indexer_address (dedup_by_address obs)) \<and> set (dedup_by_address obs) \<subseteq> set obs
   \<and> (\<forall>x \<in> set obs. \<exists>b \<in> set (dedup_by_address obs). ro_indexer_address b = ro_indexer_address x \<and> rank x \<le> rank b)"
proof (induction obs rule: rev_induct)
  case Nil
  then show ?case by (simp add: dedup_by_address_def)
next
  case (snoc x obs)
  have s: "dedup_by_address (obs @ [x]) = dedup_put x (dedup_by_address obs)" by (simp add: dedup_by_address_def)
  have "\<exists>b \<in> set (dedup_put x (dedup_by_address obs)). ro_indexer_address b = ro_indexer_address y \<and> rank y \<le> rank b"
    if y: "y \<in> set (obs @ [x])" for y
  proof (cases "y = x")
    case True
    then show ?thesis using dedup_put_rank [of x x] by simp
  next
    case False
    then obtain b where b: "b \<in> set (dedup_by_address obs)" "ro_indexer_address b = ro_indexer_address y" "rank y \<le> rank b"
      using y snoc by auto
    then obtain c where "c \<in> set (dedup_put x (dedup_by_address obs))" "ro_indexer_address c = ro_indexer_address b"
        "rank b \<le> rank c"
      using dedup_put_rank [of b x "dedup_by_address obs"] by auto
    then show ?thesis using b by (intro bexI [of _ c]) auto
  qed
  then show ?case unfolding s
    using snoc dedup_put_distinct [of "dedup_by_address obs" x] dedup_put_sub [of x "dedup_by_address obs"] by auto
qed



end
