(* ===== verification/Round_Props.thy ===== *)
theory Round_Props
  imports Probe_Props
begin

text \<open>
  What a probe round leaves in the tables (theory \<open>Scheduler\<close>): every probe recorded once, storing
  again changes nothing, a cluster row only for a corroborated answer, and the two ways a round
  ends early.
\<close>

section \<open>Statements\<close>

lemma insert_observations_fails:
  "o' \<in> set obs \<Longrightarrow> observation_of jsonb o' = None \<Longrightarrow> \<not> fst (insert_observations jsonb pid obs d)"
  by (induction jsonb pid obs d rule: insert_observations.induct) (auto split: option.splits)

lemma insert_observations_other: "probes (snd (insert_observations jsonb pid obs d)) = probes d"
  "divergences (snd (insert_observations jsonb pid obs d)) = divergences d"
  by (induction jsonb pid obs d rule: insert_observations.induct) (auto split: option.splits)

lemma observation_of_None: "observation_of jsonb o' = None \<longleftrightarrow>
    (\<exists>t. ro_attestation o' = Some t \<and> jsonb t = None)"
  by (auto simp: observation_of_def Let_def split: option.splits)

lemma store_probes: "probes (snd (store_results jsonb pid p obs r d)) = tput_new pid p (probes d)"
  by (auto simp: store_results_def Let_def insert_observations_other split: prod.splits
      dest: arg_cong [of _ _ "\<lambda>x. probes (snd x)"])

lemma store_divergences: "divergences (snd (store_results jsonb pid p obs r d)) =
    (if fst (store_results jsonb pid p obs r d) \<and> 2 \<le> largest_by_count_size r \<and> largest_by_count_hash r \<noteq> ''''
     then tput_new pid (divergence_of r (pr_dispatched_at p)) (divergences d) else divergences d)"
  by (auto simp: store_results_def Let_def insert_observations_other split: prod.splits
      dest: arg_cong [of _ _ "\<lambda>x. divergences (snd x)"])

lemma insert_observations_ok: "fst (insert_observations jsonb pid obs d) \<Longrightarrow>
    snd (insert_observations jsonb pid obs d) = d\<lparr>observations :=
      fold (\<lambda>o'. tput_new (pid, ro_indexer_address o') (the (observation_of jsonb o'))) obs (observations d)\<rparr>"
  by (induction jsonb pid obs d rule: insert_observations.induct) (auto split: option.splits)

lemma store_observations: "fst (store_results jsonb pid p obs r d) \<Longrightarrow>
    observations (snd (store_results jsonb pid p obs r d)) =
      fold (\<lambda>o'. tput_new (pid, ro_indexer_address o') (the (observation_of jsonb o'))) obs (observations d)"
  using insert_observations_ok [of jsonb pid obs "d\<lparr>probes := tput_new pid p (probes d)\<rparr>"]
  by (auto simp: store_results_def Let_def split: prod.splits if_splits)

lemma store_ok_iff: "fst (store_results jsonb pid p obs r d) \<longleftrightarrow> (\<forall>o' \<in> set obs. observation_of jsonb o' \<noteq> None)"
proof -
  have "fst (insert_observations jsonb pid obs d) \<longleftrightarrow> (\<forall>o' \<in> set obs. observation_of jsonb o' \<noteq> None)" for d
    by (induction jsonb pid obs d rule: insert_observations.induct) (auto split: option.splits)
  then show ?thesis
    by (auto simp: store_results_def Let_def split: prod.splits dest: arg_cong [of _ _ fst])
qed

lemma tput_new_known: "map_of t k \<noteq> None \<Longrightarrow> tput_new k v t = t"
  by (auto simp: tput_new_def)

lemma fold_known: "(\<forall>x \<in> set xs. map_of t (f x) \<noteq> None) \<Longrightarrow> fold (\<lambda>x. tput_new (f x) (g x)) xs t = t"
  by (induction xs) (auto simp: tput_new_known)

lemma fold_keeps: "map_of t k \<noteq> None \<Longrightarrow> map_of (fold (\<lambda>x. tput_new (f x) (g x)) xs t) k = map_of t k"
  by (induction xs arbitrary: t) (auto simp: map_of_tput_new)

lemma fold_adds: "x \<in> set xs \<Longrightarrow> map_of (fold (\<lambda>x. tput_new (f x) (g x)) xs t) (f x) \<noteq> None"
proof (induction xs arbitrary: t)
  case (Cons y ys)
  have h: "map_of (tput_new (f y) (g y) t) (f y) \<noteq> None" by (simp add: map_of_tput_new)
  show ?case
  proof (cases "x = y")
    case True
    then show ?thesis using fold_keeps [OF h, of f g ys] h by simp
  qed (use Cons in auto)
qed simp

section \<open>Storing\<close>

text \<open>
  Storing a probe is repeatable: running the same statements again after they succeeded leaves
  all three tables as they are.
\<close>

theorem store_idempotent:
  assumes "fst (store_results jsonb pid p obs r d)"
  shows "store_results jsonb pid p obs r (snd (store_results jsonb pid p obs r d))
    = (True, snd (store_results jsonb pid p obs r d))"
proof -
  let ?d = "snd (store_results jsonb pid p obs r d)"
  have ok: "fst (store_results jsonb pid p obs r x)" for x using assms by (simp add: store_ok_iff)
  have k: "map_of (tput_new pid v t) pid \<noteq> None" for v and t :: "(str, 'v) table" by (simp add: map_of_tput_new)
  have "probes (snd (store_results jsonb pid p obs r ?d)) = probes ?d"
    unfolding store_probes by (rule tput_new_known) (simp add: map_of_tput_new)
  moreover have "divergences (snd (store_results jsonb pid p obs r ?d)) = divergences ?d"
    unfolding store_divergences using ok by (auto simp: map_of_tput_new intro!: tput_new_known)
  moreover have "observations (snd (store_results jsonb pid p obs r ?d)) = observations ?d"
    unfolding store_observations [OF ok] by (rule fold_known) (auto dest: fold_adds)
  ultimately have "snd (store_results jsonb pid p obs r ?d) = ?d" by (intro probe_db.equality) auto
  with ok [of ?d] show ?thesis by (metis prod.collapse)
qed

definition sample_row :: probe_row where
  "sample_row = \<lparr>pr_deployment_id = ''Qm1'', pr_block_hash = ''b'', pr_block_number = 1, pr_query_hash = ''h'',
     pr_query_category = ''Q_byid'', pr_query_text = ''q'', pr_dispatched_at = 5\<rparr>"

definition empty_db :: probe_db where
  "empty_db = \<lparr>probes = [], observations = [], divergences = []\<rparr>"

theorem store_idempotent_witness:
  "snd (store_results (\<lambda>_. None) ''p'' sample_row [gateway_error_observation ''x''] empty_clusters
      (snd (store_results (\<lambda>_. None) ''p'' sample_row [gateway_error_observation ''x''] empty_clusters empty_db)))
   = snd (store_results (\<lambda>_. None) ''p'' sample_row [gateway_error_observation ''x''] empty_clusters empty_db)"
proof -
  have "fst (store_results (\<lambda>_. None) ''p'' sample_row [gateway_error_observation ''x''] empty_clusters empty_db)"
    by (simp add: store_ok_iff observation_of_def observation_defs)
  from store_idempotent [OF this] show ?thesis by simp
qed

lemma divergence_row:
  assumes "permutes ord" and "length inputs < 2 ^ 31" and "compute_clusters parse jdiff ord inputs = Some r"
    and "\<forall>i \<in> set inputs. ci_response_hash i \<noteq> Some ''''" and "map_of (divergences d) pid = None"
    and "fst (store_results jsonb pid p obs r d)"
  shows "map_of (divergences (snd (store_results jsonb pid p obs r d))) pid =
    (if \<exists>h. 2 \<le> hash_count h inputs then Some (divergence_of r (pr_dispatched_at p)) else None)"
proof -
  note l = largest_cluster [OF assms(1-3)]
  have z: "hash_count '''' inputs = 0"
    using assms(4) unfolding hash_count_def by (auto simp: filter_empty_conv)
  have "2 \<le> largest_by_count_size r \<and> largest_by_count_hash r \<noteq> '''' \<longleftrightarrow> (\<exists>h. 2 \<le> hash_count h inputs)"
  proof
    assume a: "2 \<le> largest_by_count_size r \<and> largest_by_count_hash r \<noteq> ''''"
    then have "largest_by_count_size r = int (hash_count (largest_by_count_hash r) inputs)"
      using l(1) by (auto simp: empty_clusters_def)
    then show "\<exists>h. 2 \<le> hash_count h inputs" using a by auto
  next
    assume "\<exists>h. 2 \<le> hash_count h inputs"
    then obtain h where h: "2 \<le> hash_count h inputs" ..
    then have s: "2 \<le> largest_by_count_size r" using l(2) [of h] by linarith
    moreover have "largest_by_count_hash r \<noteq> ''''"
    proof
      assume "largest_by_count_hash r = ''''"
      then have "largest_by_count_size r = 0" using l(1) z by (auto simp: empty_clusters_def)
      with s show False by simp
    qed
    ultimately show "2 \<le> largest_by_count_size r \<and> largest_by_count_hash r \<noteq> ''''" ..
  qed
  then show ?thesis using assms(5,6) by (auto simp: store_divergences map_of_tput_new)
qed

text \<open>
  A cluster row is written only for a corroborated answer: when no two observations share a
  hash, two indexers that answered differently included, storing the probe adds no row, and when
  statements succeed and some hash is shared it adds the row of the clustering.
\<close>

theorem divergence_row_iff_corroborated:
  assumes "permutes ord" and "length inputs < 2 ^ 31" and "compute_clusters parse jdiff ord inputs = Some r"
    and "\<forall>i \<in> set inputs. ci_response_hash i \<noteq> Some ''''" and "map_of (divergences d) pid = None"
    and "fst (store_results jsonb pid p obs r d)"
  shows "map_of (divergences (snd (store_results jsonb pid p obs r d))) pid =
    (if \<exists>h. 2 \<le> hash_count h inputs then Some (divergence_of r (pr_dispatched_at p)) else None)"
  by (rule divergence_row [OF assms])

theorem divergence_row_iff_corroborated_witness:
  "\<exists>r. compute_clusters (\<lambda>_. None) (\<lambda>_ _. JArr []) (\<lambda>m. m) (take 2 three_answers) = Some r \<and>
     map_of (divergences (snd (store_results (\<lambda>_. None) ''p'' sample_row [] r empty_db))) ''p'' = None"
proof -
  have "\<exists>r. compute_clusters (\<lambda>_. None) (\<lambda>_ _. JArr []) (\<lambda>m. m) (take 2 three_answers) = Some r"
    by (rule compute_total [OF permutes_id]) (simp add: three_answers_def)
  then obtain r where r: "compute_clusters (\<lambda>_. None) (\<lambda>_ _. JArr []) (\<lambda>m. m) (take 2 three_answers) = Some r" ..
  have "length (take 2 three_answers) < 2 ^ 31"
    and "\<forall>i \<in> set (take 2 three_answers). ci_response_hash i \<noteq> Some ''''"
    and "map_of (divergences empty_db) ''p'' = None"
    and "fst (store_results (\<lambda>_. None) ''p'' sample_row [] r empty_db)"
    by (simp_all add: three_answers_def empty_db_def store_ok_iff)
  note row = divergence_row_iff_corroborated [OF permutes_id this(1) r this(2-4)]
  have "\<not> (\<exists>h. 2 \<le> hash_count h (take 2 three_answers))"
    by (auto simp: hash_count_def three_answers_def)
  with row r show ?thesis by auto
qed

section \<open>Rounds\<close>

lemma run_jobs_step:
  assumes "run_jobs L W cfg paid n (j # js) d = (RoundOk m, d')" and "gateway cfg \<noteq> None \<or> opted_in_indexers cfg \<noteq> []"
  obtains p d1 where "run_jobs L W cfg paid (Suc n) js d1 = (RoundOk m, d')"
    and "probes d1 = tput_new (wd_uuid W n) p (probes d)" and "pr_query_text p = jb_query j"
    and "pr_deployment_id p = ts_id (jb_test_set j)" and "pr_block_hash p = jb_block_hash j"
proof -
  obtain raw where raw: "observe L W cfg paid n j = Some raw"
    using assms(2) by (cases "gateway cfg") (auto simp: observe_def)
  let ?obs = "dedup_by_address raw"
  obtain r where r: "compute_clusters (lib_parse L) (wd_jdiff W) (wd_order W n) (map cluster_input_of ?obs) = Some r"
    using assms(1) raw by (auto simp: Let_def split: option.splits)
  let ?p = "\<lparr>pr_deployment_id = ts_id (jb_test_set j), pr_block_hash = jb_block_hash j,
     pr_block_number = i64w (int (jb_block_number j)), pr_query_hash = wd_sha256 W (jb_query j),
     pr_query_category = jb_category j, pr_query_text = jb_query j, pr_dispatched_at = wd_now W n\<rparr>"
  have "run_jobs L W cfg paid (Suc n) js (snd (store_results (wd_jsonb W) (wd_uuid W n) ?p ?obs r d)) = (RoundOk m, d')"
    using assms(1) raw r by (auto simp: Let_def split: prod.splits if_splits)
  then show ?thesis by (rule that [OF _ store_probes]) simp_all
qed

lemma run_jobs_ok:
  assumes "gateway cfg \<noteq> None \<or> opted_in_indexers cfg \<noteq> []" and "inj (wd_uuid W)"
  shows "run_jobs L W cfg paid n js d = (RoundOk m, d') \<Longrightarrow>
    m = n + length js \<and> (\<forall>k. map_of (probes d) k \<noteq> None \<longrightarrow> map_of (probes d') k = map_of (probes d) k)
    \<and> ((\<forall>i\<ge>n. map_of (probes d) (wd_uuid W i) = None) \<longrightarrow>
        (\<forall>i < length js. \<exists>p. map_of (probes d') (wd_uuid W (n + i)) = Some p \<and> pr_query_text p = jb_query (js ! i)
          \<and> pr_deployment_id p = ts_id (jb_test_set (js ! i)) \<and> pr_block_hash p = jb_block_hash (js ! i)))"
proof (induction js arbitrary: n d)
  case (Cons j js)
  obtain p d1 where d1: "run_jobs L W cfg paid (Suc n) js d1 = (RoundOk m, d')"
      "probes d1 = tput_new (wd_uuid W n) p (probes d)" "pr_query_text p = jb_query j"
      "pr_deployment_id p = ts_id (jb_test_set j)" "pr_block_hash p = jb_block_hash j"
    by (rule run_jobs_step [OF Cons.prems assms(1)])
  note IH = Cons.IH [OF d1(1)]
  have keep: "map_of (probes d1) k = map_of (probes d) k" if "map_of (probes d) k \<noteq> None" for k
    using that d1(2) by (auto simp: map_of_tput_new)
  have new: "\<exists>p. map_of (probes d') (wd_uuid W (n + i)) = Some p \<and> pr_query_text p = jb_query ((j # js) ! i)
      \<and> pr_deployment_id p = ts_id (jb_test_set ((j # js) ! i)) \<and> pr_block_hash p = jb_block_hash ((j # js) ! i)"
    if f: "\<forall>i\<ge>n. map_of (probes d) (wd_uuid W i) = None" and i: "i < Suc (length js)" for i
  proof (cases i)
    case 0
    have "map_of (probes d1) (wd_uuid W n) = Some p" using f d1(2) by (simp add: map_of_tput_new)
    then have "map_of (probes d') (wd_uuid W n) = Some p" using IH by auto
    then show ?thesis using 0 d1(3-5) by simp
  next
    case (Suc i')
    have "\<forall>i\<ge>Suc n. map_of (probes d1) (wd_uuid W i) = None"
      using f d1(2) assms(2) by (auto simp: map_of_tput_new inj_eq)
    then show ?thesis using IH i Suc by auto
  qed
  show ?case using IH keep new by auto
qed simp

text \<open>
  C27. A round that reports n probes stored n: when there is someone to ask and identifiers are
  fresh, the count is the number of queries built from the test sets, each has its probe row with
  its query, deployment and pinned block, and no earlier row is touched.
\<close>

theorem round_records_every_probe:
  assumes "gateway cfg \<noteq> None \<or> opted_in_indexers cfg \<noteq> []" and "inj (wd_uuid W)"
    and "\<forall>i. map_of (probes d) (wd_uuid W i) = None"
    and "run_probe_round L W cfg paid tss d = (RoundOk n, d')"
    and "js = concat (map (jobs_of W cfg) (enumerate 0 tss))"
  shows "n = length js
    \<and> (\<forall>k. map_of (probes d) k \<noteq> None \<longrightarrow> map_of (probes d') k = map_of (probes d) k)
    \<and> (\<forall>i < length js. \<exists>p. map_of (probes d') (wd_uuid W i) = Some p \<and> pr_query_text p = jb_query (js ! i)
        \<and> pr_deployment_id p = ts_id (jb_test_set (js ! i)) \<and> pr_block_hash p = jb_block_hash (js ! i))"
  using run_jobs_ok [OF assms(1,2), of L paid 0 js d n d'] assms(3-5) by (simp add: run_probe_round_def)

definition sample_world :: "unit world" where
  "sample_world = \<lparr>wd_rpc = (\<lambda>_ _ m _. Some (if m = ''eth_blockNumber'' then JObj [(''result'', JStr ''0x10'')]
       else JObj [(''result'', JObj [(''hash'', JStr ''0xb'')])])),
     wd_gateway = (\<lambda>_ _ _ _. Response 200 7 (Some ''bad'') (Some ''{}'')), wd_direct = (\<lambda>_ _ _ _. NoClient),
     wd_paid = (\<lambda>_ _ _ _ _ _. None), wd_address = (\<lambda>_. None), wd_uuid = (\<lambda>n. replicate n (CHR ''u'')),
     wd_now = int, wd_sha256 = (\<lambda>s. s), wd_jsonb = lib_parse sample_lib, wd_jdiff = (\<lambda>_ _. JArr []),
     wd_order = (\<lambda>_ m. m), wd_ln = (\<lambda>x. x), wd_active = [], wd_escrow = []\<rparr>"

definition sample_config :: foghorn_config where
  "sample_config = foghorn_default\<lparr>rpc_urls := [(''arbitrum'', ''url'')],
     opted_in_indexers := [\<lparr>ic_address = ''0xi'', ic_url = ''u'', ic_auth_token = None, ic_stake_grt = None\<rparr>]\<rparr>"

definition sample_test_set :: test_set where
  "sample_test_set = \<lparr>ts_id = ''Qm1'', ts_ipfs_hash = ''Qm1'', ts_network = ''arbitrum'', ts_description = ''d'',
     ts_gateway_subgraph_id = None,
     ts_queries = [\<lparr>tq_category = ''Q_byid'', tq_template = ''q'', tq_entity_ids = []\<rparr>]\<rparr>"

lemma sample_block: "get_safe_block (wd_rpc sample_world k url) 12 = Some (4, ''0xb'')"
proof -
  have "u64_from_hex ''10'' = Some 16"
    by (simp add: u64_from_hex_def hex_value_def is_ascii_digit_def less_eq_char_def)
  then show ?thesis by (simp add: get_safe_block_def sample_world_def jidx_def)
qed

lemma sample_jobs: "concat (map (jobs_of sample_world sample_config) (enumerate 0 [sample_test_set]))
  = [\<lparr>jb_test_set = sample_test_set, jb_category = ''Q_byid'', jb_query = ''q'', jb_block_number = 4, jb_block_hash = ''0xb''\<rparr>]"
proof -
  have cfg: "rpc_urls sample_config = [(''arbitrum'', ''url'')]" "reorg_threshold sample_config = 12"
    by (simp_all add: sample_config_def foghorn_default_def)
  have q: "final_query \<lparr>tq_category = ''Q_byid'', tq_template = ''q'', tq_entity_ids = []\<rparr> ''0xb'' None = ''q''"
    by (simp add: final_query_def replace_all_str.simps)
  show ?thesis
    by (simp add: jobs_of_def cfg sample_block parameterisations_def q) (simp add: sample_test_set_def parameterisations_def q cfg sample_block)
qed

lemma sample_inj: "inj (wd_uuid sample_world)"
  by (rule injI) (simp add: sample_world_def)

lemma sample_round: "\<exists>d'. run_probe_round sample_lib sample_world sample_config None [sample_test_set] empty_db = (RoundOk 1, d')"
proof -
  let ?j = "\<lparr>jb_test_set = sample_test_set, jb_category = ''Q_byid'', jb_query = ''q'', jb_block_number = 4,
     jb_block_hash = ''0xb''\<rparr>"
  let ?o = "error_observation ''0xi'' (F 1) None ''client_build''"
  have cfg: "gateway sample_config = None" "opted_in_indexers sample_config =
      [\<lparr>ic_address = ''0xi'', ic_url = ''u'', ic_auth_token = None, ic_stake_grt = None\<rparr>]"
    by (simp_all add: sample_config_def foghorn_default_def)
  have w: "wd_direct sample_world n = (\<lambda>_ _ _. NoClient)" for n
    by (simp_all add: sample_world_def)
  have o: "observe sample_lib sample_world sample_config None 0 ?j = Some [?o]"
    unfolding observe_def paid_observations_def direct_observations_def execute_probe_def parse_stake_weight_def
      cfg w by simp
  have d: "dedup_by_address [?o] = [?o]" by (simp add: dedup_by_address_def)
  have c: "compute_clusters p jd ord (map cluster_input_of [?o]) = Some empty_clusters" for p jd ord
  proof -
    have "hash_members (map cluster_input_of [?o]) = []"
      by (simp add: hash_members_empty answered_def cluster_input_of_def observation_defs)
    then show ?thesis by (simp add: compute_clusters_def)
  qed
  have s: "\<exists>d'. store_results jsonb pid p [?o] empty_clusters x = (True, d')" for jsonb pid p x
  proof -
    have "fst (store_results jsonb pid p [?o] empty_clusters x)"
      by (simp add: store_ok_iff observation_of_def observation_defs)
    then show ?thesis by (metis prod.collapse)
  qed
  show ?thesis unfolding run_probe_round_def sample_jobs run_jobs.simps o option.case d c Let_def
    using s by (auto split: prod.splits) (metis prod.inject)
qed

theorem round_records_every_probe_witness:
  "\<exists>d' p. run_probe_round sample_lib sample_world sample_config None [sample_test_set] empty_db = (RoundOk 1, d')
     \<and> map_of (probes d') '''' = Some p \<and> pr_query_text p = ''q''"
proof -
  obtain d' where d: "run_probe_round sample_lib sample_world sample_config None [sample_test_set] empty_db = (RoundOk 1, d')"
    using sample_round by blast
  have c: "gateway sample_config \<noteq> None \<or> opted_in_indexers sample_config \<noteq> []" by (simp add: sample_config_def)
  have f: "\<forall>i. map_of (probes empty_db) (wd_uuid sample_world i) = None" by (simp add: empty_db_def)
  from round_records_every_probe [OF c sample_inj f d sample_jobs [symmetric]] d
  show ?thesis by (auto simp: sample_world_def)
qed

text \<open>
  One malformed attestation header ends the round: an observation kept for storing whose
  attestation is not JSON fails its statement, and the probes after it are not run.
\<close>

theorem malformed_attestation_ends_round:
  assumes "observe L W cfg paid n j = Some raw" and "o' \<in> set (dedup_by_address raw)"
    and "ro_attestation o' = Some t" and "wd_jsonb W t = None"
  shows "fst (run_jobs L W cfg paid n (j # js) d) \<in> {RoundErr, RoundPanic}"
proof -
  have "observation_of (wd_jsonb W) o' = None" using assms(3,4) observation_of_None by blast
  then have f: "\<not> fst (store_results (wd_jsonb W) pid p (dedup_by_address raw) r d)" for pid p r
    using assms(2) by (auto simp: store_ok_iff)
  show ?thesis using assms(1) f by (auto simp: Let_def split: option.splits prod.splits dest: arg_cong [of _ _ fst])
qed

definition gateway_only :: foghorn_config where
  "gateway_only = foghorn_default\<lparr>gateway := Some \<lparr>gw_api_key = ''k'', gw_url = ''g'', gw_probe_count = 1\<rparr>\<rparr>"

definition sample_job :: job where
  "sample_job = \<lparr>jb_test_set = sample_test_set, jb_category = ''Q_byid'', jb_query = ''q'', jb_block_number = 4,
     jb_block_hash = ''0xb''\<rparr>"

theorem malformed_attestation_ends_round_witness:
  "fst (run_jobs sample_lib sample_world gateway_only None 0 [sample_job, sample_job] empty_db) \<in> {RoundErr, RoundPanic}"
proof -
  let ?o = "execute_gateway_probe sample_lib (\<lambda>_ _. Response 200 7 (Some ''bad'') (Some ''{}''))
     \<lparr>gq_gateway_url = ''g'', gq_api_key = ''k'', gq_subgraph_id = ''Qm1'', gq_deployment_id = ''Qm1'',
      gq_query = ''q'', gq_block_hash = ''0xb''\<rparr>"
  have o: "observe sample_lib sample_world gateway_only None 0 sample_job = Some [?o]"
    by (simp add: observe_def gateway_only_def paid_observations_def gateway_observations_def sample_job_def
        sample_test_set_def sample_world_def)
  moreover have "?o \<in> set (dedup_by_address [?o])" by (simp add: dedup_by_address_def)
  moreover have "ro_attestation ?o = Some ''bad''" by (simp add: execute_gateway_probe_def is_success_def Let_def)
  moreover have "wd_jsonb sample_world ''bad'' = None" by (simp add: sample_world_def sample_lib_def)
  ultimately show ?thesis by (rule malformed_attestation_ends_round)
qed

end
