(* ===== verification/Judged.thy ===== *)
theory Judged
  imports Score Round_Props
begin

text \<open>
  Judging what was observed: the one definition of a judged answer
  (\<open>foghorn-core/src/judged.rs\<close>), the per-indexer aggregate the grades are computed from and the
  detection of deployments where honest indexers cannot agree (\<open>foghorn-probe/src/scorer.rs\<close>). A
  query is a function of the tables: a left join is a lookup, and a comparison with a missing value
  counts as false, as \<open>COALESCE\<close> and \<open>FILTER\<close> make it. Times are microseconds.
\<close>

record nondet_row =
  nd_divergent_probes :: int
  nd_total_probes :: int
  nd_divergence_rate :: f64
  nd_sample_fields :: "str list"
  nd_last_seen :: int

record judge_db =
  jd_probe :: probe_db
  jd_allocation_map :: "(str, str option) table"
  jd_nondeterministic :: "(str, nondet_row) table"

record judged_row =
  jr_indexer_address :: str
  jr_probe_id :: str
  jr_deployment_id :: str
  jr_query_category :: str
  jr_dispatched_at :: int
  jr_latency_ms :: int
  jr_response_hash :: "str option"
  jr_fault :: bool

section \<open>Joins\<close>

definition recent_probe :: "judge_db \<Rightarrow> int \<Rightarrow> str \<Rightarrow> probe_row option" where
  "recent_probe d since pid = (case map_of (probes (jd_probe d)) pid of
      Some p \<Rightarrow> if since < pr_dispatched_at p then Some p else None
    | None \<Rightarrow> None)"

definition responders :: "judge_db \<Rightarrow> str \<Rightarrow> nat" where
  "responders d pid = length (filter (\<lambda>((q, _), o'). q = pid \<and> ob_response_hash o' \<noteq> None)
     (observations (jd_probe d)))"

definition resolved :: "judge_db \<Rightarrow> str \<Rightarrow> str option" where
  \<comment> \<open>The indexer an allocation signing key resolves to.\<close>
  "resolved d key = (case map_of (jd_allocation_map d) key of Some a \<Rightarrow> a | None \<Rightarrow> None)"

definition counted :: "judge_db \<Rightarrow> str \<Rightarrow> observation_row \<Rightarrow> bool" where
  \<comment> \<open>Attributable, and not a refusal of our payment.\<close>
  "counted d addr o' \<longleftrightarrow> (resolved d addr \<noteq> None \<or> ob_dispatch_mode o' = ''paid'')
     \<and> (case ob_error_class o' of Some e \<Rightarrow> \<not> starts_with e ''payment_'' | None \<Rightarrow> True)"

definition identity :: "judge_db \<Rightarrow> str \<Rightarrow> str" where
  "identity d addr = (case resolved d addr of Some a \<Rightarrow> a | None \<Rightarrow> addr)"

definition minority :: "judge_db \<Rightarrow> str \<Rightarrow> observation_row \<Rightarrow> bool" where
  \<comment> \<open>Differs from the largest cluster, which holds more than half of the answers.\<close>
  "minority d pid o' \<longleftrightarrow> (case (ob_response_hash o', map_of (divergences (jd_probe d)) pid) of
      (Some h, Some v) \<Rightarrow> h \<noteq> dv_largest_by_count_hash v
         \<and> int (responders d pid) < dv_largest_by_count_size v * 2
    | _ \<Rightarrow> False)"

section \<open>Judged answers\<close>

definition judged_row_of :: "judge_db \<Rightarrow> int \<Rightarrow> bool \<Rightarrow> (str \<times> str) \<times> observation_row \<Rightarrow> judged_row option" where
  "judged_row_of d since excuse r = (case r of ((pid, addr), o') \<Rightarrow>
     (case recent_probe d since pid of
        None \<Rightarrow> None
      | Some p \<Rightarrow>
          if counted d addr o' then Some \<lparr>
            jr_indexer_address = identity d addr, jr_probe_id = pid,
            jr_deployment_id = pr_deployment_id p, jr_query_category = pr_query_category p,
            jr_dispatched_at = pr_dispatched_at p, jr_latency_ms = ob_latency_ms o',
            jr_response_hash = ob_response_hash o',
            jr_fault = (minority d pid o' \<and>
              (excuse \<longrightarrow> map_of (jd_nondeterministic d) (pr_deployment_id p) = None))\<rparr>
          else None))"

definition judged_probes :: "judge_db \<Rightarrow> int \<Rightarrow> bool \<Rightarrow> judged_row list" where
  "judged_probes d since excuse = List.map_filter (judged_row_of d since excuse) (observations (jd_probe d))"

section \<open>The aggregate behind the grades\<close>

record probe_agg =
  ag_probes_answered :: int
  ag_faults :: int
  ag_errors :: int
  ag_total :: int

definition count_distinct :: "'a list \<Rightarrow> int" where
  "count_distinct xs = int (length (remdups xs))"

text \<open>A row the aggregate groups: the probe, its deployment and the observation.\<close>

type_synonym agg_item = "str \<times> str \<times> observation_row"

definition agg_items :: "judge_db \<Rightarrow> int \<Rightarrow> (str \<times> agg_item) list" where
  "agg_items d since = List.map_filter (\<lambda>((pid, addr), o'). case recent_probe d since pid of
      None \<Rightarrow> None
    | Some p \<Rightarrow> if counted d addr o' then Some (identity d addr, (pid, pr_deployment_id p, o')) else None)
    (observations (jd_probe d))"

definition agg_of :: "judge_db \<Rightarrow> agg_item list \<Rightarrow> probe_agg" where
  "agg_of d items = \<lparr>
     ag_probes_answered = count_distinct (map fst (filter (\<lambda>(pid, dep, o'). ob_response_hash o' \<noteq> None) items)),
     ag_faults = count_distinct (map fst (filter (\<lambda>(pid, dep, o'). minority d pid o'
        \<and> map_of (jd_nondeterministic d) dep = None) items)),
     ag_errors = int (length (filter (\<lambda>(pid, dep, o'). ob_error_class o' \<noteq> None \<or> ob_response_hash o' = None) items)),
     ag_total = int (length items)\<rparr>"

definition probe_agg_rows :: "judge_db \<Rightarrow> int \<Rightarrow> (str \<times> probe_agg) list" where
  "probe_agg_rows d since = map (\<lambda>(a, items). (a, agg_of d items)) (group_pairs (agg_items d since))"

definition load_probe_agg :: "judge_db \<Rightarrow> int \<Rightarrow> (str, probe_agg) table" where
  "load_probe_agg d since = foldl (\<lambda>m (a, g). tput (to_lower a) g m) [] (probe_agg_rows d since)"

section \<open>Deployments where honest indexers disagree\<close>

definition minority_counts :: "judged_row list \<Rightarrow> str \<Rightarrow> (str \<times> int) list" where
  \<comment> \<open>Per indexer of a deployment, the probes it was faulted on.\<close>
  "minority_counts js dep = map (\<lambda>(ix, pids). (ix, count_distinct pids))
     (group_pairs (map (\<lambda>j. (jr_indexer_address j, jr_probe_id j))
        (filter (\<lambda>j. jr_fault j \<and> jr_deployment_id j = dep) js)))"

definition dep_totals :: "judged_row list \<Rightarrow> str \<Rightarrow> int \<times> int" where
  \<comment> \<open>Probes answered, and those with a fault, of a deployment.\<close>
  "dep_totals js dep =
     (let answers = filter (\<lambda>j. jr_response_hash j \<noteq> None \<and> jr_deployment_id j = dep) js in
      (count_distinct (map jr_probe_id answers), count_distinct (map jr_probe_id (filter jr_fault answers))))"

definition concentration :: "(str \<times> int) list \<Rightarrow> f64" where
  "concentration counts = fdiv (f_of_int (Max (set (map snd counts)))) (f_of_int (sum_list (map snd counts)))"

definition nondet_qualifies :: "judged_row list \<Rightarrow> str \<Rightarrow> bool" where
  "nondet_qualifies js dep =
     (let (total, divergent) = dep_totals js dep; counts = minority_counts js dep in
      0 < total \<and> 3 \<le> divergent \<and> fle (F (2 / 10)) (fdiv (f_of_int divergent) (f_of_int total))
      \<and> 2 \<le> length counts \<and> fle (concentration counts) (F (6 / 10)))"

definition nondet_found :: "judge_db \<Rightarrow> int \<Rightarrow> (str \<times> int \<times> int) list" where
  "nondet_found d since = (let js = judged_probes d since False in
     map (\<lambda>dep. (dep, dep_totals js dep)) (filter (nondet_qualifies js) (remdups (map jr_deployment_id js))))"

text \<open>The field names of a deployment's recent diffs: the last component of each \<open>path\<close>
  (\<open>elem->>'path'\<close>, which prints a value that is not a string with \<open>text\<close>). An element list that is
  not an array fails the query, and the caller then takes no fields.\<close>

definition patch_path :: "(json \<Rightarrow> str) \<Rightarrow> json \<Rightarrow> str option" where
  "patch_path text e = (case jget ''path'' e of
      None \<Rightarrow> None | Some JNull \<Rightarrow> None | Some (JStr s) \<Rightarrow> Some s | Some j \<Rightarrow> Some (text j))"

definition after_last :: "char \<Rightarrow> str \<Rightarrow> str" where
  "after_last c s = rev (takeWhile (\<lambda>x. x \<noteq> c) (rev s))"

definition diverged_patches :: "int \<Rightarrow> judge_db \<Rightarrow> str \<Rightarrow> json list" where
  "diverged_patches since d dep = map (dv_diff_patches \<circ> snd)
     (filter (\<lambda>(pid, v). 1 < dv_cluster_count v \<and> (case recent_probe d since pid of
        Some p \<Rightarrow> pr_deployment_id p = dep | None \<Rightarrow> False)) (divergences (jd_probe d)))"

definition sample_divergent_fields :: "(json \<Rightarrow> str) \<Rightarrow> int \<Rightarrow> judge_db \<Rightarrow> str \<Rightarrow> str list" where
  "sample_divergent_fields text since d dep =
     (let patches = diverged_patches since d dep in
      if list_ex (\<lambda>v. as_array v = None) patches then []
      else let elems = concat (List.map_filter as_array patches);
               fields = map (\<lambda>e. map_option (after_last (CHR ''/'')) (patch_path text e)) elems in
        filter (\<lambda>f. f \<noteq> '''') (List.map_filter (\<lambda>x. x) (take 12 (remdups fields))))"

text \<open>The detection: upsert what qualifies, delete what no longer does, and name the deployments
  whose flag changed, whose stored buckets are to be rolled up again.\<close>

definition detect_nondeterministic :: "(json \<Rightarrow> str) \<Rightarrow> int \<Rightarrow> int \<Rightarrow> judge_db \<Rightarrow> str list \<times> judge_db" where
  "detect_nondeterministic text since now d =
     (let rows = nondet_found d since;
          before = map fst (jd_nondeterministic d);
          ids = map fst rows;
          t1 = foldl (\<lambda>t (dep, total, divergent). tput dep \<lparr>nd_divergent_probes = divergent,
                 nd_total_probes = total,
                 nd_divergence_rate = fdiv (f_of_int divergent) (f_of_int (max total 1)),
                 nd_sample_fields = sample_divergent_fields text since d dep, nd_last_seen = now\<rparr> t) (jd_nondeterministic d) rows;
          t2 = tdel (\<lambda>dep _. dep \<notin> set ids) t1
      in (filter (\<lambda>x. x \<notin> set ids) before @ filter (\<lambda>x. x \<notin> set before) ids,
          d\<lparr>jd_nondeterministic := t2\<rparr>))"

section \<open>Lemmas\<close>

lemma set_map_filter: "x \<in> set (List.map_filter f xs) \<longleftrightarrow> (\<exists>y \<in> set xs. f y = Some x)"
  by (induction xs) (auto simp: map_filter_simps split: option.splits)

lemma map_filter_append: "List.map_filter f (xs @ ys) = List.map_filter f xs @ List.map_filter f ys"
  by (induction xs) (auto simp: map_filter_simps split: option.splits)

lemma count_distinct_card: "count_distinct xs = int (card (set xs))"
  by (simp add: count_distinct_def length_remdups_card_conv)

text \<open>Every judged answer beside the observation it judges; the two queries project it.\<close>

definition judged_pairs :: "judge_db \<Rightarrow> int \<Rightarrow> (judged_row \<times> observation_row) list" where
  "judged_pairs d since = List.map_filter
     (\<lambda>r. map_option (\<lambda>j. (j, snd r)) (judged_row_of d since True r)) (observations (jd_probe d))"

lemma map_filter_option: "List.map_filter (\<lambda>x. map_option g (f x)) xs = map g (List.map_filter f xs)"
  by (induction xs) (auto simp: map_filter_simps split: option.splits)

lemma judged_fst: "judged_probes d since True = map fst (judged_pairs d since)"
proof -
  have "List.map_filter f xs = map fst (List.map_filter (\<lambda>r. map_option (\<lambda>j. (j, snd r)) (f r)) xs)"
    for f :: "'a \<times> 'b \<Rightarrow> 'c option" and xs
    by (induction xs) (auto simp: map_filter_simps split: option.splits)
  then show ?thesis unfolding judged_probes_def judged_pairs_def .
qed

lemma items_pairs: "agg_items d since = map (\<lambda>x. (jr_indexer_address (fst x),
    (jr_probe_id (fst x), jr_deployment_id (fst x), snd x))) (judged_pairs d since)"
proof -
  have "(\<lambda>((pid, addr), o'). case recent_probe d since pid of None \<Rightarrow> None
      | Some p \<Rightarrow> if counted d addr o' then Some (identity d addr, (pid, pr_deployment_id p, o')) else None)
    = (\<lambda>r. map_option (\<lambda>x. (jr_indexer_address (fst x), (jr_probe_id (fst x), jr_deployment_id (fst x), snd x)))
        (map_option (\<lambda>j. (j, snd r)) (judged_row_of d since True r)))"
    by (auto simp: judged_row_of_def fun_eq_iff split: option.splits)
  then show ?thesis unfolding agg_items_def judged_pairs_def by (simp only: map_filter_option)
qed

lemma pair_facts: "(j, o') \<in> set (judged_pairs d since) \<Longrightarrow> jr_response_hash j = ob_response_hash o' \<and>
    jr_fault j = (minority d (jr_probe_id j) o' \<and> map_of (jd_nondeterministic d) (jr_deployment_id j) = None)"
  unfolding judged_pairs_def set_map_filter
  by (auto simp: judged_row_of_def split: option.splits if_splits)

lemma values_at_map: "values_at a (map (\<lambda>x. (f x, g x)) xs) = map g (filter (\<lambda>x. f x = a) xs)"
  by (induction xs) auto

lemma filter_pair_cong: "(\<And>x. x \<in> set xs \<Longrightarrow> P x = Q x) \<Longrightarrow> filter P xs = filter Q xs"
  by (rule filter_cong) auto

lemma agg_counts:
  fixes a defines "J d since \<equiv> filter (\<lambda>j. jr_indexer_address j = a) (judged_probes d since True)"
  shows "agg_of d (values_at a (agg_items d since)) = g \<Longrightarrow>
     ag_total g = int (length (J d since))
     \<and> ag_probes_answered g = count_distinct (map jr_probe_id (filter (\<lambda>j. jr_response_hash j \<noteq> None) (J d since)))
     \<and> ag_faults g = count_distinct (map jr_probe_id (filter jr_fault (J d since)))"
proof -
  let ?P = "filter (\<lambda>x. jr_indexer_address (fst x) = a) (judged_pairs d since)"
  have v: "values_at a (agg_items d since) = map (\<lambda>x. (jr_probe_id (fst x), jr_deployment_id (fst x), snd x)) ?P"
    unfolding items_pairs using values_at_map [of a "\<lambda>x. jr_indexer_address (fst x)"
        "\<lambda>x. (jr_probe_id (fst x), jr_deployment_id (fst x), snd x)" "judged_pairs d since"] .
  have J: "J d since = map fst ?P" unfolding J_def judged_fst by (simp add: filter_map comp_def)
  have h: "filter (\<lambda>x. ob_response_hash (snd x) \<noteq> None) ?P = filter (\<lambda>x. jr_response_hash (fst x) \<noteq> None) ?P"
    by (rule filter_pair_cong) (use pair_facts in fastforce)
  have f: "filter (\<lambda>x. minority d (jr_probe_id (fst x)) (snd x) \<and> map_of (jd_nondeterministic d) (jr_deployment_id (fst x)) = None) ?P
      = filter (\<lambda>x. jr_fault (fst x)) ?P"
    by (rule filter_pair_cong) (use pair_facts in fastforce)
  show "agg_of d (values_at a (agg_items d since)) = g \<Longrightarrow>
     ag_total g = int (length (J d since))
     \<and> ag_probes_answered g = count_distinct (map jr_probe_id (filter (\<lambda>j. jr_response_hash j \<noteq> None) (J d since)))
     \<and> ag_faults g = count_distinct (map jr_probe_id (filter jr_fault (J d since)))"
    unfolding v J agg_of_def
    by (auto simp: filter_map comp_def h f simp del: filter_filter not_None_eq)
qed

section \<open>A judged probe, end to end\<close>

lemma fold_tput_new_fresh:
  "distinct (map f xs) \<Longrightarrow> (\<forall>x \<in> set xs. map_of t (f x) = None) \<Longrightarrow>
    fold (\<lambda>x. tput_new (f x) (g x)) xs t = t @ map (\<lambda>x. (f x, g x)) xs"
proof (induction xs arbitrary: t)
  case (Cons x xs)
  then have "tput_new (f x) (g x) t = t @ [(f x, g x)]" by (simp add: tput_new_def)
  moreover have "\<forall>y \<in> set xs. map_of (t @ [(f x, g x)]) (f y) = None"
    using Cons.prems by (auto simp: map_add_def) (metis imageI)
  ultimately show ?case using Cons by simp
qed simp

definition fresh_probe :: "str \<Rightarrow> probe_db \<Rightarrow> bool" where
  "fresh_probe pid d \<longleftrightarrow> map_of (probes d) pid = None \<and> map_of (divergences d) pid = None
     \<and> (\<forall>r \<in> set (observations d). fst (fst r) \<noteq> pid)"

lemma stored_observations:
  assumes "fresh_probe pid d" and "distinct (map ro_indexer_address obs)" and "fst (store_results jsonb pid p obs r d)"
  shows "observations (snd (store_results jsonb pid p obs r d)) =
    observations d @ map (\<lambda>o'. ((pid, ro_indexer_address o'), the (observation_of jsonb o'))) obs"
proof -
  have "distinct (map (\<lambda>o'. (pid, ro_indexer_address o')) obs)"
    using assms(2) by (simp add: distinct_map inj_on_def)
  moreover have "\<forall>o' \<in> set obs. map_of (observations d) (pid, ro_indexer_address o') = None"
    using assms(1) by (force simp: fresh_probe_def map_of_eq_None_iff)
  ultimately show ?thesis unfolding store_observations [OF assms(3)] by (rule fold_tput_new_fresh)
qed

lemma row_hash: "observation_of jsonb o' = Some row \<Longrightarrow> ob_response_hash row = ro_response_hash o'"
  by (auto simp: observation_of_def Let_def split: option.splits)

definition majority_against :: "str \<Rightarrow> cluster_input list \<Rightarrow> bool" where
  \<comment> \<open>More than half of the answers agree on another hash.\<close>
  "majority_against h inputs \<longleftrightarrow> (\<exists>h'. h' \<noteq> h \<and> answered inputs < 2 * hash_count h' inputs)"

lemma stored_fault:
  assumes "permutes ord" and "length obs < 2 ^ 31"
    and "compute_clusters parse jdiff ord (map cluster_input_of obs) = Some r"
    and "\<forall>o' \<in> set obs. ro_response_hash o' \<noteq> Some ''''"
    and "fresh_probe pid (jd_probe d)" and "distinct (map ro_indexer_address obs)"
    and "fst (store_results jsonb pid p obs r (jd_probe d))"
    and d': "d' = d\<lparr>jd_probe := snd (store_results jsonb pid p obs r (jd_probe d))\<rparr>"
    and o': "((pid, addr), o') \<in> set (observations (jd_probe d'))"
  shows "minority d' pid o' \<longleftrightarrow> (\<exists>h. ob_response_hash o' = Some h \<and> majority_against h (map cluster_input_of obs))"
proof -
  let ?I = "map cluster_input_of obs"
  let ?rows = "map (\<lambda>o'. ((pid, ro_indexer_address o'), the (observation_of jsonb o'))) obs"
  have obs: "observations (jd_probe d') = observations (jd_probe d) @ ?rows"
    using stored_observations [OF assms(5-7)] d' by simp
  have ok: "observation_of jsonb x \<noteq> None" if "x \<in> set obs" for x using assms(7) that by (simp add: store_ok_iff)
  have rh: "ob_response_hash (the (observation_of jsonb x)) = ro_response_hash x" if "x \<in> set obs" for x
    using ok [OF that] row_hash by fastforce
  have old: "filter (\<lambda>((q, _), o'). q = pid \<and> ob_response_hash o' \<noteq> None) (observations (jd_probe d)) = []"
    using assms(5) by (auto simp: fresh_probe_def filter_empty_conv)
  have "filter (\<lambda>((q, _), o'). q = pid \<and> ob_response_hash o' \<noteq> None) ?rows =
      map (\<lambda>o'. ((pid, ro_indexer_address o'), the (observation_of jsonb o'))) (filter (\<lambda>x. ro_response_hash x \<noteq> None) obs)"
    unfolding filter_map comp_def by (intro arg_cong2 [where f = map] refl filter_cong) (simp_all add: rh)
  then have n: "responders d' pid = answered ?I"
    unfolding responders_def obs filter_append old by (simp add: answered_def filter_map comp_def cluster_input_of_def)
  obtain x where x: "x \<in> set obs" "o' = the (observation_of jsonb x)"
    using o' assms(5) unfolding obs by (force simp: fresh_probe_def)
  have cnt: "0 < hash_count h ?I" if "ob_response_hash o' = Some h" for h
  proof -
    have "cluster_input_of x \<in> set ?I" using x(1) by simp
    moreover have "ci_response_hash (cluster_input_of x) = Some h"
      using x that rh [OF x(1)] by (simp add: cluster_input_of_def)
    ultimately have "cluster_input_of x \<in> set (filter (\<lambda>i. ci_response_hash i = Some h) ?I)" by simp
    then show ?thesis unfolding hash_count_def by (metis length_pos_if_in_set)
  qed
  have L: "length ?I < 2 ^ 31" and E: "\<forall>i \<in> set ?I. ci_response_hash i \<noteq> Some ''''"
    using assms(2,4) by (auto simp: cluster_input_of_def)
  have dv: "map_of (divergences (jd_probe d')) pid =
      (if \<exists>h. 2 \<le> hash_count h ?I then Some (divergence_of r (pr_dispatched_at p)) else None)"
    using divergence_row [OF assms(1) L assms(3) E _ assms(7)] assms(5) d' by (simp add: fresh_probe_def)
  note big = largest_cluster [OF assms(1) L assms(3)]
  show ?thesis
  proof
    assume m: "minority d' pid o'"
    have ex: "\<exists>h. 2 \<le> hash_count h ?I"
      by (rule ccontr) (use m in \<open>simp add: minority_def dv split: option.splits\<close>)
    with m obtain h where h: "ob_response_hash o' = Some h" "h \<noteq> largest_by_count_hash r"
        "int (answered ?I) < largest_by_count_size r * 2"
      by (cases "ob_response_hash o'") (simp_all add: minority_def n dv divergence_of_def)
    then have "answered ?I \<noteq> 0" using cnt [of h] by (auto simp: hash_count_def answered_def filter_empty_conv)
    then have "answered ?I < 2 * hash_count (largest_by_count_hash r) ?I" using big(1) h(3) by auto
    then show "\<exists>h. ob_response_hash o' = Some h \<and> majority_against h ?I"
      using h(1) not_sym [OF h(2)] unfolding majority_against_def
      by (intro exI [of _ h] conjI exI [of _ "largest_by_count_hash r"])
  next
    assume "\<exists>h. ob_response_hash o' = Some h \<and> majority_against h ?I"
    then obtain h h' where h: "ob_response_hash o' = Some h" "h' \<noteq> h" "answered ?I < 2 * hash_count h' ?I"
      unfolding majority_against_def by blast
    have "largest_by_count_hash r = h'" using big(3) h(3) by blast
    moreover have "2 \<le> hash_count h' ?I"
      using answered_split [OF h(2), of ?I] h(3) cnt [OF h(1)] by linarith
    moreover from this have "answered ?I \<noteq> 0" using h(3) answered_split [OF h(2), of ?I] by linarith
    ultimately show "minority d' pid o'"
      using h big(1) by (auto simp: minority_def n dv divergence_of_def)
  qed
qed

section \<open>Properties\<close>

text \<open>
  The grade and the feed judge alike: the totals, answers and faults an indexer is graded by
  are the counts of its rows in the one query of judged answers, with non-deterministic
  deployments excused.
\<close>

theorem grades_follow_judged_rows:
  assumes "(a, g) \<in> set (probe_agg_rows d since)"
    and "J = filter (\<lambda>j. jr_indexer_address j = a) (judged_probes d since True)"
  shows "ag_total g = int (length J)
     \<and> ag_probes_answered g = count_distinct (map jr_probe_id (filter (\<lambda>j. jr_response_hash j \<noteq> None) J))
     \<and> ag_faults g = count_distinct (map jr_probe_id (filter jr_fault J))"
proof -
  obtain items where "(a, items) \<in> set (group_pairs (agg_items d since))" "g = agg_of d items"
    using assms(1) by (auto simp: probe_agg_rows_def)
  then have "agg_of d (values_at a (agg_items d since)) = g" by (simp add: group_entry)
  from agg_counts [OF this] show ?thesis using assms(2) by simp
qed

definition sample_judge_db :: judge_db where
  "sample_judge_db = \<lparr>jd_probe = \<lparr>probes = [(''p'', sample_row)],
     observations = [((''p'', ''0xi''), \<lparr>ob_response_hash = Some ''h1'', ob_latency_ms = 3, ob_meta_block_number = None,
       ob_meta_block_hash = None, ob_http_status = Some 200, ob_error_class = None, ob_stake_weight = Fin 1,
       ob_dispatch_mode = ''paid'', ob_request_cid = None, ob_response_cid = None, ob_attestation = None\<rparr>)],
     divergences = []\<rparr>, jd_allocation_map = [], jd_nondeterministic = []\<rparr>"

lemma sample_agg: "probe_agg_rows sample_judge_db 0 =
    [(''0xi'', \<lparr>ag_probes_answered = 1, ag_faults = 0, ag_errors = 0, ag_total = 1\<rparr>)]"
  by (simp add: probe_agg_rows_def agg_items_def sample_judge_db_def map_filter_simps recent_probe_def counted_def
      resolved_def identity_def sample_row_def group_pairs_def mm_push_def agg_of_def minority_def count_distinct_def)

theorem grades_follow_judged_rows_witness:
  "length (filter (\<lambda>j. jr_indexer_address j = ''0xi'') (judged_probes sample_judge_db 0 True)) = 1"
proof -
  have "(''0xi'', \<lparr>ag_probes_answered = 1, ag_faults = 0, ag_errors = 0, ag_total = 1\<rparr>)
      \<in> set (probe_agg_rows sample_judge_db 0)" by (simp add: sample_agg)
  from grades_follow_judged_rows [OF this refl] show ?thesis by simp
qed

text \<open>
  A fault is an answer a strict majority contradicts: after a fresh probe is clustered and
  stored, its judged rows are faults exactly when more than half of the probe's answers share
  another hash. A scatter without a majority faults nobody.
\<close>

theorem fault_iff_majority_against:
  assumes "permutes ord" and "length obs < 2 ^ 31"
    and "compute_clusters parse jdiff ord (map cluster_input_of obs) = Some r"
    and "\<forall>o' \<in> set obs. ro_response_hash o' \<noteq> Some ''''"
    and "fresh_probe pid (jd_probe d)" and "distinct (map ro_indexer_address obs)"
    and "fst (store_results jsonb pid p obs r (jd_probe d))"
    and "d' = d\<lparr>jd_probe := snd (store_results jsonb pid p obs r (jd_probe d))\<rparr>"
    and "j \<in> set (judged_probes d' since False)" and "jr_probe_id j = pid"
  shows "jr_fault j \<longleftrightarrow> (\<exists>h. jr_response_hash j = Some h \<and> majority_against h (map cluster_input_of obs))"
proof -
  obtain addr o' where o': "((pid, addr), o') \<in> set (observations (jd_probe d'))"
      "judged_row_of d' since False ((pid, addr), o') = Some j"
    using assms(9,10) unfolding judged_probes_def set_map_filter
    by (auto simp: judged_row_of_def split: option.splits if_splits)
  then have "jr_fault j = minority d' pid o'" "jr_response_hash j = ob_response_hash o'"
    by (auto simp: judged_row_of_def split: option.splits if_splits)
  then show ?thesis using stored_fault [OF assms(1-8) o'(1)] by simp
qed

definition paid_answer :: "str \<Rightarrow> str \<Rightarrow> raw_observation" where
  "paid_answer a h = (error_observation a (Fin 1) None ''x'')\<lparr>ro_response_hash := Some h, ro_error_class := None\<rparr>"

definition three_paid :: "raw_observation list" where
  "three_paid = [paid_answer ''0xa'' ''h1'', paid_answer ''0xb'' ''h2'', paid_answer ''0xc'' ''h1'']"

theorem fault_iff_majority_against_witness:
  "\<exists>r d' j. compute_clusters (\<lambda>_. None) (\<lambda>_ _. JArr []) rev (map cluster_input_of three_paid) = Some r
     \<and> d' = \<lparr>jd_probe = snd (store_results (\<lambda>_. None) ''q'' sample_row three_paid r empty_db),
              jd_allocation_map = [], jd_nondeterministic = []\<rparr>
     \<and> j \<in> set (judged_probes d' 0 False) \<and> jr_indexer_address j = ''0xb'' \<and> jr_fault j"
proof -
  let ?d = "\<lparr>jd_probe = empty_db, jd_allocation_map = [], jd_nondeterministic = []\<rparr>"
  note defs = three_paid_def paid_answer_def observation_defs cluster_input_of_def
  have "\<exists>r. compute_clusters (\<lambda>_. None) (\<lambda>_ _. JArr []) rev (map cluster_input_of three_paid) = Some r"
    by (rule compute_total [OF permutes_rev]) (simp add: defs)
  then obtain r where r: "compute_clusters (\<lambda>_. None) (\<lambda>_ _. JArr []) rev (map cluster_input_of three_paid) = Some r" ..
  let ?s = "store_results (\<lambda>_. None) ''q'' sample_row three_paid r empty_db"
  let ?d' = "\<lparr>jd_probe = snd ?s, jd_allocation_map = [], jd_nondeterministic = []\<rparr>"
  have ok: "fst ?s" by (simp add: store_ok_iff observation_of_def defs)
  have fresh: "fresh_probe ''q'' (jd_probe ?d)" by (simp add: fresh_probe_def empty_db_def)
  have dist: "distinct (map ro_indexer_address three_paid)" by (simp add: defs)
  have row: "((''q'', ''0xb''), the (observation_of (\<lambda>_. None) (paid_answer ''0xb'' ''h2''))) \<in> set (observations (snd ?s))"
    using stored_observations [OF _ dist ok] fresh by (simp add: three_paid_def) (simp add: paid_answer_def observation_defs)
  have pr: "probes (snd ?s) = [(''q'', sample_row)]" by (simp add: store_probes empty_db_def tput_new_def)
  let ?o = "the (observation_of (\<lambda>_. None) (paid_answer ''0xb'' ''h2''))"
  have "pr_dispatched_at sample_row = 5" by (simp add: sample_row_def)
  then have rec: "recent_probe ?d' 0 ''q'' = Some sample_row" by (simp add: recent_probe_def pr)
  have "counted ?d' ''0xb'' ?o" "ob_response_hash ?o = Some ''h2''"
    by (simp_all add: counted_def observation_of_def paid_answer_def observation_defs DISPATCH_PAID_def)
  moreover have "identity ?d' ''0xb'' = ''0xb''" by (simp add: identity_def resolved_def)
  ultimately obtain j where j: "judged_row_of ?d' 0 False ((''q'', ''0xb''), ?o) = Some j"
    and f: "jr_indexer_address j = ''0xb''" "jr_response_hash j = Some ''h2''" "jr_probe_id j = ''q''"
    by (simp add: judged_row_of_def rec)
  have m: "j \<in> set (judged_probes ?d' 0 False)"
    unfolding judged_probes_def set_map_filter using row j by auto
  have "answered (map cluster_input_of three_paid) = 3" "hash_count ''h1'' (map cluster_input_of three_paid) = 2"
    by (simp_all add: answered_def hash_count_def defs)
  then have "majority_against ''h2'' (map cluster_input_of three_paid)"
    unfolding majority_against_def by (intro exI [of _ "''h1''"]) simp
  moreover have "length three_paid < 2 ^ 31" "\<forall>o' \<in> set three_paid. ro_response_hash o' \<noteq> Some ''''"
    by (simp_all add: defs)
  ultimately have "jr_fault j"
    using fault_iff_majority_against [OF permutes_rev _ r _ fresh dist, where p = sample_row and jsonb = "\<lambda>_. None"
        and d' = ?d' and j = j and since = 0] ok m f by simp
  then show ?thesis using r m f by blast
qed

text \<open>
  A refused payment is evidence about no indexer: adding an observation with a payment error
  class and no answer, whoever it names, leaves every judged row as it was.
\<close>

theorem payment_refusal_is_no_evidence:
  assumes "ob_error_class o' = Some (''payment_'' @ e)" and "ob_response_hash o' = None"
    and "d' = d\<lparr>jd_probe := (jd_probe d)\<lparr>observations := observations (jd_probe d) @ [((pid, addr), o')]\<rparr>\<rparr>"
  shows "judged_probes d' since excuse = judged_probes d since excuse"
proof -
  have r: "recent_probe d' since = recent_probe d since" "identity d' = identity d" "counted d' = counted d"
    "jd_nondeterministic d' = jd_nondeterministic d"
    using assms(3) by (auto simp: recent_probe_def identity_def counted_def resolved_def fun_eq_iff cong: option.case_cong)
  have "responders d' = responders d"
    using assms(2,3) by (auto simp: responders_def fun_eq_iff)
  then have "minority d' = minority d"
    using assms(3) by (auto simp: minority_def fun_eq_iff cong: option.case_cong)
  then have j: "judged_row_of d' since excuse = judged_row_of d since excuse"
    unfolding judged_row_of_def by (simp only: r)
  have "\<not> counted d addr o'" using assms(1) by (simp add: counted_def starts_with_def)
  then have "judged_row_of d since excuse ((pid, addr), o') = None"
    by (simp add: judged_row_of_def split: option.splits)
  moreover have "observations (jd_probe d') = observations (jd_probe d) @ [((pid, addr), o')]"
    using assms(3) by simp
  ultimately show ?thesis unfolding judged_probes_def j by (simp add: map_filter_append map_filter_simps)
qed

definition refusal_row :: observation_row where
  "refusal_row = the (observation_of (\<lambda>_. None) (error_observation ''0xz'' (Fin 1) None ''payment_refused''))"

theorem payment_refusal_is_no_evidence_witness:
  "judged_probes (sample_judge_db\<lparr>jd_probe := (jd_probe sample_judge_db)\<lparr>observations :=
      observations (jd_probe sample_judge_db) @ [((''p'', ''0xz''), refusal_row)]\<rparr>\<rparr>) 0 True
   = judged_probes sample_judge_db 0 True"
proof -
  have "ob_error_class refusal_row = Some (''payment_'' @ ''refused'')" "ob_response_hash refusal_row = None"
    by (simp_all add: refusal_row_def observation_of_def observation_defs)
  from payment_refusal_is_no_evidence [OF this refl] show ?thesis .
qed

text \<open>
  C22. Our own payment failures are told apart and held against nobody. A paid probe gets an error class that begins
  with payment exactly when both addresses parse and the indexer replied with 402, or with 400 and a body that
  mentions, whatever the case of its letters, a denylist, issues with the provided receipt or a receipt error:
  denylisted for a 400 that mentions a denylist, refused otherwise. Such an observation has no answer, no status and no attestation, and storing it,
  under any probe and address, leaves every judged row as it was.
\<close>

theorem payment_failures_classified:
  assumes "o' = execute_paid_probe L addr client req"
  shows "(ro_error_class o' = Some (''payment_'' @ e) \<longleftrightarrow>
      (\<exists>a b r. addr (dq_indexer_address req) = Some a \<and> addr (dq_allocation_id req) = Some b
         \<and> client (dq_indexer_url req) a b (dq_deployment_ipfs_hash req)
             (lib_text L (graphql_body (dq_query req) (dq_block_hash req))) = Some r
         \<and> (e = ''denylisted'' \<and> py_status r = 400 \<and> mentions (py_body r) ''denylist''
            \<or> e = ''refused'' \<and> (py_status r = 402 \<or> py_status r = 400 \<and> \<not> mentions (py_body r) ''denylist''
                \<and> (mentions (py_body r) ''issues with provided receipt'' \<or> mentions (py_body r) ''receipt error'')))))
    \<and> (ro_error_class o' = Some (''payment_'' @ e) \<longrightarrow>
        ro_response_hash o' = None \<and> ro_http_status o' = None \<and> ro_attestation o' = None
        \<and> (\<exists>row. observation_of jsonb o' = Some row
           \<and> judged_probes (d\<lparr>jd_probe := (jd_probe d)\<lparr>observations := observations (jd_probe d) @ [((pid, x), row)]\<rparr>\<rparr>) since excuse
             = judged_probes d since excuse))"
proof (rule conjI [OF _ impI])
  note p = paid_probe_refused [OF assms, of e]
  show "ro_error_class o' = Some (''payment_'' @ e) \<longleftrightarrow>
      (\<exists>a b r. addr (dq_indexer_address req) = Some a \<and> addr (dq_allocation_id req) = Some b
         \<and> client (dq_indexer_url req) a b (dq_deployment_ipfs_hash req)
             (lib_text L (graphql_body (dq_query req) (dq_block_hash req))) = Some r
         \<and> (e = ''denylisted'' \<and> py_status r = 400 \<and> mentions (py_body r) ''denylist''
            \<or> e = ''refused'' \<and> (py_status r = 402 \<or> py_status r = 400 \<and> \<not> mentions (py_body r) ''denylist''
                \<and> (mentions (py_body r) ''issues with provided receipt'' \<or> mentions (py_body r) ''receipt error''))))"
    unfolding p(1) by (auto simp: refuses_payment_def)
  assume c: "ro_error_class o' = Some (''payment_'' @ e)"
  note n = p(2) [OF c]
  then obtain row where row: "observation_of jsonb o' = Some row" "ob_response_hash row = None"
    "ob_error_class row = Some (''payment_'' @ e)" using c by (auto simp: observation_of_def Let_def)
  from payment_refusal_is_no_evidence [OF row(3,2) refl] show "ro_response_hash o' = None \<and> ro_http_status o' = None
      \<and> ro_attestation o' = None \<and> (\<exists>row. observation_of jsonb o' = Some row
           \<and> judged_probes (d\<lparr>jd_probe := (jd_probe d)\<lparr>observations := observations (jd_probe d) @ [((pid, x), row)]\<rparr>\<rparr>) since excuse
             = judged_probes d since excuse)"
    using n row(1) by blast
qed

text \<open>A reply of 402, and one of 400 that names the list in capitals.\<close>

theorem payment_failures_classified_witness:
  "ro_error_class (execute_paid_probe sample_lib Some (\<lambda>_ _ _ _ _. Some \<lparr>py_status = 402, py_body = '''', py_latency_ms = 5\<rparr>)
     sample_paid_request) = Some (''payment_'' @ ''refused'')
   \<and> ro_error_class (execute_paid_probe sample_lib Some (\<lambda>_ _ _ _ _. Some \<lparr>py_status = 400, py_body = ''On DENYLIST'', py_latency_ms = 5\<rparr>)
     sample_paid_request) = Some (''payment_'' @ ''denylisted'')"
proof -
  have "to_lower ''On DENYLIST'' = ''on '' @ ''denylist'' @ ''''" by code_simp
  then have "mentions ''On DENYLIST'' ''denylist''" unfolding mentions_def by blast
  then show ?thesis
    using payment_failures_classified [OF refl, of sample_lib Some "\<lambda>_ _ _ _ _. Some \<lparr>py_status = 402, py_body = '''', py_latency_ms = 5\<rparr>"
        sample_paid_request "''refused''" "\<lambda>_. None" sample_judge_db "''p''" "''x''" 0 True]
      payment_failures_classified [OF refl, of sample_lib Some
        "\<lambda>_ _ _ _ _. Some \<lparr>py_status = 400, py_body = ''On DENYLIST'', py_latency_ms = 5\<rparr>"
        sample_paid_request "''denylisted''" "\<lambda>_. None" sample_judge_db "''p''" "''x''" 0 True]
    by auto
qed

lemma length_group: "length (group_pairs ps) = card (fst ` set ps)"
proof -
  have "length (group_pairs ps) = card (set (map fst (group_pairs ps)))"
    using twf_group [of ps] by (metis distinct_card length_map twf_def)
  then show ?thesis by (simp add: group_keys)
qed

lemma minority_counts_indexers: "length (minority_counts js dep) =
    card (jr_indexer_address ` {j \<in> set js. jr_fault j \<and> jr_deployment_id j = dep})"
proof -
  have "fst ` set (map (\<lambda>j. (jr_indexer_address j, jr_probe_id j)) (filter (\<lambda>j. jr_fault j \<and> jr_deployment_id j = dep) js))
      = jr_indexer_address ` {j \<in> set js. jr_fault j \<and> jr_deployment_id j = dep}"
    by (auto simp: image_iff)
  then show ?thesis unfolding minority_counts_def length_map length_group by simp
qed

lemma fold_tput_keys: "map_of (foldl (\<lambda>t (dep, n, m). tput dep (g dep n m) t) t rows) k =
    (case map_of (rev (map (\<lambda>(dep, n, m). (dep, g dep n m)) rows)) k of None \<Rightarrow> map_of t k | Some v \<Rightarrow> Some v)"
  by (induction rows arbitrary: t) (auto simp: map_add_def split: option.splits)

lemma fold_tput_twf: "twf t \<Longrightarrow> twf (foldl (\<lambda>t (dep, n, m). tput dep (g dep n m) t) t rows)"
  by (induction rows arbitrary: t) auto



end
