(* ===== verification/Qos.thy ===== *)
theory Qos
  imports Judged
begin

text \<open>
  The QoS feed Foghorn measures itself, \<open>foghorn-probe/src/qos.rs\<close>, with the requests to roll old
  buckets up again and what writes them (\<open>resolver.rs\<close>, the end of \<open>detect_nondeterministic\<close> in
  \<open>scorer.rs\<close>). Times are microseconds and a bucket is named by its first one; the code's float
  divisions of epoch seconds are exact there, so a bucket's start is the floor to its width. The
  columns of \<open>allocation_map\<close> are tables with the same key: the indexer is in the judged tables, the
  URL and the time of the resolution here.
\<close>

section \<open>The tables\<close>

type_synonym bucket_key = "str \<times> str \<times> int \<times> int"

record fq_row =
  fq_indexer_url :: "str option"
  fq_chain_id :: str
  fq_gateway_id :: str
  fq_query_count :: int
  fq_num_200 :: int
  fq_proportion_200 :: f64
  fq_avg_latency :: "f64 option"
  fq_max_latency :: "f64 option"
  fq_stdev_latency :: "f64 option"
  fq_p50 :: "int option"
  fq_p95 :: "int option"
  fq_p99 :: "int option"
  fq_avg_behind :: "f64 option"
  fq_max_behind :: "f64 option"
  fq_comparable_count :: int
  fq_divergent_count :: int
  fq_correctness_rate :: "f64 option"
  fq_computed_at :: int

record reroll =
  rr_id :: nat
  rr_deployment :: "str option"
  rr_from :: int
  rr_to :: int
  rr_reason :: str

record qos_db =
  qd_judge :: judge_db
  qd_alloc_urls :: "(str, str option) table"
  qd_alloc_resolved :: "(str, int) table"
  foghorn_qos :: "(bucket_key, fq_row) table"
  qos_reroll :: "reroll list"
  qd_next_reroll :: nat

section \<open>Aggregates\<close>

text \<open>PostgreSQL's \<open>avg\<close>, \<open>max\<close> and \<open>stddev_samp\<close> of doubles: null over no value; the deviation by
  Youngs and Cramer's running sums, \<open>fsqrt\<close> the square root of the C library.\<close>

definition f_avg :: "f64 list \<Rightarrow> f64 option" where
  "f_avg xs = (if xs = [] then None else Some (fdiv (fsum xs) (f_of_int (int (length xs)))))"

definition f_max :: "f64 list \<Rightarrow> f64 option" where
  "f_max xs = (case xs of [] \<Rightarrow> None | a # as \<Rightarrow> Some (foldl fmax a as))"

fun youngs_cramer :: "int \<Rightarrow> f64 \<Rightarrow> f64 \<Rightarrow> f64 list \<Rightarrow> f64" where
  "youngs_cramer n sx sxx [] = sxx"
| "youngs_cramer n sx sxx (x # xs) =
     (let n' = n + 1; sx' = fadd sx x; tmp = fsub (fmul x (f_of_int n')) sx' in
      youngs_cramer n' sx'
        (if 1 < n' then fadd sxx (fdiv (fmul tmp tmp) (fmul (f_of_int n') (f_of_int (n' - 1)))) else sxx) xs)"

definition f_stddev :: "(f64 \<Rightarrow> f64) \<Rightarrow> f64 list \<Rightarrow> f64 option" where
  "f_stddev fsqrt xs = (if length xs \<le> 1 then None
     else Some (fsqrt (fdiv (youngs_cramer 0 (F 0) (F 0) xs) (f_of_int (int (length xs) - 1)))))"

text \<open>\<open>percentile_cont(p)\<close> over integers, cast to an integer: linear between the two rows around
  \<open>p * (n - 1)\<close>.\<close>

fun f_int_round :: "f64 \<Rightarrow> int" where
  "f_int_round (Fin x) = rhe x"
| "f_int_round _ = 0"

definition percentile :: "rat \<Rightarrow> int list \<Rightarrow> int option" where
  "percentile p xs = (if xs = [] then None else
     let ys = sort xs; pos = fmul (F p) (f_of_int (int (length ys) - 1)) in
     (case pos of
        Fin q \<Rightarrow> let lo = f_of_int (ys ! nat \<lfloor>q\<rfloor>); hi = f_of_int (ys ! nat \<lceil>q\<rceil>) in
          Some (f_int_round (if \<lfloor>q\<rfloor> = \<lceil>q\<rceil> then lo
            else fadd lo (fmul (fsub pos (f_of_int \<lfloor>q\<rfloor>)) (fsub hi lo))))
      | _ \<Rightarrow> None))"

section \<open>What a bucket counts\<close>

record obs_item =
  oi_latency_ms :: int
  oi_ok :: bool
  oi_response_hash :: "str option"
  oi_majority_hash :: "str option"
  oi_clear_majority :: bool
  oi_blocks_behind :: "f64 option"
  oi_nondeterministic :: bool

definition obs_item_of :: "qos_rollup_config \<Rightarrow> judge_db \<Rightarrow> str \<Rightarrow> probe_row \<Rightarrow> observation_row \<Rightarrow> obs_item" where
  "obs_item_of cfg d pid p o' = \<lparr>
     oi_latency_ms = ob_latency_ms o',
     oi_ok = (ob_error_class o' = None \<and> ob_http_status o' = Some 200),
     oi_response_hash = ob_response_hash o',
     oi_majority_hash = map_option dv_largest_by_count_hash (map_of (divergences (jd_probe d)) pid),
     oi_clear_majority = (case map_of (divergences (jd_probe d)) pid of
         Some v \<Rightarrow> int (responders d pid) < dv_largest_by_count_size v * 2 | None \<Rightarrow> False),
     oi_blocks_behind = map_option
         (\<lambda>m. f_of_int (max 0 (pr_block_number p + int (qr_chainhead_offset cfg) - m))) (ob_meta_block_number o'),
     oi_nondeterministic = (map_of (jd_nondeterministic d) (pr_deployment_id p) \<noteq> None)\<rparr>"

definition bucket_width :: "qos_rollup_config \<Rightarrow> int" where
  "bucket_width cfg = int (qr_bucket_secs cfg) * 1000000"

definition floor_to :: "int \<Rightarrow> int \<Rightarrow> int" where
  "floor_to w t = t div w * w"

text \<open>The range of a roll, on bucket boundaries; open above when there is no \<open>to\<close>.\<close>

record window_range =
  wr_at :: int
  wr_until :: "int option"

definition window_of :: "int \<Rightarrow> int \<Rightarrow> int option \<Rightarrow> window_range" where
  "window_of w from to = \<lparr>wr_at = floor_to w from, wr_until = map_option (\<lambda>t. (t div w + 1) * w) to\<rparr>"

definition in_window :: "window_range \<Rightarrow> int \<Rightarrow> bool" where
  "in_window r t \<longleftrightarrow> wr_at r \<le> t \<and> (case wr_until r of Some u \<Rightarrow> t < u | None \<Rightarrow> True)"

definition in_deployment :: "str option \<Rightarrow> str \<Rightarrow> bool" where
  "in_deployment dep x \<longleftrightarrow> (case dep of Some y \<Rightarrow> x = y | None \<Rightarrow> True)"

definition obs_row :: "qos_rollup_config \<Rightarrow> judge_db \<Rightarrow> window_range \<Rightarrow> str option \<Rightarrow>
    (str \<times> str) \<times> observation_row \<Rightarrow> ((str \<times> str \<times> int) \<times> obs_item) option" where
  "obs_row cfg d r dep row = (case row of ((pid, addr), o') \<Rightarrow>
     (case map_of (probes (jd_probe d)) pid of
        None \<Rightarrow> None
      | Some p \<Rightarrow>
          if in_window r (pr_dispatched_at p) \<and> in_deployment dep (pr_deployment_id p) \<and> counted d addr o'
          then Some ((identity d addr, pr_deployment_id p, floor_to (bucket_width cfg) (pr_dispatched_at p)),
                     obs_item_of cfg d pid p o')
          else None))"

definition obs_rows :: "qos_rollup_config \<Rightarrow> judge_db \<Rightarrow> window_range \<Rightarrow> str option \<Rightarrow>
    ((str \<times> str \<times> int) \<times> obs_item) list" where
  "obs_rows cfg d r dep = List.map_filter (obs_row cfg d r dep) (observations (jd_probe d))"

definition comparable_item :: "obs_item \<Rightarrow> bool" where
  "comparable_item i \<longleftrightarrow> oi_response_hash i \<noteq> None \<and> oi_clear_majority i \<and> \<not> oi_nondeterministic i"

definition divergent_item :: "obs_item \<Rightarrow> bool" where
  "divergent_item i \<longleftrightarrow> comparable_item i \<and> oi_response_hash i \<noteq> oi_majority_hash i"

definition fq_of :: "(f64 \<Rightarrow> f64) \<Rightarrow> qos_rollup_config \<Rightarrow> str option \<Rightarrow> int \<Rightarrow> obs_item list \<Rightarrow> fq_row" where
  "fq_of fsqrt cfg url now items =
     (let oks = filter oi_ok items; lats = map oi_latency_ms oks; flats = map f_of_int lats;
          behind = List.map_filter oi_blocks_behind items;
          comparable = int (length (filter comparable_item items));
          divergent = int (length (filter divergent_item items)) in
      \<lparr>fq_indexer_url = url, fq_chain_id = qr_chain_id cfg, fq_gateway_id = qr_gateway_id cfg,
       fq_query_count = int (length items), fq_num_200 = int (length oks),
       fq_proportion_200 = fdiv (f_of_int (int (length oks))) (f_of_int (int (length items))),
       fq_avg_latency = f_avg flats, fq_max_latency = f_max flats, fq_stdev_latency = f_stddev fsqrt flats,
       fq_p50 = percentile (50 / 100) lats, fq_p95 = percentile (95 / 100) lats, fq_p99 = percentile (99 / 100) lats,
       fq_avg_behind = f_avg behind, fq_max_behind = f_max behind,
       fq_comparable_count = comparable, fq_divergent_count = divergent,
       fq_correctness_rate = (if 0 < comparable
          then Some (fsub (F 1) (fdiv (f_of_int divergent) (f_of_int comparable))) else None),
       fq_computed_at = now\<rparr>)"

section \<open>The rollup\<close>

text \<open>\<open>max(indexer_url)\<close> over an indexer's allocations with a URL, in byte order.\<close>

definition indexer_urls :: "qos_db \<Rightarrow> str \<Rightarrow> str list" where
  "indexer_urls s ix = List.map_filter (\<lambda>(key, who). if who = Some ix
      then (case map_of (qd_alloc_urls s) key of
          Some (Some u) \<Rightarrow> if u \<noteq> '''' then Some u else None | _ \<Rightarrow> None)
      else None) (jd_allocation_map (qd_judge s))"

definition url_of :: "qos_db \<Rightarrow> str \<Rightarrow> str option" where
  "url_of s ix = (case indexer_urls s ix of [] \<Rightarrow> None | u # us \<Rightarrow> Some (foldl max u us))"

definition roll_groups :: "qos_rollup_config \<Rightarrow> window_range \<Rightarrow> str option \<Rightarrow> qos_db \<Rightarrow>
    ((str \<times> str \<times> int) \<times> obs_item list) list" where
  "roll_groups cfg r dep s = group_pairs (obs_rows cfg (qd_judge s) r dep)"

definition stale_row :: "qos_rollup_config \<Rightarrow> window_range \<Rightarrow> str option \<Rightarrow> (str \<times> str \<times> int) set \<Rightarrow>
    bucket_key \<Rightarrow> bool" where
  "stale_row cfg r dep keep k = (case k of (ix, dp, b, secs) \<Rightarrow>
     secs = int (qr_bucket_secs cfg) \<and> in_window r b \<and> in_deployment dep dp \<and> (ix, dp, b) \<notin> keep)"

text \<open>\<open>None\<close> is the error of dividing by a bucket width of zero.\<close>

definition roll_range :: "(f64 \<Rightarrow> f64) \<Rightarrow> qos_rollup_config \<Rightarrow> int \<Rightarrow> int option \<Rightarrow> str option \<Rightarrow> int \<Rightarrow>
    qos_db \<Rightarrow> (nat \<times> qos_db) option" where
  "roll_range fsqrt cfg from to dep now s =
     (if qr_bucket_secs cfg = 0 then None
      else
        let r = window_of (bucket_width cfg) from to;
            groups = roll_groups cfg r dep s;
            t1 = tdel (\<lambda>k _. stale_row cfg r dep (fst ` set groups) k) (foghorn_qos s);
            t2 = fold (\<lambda>((ix, dp, b), items). tput (ix, dp, b, int (qr_bucket_secs cfg))
                   (fq_of fsqrt cfg (url_of s ix) now items)) groups t1
        in Some (length groups, s\<lparr>foghorn_qos := t2\<rparr>))"

fun drain :: "(f64 \<Rightarrow> f64) \<Rightarrow> qos_rollup_config \<Rightarrow> int \<Rightarrow> reroll list \<Rightarrow> nat \<Rightarrow> qos_db \<Rightarrow> nat option \<times> qos_db" where
  "drain fsqrt cfg now [] n s = (Some n, s)"
| "drain fsqrt cfg now (q # qs) n s =
     (case roll_range fsqrt cfg (rr_from q) (Some (rr_to q)) (rr_deployment q) now s of
        None \<Rightarrow> (None, s)
      | Some (m, s') \<Rightarrow> drain fsqrt cfg now qs (n + m)
          (s'\<lparr>qos_reroll := filter (\<lambda>x. rr_id x \<noteq> rr_id q) (qos_reroll s')\<rparr>))"

definition rollup_from :: "qos_rollup_config \<Rightarrow> int \<Rightarrow> int" where
  "rollup_from cfg now = (now div 1000000 - int (qr_lookback_secs cfg)) * 1000000"

definition rollup_once :: "(f64 \<Rightarrow> f64) \<Rightarrow> qos_rollup_config \<Rightarrow> int \<Rightarrow> qos_db \<Rightarrow> nat option \<times> qos_db" where
  "rollup_once fsqrt cfg now s = (case roll_range fsqrt cfg (rollup_from cfg now) None None now s of
      None \<Rightarrow> (None, s)
    | Some (n, s') \<Rightarrow> drain fsqrt cfg now (qos_reroll s') n s')"

text \<open>Every stored bucket, a day at a time: \<open>from\<close> is a whole number of seconds.\<close>

function reroll_days :: "(f64 \<Rightarrow> f64) \<Rightarrow> qos_rollup_config \<Rightarrow> int \<Rightarrow> int \<Rightarrow> nat \<Rightarrow> qos_db \<Rightarrow> nat option \<times> qos_db" where
  "reroll_days fsqrt cfg now day n s =
     (if now div 1000000 < day then (Some n, s)
      else case roll_range fsqrt cfg (day * 1000000) (Some ((day + 86399) * 1000000)) None now s of
          None \<Rightarrow> (None, s)
        | Some (m, s') \<Rightarrow> reroll_days fsqrt cfg now (day + 86400) (n + m) s')"
  by pat_completeness auto
termination
  by (relation "measure (\<lambda>(_, _, now, day, _, _). nat (now div 1000000 + 1 - day))") auto

declare reroll_days.simps [simp del]

definition reroll_all :: "(f64 \<Rightarrow> f64) \<Rightarrow> qos_rollup_config \<Rightarrow> int \<Rightarrow> qos_db \<Rightarrow> nat option \<times> qos_db" where
  "reroll_all fsqrt cfg now s =
     (let ts = map (pr_dispatched_at \<circ> snd) (probes (jd_probe (qd_judge s))) in
      if ts = [] then (Some 0, s)
      else reroll_days fsqrt cfg now (floor_to 86400000000 (Min (set ts)) div 1000000) 0 s)"

section \<open>Requests\<close>

definition add_reroll :: "str option \<Rightarrow> int list \<Rightarrow> str \<Rightarrow> qos_db \<Rightarrow> qos_db" where
  \<comment> \<open>From the first to the last of the dispatch ts; nothing when there is none.\<close>
  "add_reroll dep ts reason s = (if ts = [] then s
     else s\<lparr>qos_reroll := qos_reroll s @ [\<lparr>rr_id = qd_next_reroll s, rr_deployment = dep,
            rr_from = Min (set ts), rr_to = Max (set ts), rr_reason = reason\<rparr>],
            qd_next_reroll := qd_next_reroll s + 1\<rparr>)"

definition request_deployment_reroll :: "str \<Rightarrow> str \<Rightarrow> qos_db \<Rightarrow> qos_db" where
  "request_deployment_reroll dep reason s = add_reroll (Some dep)
     (map (pr_dispatched_at \<circ> snd) (filter (\<lambda>(_, p). pr_deployment_id p = dep) (probes (jd_probe (qd_judge s)))))
     reason s"

definition flag_nondeterministic :: "(json \<Rightarrow> str) \<Rightarrow> int \<Rightarrow> int \<Rightarrow> qos_db \<Rightarrow> qos_db" where
  \<comment> \<open>\<open>detect_nondeterministic\<close> with the requests it ends in.\<close>
  "flag_nondeterministic text since now s =
     (let (changed, d) = detect_nondeterministic text since now (qd_judge s) in
      fold (\<lambda>dep. request_deployment_reroll dep ''non-deterministic flag changed'') changed (s\<lparr>qd_judge := d\<rparr>))"

text \<open>The probes with an observation under a key, by deployment.\<close>

definition key_probes :: "judge_db \<Rightarrow> str \<Rightarrow> (str \<times> int) list" where
  "key_probes d key = List.map_filter (\<lambda>((pid, addr), _). if addr = key
      then map_option (\<lambda>p. (pr_deployment_id p, pr_dispatched_at p)) (map_of (probes (jd_probe d)) pid) else None)
     (observations (jd_probe d))"

definition record_attribution :: "str \<Rightarrow> str \<Rightarrow> str option \<Rightarrow> int \<Rightarrow> qos_db \<Rightarrow> qos_db" where
  "record_attribution key indexer url now s =
     (let d = qd_judge s;
          changed = (resolved d key \<noteq> Some indexer);
          requests = (if changed then group_pairs (key_probes d key) else []);
          s1 = s\<lparr>qd_judge := d\<lparr>jd_allocation_map := tput key (Some indexer) (jd_allocation_map d)\<rparr>,
                 qd_alloc_urls := tput key url (qd_alloc_urls s),
                 qd_alloc_resolved := tput key now (qd_alloc_resolved s)\<rparr>
      in fold (\<lambda>(dep, ts). add_reroll (Some dep) ts ''allocation key attributed'') requests s1)"

text \<open>The mark for a key the subgraph did not return: a row without an indexer, or only the time of
  an existing one.\<close>

definition mark_unresolved :: "str \<Rightarrow> int \<Rightarrow> qos_db \<Rightarrow> qos_db" where
  "mark_unresolved key now s = s\<lparr>
     qd_judge := (qd_judge s)\<lparr>jd_allocation_map := tput_new key None (jd_allocation_map (qd_judge s))\<rparr>,
     qd_alloc_urls := tput_new key None (qd_alloc_urls s),
     qd_alloc_resolved := tput key now (qd_alloc_resolved s)\<rparr>"

record allocation_node =
  an_id :: str
  an_indexer_id :: str
  an_indexer_url :: "str option"

text \<open>One answer of the network subgraph: no reply that parses, or its \<open>data\<close>, which may be null.\<close>

definition resolve_chunk :: "int \<Rightarrow> str list \<Rightarrow> allocation_node list option option \<Rightarrow> qos_db \<Rightarrow> qos_db" where
  "resolve_chunk now ids reply s = (case reply of
      None \<Rightarrow> s
    | Some data \<Rightarrow>
        let nodes = (case data of Some ns \<Rightarrow> ns | None \<Rightarrow> []);
            found = map (to_lower \<circ> an_id) nodes;
            s1 = fold (\<lambda>a. record_attribution (to_lower (an_id a)) (to_lower (an_indexer_id a)) (an_indexer_url a) now) nodes s
        in fold (\<lambda>key. mark_unresolved key now) (filter (\<lambda>k. k \<notin> set found) ids) s1)"

definition unresolved_keys :: "int \<Rightarrow> qos_db \<Rightarrow> str list" where
  "unresolved_keys now s = take 200 (filter (\<lambda>k. case map_of (qd_alloc_resolved s) k of
      Some t \<Rightarrow> \<not> now - 86400000000 < t | None \<Rightarrow> True)
     (remdups (map (\<lambda>((_, addr), _). addr) (observations (jd_probe (qd_judge s))))))"

fun chunks_of :: "nat \<Rightarrow> 'a list \<Rightarrow> 'a list list" where
  "chunks_of 0 xs = []"
| "chunks_of n [] = []"
| "chunks_of n (x # xs) = take n (x # xs) # chunks_of n (drop (n - 1) xs)"

definition resolve_allocation_keys :: "(str list \<Rightarrow> allocation_node list option option) \<Rightarrow> int \<Rightarrow> qos_db \<Rightarrow> qos_db" where
  "resolve_allocation_keys fetch now s =
     fold (\<lambda>chunk s. let ids = map to_lower chunk in resolve_chunk now ids (fetch ids) s)
       (chunks_of 100 (unresolved_keys now s)) s"

end
