(* ===== verification/Qos_Props.thy ===== *)
theory Qos_Props
  imports Qos
begin

text \<open>
  The feed is what its observations say. A roll replaces exactly the buckets of its range by what
  all their observations aggregate to; the feed counts the same faults as the judged answers the
  grades are made of; and with the requests the other components write, no stored bucket is ever
  left with numbers the current data contradicts once the rollup has run.
\<close>

section \<open>Windows of whole buckets\<close>

lemma floor_to_le: "0 < w \<Longrightarrow> floor_to w t \<le> t"
  using pos_mod_sign [of w t] by (simp add: floor_to_def minus_mod_eq_div_mult [symmetric])

lemma floor_to_gt: "0 < w \<Longrightarrow> t < floor_to w t + w"
  using pos_mod_bound [of w t] by (simp add: floor_to_def minus_mod_eq_div_mult [symmetric])

lemma floor_to_idem [simp]: "0 < w \<Longrightarrow> floor_to w (floor_to w t) = floor_to w t"
  by (simp add: floor_to_def)

lemma mult_le_div: "0 < (w::int) \<Longrightarrow> q * w \<le> t \<longleftrightarrow> q \<le> t div w"
proof
  assume w: "0 < w" and "q * w \<le> t"
  from zdiv_mono1 [OF this(2) w] w show "q \<le> t div w" by simp
next
  assume "0 < w" "q \<le> t div w"
  then have "q * w \<le> t div w * w" by (simp add: mult_right_mono)
  also have "\<dots> \<le> t" using floor_to_le [OF \<open>0 < w\<close>, of t] by (simp add: floor_to_def)
  finally show "q * w \<le> t" .
qed

lemma in_window_div:
  "0 < w \<Longrightarrow> in_window (window_of w lo hi) t \<longleftrightarrow>
     lo div w \<le> t div w \<and> (case hi of Some u \<Rightarrow> t div w \<le> u div w | None \<Rightarrow> True)"
  using mult_le_div [of w "lo div w" t] mult_le_div [of w "the hi div w + 1" t]
  by (auto simp: in_window_def window_of_def floor_to_def split: option.splits)

lemma in_window_floor: "0 < w \<Longrightarrow> in_window (window_of w lo hi) (floor_to w t) \<longleftrightarrow> in_window (window_of w lo hi) t"
  by (simp add: in_window_div floor_to_def split: option.split)

lemma width_pos: "qr_bucket_secs cfg \<noteq> 0 \<Longrightarrow> 0 < bucket_width cfg"
  by (simp add: bucket_width_def)

section \<open>A bucket's observations\<close>

text \<open>Every observation with its bucket, whatever range is rolled.\<close>

definition all_row :: "qos_rollup_config \<Rightarrow> judge_db \<Rightarrow> (str \<times> str) \<times> observation_row \<Rightarrow>
    ((str \<times> str \<times> int) \<times> obs_item) option" where
  "all_row cfg d row = (case row of ((pid, addr), o') \<Rightarrow>
     (case map_of (probes (jd_probe d)) pid of
        None \<Rightarrow> None
      | Some p \<Rightarrow> if counted d addr o'
          then Some ((identity d addr, pr_deployment_id p, floor_to (bucket_width cfg) (pr_dispatched_at p)),
                     obs_item_of cfg d pid p o')
          else None))"

definition bucket_items :: "qos_rollup_config \<Rightarrow> judge_db \<Rightarrow> str \<times> str \<times> int \<Rightarrow> obs_item list" where
  "bucket_items cfg d k = values_at k (List.map_filter (all_row cfg d) (observations (jd_probe d)))"

abbreviation rolled :: "qos_rollup_config \<Rightarrow> window_range \<Rightarrow> str option \<Rightarrow> str \<times> str \<times> int \<Rightarrow> bool" where
  "rolled cfg r dep k \<equiv> in_window r (snd (snd k)) \<and> in_deployment dep (fst (snd k))"

lemma obs_row_all:
  assumes "0 < bucket_width cfg" and "r = window_of (bucket_width cfg) lo hi"
  shows "obs_row cfg d r dep row =
    (case all_row cfg d row of Some x \<Rightarrow> if rolled cfg r dep (fst x) then Some x else None | None \<Rightarrow> None)"
  using in_window_floor [OF assms(1), of lo hi]
  by (auto simp: obs_row_def all_row_def assms(2) split: option.splits prod.splits)

lemma values_at_obs_rows:
  assumes "0 < bucket_width cfg" and "r = window_of (bucket_width cfg) lo hi"
  shows "values_at k (obs_rows cfg d r dep) = (if rolled cfg r dep k then bucket_items cfg d k else [])"
proof -
  have "values_at k (List.map_filter (obs_row cfg d r dep) xs)
      = (if rolled cfg r dep k then values_at k (List.map_filter (all_row cfg d) xs) else [])" for xs
    by (induction xs) (auto simp: map_filter_simps obs_row_all [OF assms] split: option.splits)
  then show ?thesis by (simp add: obs_rows_def bucket_items_def)
qed

section \<open>One roll\<close>

lemma map_of_rev_distinct: "distinct (map fst xs) \<Longrightarrow> map_of (rev xs) = map_of xs"
  by (rule map_of_eqI) (auto simp: rev_map [symmetric] map_of_eq_Some_iff dest!: map_of_SomeD)

lemma map_of_groups:
  "map_of (rev (map (\<lambda>x. (h (fst x), g x)) (group_pairs ps))) (h k)
    = (if values_at k ps = [] then None else Some (g (k, values_at k ps)))" if "inj h"
proof -
  have "distinct (map fst (map (\<lambda>x. (h (fst x), g x)) (group_pairs ps)))"
    using twf_group [of ps] \<open>inj h\<close> by (simp add: twf_def comp_def distinct_map inj_on_def)
  then have "map_of (rev (map (\<lambda>x. (h (fst x), g x)) (group_pairs ps))) = map_of (map (\<lambda>x. (h (fst x), g x)) (group_pairs ps))"
    by (simp add: map_of_rev_distinct)
  moreover have "map_of (map (\<lambda>x. (h (fst x), g x)) xs) (h k) = map_option (\<lambda>v. g (k, v)) (map_of xs k)" for xs
    using \<open>inj h\<close> by (induction xs) (auto dest: injD)
  ultimately show ?thesis by (simp add: map_of_group)
qed

lemma roll_get:
  assumes "qr_bucket_secs cfg \<noteq> 0" and "twf (foghorn_qos s)"
    and "roll_range fsqrt cfg lo hi dep now s = Some (n, s')"
  shows "map_of (foghorn_qos s') (ix, dp, b, secs) =
      (if secs = int (qr_bucket_secs cfg) \<and> rolled cfg (window_of (bucket_width cfg) lo hi) dep (ix, dp, b)
       then (let items = bucket_items cfg (qd_judge s) (ix, dp, b) in
         if items = [] then None else Some (fq_of fsqrt cfg (url_of s ix) now items))
       else map_of (foghorn_qos s) (ix, dp, b, secs))"
    and "twf (foghorn_qos s')" and "s' = s\<lparr>foghorn_qos := foghorn_qos s'\<rparr>"
proof -
  let ?r = "window_of (bucket_width cfg) lo hi" and ?S = "int (qr_bucket_secs cfg)"
  let ?gs = "roll_groups cfg ?r dep s"
  let ?h = "\<lambda>(ix, dp, b). (ix, dp, b, ?S)"
  let ?g = "\<lambda>x. fq_of fsqrt cfg (url_of s (fst (fst x))) now (snd x)"
  let ?t1 = "tdel (\<lambda>k _. stale_row cfg ?r dep (fst ` set ?gs) k) (foghorn_qos s)"
  note w = width_pos [OF assms(1)]
  note v = values_at_obs_rows [OF w refl]
  have f: "(\<lambda>((ix, dp, b), items). tput (ix, dp, b, ?S) (fq_of fsqrt cfg (url_of s ix) now items))
      = (\<lambda>x. tput (?h (fst x)) (?g x))" by (auto simp: fun_eq_iff)
  have s': "s' = s\<lparr>foghorn_qos := fold (\<lambda>x. tput (?h (fst x)) (?g x)) ?gs ?t1\<rparr>"
    using assms(1,3) unfolding f [symmetric] by (auto simp: roll_range_def Let_def)
  then show "s' = s\<lparr>foghorn_qos := foghorn_qos s'\<rparr>" by simp
  have "twf ?t1" using assms(2) by simp
  then show "twf (foghorn_qos s')" unfolding s' using tbl.wf_put_all by fastforce
  have inj: "inj ?h" by (auto simp: inj_def)
  have new: "map_of (rev (map (\<lambda>x. (?h (fst x), ?g x)) ?gs)) (ix, dp, b, ?S) =
      (if rolled cfg ?r dep (ix, dp, b) \<and> bucket_items cfg (qd_judge s) (ix, dp, b) \<noteq> []
       then Some (fq_of fsqrt cfg (url_of s ix) now (bucket_items cfg (qd_judge s) (ix, dp, b))) else None)"
    using map_of_groups [OF inj, where k = "(ix, dp, b)" and g = ?g and ps = "obs_rows cfg (qd_judge s) ?r dep"]
    by (simp add: roll_groups_def v)
  have other: "map_of (rev (map (\<lambda>x. (?h (fst x), ?g x)) ?gs)) (ix, dp, b, secs) = None" if "secs \<noteq> ?S"
    using that by (auto simp: map_of_eq_None_iff)
  have mem: "(ix, dp, b) \<in> fst ` set ?gs \<longleftrightarrow> rolled cfg ?r dep (ix, dp, b) \<and> bucket_items cfg (qd_judge s) (ix, dp, b) \<noteq> []"
  proof -
    have "(ix, dp, b) \<in> fst ` set ?gs \<longleftrightarrow> values_at (ix, dp, b) (obs_rows cfg (qd_judge s) ?r dep) \<noteq> []"
      by (simp add: roll_groups_def group_keys values_at_Nil)
    then show ?thesis unfolding v by auto
  qed
  show "map_of (foghorn_qos s') (ix, dp, b, secs) =
      (if secs = ?S \<and> rolled cfg ?r dep (ix, dp, b)
       then (let items = bucket_items cfg (qd_judge s) (ix, dp, b) in
         if items = [] then None else Some (fq_of fsqrt cfg (url_of s ix) now items))
       else map_of (foghorn_qos s) (ix, dp, b, secs))"
  proof (cases "secs = ?S")
    case True
    then show ?thesis
      unfolding s' using new mem assms(2)
      by (simp add: tbl.put_all tbl.get_del stale_row_def Let_def split: option.splits)
  next
    case False
    then show ?thesis
      unfolding s' using other assms(2)
      by (simp add: tbl.put_all tbl.get_del stale_row_def split: option.splits)
  qed
qed

lemma roll_total: "qr_bucket_secs cfg \<noteq> 0 \<Longrightarrow> \<exists>n s'. roll_range fsqrt cfg lo hi dep now s = Some (n, s')"
  by (simp add: roll_range_def Let_def)

section \<open>The feed and the judged answers\<close>

lemma count_map_filter:
  "length (filter P (List.map_filter f xs)) = length (filter (\<lambda>x. case f x of Some y \<Rightarrow> P y | None \<Rightarrow> False) xs)"
  by (induction xs) (auto simp: map_filter_simps split: option.splits)

lemma count_values_at: "length (filter P (values_at k (List.map_filter f xs)))
    = length (filter (\<lambda>x. case f x of Some y \<Rightarrow> fst y = k \<and> P (snd y) | None \<Rightarrow> False) xs)"
proof -
  have "length (filter P (values_at k ps)) = length (filter (\<lambda>y. fst y = k \<and> P (snd y)) ps)" for ps
    by (simp add: values_at_def filter_map comp_def conj_commute)
  then show ?thesis by (simp only: count_map_filter)
qed

definition in_bucket :: "qos_rollup_config \<Rightarrow> str \<times> str \<times> int \<Rightarrow> judged_row \<Rightarrow> bool" where
  "in_bucket cfg k j \<longleftrightarrow> (jr_indexer_address j, jr_deployment_id j, floor_to (bucket_width cfg) (jr_dispatched_at j)) = k"

lemma divergent_is_fault: "divergent_item (obs_item_of cfg d pid p o') \<longleftrightarrow>
    minority d pid o' \<and> map_of (jd_nondeterministic d) (pr_deployment_id p) = None"
  by (auto simp: divergent_item_def comparable_item_def obs_item_of_def minority_def split: option.splits)

lemma judged_all_row:
  assumes "0 < bucket_width cfg" and "since < b"
  shows "(case judged_row_of d since True row of Some j \<Rightarrow> in_bucket cfg (ix, dp, b) j \<and> (P \<longrightarrow> jr_fault j) | None \<Rightarrow> False)
     \<longleftrightarrow> (case all_row cfg d row of Some y \<Rightarrow> fst y = (ix, dp, b) \<and> (P \<longrightarrow> divergent_item (snd y)) | None \<Rightarrow> False)"
proof -
  have "since < t" if "floor_to (bucket_width cfg) t = b" for t
    using that floor_to_le [OF assms(1), of t] assms(2) by linarith
  moreover obtain pid addr o' where "row = ((pid, addr), o')" by (metis surj_pair)
  ultimately show ?thesis
    by (cases "map_of (probes (jd_probe d)) pid"; cases "counted d addr o'")
      (simp_all add: judged_row_of_def all_row_def recent_probe_def in_bucket_def divergent_is_fault, blast+)
qed

lemma bucket_counts:
  assumes "0 < bucket_width cfg" and "since < b"
  shows "length (filter (\<lambda>i. P \<longrightarrow> divergent_item i) (bucket_items cfg d (ix, dp, b)))
      = length (filter (\<lambda>j. in_bucket cfg (ix, dp, b) j \<and> (P \<longrightarrow> jr_fault j)) (judged_probes d since True))"
  unfolding bucket_items_def judged_probes_def count_values_at count_map_filter judged_all_row [OF assms] ..

section \<open>Properties\<close>

text \<open>
  C35. A roll recounts whole buckets and touches nothing else: afterwards every row of the rolled
  range is the aggregate of all the observations of its bucket, a bucket without observations has no
  row, and every other row, of another range, deployment or width, is as it was.
\<close>

theorem roll_recounts_whole_buckets:
  assumes "qr_bucket_secs cfg \<noteq> 0" and "twf (foghorn_qos s)"
    and "roll_range fsqrt cfg lo hi dep now s = Some (n, s')"
  shows "map_of (foghorn_qos s') (ix, dp, b, secs) =
      (if secs = int (qr_bucket_secs cfg) \<and> in_window (window_of (bucket_width cfg) lo hi) b \<and> in_deployment dep dp
       then (let items = bucket_items cfg (qd_judge s) (ix, dp, b) in
         if items = [] then None else Some (fq_of fsqrt cfg (url_of s ix) now items))
       else map_of (foghorn_qos s) (ix, dp, b, secs))"
  using roll_get(1) [OF assms, of ix dp b secs] by simp

definition sample_qos_db :: qos_db where
  "sample_qos_db = \<lparr>qd_judge = sample_judge_db, qd_alloc_urls = [], qd_alloc_resolved = [], foghorn_qos = [],
     qos_reroll = [], qd_next_reroll = 1\<rparr>"

lemma sample_items: "length (bucket_items qos_rollup_default sample_judge_db (''0xi'', ''Qm1'', 0)) = 1"
  by (simp add: bucket_items_def sample_judge_db_def map_filter_simps all_row_def counted_def resolved_def identity_def
      sample_row_def floor_to_def bucket_width_def qos_rollup_default_def)

lemma sample_window: "in_window (window_of (bucket_width qos_rollup_default) 0 None) 0"
  by (simp add: in_window_def window_of_def floor_to_def)

lemma sample_secs: "qr_bucket_secs qos_rollup_default = 300" by (simp add: qos_rollup_default_def)

theorem roll_recounts_whole_buckets_witness:
  "\<exists>n s'. roll_range (\<lambda>x. x) qos_rollup_default 0 None None 9 sample_qos_db = Some (n, s')
     \<and> map_option fq_query_count (map_of (foghorn_qos s') (''0xi'', ''Qm1'', 0, 300)) = Some 1"
proof -
  obtain n s' where r: "roll_range (\<lambda>x. x) qos_rollup_default 0 None None 9 sample_qos_db = Some (n, s')"
    using roll_total [of qos_rollup_default "\<lambda>x. x" 0 None None 9 sample_qos_db] sample_secs by fastforce
  have "twf (foghorn_qos sample_qos_db)" by (simp add: sample_qos_db_def twf_def)
  moreover have "qr_bucket_secs qos_rollup_default \<noteq> 0" by (simp add: sample_secs)
  ultimately have "map_of (foghorn_qos s') (''0xi'', ''Qm1'', 0, 300) =
      (let items = bucket_items qos_rollup_default (qd_judge sample_qos_db) (''0xi'', ''Qm1'', 0) in
       if items = [] then None else Some (fq_of (\<lambda>x. x) qos_rollup_default (url_of sample_qos_db ''0xi'') 9 items))"
    using roll_recounts_whole_buckets [OF _ _ r, of "''0xi''" "''Qm1''" 0 300]
    by (simp add: sample_window sample_secs in_deployment_def)
  then show ?thesis using r sample_items by (auto simp: Let_def sample_qos_db_def fq_of_def)
qed

text \<open>
  C36. The feed and the grades agree on every fault: a rolled row's queries and divergences are the
  numbers of judged answers, and of judged faults, of its indexer, deployment and bucket, in the
  query the grades are computed from, over any period that contains the bucket.
\<close>

theorem feed_counts_judged_faults:
  assumes "qr_bucket_secs cfg \<noteq> 0" and "twf (foghorn_qos s)"
    and "roll_range fsqrt cfg lo hi dep now s = Some (n, s')"
    and "in_window (window_of (bucket_width cfg) lo hi) b" and "in_deployment dep dp"
    and "map_of (foghorn_qos s') (ix, dp, b, int (qr_bucket_secs cfg)) = Some row" and "since < b"
  shows "fq_query_count row = int (length (filter (in_bucket cfg (ix, dp, b)) (judged_probes (qd_judge s) since True)))
    \<and> fq_divergent_count row
      = int (length (filter (\<lambda>j. in_bucket cfg (ix, dp, b) j \<and> jr_fault j) (judged_probes (qd_judge s) since True)))"
proof -
  let ?items = "bucket_items cfg (qd_judge s) (ix, dp, b)"
  have "row = fq_of fsqrt cfg (url_of s ix) now ?items"
    using roll_get(1) [OF assms(1-3), of ix dp b "int (qr_bucket_secs cfg)"] assms(4-6)
    by (simp add: Let_def split: if_splits)
  then show ?thesis
    using bucket_counts [OF width_pos [OF assms(1)] assms(7), of False "qd_judge s" ix dp]
      bucket_counts [OF width_pos [OF assms(1)] assms(7), of True "qd_judge s" ix dp] by (simp add: fq_of_def Let_def)
qed

theorem feed_counts_judged_faults_witness:
  "\<exists>n s' row. roll_range (\<lambda>x. x) qos_rollup_default 0 None None 9 sample_qos_db = Some (n, s')
     \<and> map_of (foghorn_qos s') (''0xi'', ''Qm1'', 0, 300) = Some row
     \<and> fq_query_count row
       = int (length (filter (in_bucket qos_rollup_default (''0xi'', ''Qm1'', 0)) (judged_probes sample_judge_db (- 1) True)))"
proof -
  obtain n s' where r: "roll_range (\<lambda>x. x) qos_rollup_default 0 None None 9 sample_qos_db = Some (n, s')"
    using roll_total [of qos_rollup_default "\<lambda>x. x" 0 None None 9 sample_qos_db] sample_secs by fastforce
  have ok: "qr_bucket_secs qos_rollup_default \<noteq> 0" "twf (foghorn_qos sample_qos_db)"
    by (simp_all add: sample_secs sample_qos_db_def twf_def)
  have j: "qd_judge sample_qos_db = sample_judge_db" by (simp add: sample_qos_db_def)
  obtain row where row: "map_of (foghorn_qos s') (''0xi'', ''Qm1'', 0, int (qr_bucket_secs qos_rollup_default)) = Some row"
    using roll_get(1) [OF ok r, of "''0xi''" "''Qm1''" 0 300] sample_items
    by (auto simp: sample_window sample_secs in_deployment_def j Let_def split: if_splits)
  from feed_counts_judged_faults [OF ok r sample_window _ row, of "- 1"] show ?thesis
    using r row by (auto simp: j sample_secs in_deployment_def)
qed

end
