(* ===== verification/Feed_Props.thy ===== *)
theory Feed_Props
  imports Qos_Props
begin

text \<open>
  The feed as a state machine. A step is all the writes of one operation of another component, taken as one
  even where the source issues several statements: a probe is stored, a key is attributed or found unresolved,
  non-deterministic deployments are flagged, the feed is rolled up. Time is the wall clock; \<open>D\<close> bounds the time a probe may take from its dispatch to its
  commit. The invariant: a bucket whose stored numbers are not what its observations say is waiting in
  a request, or still inside the part the next rollup recounts.
\<close>

section \<open>What a bucket should say\<close>

definition measured :: "fq_row \<Rightarrow> fq_row" where
  "measured row = row\<lparr>fq_indexer_url := None, fq_computed_at := 0\<rparr>"

definition current_row :: "(f64 \<Rightarrow> f64) \<Rightarrow> qos_rollup_config \<Rightarrow> judge_db \<Rightarrow> str \<times> str \<times> int \<Rightarrow> fq_row option" where
  "current_row fsqrt cfg d k = (let items = bucket_items cfg d k in
     if items = [] then None else Some (fq_of fsqrt cfg None 0 items))"

definition up_to_date :: "(f64 \<Rightarrow> f64) \<Rightarrow> qos_rollup_config \<Rightarrow> qos_db \<Rightarrow> str \<times> str \<times> int \<Rightarrow> bool" where
  "up_to_date fsqrt cfg s k \<longleftrightarrow>
     map_option measured (map_of (foghorn_qos s) (fst k, fst (snd k), snd (snd k), int (qr_bucket_secs cfg)))
       = current_row fsqrt cfg (qd_judge s) k"

definition covers :: "qos_rollup_config \<Rightarrow> str \<times> str \<times> int \<Rightarrow> reroll \<Rightarrow> bool" where
  "covers cfg k q \<longleftrightarrow> rolled cfg (window_of (bucket_width cfg) (rr_from q) (Some (rr_to q))) (rr_deployment q) k"

definition pending :: "qos_rollup_config \<Rightarrow> qos_db \<Rightarrow> str \<times> str \<times> int \<Rightarrow> bool" where
  "pending cfg s k \<longleftrightarrow> (\<exists>q \<in> set (qos_reroll s). covers cfg k q)"

lemma measured_fq_of: "measured (fq_of fsqrt cfg url now items) = fq_of fsqrt cfg None 0 items"
  by (simp add: measured_def fq_of_def Let_def)

section \<open>The steps\<close>

inductive feed_run :: "(f64 \<Rightarrow> f64) \<Rightarrow> qos_rollup_config \<Rightarrow> (json \<Rightarrow> str) \<Rightarrow> (str \<Rightarrow> json option) \<Rightarrow> int \<Rightarrow>
    int \<Rightarrow> int \<Rightarrow> qos_db \<Rightarrow> bool"
  for fsqrt cfg prn jsonb D where
  start: "observations (jd_probe (qd_judge s)) = [] \<Longrightarrow> foghorn_qos s = [] \<Longrightarrow> qos_reroll s = [] \<Longrightarrow>
    feed_run fsqrt cfg prn jsonb D t t s"
| probed: "feed_run fsqrt cfg prn jsonb D l t s \<Longrightarrow> t \<le> t' \<Longrightarrow> fresh_probe pid (jd_probe (qd_judge s)) \<Longrightarrow>
    t' - D \<le> pr_dispatched_at p \<Longrightarrow>
    feed_run fsqrt cfg prn jsonb D l t' (s\<lparr>qd_judge := (qd_judge s)\<lparr>jd_probe :=
      snd (store_results jsonb pid p obs r (jd_probe (qd_judge s)))\<rparr>\<rparr>)"
| attributed: "feed_run fsqrt cfg prn jsonb D l t s \<Longrightarrow> t \<le> t' \<Longrightarrow>
    feed_run fsqrt cfg prn jsonb D l t' (record_attribution key ix url t' s)"
| unresolved: "feed_run fsqrt cfg prn jsonb D l t s \<Longrightarrow> t \<le> t' \<Longrightarrow>
    feed_run fsqrt cfg prn jsonb D l t' (mark_unresolved key t' s)"
| flagged: "feed_run fsqrt cfg prn jsonb D l t s \<Longrightarrow> t \<le> t' \<Longrightarrow>
    feed_run fsqrt cfg prn jsonb D l t' (flag_nondeterministic prn since t' s)"
| rolled: "feed_run fsqrt cfg prn jsonb D l t s \<Longrightarrow> t \<le> t' \<Longrightarrow> rollup_from cfg t' \<le> l - D \<Longrightarrow>
    feed_run fsqrt cfg prn jsonb D t' t' (snd (rollup_once fsqrt cfg t' s))"

section \<open>What a step leaves alone\<close>

lemma roll_range_judge: "roll_range fsqrt cfg lo hi dep now s = Some (n, s') \<Longrightarrow> qd_judge s' = qd_judge s"
  by (auto simp: roll_range_def Let_def split: if_splits)

lemma drain_judge: "qd_judge (snd (drain fsqrt cfg now qs n s)) = qd_judge s"
proof (induction qs arbitrary: n s)
  case (Cons q qs)
  then show ?case by (auto split: option.splits dest: roll_range_judge)
qed simp

lemma rollup_judge: "qd_judge (snd (rollup_once fsqrt cfg now s)) = qd_judge s"
  by (auto simp: rollup_once_def drain_judge split: option.splits dest: roll_range_judge)

lemma rebuild_judge: "qd_judge (snd (reroll_all fsqrt cfg now s)) = qd_judge s"
proof -
  have "qd_judge (snd (reroll_days fsqrt cfg now day n s)) = qd_judge s" for day n
  proof (induction fsqrt cfg now day n s rule: reroll_days.induct)
    case (1 fsqrt cfg now day n s)
    show ?case
    proof (cases "roll_range fsqrt cfg (day * 1000000) (Some ((day + 86399) * 1000000)) None now s")
      case (Some r)
      then show ?thesis using 1 roll_range_judge [of fsqrt cfg _ _ _ now s]
        by (cases r) (auto simp: reroll_days.simps [of fsqrt cfg now day n s])
    qed (simp add: reroll_days.simps)
  qed
  then show ?thesis by (simp add: reroll_all_def Let_def)
qed

definition row_at :: "qos_rollup_config \<Rightarrow> judge_db \<Rightarrow> str \<times> str \<times> int \<Rightarrow> (str \<times> str) \<times> observation_row \<Rightarrow> obs_item option" where
  "row_at cfg d k row = (case all_row cfg d row of Some y \<Rightarrow> if fst y = k then Some (snd y) else None | None \<Rightarrow> None)"

lemma bucket_items_rows: "bucket_items cfg d k = List.map_filter (row_at cfg d k) (observations (jd_probe d))"
proof -
  have "values_at k (List.map_filter (all_row cfg d) xs) = List.map_filter (row_at cfg d k) xs" for xs
    by (induction xs) (auto simp: map_filter_simps row_at_def split: option.splits)
  then show ?thesis by (simp add: bucket_items_def)
qed

lemma map_filter_same: "(\<And>x. x \<in> set xs \<Longrightarrow> f x = g x) \<Longrightarrow> List.map_filter f xs = List.map_filter g xs"
  by (induction xs) (simp_all add: map_filter_simps cong: option.case_cong)

lemma map_filter_drop: "(\<And>x. \<not> P x \<Longrightarrow> f x = None) \<Longrightarrow> List.map_filter f xs = List.map_filter f (filter P xs)"
  by (induction xs) (auto simp: map_filter_simps split: option.splits)

lemma row_at_eq: "row_at cfg d k ((pid, addr), o') =
   (case map_of (probes (jd_probe d)) pid of
      Some p \<Rightarrow> if counted d addr o' \<and> k = (identity d addr, pr_deployment_id p, floor_to (bucket_width cfg) (pr_dispatched_at p))
        then Some (obs_item_of cfg d pid p o') else None
    | None \<Rightarrow> None)"
  by (auto simp: row_at_def all_row_def split: option.splits)

lemma items_same:
  assumes "observations (jd_probe d') = observations (jd_probe d)"
    and "\<And>row. row \<in> set (observations (jd_probe d)) \<Longrightarrow> row_at cfg d' k row = row_at cfg d k row"
  shows "current_row fsqrt cfg d' k = current_row fsqrt cfg d k"
proof -
  have "List.map_filter (row_at cfg d' k) (observations (jd_probe d)) = List.map_filter (row_at cfg d k) (observations (jd_probe d))"
    by (rule map_filter_same) (rule assms(2))
  then show ?thesis by (simp add: current_row_def bucket_items_rows assms(1))
qed

section \<open>Requests are kept\<close>

definition extends :: "qos_db \<Rightarrow> qos_db \<Rightarrow> bool" where
  "extends s s' \<longleftrightarrow> qd_judge s' = qd_judge s \<and> foghorn_qos s' = foghorn_qos s \<and> set (qos_reroll s) \<subseteq> set (qos_reroll s')"

lemma extends_refl [simp]: "extends s s" by (simp add: extends_def)

lemma extends_trans: "extends s s' \<Longrightarrow> extends s' s'' \<Longrightarrow> extends s s''" by (auto simp: extends_def)

lemma extends_fold: "(\<And>x s. extends s (f x s)) \<Longrightarrow> extends s (fold f xs s)"
  by (induction xs arbitrary: s) (auto intro: extends_trans)

lemma extends_fold_at: "(\<And>x s. extends s (f x s)) \<Longrightarrow> x \<in> set xs \<Longrightarrow>
    \<exists>s1. extends s s1 \<and> extends (f x s1) (fold f xs s)"
proof (induction xs arbitrary: s)
  case (Cons y ys)
  show ?case
  proof (cases "x = y")
    case True
    then show ?thesis using extends_fold [where f = f, OF Cons.prems(1)] by (intro exI [of _ s]) simp
  next
    case False
    then obtain s1 where "extends (f y s) s1" "extends (f x s1) (fold f ys (f y s))"
      using Cons.IH [of "f y s"] Cons.prems False by auto
    then show ?thesis using Cons.prems(1) [of s y] extends_trans by auto
  qed
qed simp

lemma pending_mono: "extends s s' \<Longrightarrow> pending cfg s k \<Longrightarrow> pending cfg s' k"
  by (auto simp: extends_def pending_def)

lemma up_to_date_extends: "extends s s' \<Longrightarrow> up_to_date fsqrt cfg s' k = up_to_date fsqrt cfg s k"
  by (simp add: extends_def up_to_date_def)

lemma add_reroll_extends: "extends s (add_reroll dep ts reason s)"
  by (auto simp: extends_def add_reroll_def)

text \<open>A request over dispatch times covers the bucket of each of them.\<close>

lemma add_reroll_covers:
  assumes "qr_bucket_secs cfg \<noteq> 0" and "x \<in> set ts" and "k = (ix, dp, floor_to (bucket_width cfg) x)"
  shows "pending cfg (add_reroll (Some dp) ts reason s) k"
proof -
  note w = width_pos [OF assms(1)]
  have "Min (set ts) \<le> x" "x \<le> Max (set ts)" using assms(2) by simp_all
  then have "in_window (window_of (bucket_width cfg) (Min (set ts)) (Some (Max (set ts)))) x"
    using w by (simp add: in_window_div zdiv_mono1)
  then show ?thesis using assms(2,3) in_window_floor [OF w]
    by (auto simp: pending_def add_reroll_def covers_def in_deployment_def)
qed

section \<open>Each step\<close>

definition recent :: "qos_rollup_config \<Rightarrow> int \<Rightarrow> str \<times> str \<times> int \<Rightarrow> bool" where
  "recent cfg at' k \<longleftrightarrow> at' < snd (snd k) + bucket_width cfg"

definition good :: "(f64 \<Rightarrow> f64) \<Rightarrow> qos_rollup_config \<Rightarrow> int \<Rightarrow> qos_db \<Rightarrow> str \<times> str \<times> int \<Rightarrow> bool" where
  "good fsqrt cfg at' s k \<longleftrightarrow> up_to_date fsqrt cfg s k \<or> pending cfg s k \<or> recent cfg at' k"

lemma good_keep:
  assumes "good fsqrt cfg at' s k" and "foghorn_qos s' = foghorn_qos s" and "set (qos_reroll s) \<subseteq> set (qos_reroll s')"
    and "pending cfg s' k \<or> recent cfg at' k \<or> current_row fsqrt cfg (qd_judge s') k = current_row fsqrt cfg (qd_judge s) k"
  shows "good fsqrt cfg at' s' k"
  using assms by (auto simp: good_def up_to_date_def pending_def)

lemma store_other_rows: "filter (\<lambda>r. fst (fst r) \<noteq> pid) (observations (snd (store_results jsonb pid p obs r d)))
    = filter (\<lambda>r. fst (fst r) \<noteq> pid) (observations d)"
proof -
  have ins: "filter (\<lambda>r. fst (fst r) \<noteq> pid) (observations (snd (insert_observations jsonb pid obs d)))
      = filter (\<lambda>r. fst (fst r) \<noteq> pid) (observations d)" for d
    by (induction jsonb pid obs d rule: insert_observations.induct) (auto simp: tput_new_def split: option.splits)
  have "observations (snd (store_results jsonb pid p obs r d))
      = observations (snd (insert_observations jsonb pid obs (d\<lparr>probes := tput_new pid p (probes d)\<rparr>)))"
    by (simp add: store_results_def Let_def split: prod.split)
  then show ?thesis by (simp add: ins)
qed

lemma responders_same: "observations (jd_probe d') = observations (jd_probe d) \<Longrightarrow> responders d' = responders d"
  by (simp add: responders_def fun_eq_iff)

lemma stored_probe_items:
  assumes "fresh_probe pid (jd_probe d)" and "d' = d\<lparr>jd_probe := snd (store_results jsonb pid p obs r (jd_probe d))\<rparr>"
    and "snd (snd k) \<noteq> floor_to (bucket_width cfg) (pr_dispatched_at p)"
  shows "current_row fsqrt cfg d' k = current_row fsqrt cfg d k"
proof -
  let ?P = "\<lambda>r. fst (fst r) \<noteq> pid"
  have fil: "filter ?P (observations (jd_probe d')) = filter ?P (observations (jd_probe d))"
    "filter ?P (observations (jd_probe d)) = observations (jd_probe d)"
    using assms(1) store_other_rows [of pid jsonb p obs r "jd_probe d"] by (simp_all add: assms(2) fresh_probe_def)
  have new: "map_of (probes (jd_probe d')) pid = Some p"
    using assms(1) by (simp add: assms(2) store_probes map_of_tput_new fresh_probe_def)
  have drop: "row_at cfg d' k row = None" if "\<not> ?P row" for row
    using that new assms(3) by (cases row) (auto simp: row_at_eq)
  have same: "row_at cfg d' k row = row_at cfg d k row" if "?P row" for row
  proof -
    obtain q addr o' where row: "row = ((q, addr), o')" by (metis surj_pair)
    with that have q: "q \<noteq> pid" by simp
    have "responders d' q = responders d q"
    proof -
      have "responders e q = length (filter (\<lambda>((x, _), o'). x = q \<and> ob_response_hash o' \<noteq> None) (filter ?P (observations (jd_probe e))))" for e
        using q unfolding responders_def filter_filter
        by (intro arg_cong [where f = length] filter_cong refl) (auto simp del: not_None_eq split: prod.splits)
      from this [of d'] this [of d] show ?thesis by (simp only: fil(1))
    qed
    moreover have pr: "map_of (probes (jd_probe d')) q = map_of (probes (jd_probe d)) q"
      and "map_of (divergences (jd_probe d')) q = map_of (divergences (jd_probe d)) q"
      using q by (simp_all add: assms(2) store_probes store_divergences map_of_tput_new)
    moreover have "jd_nondeterministic d' = jd_nondeterministic d" by (simp add: assms(2))
    ultimately have "obs_item_of cfg d' q x o' = obs_item_of cfg d q x o'" for x
      by (simp add: obs_item_of_def cong: option.case_cong)
    moreover have "counted d' = counted d" "identity d' = identity d"
      by (simp_all add: assms(2) counted_def identity_def resolved_def fun_eq_iff cong: option.case_cong)
    ultimately show ?thesis
      using pr by (cases "map_of (probes (jd_probe d)) q") (simp_all add: row row_at_eq)
  qed
  have "List.map_filter (row_at cfg d' k) (observations (jd_probe d')) = List.map_filter (row_at cfg d' k) (observations (jd_probe d))"
    using map_filter_drop [where f = "row_at cfg d' k" and P = ?P, OF drop] fil by metis
  also have "\<dots> = List.map_filter (row_at cfg d k) (observations (jd_probe d))"
    using same fil(2) by (intro map_filter_same) (metis (mono_tags, lifting) filter_id_conv)
  finally show ?thesis by (simp add: current_row_def bucket_items_rows)
qed

lemma attribution_items:
  assumes "resolved d key = Some ix \<or> (\<forall>pid addr o' p. ((pid, addr), o') \<in> set (observations (jd_probe d)) \<and> addr = key
      \<and> map_of (probes (jd_probe d)) pid = Some p \<longrightarrow> (pr_deployment_id p, floor_to (bucket_width cfg) (pr_dispatched_at p)) \<noteq> snd k)"
    and "d' = d\<lparr>jd_allocation_map := tput key (Some ix) (jd_allocation_map d)\<rparr>"
  shows "current_row fsqrt cfg d' k = current_row fsqrt cfg d k"
proof (rule items_same)
  fix row :: "(str \<times> str) \<times> observation_row"
  assume mem: "row \<in> set (observations (jd_probe d))"
  moreover obtain pid addr o' where row: "row = ((pid, addr), o')" by (metis surj_pair)
  moreover have "resolved d key = Some ix \<or> (pr_deployment_id p, floor_to (bucket_width cfg) (pr_dispatched_at p)) \<noteq> snd k"
    if "addr = key" "map_of (probes (jd_probe d)) pid = Some p" for p
    using assms(1) mem that unfolding row by blast
  moreover have "obs_item_of cfg d' pid p o' = obs_item_of cfg d pid p o'" for p
    using responders_same [of d' d] by (simp add: obs_item_of_def assms(2) cong: option.case_cong)
  moreover have "resolved d' addr = (if addr = key then Some ix else resolved d addr)"
    by (simp add: resolved_def assms(2))
  ultimately show "row_at cfg d' k row = row_at cfg d k row"
    by (cases "map_of (probes (jd_probe d)) pid"; cases "addr = key"; cases k)
      (auto simp: row_at_eq assms(2) counted_def identity_def)
qed (simp add: assms(2))

lemma nondet_items:
  assumes "(map_of (jd_nondeterministic d') (fst (snd k)) = None) = (map_of (jd_nondeterministic d) (fst (snd k)) = None)"
    and "d' = d\<lparr>jd_nondeterministic := t\<rparr>"
  shows "current_row fsqrt cfg d' k = current_row fsqrt cfg d k"
proof (rule items_same)
  fix row :: "(str \<times> str) \<times> observation_row"
  obtain pid addr o' where row: "row = ((pid, addr), o')" by (metis surj_pair)
  have "counted d' = counted d" "identity d' = identity d" "probes (jd_probe d') = probes (jd_probe d)"
    by (simp_all add: assms(2) counted_def identity_def resolved_def fun_eq_iff cong: option.case_cong)
  moreover have "obs_item_of cfg d' pid p o' = obs_item_of cfg d pid p o'" if "pr_deployment_id p = fst (snd k)" for p
    using assms(1) that responders_same [of d' d] by (simp add: obs_item_of_def assms(2) cong: option.case_cong)
  ultimately show "row_at cfg d' k row = row_at cfg d k row"
    by (cases "map_of (probes (jd_probe d)) pid") (auto simp: row row_at_eq)
qed (simp add: assms(2))

lemma qd_judge_add_reroll [simp]: "qd_judge (add_reroll dep ts reason s) = qd_judge s"
  by (simp add: add_reroll_def)

lemma attributed_good:
  assumes w: "qr_bucket_secs cfg \<noteq> 0" and "good fsqrt cfg at' s k"
  shows "good fsqrt cfg at' (record_attribution key ix url now s) k"
proof -
  let ?d = "qd_judge s" and ?f = "\<lambda>(dep, ts). add_reroll (Some dep) ts ''allocation key attributed''"
  define reqs where "reqs = (if resolved ?d key \<noteq> Some ix then group_pairs (key_probes ?d key) else [])"
  define s1 where "s1 = s\<lparr>qd_judge := ?d\<lparr>jd_allocation_map := tput key (Some ix) (jd_allocation_map ?d)\<rparr>,
     qd_alloc_urls := tput key url (qd_alloc_urls s), qd_alloc_resolved := tput key now (qd_alloc_resolved s)\<rparr>"
  have s': "record_attribution key ix url now s = fold ?f reqs s1"
    by (simp add: record_attribution_def reqs_def s1_def Let_def)
  have f: "extends x (?f q x)" for q x by (cases q) (simp add: add_reroll_extends)
  have ext: "extends s1 (fold ?f reqs s1)" by (rule extends_fold) (rule f)
  show ?thesis unfolding s'
  proof (rule good_keep [OF assms(2)])
    have j: "qd_judge (fold ?f reqs s1) = ?d\<lparr>jd_allocation_map := tput key (Some ix) (jd_allocation_map ?d)\<rparr>"
      using ext by (simp add: extends_def s1_def)
    show "pending cfg (fold ?f reqs s1) k \<or> recent cfg at' k
        \<or> current_row fsqrt cfg (qd_judge (fold ?f reqs s1)) k = current_row fsqrt cfg ?d k"
    proof (rule ccontr)
      assume no: "\<not> ?thesis"
      then have "\<not> (resolved ?d key = Some ix \<or> (\<forall>pid addr o' p. ((pid, addr), o') \<in> set (observations (jd_probe ?d)) \<and> addr = key
        \<and> map_of (probes (jd_probe ?d)) pid = Some p \<longrightarrow> (pr_deployment_id p, floor_to (bucket_width cfg) (pr_dispatched_at p)) \<noteq> snd k))"
        using attribution_items [OF _ j, where cfg = cfg and k = k and fsqrt = fsqrt] by blast
      then obtain pid o' p where row: "((pid, key), o') \<in> set (observations (jd_probe ?d))"
          "map_of (probes (jd_probe ?d)) pid = Some p" "resolved ?d key \<noteq> Some ix"
        and k: "snd k = (pr_deployment_id p, floor_to (bucket_width cfg) (pr_dispatched_at p))" by auto
      have kp: "(pr_deployment_id p, pr_dispatched_at p) \<in> set (key_probes ?d key)"
        unfolding key_probes_def set_map_filter using row by (intro bexI [of _ "((pid, key), o')"]) simp_all
      from imageI [OF kp, of fst]
      have "(pr_deployment_id p, values_at (pr_deployment_id p) (key_probes ?d key)) \<in> set reqs"
        using row(3) by (simp add: reqs_def group_entry)
      moreover have ts: "pr_dispatched_at p \<in> set (values_at (pr_deployment_id p) (key_probes ?d key))"
        unfolding values_at_def using kp by force
      ultimately obtain s2 where "extends (?f (pr_deployment_id p, values_at (pr_deployment_id p) (key_probes ?d key)) s2) (fold ?f reqs s1)"
        using extends_fold_at [where f = ?f, OF f] by blast
      moreover have "k = (fst k, pr_deployment_id p, floor_to (bucket_width cfg) (pr_dispatched_at p))"
        using k by (cases k) simp
      from add_reroll_covers [OF w ts this, of "''allocation key attributed''" s2]
      have "pending cfg (?f (pr_deployment_id p, values_at (pr_deployment_id p) (key_probes ?d key)) s2) k" by simp
      ultimately have "pending cfg (fold ?f reqs s1) k" by (rule pending_mono)
      with no show False by simp
    qed
  qed (use ext in \<open>simp_all add: extends_def s1_def\<close>)
qed

lemma unresolved_good: "good fsqrt cfg at' s k \<Longrightarrow> good fsqrt cfg at' (mark_unresolved key now s) k"
proof (erule good_keep)
  let ?d = "qd_judge s" and ?d' = "qd_judge (mark_unresolved key now s)"
  have "resolved ?d' = resolved ?d"
    by (auto simp: resolved_def mark_unresolved_def map_of_tput_new fun_eq_iff)
  then have c: "counted ?d' = counted ?d" "identity ?d' = identity ?d"
    by (simp_all add: counted_def identity_def fun_eq_iff)
  have "responders ?d' = responders ?d" by (rule responders_same) (simp add: mark_unresolved_def)
  then have o': "obs_item_of cfg ?d' = obs_item_of cfg ?d"
    by (simp add: fun_eq_iff obs_item_of_def mark_unresolved_def cong: option.case_cong)
  have pr: "jd_probe ?d' = jd_probe ?d" by (simp add: mark_unresolved_def)
  have "row_at cfg ?d' k row = row_at cfg ?d k row" for row
  proof -
    obtain pid addr o' where "row = ((pid, addr), o')" by (metis surj_pair)
    then show ?thesis by (simp only: row_at_eq c o' pr)
  qed
  then show "pending cfg (mark_unresolved key now s) k \<or> recent cfg at' k
      \<or> current_row fsqrt cfg (qd_judge (mark_unresolved key now s)) k = current_row fsqrt cfg (qd_judge s) k"
    using items_same [of ?d' ?d cfg k fsqrt] pr by simp
qed (simp_all add: mark_unresolved_def)

lemma detected_changes:
  assumes "detect_nondeterministic prn since now d = (changed, d')"
  shows "\<exists>t. d' = d\<lparr>jd_nondeterministic := t\<rparr>"
    and "dep \<notin> set changed \<Longrightarrow> (map_of (jd_nondeterministic d') dep = None) = (map_of (jd_nondeterministic d) dep = None)"
proof -
  let ?rows = "nondet_found d since"
  let ?g = "\<lambda>dep total divergent. \<lparr>nd_divergent_probes = divergent, nd_total_probes = total,
     nd_divergence_rate = fdiv (f_of_int divergent) (f_of_int (max total 1)), nd_sample_fields = sample_divergent_fields prn since d dep, nd_last_seen = now\<rparr>"
  let ?t = "foldl (\<lambda>t (dep, total, divergent). tput dep (?g dep total divergent) t) (jd_nondeterministic d) ?rows"
  let ?t2 = "tdel (\<lambda>dep _. dep \<notin> set (map fst ?rows)) ?t"
  have c: "changed = filter (\<lambda>x. x \<notin> set (map fst ?rows)) (map fst (jd_nondeterministic d))
        @ filter (\<lambda>x. x \<notin> set (map fst (jd_nondeterministic d))) (map fst ?rows)"
    and d': "d' = d\<lparr>jd_nondeterministic := ?t2\<rparr>"
    using assms by (simp_all add: detect_nondeterministic_def Let_def)
  from d' show "\<exists>t. d' = d\<lparr>jd_nondeterministic := t\<rparr>" ..
  have keys: "set (map fst (foldl (\<lambda>t (dep, total, divergent). tput dep (?g dep total divergent) t) t rows))
      = set (map fst t) \<union> set (map fst rows)" for t rows
    by (induction rows arbitrary: t) (auto simp: dom_tput simp flip: set_map split: prod.splits)
  have "set (map fst ?t2) = set (map fst ?t) \<inter> set (map fst ?rows)"
    by (force simp: tdel_def)
  also have "\<dots> = set (map fst ?rows)" unfolding keys by blast
  finally have "(map_of (jd_nondeterministic d') dep = None) = (dep \<notin> set (map fst ?rows))"
    by (simp add: d' map_of_eq_None_iff)
  moreover assume "dep \<notin> set changed"
  ultimately show "(map_of (jd_nondeterministic d') dep = None) = (map_of (jd_nondeterministic d) dep = None)"
    unfolding c by (auto simp: map_of_eq_None_iff)
qed

lemma flagged_good:
  assumes w: "qr_bucket_secs cfg \<noteq> 0" and "good fsqrt cfg at' s k"
  shows "good fsqrt cfg at' (flag_nondeterministic prn since now s) k"
proof -
  let ?f = "\<lambda>dep. request_deployment_reroll dep ''non-deterministic flag changed''"
  obtain changed d' where d: "detect_nondeterministic prn since now (qd_judge s) = (changed, d')"
    by (cases "detect_nondeterministic prn since now (qd_judge s)")
  from detected_changes(1) [OF d] obtain t where t: "d' = (qd_judge s)\<lparr>jd_nondeterministic := t\<rparr>" ..
  define s1 where "s1 = s\<lparr>qd_judge := d'\<rparr>"
  have s': "flag_nondeterministic prn since now s = fold ?f changed s1"
    by (simp add: flag_nondeterministic_def d s1_def)
  have f: "extends x (?f dep x)" for dep x by (simp add: request_deployment_reroll_def add_reroll_extends)
  have ext: "extends s1 (fold ?f changed s1)" by (rule extends_fold) (rule f)
  then have j: "qd_judge (fold ?f changed s1) = d'" by (simp add: extends_def s1_def)
  show ?thesis unfolding s'
  proof (rule good_keep [OF assms(2)])
    show "pending cfg (fold ?f changed s1) k \<or> recent cfg at' k
        \<or> current_row fsqrt cfg (qd_judge (fold ?f changed s1)) k = current_row fsqrt cfg (qd_judge s) k"
    proof (cases "fst (snd k) \<in> set changed")
      case False
      from nondet_items [OF detected_changes(2) [OF d False] t] show ?thesis by (simp add: j)
    next
      case True
      show ?thesis
      proof (cases "\<exists>pid p. map_of (probes (jd_probe d')) pid = Some p
          \<and> snd k = (pr_deployment_id p, floor_to (bucket_width cfg) (pr_dispatched_at p))")
        case False
        have none: "row_at cfg e k row = None" if "jd_probe e = jd_probe d'" for e row
        proof -
          obtain pid addr o' where row: "row = ((pid, addr), o')" by (metis surj_pair)
          have "\<forall>p. map_of (probes (jd_probe d')) pid = Some p \<longrightarrow>
              k \<noteq> (identity e addr, pr_deployment_id p, floor_to (bucket_width cfg) (pr_dispatched_at p))"
            using False by (metis snd_conv)
          then show ?thesis by (simp add: row row_at_eq that split: option.split)
        qed
        have "row_at cfg d' k row = row_at cfg (qd_judge s) k row" for row
          using none [of d'] none [of "qd_judge s"] t by simp
        then show ?thesis using items_same [of d' "qd_judge s" cfg k fsqrt] by (simp add: j t)
      next
        case probe: True
        then obtain pid p where p: "map_of (probes (jd_probe d')) pid = Some p"
          and k: "k = (fst k, pr_deployment_id p, floor_to (bucket_width cfg) (pr_dispatched_at p))"
          by (metis prod.collapse)
        obtain s2 where s2: "extends s1 s2" "extends (?f (fst (snd k)) s2) (fold ?f changed s1)"
          using extends_fold_at [where f = ?f, OF f True] by blast
        let ?ts = "map (pr_dispatched_at \<circ> snd) (filter (\<lambda>(_, p). pr_deployment_id p = fst (snd k)) (probes (jd_probe (qd_judge s2))))"
        have "(pid, p) \<in> set (filter (\<lambda>(_, p). pr_deployment_id p = fst (snd k)) (probes (jd_probe (qd_judge s2))))"
          using map_of_SomeD [OF p] s2(1) arg_cong [OF k, of "\<lambda>k. fst (snd k)"] by (simp add: extends_def s1_def)
        from imageI [OF this, of "pr_dispatched_at \<circ> snd"] have "pr_dispatched_at p \<in> set ?ts" by simp
        moreover have "k = (fst k, fst (snd k), floor_to (bucket_width cfg) (pr_dispatched_at p))"
          using arg_cong [OF k, of "\<lambda>k. snd (snd k)"] by (cases k) simp
        ultimately have "pending cfg (?f (fst (snd k)) s2) k"
          unfolding request_deployment_reroll_def by (rule add_reroll_covers [OF w])
        then show ?thesis using pending_mono [OF s2(2)] by blast
      qed
    qed
  qed (use ext in \<open>simp_all add: extends_def s1_def\<close>)
qed

section \<open>Rolling\<close>

lemma roll_step:
  assumes "qr_bucket_secs cfg \<noteq> 0" and "twf (foghorn_qos s)"
    and "roll_range fsqrt cfg lo hi dep now s = Some (n, s')"
    and "rolled cfg (window_of (bucket_width cfg) lo hi) dep k \<or> up_to_date fsqrt cfg s k"
  shows "up_to_date fsqrt cfg s' k"
proof -
  have j: "qd_judge s' = qd_judge s" using arg_cong [OF roll_get(3) [OF assms(1-3)], of qd_judge] by simp
  show ?thesis
    using roll_get(1) [OF assms(1-3), of "fst k" "fst (snd k)" "snd (snd k)" "int (qr_bucket_secs cfg)"] assms(4)
    by (auto simp: up_to_date_def j current_row_def Let_def measured_fq_of split: if_splits)
qed

lemma drain_all:
  assumes "qr_bucket_secs cfg \<noteq> 0" and "twf (foghorn_qos s)"
  shows "\<exists>m s'. drain fsqrt cfg now qs n s = (Some m, s') \<and> twf (foghorn_qos s') \<and> qd_judge s' = qd_judge s
     \<and> qos_reroll s' = filter (\<lambda>x. rr_id x \<notin> rr_id ` set qs) (qos_reroll s)
     \<and> (\<forall>k. up_to_date fsqrt cfg s k \<or> (\<exists>q \<in> set qs. covers cfg k q) \<longrightarrow> up_to_date fsqrt cfg s' k)"
  using assms(2)
proof (induction qs arbitrary: n s)
  case (Cons q qs)
  obtain m s1 where r: "roll_range fsqrt cfg (rr_from q) (Some (rr_to q)) (rr_deployment q) now s = Some (m, s1)"
    using roll_total [OF assms(1)] by blast
  let ?s2 = "s1\<lparr>qos_reroll := filter (\<lambda>x. rr_id x \<noteq> rr_id q) (qos_reroll s1)\<rparr>"
  note g = roll_get(2,3) [OF assms(1) Cons.prems r]
  have s1: "twf (foghorn_qos ?s2)" "qd_judge ?s2 = qd_judge s" "qos_reroll s1 = qos_reroll s"
    using g(1) arg_cong [OF g(2), of qd_judge] arg_cong [OF g(2), of qos_reroll] by simp_all
  have up: "up_to_date fsqrt cfg ?s2 k" if "up_to_date fsqrt cfg s k \<or> covers cfg k q" for k
    using roll_step [OF assms(1) Cons.prems r, of k] that by (auto simp: covers_def up_to_date_def)
  obtain m' s' where s': "drain fsqrt cfg now qs (n + m) ?s2 = (Some m', s')" "twf (foghorn_qos s')"
      "qd_judge s' = qd_judge ?s2" "qos_reroll s' = filter (\<lambda>x. rr_id x \<notin> rr_id ` set qs) (qos_reroll ?s2)"
      "\<forall>k. up_to_date fsqrt cfg ?s2 k \<or> (\<exists>q \<in> set qs. covers cfg k q) \<longrightarrow> up_to_date fsqrt cfg s' k"
    using Cons.IH [OF s1(1), of "n + m"] by blast
  then have "drain fsqrt cfg now (q # qs) n s = (Some m', s')" by (simp add: r)
  moreover have "qos_reroll s' = filter (\<lambda>x. rr_id x \<notin> rr_id ` set (q # qs)) (qos_reroll s)"
    using s'(4) s1(3) by (auto simp: conj_commute intro: filter_cong)
  moreover have "up_to_date fsqrt cfg s' k" if "up_to_date fsqrt cfg s k \<or> (\<exists>q \<in> set (q # qs). covers cfg k q)" for k
    using spec [OF s'(5), of k] up [of k] that by auto
  moreover have "qd_judge s' = qd_judge s" using s'(3) s1(2) by simp
  ultimately show ?case using s'(2) by blast
qed simp

lemma recent_in_window:
  assumes "0 < w" and "lo \<le> at'" and "at' < floor_to w x + w"
  shows "in_window (window_of w lo None) (floor_to w x)"
proof -
  have "\<not> (x div w + 1) * w \<le> lo" using assms(2,3) by (simp add: floor_to_def algebra_simps)
  then have "lo div w \<le> x div w" using mult_le_div [OF assms(1), of "x div w + 1" lo] by linarith
  then show ?thesis using assms(1) by (simp add: in_window_div floor_to_def)
qed

lemma rollup_all:
  assumes "qr_bucket_secs cfg \<noteq> 0" and "twf (foghorn_qos s)"
    and "rollup_from cfg now \<le> at'" and "\<forall>ix dp x. good fsqrt cfg at' s (ix, dp, floor_to (bucket_width cfg) x)"
  shows "\<exists>n s'. rollup_once fsqrt cfg now s = (Some n, s') \<and> twf (foghorn_qos s') \<and> qos_reroll s' = []
     \<and> (\<forall>ix dp x. up_to_date fsqrt cfg s' (ix, dp, floor_to (bucket_width cfg) x))"
proof -
  let ?w = "bucket_width cfg"
  obtain m s1 where r: "roll_range fsqrt cfg (rollup_from cfg now) None None now s = Some (m, s1)"
    using roll_total [OF assms(1)] by blast
  note g = roll_get(2,3) [OF assms(1,2) r]
  have q: "qos_reroll s1 = qos_reroll s" using arg_cong [OF g(2), of qos_reroll] by simp
  obtain n s' where d: "drain fsqrt cfg now (qos_reroll s1) m s1 = (Some n, s')" "twf (foghorn_qos s')"
      "qos_reroll s' = filter (\<lambda>x. rr_id x \<notin> rr_id ` set (qos_reroll s1)) (qos_reroll s1)"
      "\<forall>k. up_to_date fsqrt cfg s1 k \<or> (\<exists>q \<in> set (qos_reroll s1). covers cfg k q) \<longrightarrow> up_to_date fsqrt cfg s' k"
    using drain_all [OF assms(1) g(1), of fsqrt now "qos_reroll s1" m] by blast
  have "up_to_date fsqrt cfg s' (ix, dp, floor_to ?w x)" for ix dp x
  proof -
    let ?k = "(ix, dp, floor_to ?w x)"
    have "rolled cfg (window_of ?w (rollup_from cfg now) None) None ?k" if "recent cfg at' ?k"
      using that recent_in_window [OF width_pos [OF assms(1)] assms(3), of x]
      by (simp add: recent_def in_deployment_def)
    then have "up_to_date fsqrt cfg s1 ?k \<or> pending cfg s ?k"
      using assms(4) roll_step [OF assms(1,2) r, of ?k] unfolding good_def by blast
    then show ?thesis using d(4) by (auto simp: pending_def q)
  qed
  moreover have "rollup_once fsqrt cfg now s = (Some n, s')" by (simp add: rollup_once_def r d(1))
  moreover have "qos_reroll s' = []" using d(3) by (auto simp: filter_empty_conv)
  ultimately show ?thesis using d(2) by blast
qed

section \<open>The invariant\<close>

lemma attribution_rows: "foghorn_qos (record_attribution key ix url now s) = foghorn_qos s"
proof -
  have "foghorn_qos (fold (\<lambda>(dep, ts). add_reroll (Some dep) ts reason) qs s) = foghorn_qos s" for qs reason s
    by (induction qs arbitrary: s) (auto simp: add_reroll_def)
  then show ?thesis by (simp add: record_attribution_def Let_def)
qed

lemma flag_rows: "foghorn_qos (flag_nondeterministic prn since now s) = foghorn_qos s"
proof -
  have "foghorn_qos (fold (\<lambda>dep. request_deployment_reroll dep reason) qs s) = foghorn_qos s" for qs reason s
    by (induction qs arbitrary: s) (auto simp: request_deployment_reroll_def add_reroll_def)
  then show ?thesis by (simp add: flag_nondeterministic_def split: prod.split)
qed

lemma feed_invariant:
  assumes "feed_run fsqrt cfg prn jsonb D l t s" and "qr_bucket_secs cfg \<noteq> 0"
  shows "l \<le> t \<and> twf (foghorn_qos s) \<and> (\<forall>ix dp x. good fsqrt cfg (l - D) s (ix, dp, floor_to (bucket_width cfg) x))"
  using assms(1)
proof (induction rule: feed_run.induct)
  case (start s t)
  then show ?case by (simp add: good_def up_to_date_def current_row_def bucket_items_def twf_def map_filter_simps)
next
  case (probed l t s t' pid p obs r)
  let ?d = "qd_judge s" and ?w = "bucket_width cfg"
  let ?d' = "?d\<lparr>jd_probe := snd (store_results jsonb pid p obs r (jd_probe ?d))\<rparr>"
  have "good fsqrt cfg (l - D) (s\<lparr>qd_judge := ?d'\<rparr>) (ix, dp, floor_to ?w x)" for ix dp x
  proof (rule good_keep)
    show "good fsqrt cfg (l - D) s (ix, dp, floor_to ?w x)" using probed.IH by blast
    show "pending cfg (s\<lparr>qd_judge := ?d'\<rparr>) (ix, dp, floor_to ?w x) \<or> recent cfg (l - D) (ix, dp, floor_to ?w x)
        \<or> current_row fsqrt cfg (qd_judge (s\<lparr>qd_judge := ?d'\<rparr>)) (ix, dp, floor_to ?w x) = current_row fsqrt cfg ?d (ix, dp, floor_to ?w x)"
    proof (cases "floor_to ?w x = floor_to ?w (pr_dispatched_at p)")
      case True
      then show ?thesis
        using floor_to_gt [OF width_pos [OF assms(2)], of "pr_dispatched_at p"] probed by (simp add: recent_def)
    next
      case False
      with stored_probe_items [OF probed.hyps(3) refl, of "(ix, dp, floor_to ?w x)" cfg p fsqrt] show ?thesis by simp
    qed
  qed simp_all
  then show ?case using probed by simp
next
  case (attributed l t s t' key ix url)
  from attributed attributed_good [OF assms(2)] show ?case by (simp add: attribution_rows)
next
  case (unresolved l t s t' key)
  moreover have "foghorn_qos (mark_unresolved key t' s) = foghorn_qos s" by (simp add: mark_unresolved_def)
  ultimately show ?case using unresolved_good by simp
next
  case (flagged l t s t' since)
  from flagged flagged_good [OF assms(2)] show ?case by (simp add: flag_rows)
next
  case (rolled l t s t')
  then obtain n s' where "rollup_once fsqrt cfg t' s = (Some n, s')" "twf (foghorn_qos s')"
      "\<forall>ix dp x. up_to_date fsqrt cfg s' (ix, dp, floor_to (bucket_width cfg) x)"
    using rollup_all [OF assms(2), of s t' "l - D" fsqrt] by blast
  then show ?case by (simp add: good_def)
qed

section \<open>Well-formed feeds\<close>

definition row_wf :: "fq_row \<Rightarrow> bool" where
  "row_wf row \<longleftrightarrow> 0 < fq_query_count row \<and> 0 \<le> fq_num_200 row \<and> fq_num_200 row \<le> fq_query_count row
     \<and> 0 \<le> fq_divergent_count row \<and> fq_divergent_count row \<le> fq_comparable_count row
     \<and> fq_comparable_count row \<le> fq_query_count row
     \<and> (fq_correctness_rate row = None \<longleftrightarrow> fq_comparable_count row = 0)
     \<and> (fq_avg_latency row = None \<longleftrightarrow> fq_num_200 row = 0)"

definition rows_wf :: "qos_rollup_config \<Rightarrow> qos_db \<Rightarrow> bool" where
  "rows_wf cfg s \<longleftrightarrow> twf (foghorn_qos s) \<and> (\<forall>ix dp b secs row. map_of (foghorn_qos s) (ix, dp, b, secs) = Some row \<longrightarrow>
     secs = int (qr_bucket_secs cfg) \<and> floor_to (bucket_width cfg) b = b \<and> row_wf row)"

definition requests_wf :: "qos_db \<Rightarrow> bool" where
  "requests_wf s \<longleftrightarrow> distinct (map rr_id (qos_reroll s))
     \<and> (\<forall>q \<in> set (qos_reroll s). rr_id q < qd_next_reroll s \<and> rr_from q \<le> rr_to q)"

lemma row_wf_fq_of: "items \<noteq> [] \<Longrightarrow> row_wf (fq_of fsqrt cfg url now items)"
proof -
  have "filter divergent_item items = filter divergent_item (filter comparable_item items)"
    by (auto simp: divergent_item_def intro: filter_cong)
  then have "length (filter divergent_item items) \<le> length (filter comparable_item items)"
    by (metis length_filter_le)
  then show "items \<noteq> [] \<Longrightarrow> ?thesis"
    by (auto simp: row_wf_def fq_of_def Let_def f_avg_def filter_empty_conv)
qed

lemma items_aligned:
  assumes "0 < bucket_width cfg" and "bucket_items cfg d (ix, dp, b) \<noteq> []"
  shows "floor_to (bucket_width cfg) b = b"
proof -
  obtain x where "x \<in> set (List.map_filter (all_row cfg d) (observations (jd_probe d)))" "fst x = (ix, dp, b)"
    using assms(2) unfolding bucket_items_def values_at_Nil by force
  then have "\<exists>row y. all_row cfg d row = Some ((ix, dp, b), y)" unfolding set_map_filter by (metis prod.collapse)
  then show ?thesis using assms(1) by (auto simp: all_row_def split: option.splits prod.splits if_splits)
qed

lemma roll_wf:
  assumes "qr_bucket_secs cfg \<noteq> 0" and "rows_wf cfg s" and "roll_range fsqrt cfg lo hi dep now s = Some (n, s')"
  shows "rows_wf cfg s'"
proof -
  have t: "twf (foghorn_qos s)" using assms(2) by (simp add: rows_wf_def)
  note w = width_pos [OF assms(1)]
  have "secs = int (qr_bucket_secs cfg) \<and> floor_to (bucket_width cfg) b = b \<and> row_wf row"
    if "map_of (foghorn_qos s') (ix, dp, b, secs) = Some row" for ix dp b secs row
    using that assms(2) items_aligned [OF w] row_wf_fq_of unfolding roll_get(1) [OF assms(1) t assms(3)] rows_wf_def
    by (auto simp: Let_def split: if_splits)
  then show ?thesis using roll_get(2) [OF assms(1) t assms(3)] by (simp add: rows_wf_def)
qed

lemma drain_wf: "qr_bucket_secs cfg \<noteq> 0 \<Longrightarrow> rows_wf cfg s \<and> requests_wf s \<Longrightarrow>
    rows_wf cfg (snd (drain fsqrt cfg now qs n s)) \<and> requests_wf (snd (drain fsqrt cfg now qs n s))"
proof (induction qs arbitrary: n s)
  case (Cons q qs)
  obtain m s1 where r: "roll_range fsqrt cfg (rr_from q) (Some (rr_to q)) (rr_deployment q) now s = Some (m, s1)"
    using roll_total [OF Cons.prems(1)] by blast
  let ?s2 = "s1\<lparr>qos_reroll := filter (\<lambda>x. rr_id x \<noteq> rr_id q) (qos_reroll s1)\<rparr>"
  have t: "twf (foghorn_qos s)" and s: "rows_wf cfg s" "requests_wf s" using Cons.prems(2) by (simp_all add: rows_wf_def)
  note s1 = roll_get(3) [OF Cons.prems(1) t r]
  have "qos_reroll s1 = qos_reroll s" "qd_next_reroll s1 = qd_next_reroll s"
    using arg_cong [OF s1, of qos_reroll] arg_cong [OF s1, of qd_next_reroll] by simp_all
  then have "requests_wf ?s2" using s(2) by (auto simp: requests_wf_def distinct_map_filter)
  moreover have "rows_wf cfg ?s2" using roll_wf [OF Cons.prems(1) s(1) r] by (simp add: rows_wf_def)
  ultimately show ?case using Cons.IH [OF Cons.prems(1), of ?s2 "n + m"] by (simp add: r)
qed simp

lemma rollup_wf:
  assumes "qr_bucket_secs cfg \<noteq> 0" and "rows_wf cfg s" and "requests_wf s"
  shows "rows_wf cfg (snd (rollup_once fsqrt cfg now s)) \<and> requests_wf (snd (rollup_once fsqrt cfg now s))"
proof -
  obtain m s1 where r: "roll_range fsqrt cfg (rollup_from cfg now) None None now s = Some (m, s1)"
    using roll_total [OF assms(1)] by blast
  have t: "twf (foghorn_qos s)" using assms(2) by (simp add: rows_wf_def)
  note s1 = roll_get(3) [OF assms(1) t r]
  have "requests_wf s1"
    using assms(3) arg_cong [OF s1, of qos_reroll] arg_cong [OF s1, of qd_next_reroll] by (simp add: requests_wf_def)
  then show ?thesis
    using roll_wf [OF assms(1,2) r] drain_wf [OF assms(1)] by (simp add: rollup_once_def r)
qed

lemma add_reroll_wf: "requests_wf s \<Longrightarrow> requests_wf (add_reroll dep ts reason s)"
  by (force simp: requests_wf_def add_reroll_def)

lemma fold_wf: "(\<And>x s. requests_wf s \<Longrightarrow> requests_wf (f x s)) \<Longrightarrow> requests_wf s \<Longrightarrow> requests_wf (fold f xs s)"
  by (induction xs arbitrary: s) auto

lemma requests_wf_fields: "qos_reroll s' = qos_reroll s \<Longrightarrow> qd_next_reroll s' = qd_next_reroll s \<Longrightarrow>
    requests_wf s' = requests_wf s"
  by (simp add: requests_wf_def)

lemma attribution_wf: "requests_wf s \<Longrightarrow> requests_wf (record_attribution key ix url now s)"
  unfolding record_attribution_def Let_def
  by (rule fold_wf) (auto split: prod.splits intro: add_reroll_wf
      simp: requests_wf_fields [of "s\<lparr>qd_judge := a, qd_alloc_urls := b, qd_alloc_resolved := c\<rparr>" s for a b c])

lemma flag_wf: "requests_wf s \<Longrightarrow> requests_wf (flag_nondeterministic prn since now s)"
  unfolding flag_nondeterministic_def
  by (auto simp: request_deployment_reroll_def requests_wf_fields [of "s\<lparr>qd_judge := x\<rparr>" s for x]
      intro!: fold_wf add_reroll_wf split: prod.splits)

section \<open>Properties\<close>

text \<open>
  C37. The feed never stays wrong: in every run in which rollups follow each other within the lookback,
  a rollup succeeds and afterwards no request is left and every bucket's stored measurements are what
  all of its current observations say, whatever was probed, attributed or flagged since the last one.
\<close>

theorem feed_never_stale:
  assumes "feed_run fsqrt cfg prn jsonb D l t s" and "qr_bucket_secs cfg \<noteq> 0"
    and "t \<le> now" and "rollup_from cfg now \<le> l - D"
  shows "\<exists>n s'. rollup_once fsqrt cfg now s = (Some n, s') \<and> qos_reroll s' = []
     \<and> (\<forall>ix dp x. up_to_date fsqrt cfg s' (ix, dp, floor_to (bucket_width cfg) x))"
  using rollup_all [OF assms(2) _ assms(4)] feed_invariant [OF assms(1,2)] by blast

definition idle_feed :: qos_db where
  "idle_feed = \<lparr>qd_judge = \<lparr>jd_probe = empty_db, jd_allocation_map = [], jd_nondeterministic = []\<rparr>,
     qd_alloc_urls = [], qd_alloc_resolved = [], foghorn_qos = [], qos_reroll = [], qd_next_reroll = 1\<rparr>"

definition probed_feed :: qos_db where
  "probed_feed = idle_feed\<lparr>qd_judge := (qd_judge idle_feed)\<lparr>jd_probe := snd (store_results (\<lambda>_. None) ''p'' sample_row
     [paid_answer ''0xi'' ''h1''] empty_clusters (jd_probe (qd_judge idle_feed)))\<rparr>\<rparr>"

lemma probed_feed_run: "feed_run (\<lambda>x. x) qos_rollup_default (\<lambda>_. []) (\<lambda>_. None) 60 0 5 probed_feed"
  unfolding probed_feed_def
proof (rule feed_run.probed [where t = 0])
  show "feed_run (\<lambda>x. x) qos_rollup_default (\<lambda>_. []) (\<lambda>_. None) 60 0 0 idle_feed"
    by (rule feed_run.start) (simp_all add: idle_feed_def empty_db_def)
  show "fresh_probe ''p'' (jd_probe (qd_judge idle_feed))"
    by (simp add: idle_feed_def empty_db_def fresh_probe_def)
qed (simp_all add: sample_row_def)

lemma probed_items: "bucket_items qos_rollup_default (qd_judge probed_feed) (''0xi'', ''Qm1'', 0) \<noteq> []"
  by (simp add: bucket_items_def probed_feed_def idle_feed_def empty_db_def store_results_def empty_clusters_def
      paid_answer_def observation_defs observation_of_def tput_new_def map_filter_simps all_row_def counted_def
      resolved_def identity_def sample_row_def floor_to_def bucket_width_def sample_secs DISPATCH_PAID_def)

theorem feed_never_stale_witness:
  "\<exists>n s'. rollup_once (\<lambda>x. x) qos_rollup_default 9 probed_feed = (Some n, s')
     \<and> up_to_date (\<lambda>x. x) qos_rollup_default s' (''0xi'', ''Qm1'', 0)
     \<and> current_row (\<lambda>x. x) qos_rollup_default (qd_judge probed_feed) (''0xi'', ''Qm1'', 0) \<noteq> None"
proof -
  have "rollup_from qos_rollup_default 9 \<le> 0 - 60" by (simp add: rollup_from_def qos_rollup_default_def)
  from feed_never_stale [OF probed_feed_run _ _ this]
  obtain n s' where s': "rollup_once (\<lambda>x. x) qos_rollup_default 9 probed_feed = (Some n, s')"
      "\<forall>ix dp x. up_to_date (\<lambda>x. x) qos_rollup_default s' (ix, dp, floor_to (bucket_width qos_rollup_default) x)"
    by (auto simp: sample_secs)
  have "floor_to (bucket_width qos_rollup_default) 0 = 0" by (simp add: floor_to_def)
  then have "up_to_date (\<lambda>x. x) qos_rollup_default s' (''0xi'', ''Qm1'', 0)" using s'(2) by metis
  then show ?thesis using s'(1) probed_items by (simp add: current_row_def Let_def)
qed

text \<open>
  C38. The feed's tables keep their shape in every run: one row per bucket, of the configured width and
  on its boundary, with no more divergences than comparable answers, no more of those than queries, at
  least one query, and a rate or a latency exactly when there is something to measure; requests have
  distinct ids below the next one and ranges that are not empty.
\<close>

theorem feed_well_formed:
  assumes "feed_run fsqrt cfg prn jsonb D l t s" and "qr_bucket_secs cfg \<noteq> 0"
  shows "rows_wf cfg s \<and> requests_wf s"
  using assms(1)
proof (induction rule: feed_run.induct)
  case (attributed l t s t' key ix url)
  have "foghorn_qos (record_attribution key ix url t' s) = foghorn_qos s" by (rule attribution_rows)
  then show ?case using attributed attribution_wf by (simp add: rows_wf_def)
next
  case (flagged l t s t' since)
  have "foghorn_qos (flag_nondeterministic prn since t' s) = foghorn_qos s" by (rule flag_rows)
  then show ?case using flagged flag_wf by (simp add: rows_wf_def)
next
  case (rolled l t s t')
  then show ?case using rollup_wf [OF assms(2)] by blast
qed (simp_all add: rows_wf_def requests_wf_def twf_def mark_unresolved_def)

theorem feed_well_formed_witness:
  "rows_wf qos_rollup_default probed_feed \<and> requests_wf probed_feed"
  using feed_well_formed [OF probed_feed_run] by (simp add: sample_secs)

end
