(* ===== verification/Ingest.thy ===== *)
theory Ingest
  imports Config Numbers Allocations
begin

text \<open>
  What Foghorn takes from others: the Lodestar roster and its per-indexer QoS
  (\<open>foghorn-probe/src/lodestar.rs\<close>) into \<open>indexer_profile\<close>, and the peer oracle's per-allocation
  QoS into \<open>allocation_qos\<close> (\<open>foghorn-probe/src/ingest.rs\<close>). What a request returns is an argument;
  the bodies arrive decoded into the records the client declares.
\<close>

section \<open>The Lodestar client\<close>

record enriched_indexer =
  ei_id :: str
  ei_ens_name :: "str option"
  ei_url :: "str option"
  ei_created_at :: "int option"
  ei_self_stake_grt :: "f64 option"
  ei_delegated_grt :: "f64 option"
  ei_allocation_count :: "int option"
  ei_query_fees_collected_grt :: "f64 option"
  ei_reo_status :: "str option"
  ei_reo_source :: "str option"
  ei_score :: "f64 option"
  ei_score_grade :: "str option"

record qos_point =
  qp_date :: str
  qp_query_count :: f64
  qp_success_rate :: f64
  qp_latency_ms :: f64
  qp_blocks_behind :: f64

record qos_aggregate =
  qa_query_count :: int
  qa_success_rate :: "f64 option"
  qa_latency_ms :: "f64 option"
  qa_blocks_behind :: "f64 option"

text \<open>Every route: an error unless the request was answered with a success status and a body that
  parses.\<close>

definition lodestar_get :: "'a reply \<Rightarrow> 'a option" where
  "lodestar_get r = (case r of
      Unreachable \<Rightarrow> None | Reply status body \<Rightarrow> if ok_status status then body else None)"

record lodestar_client =
  lc_enriched :: "enriched_indexer list reply"
  lc_qos :: "str \<Rightarrow> qos_point list reply"
  lc_json :: "str \<Rightarrow> json reply"

definition get_json :: "lodestar_client \<Rightarrow> str \<Rightarrow> json option" where
  "get_json c path = lodestar_get (lc_json c path)"

definition fetch_enriched :: "lodestar_client \<Rightarrow> enriched_indexer list option" where
  "fetch_enriched c = lodestar_get (lc_enriched c)"

text \<open>The running sums of the trailing points: queries, weight, and the three weighted values.\<close>

definition point_weight :: "qos_point \<Rightarrow> f64" where
  "point_weight p = fmax (qp_query_count p) (F 1)"

definition weighted_sum :: "(qos_point \<Rightarrow> f64) \<Rightarrow> qos_point list \<Rightarrow> f64" where
  "weighted_sum f ps = fsum (map (\<lambda>p. fmul (f p) (point_weight p)) ps)"

definition aggregate_qos :: "qos_point list \<Rightarrow> nat \<Rightarrow> qos_aggregate" where
  "aggregate_qos points window_days =
     (let tail = drop (length points - window_days) points in
      if tail = [] then \<lparr>qa_query_count = 0, qa_success_rate = None, qa_latency_ms = None, qa_blocks_behind = None\<rparr>
      else let q_sum = fsum (map qp_query_count tail); w_sum = fsum (map point_weight tail);
               mean = (\<lambda>f. if flt (F 0) w_sum then Some (fdiv (weighted_sum f tail) w_sum) else None) in
        \<lparr>qa_query_count = i64_of_f (fround q_sum), qa_success_rate = mean qp_success_rate,
         qa_latency_ms = mean qp_latency_ms, qa_blocks_behind = mean qp_blocks_behind\<rparr>)"

definition fetch_qos :: "lodestar_client \<Rightarrow> str \<Rightarrow> nat \<Rightarrow> qos_aggregate option" where
  "fetch_qos c address window_days =
     map_option (\<lambda>ps. aggregate_qos ps window_days) (lodestar_get (lc_qos c (to_lower address)))"

section \<open>The roster\<close>

record profile_row =
  pf_ens_name :: "str option"
  pf_url :: "str option"
  pf_created_at :: "int option"
  pf_self_stake_grt :: "f64 option"
  pf_delegated_grt :: "f64 option"
  pf_allocation_count :: "int option"
  pf_query_fees_collected_grt :: "f64 option"
  pf_reo_status :: "str option"
  pf_reo_source :: "str option"
  pf_lodestar_score :: "f64 option"
  pf_lodestar_grade :: "str option"
  pf_qos_query_count :: "int option"
  pf_qos_success_rate :: "f64 option"
  pf_qos_latency_ms :: "f64 option"
  pf_qos_blocks_behind :: "f64 option"
  pf_ingested_at :: int

type_synonym profile_table = "(str, profile_row) table"

text \<open>The upsert names no QoS column: a new row has them null, an existing one keeps them.\<close>

definition roster_row :: "int \<Rightarrow> enriched_indexer \<Rightarrow> profile_row option \<Rightarrow> profile_row" where
  "roster_row now ix old = \<lparr>pf_ens_name = ei_ens_name ix, pf_url = ei_url ix, pf_created_at = ei_created_at ix,
     pf_self_stake_grt = ei_self_stake_grt ix, pf_delegated_grt = ei_delegated_grt ix,
     pf_allocation_count = ei_allocation_count ix, pf_query_fees_collected_grt = ei_query_fees_collected_grt ix,
     pf_reo_status = ei_reo_status ix, pf_reo_source = ei_reo_source ix, pf_lodestar_score = ei_score ix,
     pf_lodestar_grade = ei_score_grade ix,
     pf_qos_query_count = Option.bind old pf_qos_query_count,
     pf_qos_success_rate = Option.bind old pf_qos_success_rate,
     pf_qos_latency_ms = Option.bind old pf_qos_latency_ms,
     pf_qos_blocks_behind = Option.bind old pf_qos_blocks_behind, pf_ingested_at = now\<rparr>"

definition upsert_roster :: "int \<Rightarrow> enriched_indexer \<Rightarrow> profile_table \<Rightarrow> profile_table" where
  "upsert_roster now ix t = (let addr = to_lower (ei_id ix) in
     if addr = '''' then t else tput addr (roster_row now ix (map_of t addr)) t)"

text \<open>An update of a row that is not there changes nothing.\<close>

definition update_qos :: "int \<Rightarrow> str \<Rightarrow> qos_aggregate \<Rightarrow> profile_table \<Rightarrow> profile_table" where
  "update_qos now addr g t = (case map_of t addr of
      None \<Rightarrow> t
    | Some r \<Rightarrow> tput addr (r\<lparr>pf_qos_query_count := Some (qa_query_count g),
        pf_qos_success_rate := qa_success_rate g, pf_qos_latency_ms := qa_latency_ms g,
        pf_qos_blocks_behind := qa_blocks_behind g, pf_ingested_at := now\<rparr>) t)"

definition QOS_WINDOW_DAYS :: nat where "QOS_WINDOW_DAYS = 30"

text \<open>The fetches run six at a time; each update writes the row of its own address and one address
  has one answer, so the order in which they finish does not show and the roster order stands for
  it.\<close>

definition run_ingest_once :: "int \<Rightarrow> lodestar_client \<Rightarrow> profile_table \<Rightarrow> (nat \<times> nat) option \<times> profile_table" where
  "run_ingest_once now c t = (case fetch_enriched c of
      None \<Rightarrow> (None, t)
    | Some roster \<Rightarrow>
        let t1 = fold (upsert_roster now) roster t;
            observed = filter (\<lambda>a. a \<noteq> '''') (map (to_lower \<circ> ei_id) roster);
            fetched = List.map_filter (\<lambda>a. map_option (Pair a) (fetch_qos c a QOS_WINDOW_DAYS)) observed;
            t2 = fold (\<lambda>(a, g). update_qos now a g) fetched t1
        in (Some (length roster, length fetched), t2))"

section \<open>The peer oracle's allocations\<close>

definition ALLOC_WINDOW_DAYS :: int where "ALLOC_WINDOW_DAYS = 3"

record alloc_agg =
  al_succ_weighted :: f64
  al_query_sum :: int
  al_latest_day :: int
  al_latest_day_start :: int
  al_latest_bb :: f64

record alloc_qos_row =
  aq_day_number :: int
  aq_day_start :: int
  aq_success_rate :: f64
  aq_blocks_behind :: f64
  aq_query_count :: int
  aq_updated_at :: int

text \<open>Numbers come as decimal strings or, for some fields, as JSON integers.\<close>

definition str_i64 :: "json \<Rightarrow> int option" where
  "str_i64 v = Option.bind (as_str v) parse_i64"

definition str_f64 :: "f64 \<Rightarrow> json \<Rightarrow> f64" where
  "str_f64 d v = (case Option.bind (as_str v) parse_f64 of Some x \<Rightarrow> x | None \<Rightarrow> d)"

definition either_i64 :: "json \<Rightarrow> int" where
  "either_i64 v = (case str_i64 v of Some n \<Rightarrow> n | None \<Rightarrow> (case as_i64 v of Some n \<Rightarrow> n | None \<Rightarrow> 0))"

definition latest_day :: "json \<Rightarrow> int" where
  "latest_day v = (case Option.bind (Option.bind (jpointer [''data'', ''allocationDailyDataPoints''] v) as_array)
        (\<lambda>xs. case xs of x # _ \<Rightarrow> jget ''dayNumber'' x | [] \<Rightarrow> None) of
      Some d \<Rightarrow> either_i64 d | None \<Rightarrow> 0)"

definition alloc_point :: "json \<Rightarrow> (str \<times> str, alloc_agg) table \<Rightarrow> (str \<times> str, alloc_agg) table" where
  "alloc_point r m =
     (let indexer = to_lower (case as_str (jidx r ''indexer_wallet'') of Some s \<Rightarrow> s | None \<Rightarrow> '''');
          dep = (case json_str_at [''subgraphDeployment'', ''id''] r of Some s \<Rightarrow> s | None \<Rightarrow> '''') in
      if indexer = '''' \<or> dep = '''' then m
      else
        let day = either_i64 (jidx r ''dayNumber'');
            qc = (case str_i64 (jidx r ''query_count'') of Some n \<Rightarrow> n | None \<Rightarrow> 0);
            sr = str_f64 (F 1) (jidx r ''proportion_indexer_200_responses'');
            bb = str_f64 (F 0) (jidx r ''avg_indexer_blocks_behind'');
            day_start = either_i64 (jidx r ''dayStart'');
            e = (case map_of m (indexer, dep) of Some e \<Rightarrow> e
              | None \<Rightarrow> \<lparr>al_succ_weighted = F 0, al_query_sum = 0, al_latest_day = 0, al_latest_day_start = 0,
                  al_latest_bb = F 0\<rparr>);
            e1 = e\<lparr>al_succ_weighted := fadd (al_succ_weighted e) (fmul sr (f_of_int qc)),
                   al_query_sum := i64w (al_query_sum e + qc)\<rparr>;
            e2 = (if al_latest_day e \<le> day
                  then e1\<lparr>al_latest_day := day, al_latest_day_start := day_start, al_latest_bb := bb\<rparr> else e1)
        in tput (indexer, dep) e2 m)"

text \<open>The keyset pages, at most \<open>fuel\<close> of them; a request that fails ends the ingest.\<close>

fun alloc_pages :: "(str \<Rightarrow> json option) \<Rightarrow> nat \<Rightarrow> str \<Rightarrow> (str \<times> str, alloc_agg) table \<Rightarrow>
    (str \<times> str, alloc_agg) table option" where
  "alloc_pages fetch 0 last_id m = Some m"
| "alloc_pages fetch (Suc fuel) last_id m = (case fetch last_id of
      None \<Rightarrow> None
    | Some v \<Rightarrow> (case Option.bind (jpointer [''data'', ''allocationDailyDataPoints''] v) as_array of
        None \<Rightarrow> Some m
      | Some rows \<Rightarrow>
          if rows = [] then Some m
          else let m' = fold alloc_point rows m;
                   last_id' = (case as_str (jidx (last rows) ''id'') of Some s \<Rightarrow> s | None \<Rightarrow> '''') in
            if length rows < 1000 \<or> last_id' = '''' then Some m'
            else alloc_pages fetch fuel last_id' m'))"

text \<open>\<open>started\<close> is the clock when the ingest began, \<open>now\<close> when it writes: rows this run did not
  write are older than \<open>started\<close> and are dropped.\<close>

definition ingest_allocation_qos :: "json option \<Rightarrow> (int \<Rightarrow> str \<Rightarrow> json option) \<Rightarrow> int \<Rightarrow> int \<Rightarrow>
    (str \<times> str, alloc_qos_row) table \<Rightarrow> nat option \<times> (str \<times> str, alloc_qos_row) table" where
  "ingest_allocation_qos newest fetch started now t = (case newest of
      None \<Rightarrow> (None, t)
    | Some v \<Rightarrow>
        let max_day = latest_day v in
        if max_day = 0 then (Some 0, t)
        else (case alloc_pages (fetch (i64w (max_day - (ALLOC_WINDOW_DAYS - 1)))) 60 '''' [] of
            None \<Rightarrow> (None, t)
          | Some agg \<Rightarrow>
              let rows = filter (\<lambda>(_, a). 0 < al_query_sum a) agg;
                  t1 = fold (\<lambda>(k, a). tput k \<lparr>aq_day_number = i32w max_day, aq_day_start = al_latest_day_start a,
                      aq_success_rate = fdiv (al_succ_weighted a) (f_of_int (al_query_sum a)),
                      aq_blocks_behind = al_latest_bb a, aq_query_count = al_query_sum a, aq_updated_at = now\<rparr>) rows t
              in (Some (length rows), tdel (\<lambda>_ r. aq_updated_at r < started) t1)))"

section \<open>Lemmas\<close>

lemma upsert_roster_get: "map_of (upsert_roster now ix t) a =
    (if a = to_lower (ei_id ix) \<and> a \<noteq> '''' then Some (roster_row now ix (map_of t a)) else map_of t a)"
  by (simp add: upsert_roster_def Let_def)

lemma upsert_roster_twf [simp]: "twf t \<Longrightarrow> twf (upsert_roster now ix t)"
  by (simp add: upsert_roster_def Let_def)

lemma update_qos_get: "map_of (update_qos now addr g t) a =
    (if a = addr then map_option (\<lambda>r. r\<lparr>pf_qos_query_count := Some (qa_query_count g),
        pf_qos_success_rate := qa_success_rate g, pf_qos_latency_ms := qa_latency_ms g,
        pf_qos_blocks_behind := qa_blocks_behind g, pf_ingested_at := now\<rparr>) (map_of t a) else map_of t a)"
  by (auto simp: update_qos_def split: option.splits)

lemma update_qos_twf [simp]: "twf t \<Longrightarrow> twf (update_qos now addr g t)"
  by (simp add: update_qos_def split: option.splits)

end
