(* ===== verification/Sybil.thy ===== *)
theory Sybil
  imports Score Ingest "HOL-Library.Monad_Syntax"
begin

text \<open>
  Operator-swarm detection, \<open>foghorn-probe/src/sybil.rs\<close>: the same-operator relation between
  anonymous indexers, union-find with path halving over it, the clusters of at least three, their
  confidence, and the table they are kept in. The forest is a list of parents; finding a root is a
  partial function, so that it returns is a theorem.
\<close>

definition CREATED_WINDOW_SECS :: int where "CREATED_WINDOW_SECS = 14 * 86400"
definition STAKE_REL_TOL :: f64 where "STAKE_REL_TOL = F (25 / 100)"
definition HIGH_STAKE_GRT :: f64 where "HIGH_STAKE_GRT = F 50000000"
definition MIN_MEMBERS :: nat where "MIN_MEMBERS = 3"
definition CROWD_OVERLAP :: f64 where "CROWD_OVERLAP = F (8 / 10)"
definition CROWD_MIN_ALLOCS :: nat where "CROWD_MIN_ALLOCS = 5"

record candidate =
  cd_address :: str
  cd_created_at :: int
  cd_stake :: f64
  cd_allocations :: "str set"

section \<open>The same-operator relation\<close>

definition overlap_coefficient :: "str set \<Rightarrow> str set \<Rightarrow> f64" where
  "overlap_coefficient a b =
     (let m = min (card a) (card b) in
      if m = 0 then F 0 else fdiv (f_of_int (int (card (a \<inter> b)))) (f_of_int (int m)))"

definition close_time :: "candidate \<Rightarrow> candidate \<Rightarrow> bool" where
  "close_time a b \<longleftrightarrow> i64w \<bar>i64w (cd_created_at a - cd_created_at b)\<bar> \<le> CREATED_WINDOW_SECS"

definition similar_stake :: "candidate \<Rightarrow> candidate \<Rightarrow> bool" where
  "similar_stake a b \<longleftrightarrow>
     fle (fdiv (fabs (fsub (cd_stake a) (cd_stake b))) (fmax (cd_stake a) (cd_stake b))) STAKE_REL_TOL"

definition both_whales :: "candidate \<Rightarrow> candidate \<Rightarrow> bool" where
  "both_whales a b \<longleftrightarrow> fle HIGH_STAKE_GRT (cd_stake a) \<and> fle HIGH_STAKE_GRT (cd_stake b)"

definition crowd :: "candidate \<Rightarrow> candidate \<Rightarrow> bool" where
  "crowd a b \<longleftrightarrow> CROWD_MIN_ALLOCS \<le> card (cd_allocations a) \<and> CROWD_MIN_ALLOCS \<le> card (cd_allocations b)
     \<and> fle CROWD_OVERLAP (overlap_coefficient (cd_allocations a) (cd_allocations b))"

definition same_operator :: "candidate \<Rightarrow> candidate \<Rightarrow> bool" where
  "same_operator a b \<longleftrightarrow> close_time a b \<and> (similar_stake a b \<or> both_whales a b) \<or> crowd a b"

section \<open>Union-find\<close>

partial_function (option) uf_find :: "nat list \<Rightarrow> nat \<Rightarrow> (nat \<times> nat list) option" where
  "uf_find parent x =
     (if \<not> x < length parent then None
      else if parent ! x = x then Some (x, parent)
      else if \<not> parent ! x < length parent then None
      else let parent' = parent[x := parent ! (parent ! x)] in uf_find parent' (parent' ! x))"

declare uf_find.simps [code]

definition uf_union :: "nat \<Rightarrow> nat \<Rightarrow> nat list \<Rightarrow> nat list option" where
  "uf_union i j parent = do {
     (ra, parent) \<leftarrow> uf_find parent i;
     (rb, parent) \<leftarrow> uf_find parent j;
     Some (if ra \<noteq> rb then parent[ra := rb] else parent)
   }"

fun uf_unions :: "(nat \<times> nat) list \<Rightarrow> nat list \<Rightarrow> nat list option" where
  "uf_unions [] parent = Some parent"
| "uf_unions ((i, j) # ps) parent = Option.bind (uf_union i j parent) (uf_unions ps)"

fun uf_roots :: "nat list \<Rightarrow> nat list \<Rightarrow> (nat \<times> nat) list option" where
  "uf_roots [] parent = Some []"
| "uf_roots (i # is) parent = do {
     (r, parent) \<leftarrow> uf_find parent i;
     rest \<leftarrow> uf_roots is parent;
     Some ((r, i) # rest)
   }"

text \<open>The pairs \<open>i < j\<close> that are linked, in the order the two loops visit them.\<close>

definition links :: "candidate list \<Rightarrow> (nat \<times> nat) list" where
  "links cs = [(i, j). i \<leftarrow> [0..<length cs], j \<leftarrow> [Suc i..<length cs], same_operator (cs ! i) (cs ! j)]"

section \<open>Clusters\<close>

definition mean_overlap :: "candidate list \<Rightarrow> f64" where
  "mean_overlap ms =
     (let overlaps = [overlap_coefficient (cd_allocations (ms ! i)) (cd_allocations (ms ! j)).
            i \<leftarrow> [0..<length ms], j \<leftarrow> [Suc i..<length ms]] in
      if overlaps = [] then F 0 else fdiv (fsum overlaps) (f_of_int (int (length overlaps))))"

definition spread_days :: "candidate list \<Rightarrow> f64" where
  "spread_days ms =
     (if ms = [] then F 0 else fdiv (f_of_int (i64w (Max (set (map cd_created_at ms)) - Min (set (map cd_created_at ms)))))
        (F 86400))"

definition stake_min :: "candidate list \<Rightarrow> f64" where
  "stake_min ms = foldl fmin (Infty True) (map cd_stake ms)"

definition stake_max :: "candidate list \<Rightarrow> f64" where
  "stake_max ms = foldl fmax (F 0) (map cd_stake ms)"

definition stake_rel :: "candidate list \<Rightarrow> f64" where
  "stake_rel ms = (if flt (F 0) (stake_max ms)
     then fdiv (fsub (stake_max ms) (stake_min ms)) (stake_max ms) else F 0)"

text \<open>What each signal adds to the confidence; nothing is the zero.\<close>

definition spread_bonus :: "f64 \<Rightarrow> f64" where
  "spread_bonus d = (if fle d (F 1) then F (25 / 100) else if fle d (F 3) then F (1 / 10) else F 0)"

definition stake_bonus :: "f64 \<Rightarrow> f64" where
  "stake_bonus r = (if fle r (F (3 / 100)) then F (2 / 10) else if fle r (F (10 / 100)) then F (1 / 10)
     else if fle r (F (25 / 100)) then F (5 / 100) else F 0)"

definition whale_bonus :: "f64 \<Rightarrow> f64" where
  "whale_bonus lo = (if fle HIGH_STAKE_GRT lo then F (15 / 100) else F 0)"

definition overlap_bonus :: "f64 \<Rightarrow> f64" where
  "overlap_bonus x = (if fle CROWD_OVERLAP x then F (2 / 10) else if fle (F (5 / 10)) x then F (1 / 10) else F 0)"

definition cluster_confidence :: "candidate list \<Rightarrow> f64" where
  "cluster_confidence ms = fmin (foldl fadd (F (4 / 10))
     [spread_bonus (spread_days ms), stake_bonus (stake_rel ms), whale_bonus (stake_min ms),
      overlap_bonus (mean_overlap ms)]) (F 1)"

text \<open>\<open>sha\<close> is the hexadecimal SHA-256.\<close>

definition build_cluster :: "(str \<Rightarrow> str) \<Rightarrow> candidate list \<Rightarrow> sybil_cluster" where
  "build_cluster sha ms =
     (let addrs = sort (map cd_address ms) in
      \<lparr>cl_id = ''swarm-'' @ take 10 (sha (join '','' addrs)),
       cl_confidence = cluster_confidence ms,
       cl_member_count = i32w (int (length ms)), cl_members = addrs,
       cl_signals = JObj [(''anonymous'', JBool True), (''member_count'', jint (int (length ms))),
         (''created_spread_days'', jf (spread_days ms)), (''self_stake_min_grt'', jf (stake_min ms)),
         (''self_stake_max_grt'', jf (stake_max ms)), (''self_stake_rel_spread'', jf (stake_rel ms)),
         (''allocation_overlap'', jf (mean_overlap ms))]\<rparr>)"

text \<open>\<open>ord\<close> is the order the hash map of roots is iterated in.\<close>

definition find_swarms :: "(str \<Rightarrow> str) \<Rightarrow> ((nat \<times> nat list) list \<Rightarrow> (nat \<times> nat list) list) \<Rightarrow> candidate list \<Rightarrow>
    sybil_cluster list option" where
  "find_swarms sha ord cs = do {
     parent \<leftarrow> uf_unions (links cs) [0..<length cs];
     roots \<leftarrow> uf_roots [0..<length cs] parent;
     Some (map (\<lambda>(_, idxs). build_cluster sha (map ((!) cs) idxs))
       (filter (\<lambda>(_, idxs). MIN_MEMBERS \<le> length idxs) (ord (group_pairs roots))))
   }"

section \<open>The footprints and the table\<close>

definition footprint :: "json \<Rightarrow> (str, str set) table \<Rightarrow> (str, str set) table" where
  "footprint a m =
     (let indexer = to_lower (case json_str_at [''indexer'', ''id''] a of Some s \<Rightarrow> s | None \<Rightarrow> '''');
          dep = (case json_str_at [''subgraphDeployment'', ''id''] a of Some s \<Rightarrow> s | None \<Rightarrow> '''') in
      if indexer \<noteq> '''' \<and> dep \<noteq> ''''
      then tput indexer (insert dep (case map_of m indexer of Some s \<Rightarrow> s | None \<Rightarrow> {})) m else m)"

fun footprint_pages :: "(str \<Rightarrow> json option) \<Rightarrow> nat \<Rightarrow> str \<Rightarrow> (str, str set) table \<Rightarrow> (str, str set) table option" where
  "footprint_pages fetch 0 last_id m = Some m"
| "footprint_pages fetch (Suc fuel) last_id m = (case fetch last_id of
      None \<Rightarrow> None
    | Some v \<Rightarrow> (case Option.bind (jpointer [''data'', ''allocations''] v) as_array of
        None \<Rightarrow> Some m
      | Some allocs \<Rightarrow>
          if allocs = [] then Some m
          else let m' = fold footprint allocs m;
                   last_id' = (case as_str (jidx (last allocs) ''id'') of Some s \<Rightarrow> s | None \<Rightarrow> '''') in
            if length allocs < 1000 \<or> last_id' = '''' then Some m'
            else footprint_pages fetch fuel last_id' m'))"

definition fetch_allocation_footprints :: "(str list \<Rightarrow> str \<Rightarrow> json option) \<Rightarrow> str list \<Rightarrow> (str, str set) table option" where
  "fetch_allocation_footprints fetch addresses =
     (if addresses = [] then Some []
      else footprint_pages (fetch (map to_lower addresses)) 6 '''' [])"

text \<open>The SQL comparison \<open>x >= 1000000\<close>, where a NaN is the largest number.\<close>

definition sql_ge :: "f64 \<Rightarrow> f64 \<Rightarrow> bool" where
  "sql_ge x y \<longleftrightarrow> is_nan x \<or> fle y x"

definition candidate_of :: "str \<times> profile_row \<Rightarrow> candidate option" where
  "candidate_of r = (case r of (addr, p) \<Rightarrow>
     (case (pf_ens_name p, pf_created_at p, pf_self_stake_grt p) of
        (None, Some created, Some stake) \<Rightarrow>
          if sql_ge stake (F 1000000)
          then Some \<lparr>cd_address = to_lower addr, cd_created_at = created, cd_stake = stake, cd_allocations = {}\<rparr>
          else None
      | _ \<Rightarrow> None))"

definition enrich :: "(str, str set) table \<Rightarrow> candidate \<Rightarrow> candidate" where
  "enrich fps c = (case map_of fps (cd_address c) of Some s \<Rightarrow> c\<lparr>cd_allocations := s\<rparr> | None \<Rightarrow> c)"

definition candidates_with :: "(str list \<Rightarrow> str \<Rightarrow> json option) option \<Rightarrow> profile_table \<Rightarrow> candidate list" where
  "candidates_with fetch profiles =
     (let cs = List.map_filter candidate_of profiles in
      case fetch of
        None \<Rightarrow> cs
      | Some f \<Rightarrow> (case fetch_allocation_footprints f (map cd_address cs) of
            None \<Rightarrow> cs | Some fps \<Rightarrow> map (enrich fps) cs))"

record sybil_row =
  sr_cluster :: sybil_cluster
  sr_detected_at :: int

text \<open>The scorer's map from member to cluster and confidence, and the table: every cluster upserted,
  the others deleted. \<open>fetch\<close> is absent when there is no API key.\<close>

definition detect_and_store :: "(str \<Rightarrow> str) \<Rightarrow> ((nat \<times> nat list) list \<Rightarrow> (nat \<times> nat list) list) \<Rightarrow>
    (str list \<Rightarrow> str \<Rightarrow> json option) option \<Rightarrow> int \<Rightarrow> profile_table \<Rightarrow> (str, sybil_row) table \<Rightarrow>
    ((str, str \<times> f64) table \<times> (str, sybil_row) table) option" where
  "detect_and_store sha ord fetch now profiles t =
     (case find_swarms sha ord (candidates_with fetch profiles) of
        None \<Rightarrow> None
      | Some cs \<Rightarrow>
          let m = fold (\<lambda>c. fold (\<lambda>a. tput a (cl_id c, cl_confidence c)) (cl_members c)) cs [];
              t1 = fold (\<lambda>c. tput (cl_id c) \<lparr>sr_cluster = c, sr_detected_at = now\<rparr>) cs t
          in Some (m, tdel (\<lambda>cid _. cid \<notin> set (map cl_id cs)) t1))"


section \<open>Union-find is correct\<close>

text \<open>A forest with its abstraction: \<open>rt\<close> gives every node its root, \<open>d\<close> a depth that falls along
  every edge.\<close>

definition forest :: "nat list \<Rightarrow> (nat \<Rightarrow> nat) \<Rightarrow> (nat \<Rightarrow> nat) \<Rightarrow> bool" where
  "forest p rt d \<longleftrightarrow> (\<forall>x < length p. p ! x < length p \<and> rt (p ! x) = rt x \<and> rt x < length p \<and> p ! rt x = rt x
     \<and> (p ! x = x \<longrightarrow> rt x = x) \<and> (p ! x \<noteq> x \<longrightarrow> d (p ! x) < d x))"

lemma forestD:
  assumes "forest p rt d" and "x < length p"
  shows "p ! x < length p" "rt (p ! x) = rt x" "rt x < length p" "p ! rt x = rt x"
    "p ! x = x \<Longrightarrow> rt x = x" "p ! x \<noteq> x \<Longrightarrow> d (p ! x) < d x"
  using assms by (auto simp: forest_def)

lemma forest_init: "forest [0..<n] (\<lambda>x. x) (\<lambda>_. 0)"
  by (simp add: forest_def)

lemma forest_grand:
  assumes "forest p rt d" and "x < length p" and "p ! x \<noteq> x"
  shows "d (p ! (p ! x)) < d x"
proof -
  have 1: "d (p ! x) < d x" using forestD(6) [OF assms] .
  have px: "p ! x < length p" using forestD(1) [OF assms(1,2)] .
  have "p ! (p ! x) = p ! x \<or> d (p ! (p ! x)) < d (p ! x)" using forestD(6) [OF assms(1) px] by blast
  then show ?thesis using 1 less_trans by metis
qed

lemma forest_halve:
  assumes "forest p rt d" and "x < length p"
  shows "forest (p[x := p ! (p ! x)]) rt d"
proof -
  define q where "q = p[x := p ! (p ! x)]"
  have len: "length q = length p" and q: "q ! y = (if y = x then p ! (p ! x) else p ! y)" for y
    using assms(2) by (auto simp: q_def nth_list_update)
  note x = forestD [OF assms] and px = forestD [OF assms(1) forestD(1) [OF assms]]
  have root: "q ! rt y = rt y" if "y < length p" for y
    using forestD(4) [OF assms(1) that] by (auto simp: q)
  have fix': "rt x = x" if "p ! (p ! x) = x"
    using forest_grand [OF assms] that x(5) by force
  have down: "d (p ! (p ! x)) < d x" if "p ! (p ! x) \<noteq> x"
    using forest_grand [OF assms] that by metis
  have "q ! y < length p \<and> rt (q ! y) = rt y \<and> rt y < length p \<and> q ! rt y = rt y
    \<and> (q ! y = y \<longrightarrow> rt y = y) \<and> (q ! y \<noteq> y \<longrightarrow> d (q ! y) < d y)" if y: "y < length p" for y
  proof (cases "y = x")
    case True
    then show ?thesis using root [OF y] fix' down x(1-3) px(1,2) by (simp add: q)
  next
    case False
    then show ?thesis using root [OF y] forestD [OF assms(1) y] by (simp add: q)
  qed
  then show ?thesis unfolding forest_def q_def [symmetric] len by blast
qed

lemma uf_find_root:
  "forest p rt d \<Longrightarrow> x < length p \<Longrightarrow> \<exists>p'. uf_find p x = Some (rt x, p') \<and> forest p' rt d \<and> length p' = length p"
proof (induction "d x" arbitrary: p x rule: less_induct)
  case less
  note f = forestD [OF less.prems]
  show ?case
  proof (cases "p ! x = x")
    case True
    then show ?thesis using less.prems f(5) by (subst uf_find.simps) simp
  next
    case False
    let ?p = "p[x := p ! (p ! x)]" and ?y = "p ! (p ! x)"
    have px: "p ! x < length p" by (rule f(1))
    note g = forestD [OF less.prems(1) px]
    have "d ?y < d x" by (rule forest_grand [OF less.prems False])
    moreover have "?p ! x = ?y" using less.prems(2) by simp
    ultimately have "\<exists>p'. uf_find ?p ?y = Some (rt ?y, p') \<and> forest p' rt d \<and> length p' = length ?p"
      using less.hyps [of ?y ?p] forest_halve [OF less.prems] g(1) by simp
    moreover have "uf_find p x = uf_find ?p ?y"
      using False px less.prems(2) by (subst uf_find.simps) simp
    ultimately show ?thesis using g(2) f(2) by simp
  qed
qed

lemma uf_union_merges:
  assumes "forest p rt d" and "i < length p" and "j < length p"
  shows "\<exists>p' d'. uf_union i j p = Some p' \<and> length p' = length p
    \<and> forest p' (\<lambda>y. if rt y = rt i then rt j else rt y) d'"
proof -
  obtain p1 where p1: "uf_find p i = Some (rt i, p1)" "forest p1 rt d" "length p1 = length p"
    using uf_find_root [OF assms(1,2)] by blast
  obtain p2 where p2: "uf_find p1 j = Some (rt j, p2)" "forest p2 rt d" "length p2 = length p"
    using uf_find_root [OF p1(2), of j] assms(3) p1(3) by auto
  show ?thesis
  proof (cases "rt i = rt j")
    case True
    then have "(\<lambda>y. if rt y = rt i then rt j else rt y) = rt" by auto
    then show ?thesis using True p1 p2 by (auto simp: uf_union_def)
  next
    case False
    let ?rt = "\<lambda>y. if rt y = rt i then rt j else rt y"
    let ?d = "\<lambda>y. if rt y = rt i then d y + d (rt j) + 1 else d y"
    have ij: "rt i < length p2" "rt j < length p2" "p2 ! rt i = rt i" "p2 ! rt j = rt j"
      using forestD(3,4) [OF p2(2), of i] forestD(3,4) [OF p2(2), of j] assms(2,3) p2(3) by auto
    have rr: "rt (rt i) = rt i" "rt (rt j) = rt j"
      using forestD(5) [OF p2(2) ij(1)] forestD(5) [OF p2(2) ij(2)] ij by auto
    have "forest (p2[rt i := rt j]) ?rt ?d"
      unfolding forest_def
    proof (intro allI impI)
      fix x assume x: "x < length (p2[rt i := rt j])"
      note f = forestD [OF p2(2), of x]
      have "rt x = x" if "x = rt i" using that rr by simp
      then show "p2[rt i := rt j] ! x < length (p2[rt i := rt j]) \<and> ?rt (p2[rt i := rt j] ! x) = ?rt x
        \<and> ?rt x < length (p2[rt i := rt j]) \<and> p2[rt i := rt j] ! ?rt x = ?rt x
        \<and> (p2[rt i := rt j] ! x = x \<longrightarrow> ?rt x = x)
        \<and> (p2[rt i := rt j] ! x \<noteq> x \<longrightarrow> ?d (p2[rt i := rt j] ! x) < ?d x)"
        using x f ij rr False by (cases "x = rt i") (auto simp: nth_list_update)
    qed
    then show ?thesis using False p1 p2 by (auto simp: uf_union_def)
  qed
qed

text \<open>The equivalence the links generate.\<close>

definition linked :: "(nat \<times> nat) list \<Rightarrow> (nat \<times> nat) set" where
  "linked L = (set L \<union> (set L)\<inverse>)\<^sup>*"

lemma linked_sym: "(x, y) \<in> linked L \<Longrightarrow> (y, x) \<in> linked L"
proof -
  have "sym (set L \<union> (set L)\<inverse>)" by (auto simp: sym_def)
  then have "sym (linked L)" unfolding linked_def by (rule sym_rtrancl)
  then show "(x, y) \<in> linked L \<Longrightarrow> (y, x) \<in> linked L" by (rule symD)
qed

lemma linked_trans: "(x, y) \<in> linked L \<Longrightarrow> (y, z) \<in> linked L \<Longrightarrow> (x, z) \<in> linked L"
  unfolding linked_def by (rule rtrancl_trans)

lemma linked_step: "(x, y) \<in> linked (L @ [(i, j)]) \<longleftrightarrow>
    (x, y) \<in> linked L \<or> ((x, i) \<in> linked L \<and> (j, y) \<in> linked L) \<or> ((x, j) \<in> linked L \<and> (i, y) \<in> linked L)"
    (is "_ \<longleftrightarrow> ?R x y")
proof
  assume "(x, y) \<in> linked (L @ [(i, j)])"
  then show "?R x y"
    unfolding linked_def
  proof (induction rule: rtrancl_induct)
    case base
    then show ?case by simp
  next
    case (step y z)
    have refl: "(a, a) \<in> linked L" for a by (simp add: linked_def)
    consider "(y, z) \<in> linked L" | "y = i" "z = j" | "y = j" "z = i"
      using step(2) by (auto simp: linked_def)
    then show ?case
      using step(3) refl linked_sym linked_trans unfolding linked_def [symmetric] by cases blast+
  qed
next
  have sub: "linked L \<subseteq> linked (L @ [(i, j)])" unfolding linked_def by (intro rtrancl_mono) auto
  have e: "(i, j) \<in> linked (L @ [(i, j)])" by (auto simp: linked_def)
  assume "?R x y"
  then show "(x, y) \<in> linked (L @ [(i, j)])"
    using sub e linked_sym [OF e] linked_trans by (blast dest: subsetD)
qed

lemma uf_unions_linked:
  assumes "\<forall>(i, j) \<in> set L'. i < n \<and> j < n"
    and "forest p rt d" and "length p = n" and "\<forall>x < n. \<forall>y < n. rt x = rt y \<longleftrightarrow> (x, y) \<in> linked L"
  shows "\<exists>p' rt' d'. uf_unions L' p = Some p' \<and> forest p' rt' d' \<and> length p' = n
    \<and> (\<forall>x < n. \<forall>y < n. rt' x = rt' y \<longleftrightarrow> (x, y) \<in> linked (L @ L'))"
  using assms
proof (induction L' arbitrary: p rt d L)
  case (Cons e L')
  obtain i j where e: "e = (i, j)" by force
  have ij: "i < n" "j < n" using Cons.prems(1) e by auto
  obtain p1 d1 where p1: "uf_union i j p = Some p1" "length p1 = n"
      "forest p1 (\<lambda>y. if rt y = rt i then rt j else rt y) d1"
    using uf_union_merges [OF Cons.prems(2), of i j] ij Cons.prems(3) by auto
  let ?rt = "\<lambda>y. if rt y = rt i then rt j else rt y"
  have "?rt x = ?rt y \<longleftrightarrow> (x, y) \<in> linked (L @ [(i, j)])" if xy: "x < n" "y < n" for x y
  proof -
    have i: "rt x = rt i \<longleftrightarrow> (x, i) \<in> linked L" "rt x = rt j \<longleftrightarrow> (x, j) \<in> linked L"
        "rt y = rt i \<longleftrightarrow> (i, y) \<in> linked L" "rt y = rt j \<longleftrightarrow> (j, y) \<in> linked L"
        "rt x = rt y \<longleftrightarrow> (x, y) \<in> linked L"
      using Cons.prems(4) xy ij linked_sym by metis+
    show ?thesis unfolding linked_step i [symmetric] by auto
  qed
  then obtain p' rt' d' where "uf_unions L' p1 = Some p' \<and> forest p' rt' d' \<and> length p' = n
      \<and> (\<forall>x < n. \<forall>y < n. rt' x = rt' y \<longleftrightarrow> (x, y) \<in> linked ((L @ [(i, j)]) @ L'))"
    using Cons.IH [of p1 ?rt d1 "L @ [(i, j)]"] Cons.prems(1) p1(2,3) by auto
  then show ?case using p1(1) e by auto
next
  case Nil
  then show ?case by (intro exI [of _ p] exI [of _ rt] exI [of _ d]) simp
qed

lemma uf_roots_spec:
  "forest p rt d \<Longrightarrow> \<forall>i \<in> set is. i < length p \<Longrightarrow> uf_roots is p = Some (map (\<lambda>i. (rt i, i)) is)"
proof (induction "is" arbitrary: p)
  case (Cons i "is")
  obtain p' where "uf_find p i = Some (rt i, p')" "forest p' rt d" "length p' = length p"
    using uf_find_root [OF Cons.prems(1), of i] Cons.prems(2) by auto
  then show ?case using Cons by simp
qed simp

section \<open>Swarms are components\<close>

definition component :: "candidate list \<Rightarrow> nat \<Rightarrow> nat list" where
  "component cs i = filter (\<lambda>j. (i, j) \<in> linked (links cs)) [0..<length cs]"

lemma links_bound: "\<forall>(i, j) \<in> set (links cs). i < length cs \<and> j < length cs"
  by (auto simp: links_def)

lemma values_at_index: "values_at r (map (\<lambda>i. (f i, i)) xs) = filter (\<lambda>i. f i = r) xs"
  by (induction xs) auto

lemma find_swarms_groups:
  obtains rt where
    "find_swarms sha ord cs = Some (map (\<lambda>(_, idxs). build_cluster sha (map ((!) cs) idxs))
       (filter (\<lambda>(_, idxs). 3 \<le> length idxs) (ord (group_pairs (map (\<lambda>i. (rt i, i)) [0..<length cs])))))"
    and "\<And>i. i < length cs \<Longrightarrow> filter (\<lambda>j. rt j = rt i) [0..<length cs] = component cs i"
proof -
  let ?n = "length cs"
  have "\<forall>x < ?n. \<forall>y < ?n. x = y \<longleftrightarrow> (x, y) \<in> linked []" by (simp add: linked_def)
  then obtain p rt d where p: "uf_unions (links cs) [0..<?n] = Some p" "forest p rt d" "length p = ?n"
      and l: "\<forall>x < ?n. \<forall>y < ?n. rt x = rt y \<longleftrightarrow> (x, y) \<in> linked (links cs)"
    using uf_unions_linked [OF links_bound forest_init, of ?n cs "[]"] by auto
  have r: "uf_roots [0..<?n] p = Some (map (\<lambda>i. (rt i, i)) [0..<?n])"
    using uf_roots_spec [OF p(2)] p(3) by simp
  have "filter (\<lambda>j. rt j = rt i) [0..<?n] = component cs i" if "i < ?n" for i
    unfolding component_def using l that by (intro filter_cong) (auto dest: linked_sym)
  moreover have "find_swarms sha ord cs = Some (map (\<lambda>(_, idxs). build_cluster sha (map ((!) cs) idxs))
       (filter (\<lambda>(_, idxs). 3 \<le> length idxs) (ord (group_pairs (map (\<lambda>i. (rt i, i)) [0..<?n])))))"
    using p(1) r by (simp add: find_swarms_def MIN_MEMBERS_def)
  ultimately show thesis using that by blast
qed

text \<open>
  C33. Union-find finds exactly the swarms: for every roster and every iteration order of the hash
  map the search returns, and it returns one cluster for each connected component of the
  same-operator relation with at least three members, holding that component's addresses in order,
  and nothing else.
\<close>

theorem swarms_are_components:
  assumes "\<forall>m. mset (ord m) = mset m"
  shows "\<exists>out. find_swarms sha ord cs = Some out
    \<and> set (map cl_members out) = (\<lambda>i. sort (map (\<lambda>j. cd_address (cs ! j)) (component cs i)))
        ` {i. i < length cs \<and> 3 \<le> length (component cs i)}
    \<and> length out = card (component cs ` {i. i < length cs \<and> 3 \<le> length (component cs i)})"
proof -
  let ?n = "length cs" and ?C = "{i. i < length cs \<and> 3 \<le> length (component cs i)}"
  obtain rt where f: "find_swarms sha ord cs = Some (map (\<lambda>(_, idxs). build_cluster sha (map ((!) cs) idxs))
       (filter (\<lambda>(_, idxs). 3 \<le> length idxs) (ord (group_pairs (map (\<lambda>i. (rt i, i)) [0..<?n])))))"
      and c: "\<And>i. i < ?n \<Longrightarrow> filter (\<lambda>j. rt j = rt i) [0..<?n] = component cs i"
    using find_swarms_groups by blast
  define g where "g = group_pairs (map (\<lambda>i. (rt i, i)) [0..<?n])"
  let ?big = "filter (\<lambda>(_, idxs). 3 \<le> length idxs)"
  have g: "(r, vs) \<in> set g \<longleftrightarrow> (\<exists>i < ?n. r = rt i \<and> vs = component cs i)" for r vs
    unfolding g_def group_entry values_at_index using c by (auto simp: image_iff)
  have s: "set (?big (ord g)) = (\<lambda>i. (rt i, component cs i)) ` ?C"
    using assms by (auto simp: g mset_eq_setD [of "ord g" g])
  have "distinct (map fst g)" using twf_group unfolding twf_def g_def by blast
  then have "distinct g" by (simp add: distinct_map)
  then have "distinct (ord g)" using assms by (metis mset_eq_imp_distinct_iff)
  then have "length (?big (ord g)) = card ((\<lambda>i. (rt i, component cs i)) ` ?C)"
    using s distinct_card [of "?big (ord g)"] by simp
  also have "\<dots> = card (snd ` (\<lambda>i. (rt i, component cs i)) ` ?C)"
  proof (rule card_image [symmetric], rule inj_onI, clarsimp)
    fix i j assume "i < ?n" "j < ?n" "3 \<le> length (component cs j)" "component cs i = component cs j"
    then have "filter (\<lambda>k. rt k = rt i) [0..<?n] = filter (\<lambda>k. rt k = rt j) [0..<?n]" "i < ?n" using c by simp_all
    moreover have "i < ?n \<Longrightarrow> i \<in> set (filter (\<lambda>k. rt k = rt i) [0..<?n])" by simp
    ultimately have "i \<in> set (filter (\<lambda>k. rt k = rt j) [0..<?n])" by (simp only:)
    then show "rt i = rt j" by simp
  qed
  also have "snd ` (\<lambda>i. (rt i, component cs i)) ` ?C = component cs ` ?C" by (simp add: image_image)
  finally have len: "length (?big (ord g)) = card (component cs ` ?C)" .
  have "set (map cl_members (map (\<lambda>(_, idxs). build_cluster sha (map ((!) cs) idxs)) (?big (ord g))))
      = (\<lambda>(_, idxs). sort (map (\<lambda>j. cd_address (cs ! j)) idxs)) ` set (?big (ord g))"
    by (force simp: build_cluster_def Let_def image_iff comp_def split: prod.splits)
  also have "\<dots> = (\<lambda>i. sort (map (\<lambda>j. cd_address (cs ! j)) (component cs i))) ` ?C"
    unfolding s by (simp add: image_image)
  finally show ?thesis using f len
    by (intro exI [of _ "map (\<lambda>(_, idxs). build_cluster sha (map ((!) cs) idxs)) (?big (ord g))"])
       (simp only: g_def length_map)
qed

definition whale :: "str \<Rightarrow> candidate" where
  "whale a = \<lparr>cd_address = a, cd_created_at = 0, cd_stake = F 60000000, cd_allocations = {}\<rparr>"

definition three_whales :: "candidate list" where
  "three_whales = [whale ''0xb'', whale ''0xa'', whale ''0xc'']"

lemma same_operator_whales: "same_operator (whale a) (whale b)"
  by (simp add: same_operator_def close_time_def both_whales_def whale_def i64w_def CREATED_WINDOW_SECS_def
      HIGH_STAKE_GRT_def)

lemma links_whales: "links three_whales = [(0, 1), (0, 2), (1, 2)]"
  by (simp add: links_def three_whales_def upt_rec same_operator_whales numeral_2_eq_2 [symmetric])

lemma component_whales: "i < 3 \<Longrightarrow> component three_whales i = [0, 1, 2]"
proof -
  assume i: "i < 3"
  have s: "(0, j) \<in> linked (links three_whales)" if "j \<in> {0, 1, 2}" for j
    using that unfolding links_whales by (auto simp: linked_def)
  have "(i, j) \<in> linked (links three_whales)" if "j \<in> {0, 1, 2}" for j
  proof -
    have "i \<in> {0, 1, 2}" using i by auto
    from linked_trans [OF linked_sym [OF s [OF this]] s [OF that]] show ?thesis .
  qed
  then show ?thesis by (simp add: component_def three_whales_def upt_rec)
qed

theorem swarms_are_components_witness:
  "\<exists>out. find_swarms (\<lambda>s. s) rev three_whales = Some out \<and> length out = 1
     \<and> map cl_members out = [[''0xa'', ''0xb'', ''0xc'']]"
proof -
  have m: "\<forall>m. mset (rev m) = mset m" by simp
  have "{i. i < length three_whales \<and> 3 \<le> length (component three_whales i)} = {0, 1, 2}"
    using component_whales by (auto simp: three_whales_def)
  moreover have "component three_whales ` {0, 1, 2} = {[0, 1, 2]}"
    using component_whales [of 0] component_whales [of 1] component_whales [of 2] by auto
  moreover have "(\<lambda>i. sort (map (\<lambda>j. cd_address (three_whales ! j)) (component three_whales i))) ` {0, 1, 2}
      = {[''0xa'', ''0xb'', ''0xc'']}"
    using component_whales [of 0] component_whales [of 1] component_whales [of 2]
    by (simp add: three_whales_def whale_def less_eq_char_def)
  ultimately obtain out where o: "find_swarms (\<lambda>s. s) rev three_whales = Some out"
      "set (map cl_members out) = {[''0xa'', ''0xb'', ''0xc'']}" "length out = 1"
    using swarms_are_components [OF m, of "\<lambda>s. s" three_whales] by auto
  then obtain c where "out = [c]" by (cases out) auto
  then show ?thesis using o by simp
qed


section \<open>Confidence\<close>

lemma fadd_up:
  assumes "f64_ok a" and "\<not> is_nan a" and "fin_in 0 1 b"
  shows "fle a (fadd a b) \<and> f64_ok (fadd a b) \<and> \<not> is_nan (fadd a b)"
proof (cases a)
  case (Fin x)
  obtain y where y: "b = Fin y" "0 \<le> y" using assms(3) by (cases b) auto
  have "fle (F x) (F (x + y))" by (rule F_mono) (use y in simp)
  moreover have "F x = Fin x" using assms(1) Fin by (auto simp: F_def Let_def)
  ultimately show ?thesis using Fin y by simp
qed (use assms in \<open>cases b; auto\<close>)+

lemma F_fraction: "0 \<le> x \<Longrightarrow> x \<le> 1 \<Longrightarrow> fin_in 0 1 (F x)"
  by (rule F_in) simp_all

lemma bonus_in: "fin_in 0 1 (spread_bonus d)" "fin_in 0 1 (stake_bonus r)" "fin_in 0 1 (whale_bonus w)"
  by (auto simp: spread_bonus_def stake_bonus_def whale_bonus_def F_fraction)

text \<open>
  Crowding alone makes a public swarm: whenever the members' allocations overlap by the crowding
  threshold, the cluster's confidence reaches the one a verdict and a grade penalty need, however far
  apart the identities were created and however different their stakes are.
\<close>

theorem crowding_alone_is_public:
  assumes "fle CROWD_OVERLAP (mean_overlap ms)"
  shows "fle SYBIL_VERDICT_CONFIDENCE (cl_confidence (build_cluster sha ms))"
proof -
  let ?a = "fadd (F (4 / 10)) (spread_bonus (spread_days ms))"
  let ?b = "fadd ?a (stake_bonus (stake_rel ms))" and ?c = "whale_bonus (stake_min ms)"
  have v: "F (2 / 10) = Fin (3602879701896397 / 18014398509481984)" by code_simp
  have base: "fle SYBIL_VERDICT_CONFIDENCE (fadd (F (4 / 10)) (F (2 / 10)))"
    unfolding SYBIL_VERDICT_CONFIDENCE_def by code_simp
  have a: "fle (F (4 / 10)) ?a" "f64_ok ?a" "\<not> is_nan ?a"
    using fadd_up [of "F (4 / 10)", OF _ _ bonus_in(1)] by simp_all
  have b: "fle ?a ?b" "f64_ok ?b" "\<not> is_nan ?b" using fadd_up [OF a(2,3) bonus_in(2)] by simp_all
  have "fle ?b (fadd ?b ?c)" using fadd_up [OF b(2,3) bonus_in(3)] by simp
  then have "fle (F (4 / 10)) (fadd ?b ?c)" using a(1) b(1) fle_trans by blast
  then have "fle (fadd (F (4 / 10)) (F (2 / 10))) (fadd (fadd ?b ?c) (F (2 / 10)))"
    unfolding v by (rule fadd_mono) simp
  then have "fle SYBIL_VERDICT_CONFIDENCE (fadd (fadd ?b ?c) (F (2 / 10)))" using base fle_trans by blast
  moreover have "fle SYBIL_VERDICT_CONFIDENCE (F 1)" unfolding SYBIL_VERDICT_CONFIDENCE_def by code_simp
  ultimately have "fle SYBIL_VERDICT_CONFIDENCE (fmin (fadd (fadd ?b ?c) (F (2 / 10))) (F 1))"
    by (simp add: fmin_def)
  then show ?thesis using assms by (simp add: build_cluster_def cluster_confidence_def overlap_bonus_def Let_def)
qed

definition crowder :: "str \<Rightarrow> int \<Rightarrow> rat \<Rightarrow> candidate" where
  "crowder a created stake = \<lparr>cd_address = a, cd_created_at = created, cd_stake = F stake,
     cd_allocations = {''d1'', ''d2'', ''d3'', ''d4'', ''d5''}\<rparr>"

definition three_crowders :: "candidate list" where
  "three_crowders = [crowder ''0xa'' 0 1000000, crowder ''0xb'' 50000000 5000000, crowder ''0xc'' 90000000 25000000]"

lemma crowders_overlap: "mean_overlap three_crowders = F 1"
proof -
  have "overlap_coefficient (cd_allocations (crowder a m x)) (cd_allocations (crowder b n y)) = F 1" for a b m n x y
    by (simp add: overlap_coefficient_def crowder_def f_of_int_def)
  then show ?thesis by (simp add: mean_overlap_def three_crowders_def upt_rec fsum_def f_of_int_def)
qed

theorem crowding_alone_is_public_witness:
  "fle SYBIL_VERDICT_CONFIDENCE (cl_confidence (build_cluster (\<lambda>s. s) three_crowders))
   \<and> \<not> close_time (three_crowders ! 0) (three_crowders ! 1) \<and> \<not> similar_stake (three_crowders ! 0) (three_crowders ! 1)"
proof -
  have "fle CROWD_OVERLAP (F 1)" unfolding CROWD_OVERLAP_def by code_simp
  then have "fle SYBIL_VERDICT_CONFIDENCE (cl_confidence (build_cluster (\<lambda>s. s) three_crowders))"
    by (intro crowding_alone_is_public) (simp add: crowders_overlap)
  moreover have "\<not> close_time (three_crowders ! 0) (three_crowders ! 1)"
    by (simp add: three_crowders_def crowder_def close_time_def i64w_def CREATED_WINDOW_SECS_def)
  moreover have "\<not> similar_stake (three_crowders ! 0) (three_crowders ! 1)"
  proof -
    have "\<not> fle (fdiv (fabs (fsub (F 1000000) (F 5000000))) (fmax (F 1000000) (F 5000000))) STAKE_REL_TOL"
      unfolding STAKE_REL_TOL_def by code_simp
    then show ?thesis by (simp only: three_crowders_def crowder_def similar_stake_def nth_Cons_0 nth_Cons_Suc One_nat_def candidate.simps not_False_eq_True)
  qed
  ultimately show ?thesis by simp
qed

end
