(* ===== verification/Scorer.thy ===== *)
theory Scorer
  imports Sybil Qos
begin

text \<open>
  A scoring cycle, \<open>foghorn-probe/src/scorer.rs\<close>: load what the other loops stored, judge every
  indexer over every window, upsert scores, and for the longest window verdicts and attention items;
  add the per-deployment issues of the feed; delete what the cycle did not emit again. Statements run
  at one database time \<open>now\<close>; the iteration order of a hash set of addresses is \<open>ord\<close>.
\<close>

section \<open>Tables\<close>

record verdict_row =
  vr_severity :: str
  vr_title :: str
  vr_evidence :: json
  vr_window_days :: "int option"
  vr_first_seen :: int
  vr_last_seen :: int
  vr_status :: str

record attention_row =
  ar_severity :: str
  ar_urgency :: f64
  ar_title :: str
  ar_detail :: json
  ar_first_seen :: int
  ar_last_seen :: int

record scorer_db =
  sd_qos :: qos_db
  sd_profiles :: profile_table
  sd_sybil :: "(str, sybil_row) table"
  sd_scores :: "(str \<times> int, indexer_score \<times> int) table"
  sd_verdicts :: "(str \<times> str, verdict_row) table"
  sd_attention :: "(str \<times> str \<times> str, attention_row) table"

definition upsert_score :: "int \<Rightarrow> indexer_score \<Rightarrow> scorer_db \<Rightarrow> scorer_db" where
  "upsert_score now sc s = s\<lparr>sd_scores := tput (sc_indexer_address sc, sc_window_days sc) (sc, now) (sd_scores s)\<rparr>"

definition upsert_verdict :: "int \<Rightarrow> verdict \<Rightarrow> scorer_db \<Rightarrow> scorer_db" where
  "upsert_verdict now v s =
     (let k = (vd_indexer_address v, vd_kind v) in
      s\<lparr>sd_verdicts := tput k \<lparr>vr_severity = severity_as_str (vd_severity v), vr_title = vd_title v,
          vr_evidence = vd_evidence v, vr_window_days = vd_window_days v,
          vr_first_seen = (case map_of (sd_verdicts s) k of Some r \<Rightarrow> vr_first_seen r | None \<Rightarrow> now),
          vr_last_seen = now, vr_status = ''open''\<rparr> (sd_verdicts s)\<rparr>)"

definition upsert_attention :: "int \<Rightarrow> attention_item \<Rightarrow> scorer_db \<Rightarrow> scorer_db" where
  "upsert_attention now a s =
     (let k = (at_indexer_address a, at_kind a, at_deployment_id a) in
      s\<lparr>sd_attention := tput k \<lparr>ar_severity = severity_as_str (at_severity a), ar_urgency = at_urgency a,
          ar_title = at_title a, ar_detail = at_detail a,
          ar_first_seen = (case map_of (sd_attention s) k of Some r \<Rightarrow> ar_first_seen r | None \<Rightarrow> now),
          ar_last_seen = now\<rparr> (sd_attention s)\<rparr>)"

section \<open>Loaders\<close>

record profile =
  pl_ens_name :: "str option"
  pl_self_stake_grt :: "f64 option"
  pl_allocation_count :: "int option"
  pl_qos_success_rate :: "f64 option"
  pl_qos_blocks_behind :: "f64 option"
  pl_qos_query_count :: "int option"
  pl_reo_status :: "str option"

definition profile_default :: profile where
  "profile_default = \<lparr>pl_ens_name = None, pl_self_stake_grt = None, pl_allocation_count = None,
     pl_qos_success_rate = None, pl_qos_blocks_behind = None, pl_qos_query_count = None, pl_reo_status = None\<rparr>"

definition profile_of :: "profile_row \<Rightarrow> profile" where
  "profile_of r = \<lparr>pl_ens_name = pf_ens_name r, pl_self_stake_grt = pf_self_stake_grt r,
     pl_allocation_count = pf_allocation_count r, pl_qos_success_rate = pf_qos_success_rate r,
     pl_qos_blocks_behind = pf_qos_blocks_behind r, pl_qos_query_count = pf_qos_query_count r,
     pl_reo_status = pf_reo_status r\<rparr>"

definition load_profiles :: "scorer_db \<Rightarrow> (str, profile) table" where
  "load_profiles s = foldl (\<lambda>m (a, r). tput (to_lower a) (profile_of r) m) [] (sd_profiles s)"

definition max_window :: "scoring_config \<Rightarrow> int" where
  "max_window cfg = (if windows cfg = [] then 30 else Max (set (windows cfg)))"

definition days :: "int \<Rightarrow> int" where
  "days n = n * 86400000000"

text \<open>Probes and successes per indexer and deployment over the longest window of the feed.\<close>

definition per_dep :: "int \<Rightarrow> (bucket_key, fq_row) table \<Rightarrow> ((str \<times> str) \<times> int \<times> int) list" where
  "per_dep since t = map (\<lambda>(k, rows). (k, sum_list (map fst rows), sum_list (map snd rows)))
     (group_pairs (List.map_filter (\<lambda>((ix, dp, b, _), row).
        if since \<le> b then Some ((to_lower ix, dp), (fq_query_count row, fq_num_200 row)) else None) t))"

definition erroring :: "scoring_config \<Rightarrow> int \<times> int \<Rightarrow> bool" where
  "erroring cfg c \<longleftrightarrow> serving_min_probes cfg \<le> fst c \<and> flt (fdiv (f_of_int (snd c)) (f_of_int (fst c))) (F (5 / 10))"

definition load_alloc_health :: "scoring_config \<Rightarrow> int \<Rightarrow> scorer_db \<Rightarrow> (str, int \<times> int) table" where
  "load_alloc_health cfg now s =
     map (\<lambda>(a, cs). (a, int (length (filter (\<lambda>c. serving_min_probes cfg \<le> fst c) cs)),
                        int (length (filter (erroring cfg) cs))))
       (group_pairs (map (\<lambda>((a, dp), c). (a, c)) (per_dep (now - days (max_window cfg)) (foghorn_qos (sd_qos s)))))"

definition load_measured_lag :: "int \<Rightarrow> scorer_db \<Rightarrow> (str, f64) table" where
  "load_measured_lag now s = List.map_filter (\<lambda>(a, ls). map_option (\<lambda>l. (a, l)) (f_avg ls))
     (group_pairs (List.map_filter (\<lambda>((ix, dp, b, _), row).
        if now - days 1 \<le> b then map_option (\<lambda>l. (ix, l)) (fq_avg_behind row) else None) (foghorn_qos (sd_qos s))))"

section \<open>Inputs\<close>

record score_tables =
  st_agg :: "(str, probe_agg) table"
  st_recent :: "(str, probe_agg) table"
  st_profiles :: "(str, profile) table"
  st_health :: "(str, int \<times> int) table"
  st_sybil :: "(str, str \<times> f64) table"
  st_lag :: "(str, f64) table"

definition agg_default :: probe_agg where
  "agg_default = \<lparr>ag_probes_answered = 0, ag_faults = 0, ag_errors = 0, ag_total = 0\<rparr>"

definition assemble :: "score_tables \<Rightarrow> str \<Rightarrow> int \<Rightarrow> score_inputs" where
  "assemble t addr window =
     (let a = opt_or (map_of (st_agg t) addr) agg_default;
          r = opt_or (map_of (st_recent t) addr) agg_default;
          p = opt_or (map_of (st_profiles t) addr) profile_default;
          h = opt_or (map_of (st_health t) addr) (0, 0) in
      \<lparr>si_indexer_address = addr, si_window_days = window,
       probes_answered = ag_probes_answered a, correctness_faults = ag_faults a,
       error_observations = ag_errors a, total_observations = ag_total a,
       recent_observations = ag_total r, recent_errors = ag_errors r, recent_faults = ag_faults r,
       self_stake_grt = pl_self_stake_grt p, allocation_count = pl_allocation_count p,
       qos_success_rate = pl_qos_success_rate p, qos_blocks_behind = pl_qos_blocks_behind p,
       measured_blocks_behind = map_of (st_lag t) addr, qos_query_count = pl_qos_query_count p,
       reo_status = pl_reo_status p, ens_name = pl_ens_name p,
       qos_deployments_measured = fst h, qos_deployments_erroring = snd h,
       sybil_cluster_id = map_option fst (map_of (st_sybil t) addr),
       sybil_confidence = map_option snd (map_of (st_sybil t) addr)\<rparr>)"

section \<open>Issues on single deployments\<close>

definition ROLLUP_THRESHOLD :: nat where "ROLLUP_THRESHOLD = 5"
definition PER_DEPLOYMENT_LAG_MARGIN :: f64 where "PER_DEPLOYMENT_LAG_MARGIN = F 50000"

text \<open>The deployments that serve errors, per indexer, the most probed first.\<close>

definition serving_errors :: "scoring_config \<Rightarrow> int \<Rightarrow> scorer_db \<Rightarrow> (str \<times> (str \<times> f64 \<times> int) list) list" where
  "serving_errors cfg now s =
     map (\<lambda>(a, ds). (a, sort_key (\<lambda>(_, _, n). - n) ds))
       (group_pairs (map (\<lambda>((a, dp), n, ok). (a, (dp, fdiv (f_of_int ok) (f_of_int n), n)))
         (filter (erroring cfg \<circ> snd) (per_dep (now - days (max_window cfg)) (foghorn_qos (sd_qos s))))))"

definition serving_items :: "str \<times> (str \<times> f64 \<times> int) list \<Rightarrow> attention_item list" where
  "serving_items r = (case r of (ix, deps) \<Rightarrow>
     if ROLLUP_THRESHOLD \<le> length deps then
       [\<lparr>at_indexer_address = ix, at_kind = ''serving-errors'', at_deployment_id = '''', at_severity = Critical,
         at_urgency = fadd (F 100) (fmin (f_of_int (int (length deps))) (F 50)),
         at_title = ''Serving errors across '' @ show_nat (length deps) @ '' deployments (indexer-wide)'',
         at_detail = JObj [(''deployment_count'', jint (int (length deps))),
           (''total_probes'', jint (sum_list (map (\<lambda>(_, _, n). n) deps))),
           (''deployments'', JArr (map (\<lambda>(d, _, _). JStr d) deps))]\<rparr>]
     else map (\<lambda>(dep, sr, n). \<lparr>at_indexer_address = ix, at_kind = ''serving-errors-deployment'',
         at_deployment_id = dep, at_severity = Critical,
         at_urgency = fadd (F 95) (fmul (fsub (F 1) sr) (F 5)),
         at_title = ''Serving errors on a deployment ('' @ fmt_f 0 (fmul sr (F 100)) @ ''% success over ''
           @ show_int n @ '' probes)'',
         at_detail = JObj [(''success_rate'', jf sr), (''probe_count'', jint n)]\<rparr>) deps)"

text \<open>The mean lag per indexer and deployment, and per deployment the smallest one with its number of
  peers. PostgreSQL orders a NaN above every number.\<close>

definition sql_gt :: "f64 \<Rightarrow> f64 \<Rightarrow> bool" where
  "sql_gt x y \<longleftrightarrow> \<not> is_nan y \<and> (is_nan x \<or> flt y x)"

definition recent_lags :: "int \<Rightarrow> (bucket_key, fq_row) table \<Rightarrow> ((str \<times> str) \<times> f64 \<times> int) list" where
  "recent_lags since t = List.map_filter (\<lambda>(k, rows). map_option (\<lambda>m. (k, m, sum_list (map snd rows))) (f_avg (map fst rows)))
     (group_pairs (List.map_filter (\<lambda>((ix, dp, b, _), row).
        if since \<le> b then map_option (\<lambda>l. ((to_lower ix, dp), (l, fq_query_count row))) (fq_avg_behind row) else None) t))"

definition peers_of :: "scoring_config \<Rightarrow> ((str \<times> str) \<times> f64 \<times> int) list \<Rightarrow> str \<Rightarrow> f64 list" where
  "peers_of cfg lags dep = List.map_filter (\<lambda>((_, dp), m, n).
     if dp = dep \<and> serving_min_probes cfg \<le> n then Some m else None) lags"

definition lag_floor :: "f64 list \<Rightarrow> f64" where
  "lag_floor ms = foldl fmin (hd ms) (tl ms)"

definition behind_peers :: "scoring_config \<Rightarrow> int \<Rightarrow> scorer_db \<Rightarrow> (str \<times> (str \<times> f64 \<times> f64) list) list" where
  "behind_peers cfg now s =
     (let lags = recent_lags (now - days (max_window cfg)) (foghorn_qos (sd_qos s)) in
      group_pairs (List.map_filter (\<lambda>((a, dp), m, n).
        let peers = peers_of cfg lags dp; lo = lag_floor peers in
        if 3 \<le> length peers \<and> serving_min_probes cfg \<le> n \<and> sql_gt m (fadd lo PER_DEPLOYMENT_LAG_MARGIN)
           \<and> sql_gt m PER_DEPLOYMENT_LAG_MARGIN then Some (a, (dp, m, lo)) else None) lags))"

text \<open>By lag, the largest first; a NaN before all.\<close>

definition lag_first :: "(str \<times> f64 \<times> f64) list \<Rightarrow> (str \<times> f64 \<times> f64) list" where
  "lag_first ds = foldr (\<lambda>x ys. takeWhile (\<lambda>y. sql_gt (fst (snd y)) (fst (snd x))) ys @ x
      # dropWhile (\<lambda>y. sql_gt (fst (snd y)) (fst (snd x))) ys) ds []"

definition behind_items :: "str \<times> (str \<times> f64 \<times> f64) list \<Rightarrow> attention_item list" where
  "behind_items r = (case r of (ix, deps) \<Rightarrow>
     if ROLLUP_THRESHOLD \<le> length deps then
       (let worst = foldl fmax (F 0) (map (\<lambda>(_, b, _). b) deps) in
       [\<lparr>at_indexer_address = ix, at_kind = ''behind-deployments'', at_deployment_id = '''', at_severity = High,
         at_urgency = fadd (F 65) (fmin (f_of_int (int (length deps))) (F 30)),
         at_title = ''Behind on '' @ show_nat (length deps) @ '' deployments (worst ~'' @ fmt_f 0 worst @ '' blocks)'',
         at_detail = JObj [(''deployment_count'', jint (int (length deps))), (''worst_blocks_behind'', jf worst),
           (''deployments'', JArr (map (\<lambda>(d, _, _). JStr d) deps))]\<rparr>])
     else map (\<lambda>(dep, bb, lo). \<lparr>at_indexer_address = ix, at_kind = ''behind-deployment'',
         at_deployment_id = dep, at_severity = High,
         at_urgency = fadd (F 60) (fmin (fdiv bb (F 100000)) (F 35)),
         at_title = ''Behind on a deployment (~'' @ fmt_f 0 bb @ '' blocks; freshest serving peer at '' @ fmt_f 0 lo @ '')'',
         at_detail = JObj [(''blocks_behind'', jf bb), (''peer_floor'', jf lo)]\<rparr>) deps)"

definition allocation_issues :: "scoring_config \<Rightarrow> int \<Rightarrow> scorer_db \<Rightarrow> attention_item list" where
  "allocation_issues cfg now s = concat (map serving_items (serving_errors cfg now s))
     @ concat (map (\<lambda>(ix, ds). behind_items (ix, lag_first ds)) (behind_peers cfg now s))"

definition detect_allocation_issues :: "scoring_config \<Rightarrow> int \<Rightarrow> scorer_db \<Rightarrow> nat \<times> scorer_db" where
  "detect_allocation_issues cfg now s =
     (length (allocation_issues cfg now s), fold (upsert_attention now) (allocation_issues cfg now s) s)"

section \<open>The cycle\<close>

definition score_windows :: "scoring_config \<Rightarrow> int list" where
  "score_windows cfg = sort (if windows cfg = [] then [30] else windows cfg)"

definition score_one :: "scoring_config \<Rightarrow> int \<Rightarrow> score_tables \<Rightarrow> int \<Rightarrow> str \<Rightarrow> scorer_db \<Rightarrow> scorer_db" where
  "score_one cfg now t window addr s =
     (let outcome = judge (assemble t addr window) cfg;
          s1 = upsert_score now (oc_score outcome) s in
      if window = Max (set (score_windows cfg))
      then fold (upsert_attention now) (oc_attention outcome) (fold (upsert_verdict now) (oc_verdicts outcome) s1)
      else s1)"

definition score_keys :: "(str list \<Rightarrow> str list) \<Rightarrow> score_tables \<Rightarrow> str list" where
  "score_keys ord t = ord (remdups (map fst (st_profiles t) @ map fst (st_agg t)))"

definition load_tables :: "scoring_config \<Rightarrow> int \<Rightarrow> (str, str \<times> f64) table \<Rightarrow> int \<Rightarrow> scorer_db \<Rightarrow> score_tables" where
  "load_tables cfg now sybils window s =
     \<lparr>st_agg = load_probe_agg (qd_judge (sd_qos s)) (now - days window),
      st_recent = load_probe_agg (qd_judge (sd_qos s)) (now - 6 * 3600000000),
      st_profiles = load_profiles s, st_health = load_alloc_health cfg now s, st_sybil = sybils,
      st_lag = load_measured_lag now s\<rparr>"

definition score_window :: "(str list \<Rightarrow> str list) \<Rightarrow> scoring_config \<Rightarrow> int \<Rightarrow> (str, str \<times> f64) table \<Rightarrow>
    int \<Rightarrow> scorer_db \<Rightarrow> scorer_db" where
  "score_window ord cfg now sybils window s =
     (let t = load_tables cfg now sybils window s in fold (score_one cfg now t window) (score_keys ord t) s)"

text \<open>What a cycle starts with: the swarms, none when their detection failed, and the flags. Nothing
  it loads is written until the issues are detected.\<close>

definition cycle_start :: "(str \<Rightarrow> str) \<Rightarrow> ((nat \<times> nat list) list \<Rightarrow> (nat \<times> nat list) list) \<Rightarrow>
    (str list \<Rightarrow> str \<Rightarrow> json option) option \<Rightarrow> (json \<Rightarrow> str) \<Rightarrow> int \<Rightarrow> scorer_db \<Rightarrow>
    (str, str \<times> f64) table \<times> scorer_db" where
  "cycle_start sha sord fetch prn now s =
     (let (sybils, s1) = (case detect_and_store sha sord fetch now (sd_profiles s) (sd_sybil s) of
              Some (m, t) \<Rightarrow> (m, s\<lparr>sd_sybil := t\<rparr>) | None \<Rightarrow> ([], s))
      in (sybils, s1\<lparr>sd_qos := flag_nondeterministic prn (now - days 7) now (sd_qos s1)\<rparr>))"

definition run_score_once :: "(str \<Rightarrow> str) \<Rightarrow> ((nat \<times> nat list) list \<Rightarrow> (nat \<times> nat list) list) \<Rightarrow>
    (str list \<Rightarrow> str \<Rightarrow> json option) option \<Rightarrow> (json \<Rightarrow> str) \<Rightarrow> (str list \<Rightarrow> str list) \<Rightarrow> scoring_config \<Rightarrow>
    int \<Rightarrow> int \<Rightarrow> scorer_db \<Rightarrow> nat \<times> scorer_db" where
  "run_score_once sha sord fetch prn ord cfg run_start now s =
     (let (sybils, s1) = cycle_start sha sord fetch prn now s;
          s2 = fold (score_window ord cfg now sybils) (score_windows cfg) s1;
          (_, s3) = detect_allocation_issues cfg now s2;
          scored = sum_list (map (\<lambda>w. length (score_keys ord (load_tables cfg now sybils w s1))) (score_windows cfg))
      in (scored, s3\<lparr>sd_verdicts := tdel (\<lambda>_ r. vr_last_seen r < run_start) (sd_verdicts s3),
                     sd_attention := tdel (\<lambda>_ r. ar_last_seen r < run_start) (sd_attention s3)\<rparr>))"

end
