(* ===== verification/Scorer_Props.thy ===== *)
theory Scorer_Props
  imports Scorer
begin

text \<open>
  What a scoring cycle leaves: exactly the verdicts and items whose conditions hold now, each with the
  time it was first seen kept; and the per-deployment items and the grade's penalty agree on what
  serving errors are.
\<close>

section \<open>Tables that remember when a row was first seen\<close>

text \<open>What the upserts of one cycle do to a table: the touched keys have a row of this cycle whose first
  sighting is kept, the others are as they were.\<close>

definition seen_row :: "('r \<Rightarrow> int) \<Rightarrow> ('r \<Rightarrow> int) \<Rightarrow> int \<Rightarrow> 'r option \<Rightarrow> 'r option \<Rightarrow> bool" where
  "seen_row fst_seen lst_seen now old new \<longleftrightarrow> (\<exists>r. new = Some r \<and> lst_seen r = now
     \<and> fst_seen r = (case old of Some r0 \<Rightarrow> fst_seen r0 | None \<Rightarrow> now))"

definition touched :: "('r \<Rightarrow> int) \<Rightarrow> ('r \<Rightarrow> int) \<Rightarrow> int \<Rightarrow> 'k set \<Rightarrow> ('k, 'r) table \<Rightarrow> ('k, 'r) table \<Rightarrow> bool" where
  "touched fst_seen lst_seen now T t t' \<longleftrightarrow> (twf t \<longrightarrow> twf t') \<and> (\<forall>k. if k \<in> T
     then seen_row fst_seen lst_seen now (map_of t k) (map_of t' k) else map_of t' k = map_of t k)"

lemma touchedD:
  assumes "touched f l now T t t'"
  shows "twf t \<Longrightarrow> twf t'" and "k \<in> T \<Longrightarrow> seen_row f l now (map_of t k) (map_of t' k)"
    and "k \<notin> T \<Longrightarrow> map_of t' k = map_of t k"
  using assms unfolding touched_def by meson+

lemma seen_row_trans: "seen_row f l now a b \<Longrightarrow> seen_row f l now b c \<Longrightarrow> seen_row f l now a c"
  by (auto simp: seen_row_def)

lemma touched_refl: "touched f l now {} t t"
  by (simp add: touched_def)

lemma touched_trans:
  assumes ab: "touched f l now T a b" and bc: "touched f l now U b c"
  shows "touched f l now (T \<union> U) a c"
proof -
  have "if k \<in> T \<union> U then seen_row f l now (map_of a k) (map_of c k) else map_of c k = map_of a k" for k
    using touchedD(2,3) [OF ab, of k] touchedD(2,3) [OF bc, of k] seen_row_trans [of f l now "map_of a k" "map_of b k" "map_of c k"]
    by (cases "k \<in> T"; cases "k \<in> U") simp_all
  then show ?thesis using touchedD(1) [OF ab] touchedD(1) [OF bc] by (simp add: touched_def)
qed

lemma touched_prune:
  assumes t: "touched f l now T t t'" and "twf t" and "\<forall>k r. map_of t k = Some r \<longrightarrow> l r < start" and "start \<le> now"
  shows "map_of (tdel (\<lambda>_ r. l r < start) t') k = (if k \<in> T then map_of t' k else None)"
proof (cases "k \<in> T")
  case True
  then obtain r where "map_of t' k = Some r" "l r = now"
    using touchedD(2) [OF t] by (auto simp: seen_row_def)
  then show ?thesis using True assms(4) touchedD(1) [OF t assms(2)] by (simp add: map_of_tdel)
next
  case False
  then show ?thesis
    using assms(3) touchedD(3) [OF t False] touchedD(1) [OF t assms(2)] by (auto simp: map_of_tdel split: option.split)
qed

locale seen_table =
  fixes tab :: "'s \<Rightarrow> ('k, 'r) table" and up :: "int \<Rightarrow> 'x \<Rightarrow> 's \<Rightarrow> 's" and key :: "'x \<Rightarrow> 'k"
    and fst_seen :: "'r \<Rightarrow> int" and lst_seen :: "'r \<Rightarrow> int"
  assumes up_row: "\<exists>r. tab (up now x s) = tput (key x) r (tab s) \<and> lst_seen r = now
    \<and> fst_seen r = (case map_of (tab s) (key x) of Some r0 \<Rightarrow> fst_seen r0 | None \<Rightarrow> now)"
begin

lemma touched_up: "touched fst_seen lst_seen now {key x} (tab s) (tab (up now x s))"
  using up_row [of now x s] by (auto simp: touched_def seen_row_def)

lemma touched_fold: "touched fst_seen lst_seen now (key ` set xs) (tab s) (tab (fold (up now) xs s))"
proof (induction xs arbitrary: s)
  case (Cons x xs)
  from touched_trans [OF touched_up Cons.IH] show ?case by simp
qed (simp add: touched_refl)

end

definition verdict_key :: "verdict \<Rightarrow> str \<times> str" where
  "verdict_key v = (vd_indexer_address v, vd_kind v)"

definition item_key :: "attention_item \<Rightarrow> str \<times> str \<times> str" where
  "item_key a = (at_indexer_address a, at_kind a, at_deployment_id a)"

interpretation vt: seen_table sd_verdicts upsert_verdict verdict_key vr_first_seen vr_last_seen
  by unfold_locales (auto simp: upsert_verdict_def verdict_key_def Let_def)

interpretation att: seen_table sd_attention upsert_attention item_key ar_first_seen ar_last_seen
  by unfold_locales (auto simp: upsert_attention_def item_key_def Let_def)

section \<open>What each part of a cycle writes\<close>

definition keeps_sources :: "scorer_db \<Rightarrow> scorer_db \<Rightarrow> bool" where
  "keeps_sources s s' \<longleftrightarrow> sd_qos s' = sd_qos s \<and> sd_profiles s' = sd_profiles s"

lemma keeps_trans: "keeps_sources a b \<Longrightarrow> keeps_sources b c \<Longrightarrow> keeps_sources a c"
  by (simp add: keeps_sources_def)

lemma keeps_fold: "(\<And>x s. keeps_sources s (f x s)) \<Longrightarrow> keeps_sources s (fold f xs s)"
  by (induction xs arbitrary: s) (simp add: keeps_sources_def, auto intro: keeps_trans)

lemma keeps_upserts: "keeps_sources s (upsert_score now sc s)" "keeps_sources s (upsert_verdict now v s)"
  "keeps_sources s (upsert_attention now a s)"
  by (simp_all add: keeps_sources_def upsert_score_def upsert_verdict_def upsert_attention_def Let_def)

lemma fold_other: "(\<And>x s. g (f x s) = g s) \<Longrightarrow> g (fold f xs s) = g s"
  by (induction xs arbitrary: s) auto

lemma upsert_other [simp]: "sd_verdicts (fold (upsert_attention now) as s) = sd_verdicts s"
  "sd_attention (fold (upsert_verdict now) vs s) = sd_attention s"
  "sd_verdicts (upsert_score now sc s) = sd_verdicts s" "sd_attention (upsert_score now sc s) = sd_attention s"
  by (rule fold_other, simp add: upsert_attention_def Let_def)
    (rule fold_other, simp add: upsert_verdict_def Let_def, simp_all add: upsert_score_def)

lemma keeps_score_one: "keeps_sources s (score_one cfg now t window addr s)"
proof -
  have "keeps_sources s (fold (upsert_attention now) as (fold (upsert_verdict now) vs (upsert_score now sc s)))" for as vs sc
    by (intro keeps_trans [OF keeps_trans [OF keeps_upserts(1) keeps_fold] keeps_fold] keeps_upserts)
  then show ?thesis using keeps_upserts(1) by (simp add: score_one_def Let_def)
qed

lemma load_keeps: "keeps_sources s s' \<Longrightarrow> load_tables cfg now sybils window s' = load_tables cfg now sybils window s"
  by (simp add: keeps_sources_def load_tables_def load_profiles_def load_alloc_health_def load_measured_lag_def)

lemma keeps_score_window: "keeps_sources s (score_window ord cfg now sybils window s)"
  unfolding score_window_def Let_def by (rule keeps_fold) (rule keeps_score_one)

definition primary :: "scoring_config \<Rightarrow> int" where
  "primary cfg = Max (set (score_windows cfg))"

text \<open>The verdicts and items a cycle emits for the longest window.\<close>

definition emitted :: "(score_outcome \<Rightarrow> 'a list) \<Rightarrow> (str list \<Rightarrow> str list) \<Rightarrow> scoring_config \<Rightarrow> score_tables \<Rightarrow> 'a list" where
  "emitted f ord cfg t = concat (map (\<lambda>addr. f (judge (assemble t addr (primary cfg)) cfg)) (score_keys ord t))"

lemma one_touches:
  "touched vr_first_seen vr_last_seen now
     (if window = primary cfg then verdict_key ` set (oc_verdicts (judge (assemble t addr window) cfg)) else {})
     (sd_verdicts s) (sd_verdicts (score_one cfg now t window addr s))"
  "touched ar_first_seen ar_last_seen now
     (if window = primary cfg then item_key ` set (oc_attention (judge (assemble t addr window) cfg)) else {})
     (sd_attention s) (sd_attention (score_one cfg now t window addr s))"
proof -
  let ?o = "judge (assemble t addr window) cfg"
  let ?s1 = "upsert_score now (oc_score ?o) s"
  have "score_one cfg now t window addr s = (if window = primary cfg
      then fold (upsert_attention now) (oc_attention ?o) (fold (upsert_verdict now) (oc_verdicts ?o) ?s1) else ?s1)"
    by (simp add: score_one_def Let_def primary_def)
  then show "touched vr_first_seen vr_last_seen now (if window = primary cfg then verdict_key ` set (oc_verdicts ?o) else {})
      (sd_verdicts s) (sd_verdicts (score_one cfg now t window addr s))"
    and "touched ar_first_seen ar_last_seen now (if window = primary cfg then item_key ` set (oc_attention ?o) else {})
      (sd_attention s) (sd_attention (score_one cfg now t window addr s))"
    using vt.touched_fold [of now "oc_verdicts ?o" ?s1]
      att.touched_fold [of now "oc_attention ?o" "fold (upsert_verdict now) (oc_verdicts ?o) ?s1"]
    by (cases "window = primary cfg"; simp add: touched_refl)+
qed

lemma fold_touches:
  assumes "\<And>x s. touched f l now (T x) (g s) (g (h x s))"
  shows "touched f l now (\<Union>x \<in> set xs. T x) (g s) (g (fold h xs s))"
proof (induction xs arbitrary: s)
  case (Cons x xs)
  from touched_trans [OF assms Cons.IH] show ?case by simp
qed (simp add: touched_refl)

lemma union_emitted:
  assumes "t = load_tables cfg now sybils (primary cfg) s" and "t' = load_tables cfg now sybils window s"
  shows "(\<Union>addr \<in> set (score_keys ord t'). if window = primary cfg then key ` set (f (judge (assemble t' addr window) cfg)) else {})
    = (if window = primary cfg then key ` set (emitted f ord cfg t) else {})"
  by (cases "window = primary cfg") (auto simp: emitted_def assms)

lemma window_touches:
  assumes "t = load_tables cfg now sybils (primary cfg) s"
  shows "touched vr_first_seen vr_last_seen now (if window = primary cfg then verdict_key ` set (emitted oc_verdicts ord cfg t) else {})
     (sd_verdicts s) (sd_verdicts (score_window ord cfg now sybils window s))" (is ?V)
    and "touched ar_first_seen ar_last_seen now (if window = primary cfg then item_key ` set (emitted oc_attention ord cfg t) else {})
     (sd_attention s) (sd_attention (score_window ord cfg now sybils window s))" (is ?A)
proof -
  show ?V unfolding union_emitted [OF assms refl, symmetric] score_window_def Let_def
    by (rule fold_touches) (rule one_touches)
  show ?A unfolding union_emitted [OF assms refl, symmetric] score_window_def Let_def
    by (rule fold_touches) (rule one_touches)
qed

lemma windows_touch:
  assumes "t = load_tables cfg now sybils (primary cfg) s" and "ws \<noteq> []" and "set ws = set (score_windows cfg)"
    and "s' = fold (score_window ord cfg now sybils) ws s"
  shows "touched vr_first_seen vr_last_seen now (verdict_key ` set (emitted oc_verdicts ord cfg t)) (sd_verdicts s) (sd_verdicts s')"
    and "touched ar_first_seen ar_last_seen now (item_key ` set (emitted oc_attention ord cfg t)) (sd_attention s) (sd_attention s')"
    and "keeps_sources s s'"
proof -
  let ?T = "\<lambda>w. if w = primary cfg then verdict_key ` set (emitted oc_verdicts ord cfg t) else {}"
  let ?U = "\<lambda>w. if w = primary cfg then item_key ` set (emitted oc_attention ord cfg t) else {}"
  have step: "touched vr_first_seen vr_last_seen now (\<Union>w \<in> set ws. ?T w) (sd_verdicts s) (sd_verdicts (fold (score_window ord cfg now sybils) ws s))
      \<and> touched ar_first_seen ar_last_seen now (\<Union>w \<in> set ws. ?U w) (sd_attention s) (sd_attention (fold (score_window ord cfg now sybils) ws s))"
    if "t = load_tables cfg now sybils (primary cfg) s" for ws s using that
  proof (induction ws arbitrary: s)
    case (Cons w ws)
    have "t = load_tables cfg now sybils (primary cfg) (score_window ord cfg now sybils w s)"
      using Cons.prems load_keeps [OF keeps_score_window] by simp
    note IH = Cons.IH [OF this]
    show ?case
      using touched_trans [OF window_touches(1) [OF Cons.prems, of w ord] conjunct1 [OF IH]]
        touched_trans [OF window_touches(2) [OF Cons.prems, of w ord] conjunct2 [OF IH]]
      by (simp only: list.set UN_insert fold_simps)
  qed (simp add: touched_refl)
  have "primary cfg \<in> set ws" unfolding primary_def assms(3) [symmetric] using assms(2) by (intro Max_in) simp_all
  then have "(\<Union>w \<in> set ws. ?T w) = ?T (primary cfg)" "(\<Union>w \<in> set ws. ?U w) = ?U (primary cfg)" by auto
  with step [OF assms(1), of ws] show
    "touched vr_first_seen vr_last_seen now (verdict_key ` set (emitted oc_verdicts ord cfg t)) (sd_verdicts s) (sd_verdicts s')"
    "touched ar_first_seen ar_last_seen now (item_key ` set (emitted oc_attention ord cfg t)) (sd_attention s) (sd_attention s')"
    unfolding assms(4) by (simp_all only: if_True refl)
  show "keeps_sources s s'" unfolding assms(4) by (rule keeps_fold) (rule keeps_score_window)
qed

lemma issues_touch:
  "touched ar_first_seen ar_last_seen now (item_key ` set (allocation_issues cfg now s)) (sd_attention s)
     (sd_attention (snd (detect_allocation_issues cfg now s)))"
  "sd_verdicts (snd (detect_allocation_issues cfg now s)) = sd_verdicts s"
  using att.touched_fold by (simp_all add: detect_allocation_issues_def)

lemma issues_keep: "keeps_sources s s' \<Longrightarrow> allocation_issues cfg now s' = allocation_issues cfg now s"
  by (simp add: keeps_sources_def allocation_issues_def serving_errors_def behind_peers_def)

lemma score_windows_nonempty: "score_windows cfg \<noteq> []"
  by (auto simp: score_windows_def) (metis list.distinct(1) set_empty set_sort)

lemma cycle_start_tables: "cycle_start sha sord fetch prn now s = (sybils, s1) \<Longrightarrow>
    sd_verdicts s1 = sd_verdicts s \<and> sd_attention s1 = sd_attention s"
  by (auto simp: cycle_start_def Let_def split: option.splits)

text \<open>The two public tables after a cycle: what it touched, with the rows it did not see again pruned.\<close>

lemma cycle_touches:
  assumes "cycle_start sha sord fetch prn now s = (sybils, s1)" and "t = load_tables cfg now sybils (primary cfg) s1"
    and "run_score_once sha sord fetch prn ord cfg run_start now s = (n, s')"
  obtains vs ats where
    "touched vr_first_seen vr_last_seen now (verdict_key ` set (emitted oc_verdicts ord cfg t)) (sd_verdicts s) vs"
    "touched ar_first_seen ar_last_seen now (item_key ` set (emitted oc_attention ord cfg t @ allocation_issues cfg now s1))
      (sd_attention s) ats"
    "sd_verdicts s' = tdel (\<lambda>_ r. vr_last_seen r < run_start) vs"
    "sd_attention s' = tdel (\<lambda>_ r. ar_last_seen r < run_start) ats" "sd_qos s' = sd_qos s1"
    "sd_profiles s' = sd_profiles s"
proof -
  define s2 where "s2 = fold (score_window ord cfg now sybils) (score_windows cfg) s1"
  define s3 where "s3 = snd (detect_allocation_issues cfg now s2)"
  have s': "s' = s3\<lparr>sd_verdicts := tdel (\<lambda>_ r. vr_last_seen r < run_start) (sd_verdicts s3),
      sd_attention := tdel (\<lambda>_ r. ar_last_seen r < run_start) (sd_attention s3)\<rparr>"
    using assms(3) by (simp add: run_score_once_def assms(1) s2_def s3_def split: prod.splits)
  note w = windows_touch [OF assms(2) score_windows_nonempty refl s2_def]
  have V: "touched vr_first_seen vr_last_seen now (verdict_key ` set (emitted oc_verdicts ord cfg t)) (sd_verdicts s) (sd_verdicts s3)"
    using w(1) cycle_start_tables [OF assms(1)] by (simp add: s3_def issues_touch(2))
  have A: "touched ar_first_seen ar_last_seen now (item_key ` set (emitted oc_attention ord cfg t @ allocation_issues cfg now s1))
      (sd_attention s) (sd_attention s3)"
    using touched_trans [OF w(2) issues_touch(1) [of now cfg s2]] cycle_start_tables [OF assms(1)]
    by (simp add: s3_def issues_keep [OF w(3)] image_Un)
  have "keeps_sources s2 s3"
    unfolding s3_def detect_allocation_issues_def snd_conv by (rule keeps_fold) (rule keeps_upserts(3))
  then have "sd_qos s' = sd_qos s1" "sd_profiles s' = sd_profiles s1" using w(3) by (simp_all add: s' keeps_sources_def)
  moreover have "sd_profiles s1 = sd_profiles s" using assms(1) by (auto simp: cycle_start_def Let_def split: option.splits)
  ultimately show thesis using that [OF V A] by (simp add: s')
qed

section \<open>Properties\<close>

text \<open>
  C39. After a scoring cycle the public tables say what holds now: a verdict, and an attention item, is
  there exactly when this cycle emitted it, from the judgement over the longest window or from the
  per-deployment check; each has the time it was first seen kept from the cycle before, and whatever
  the cycle did not emit again is gone.
\<close>

theorem cycle_leaves_what_holds:
  assumes "twf (sd_verdicts s)" and "twf (sd_attention s)" and "run_start \<le> now"
    and "\<forall>k r. map_of (sd_verdicts s) k = Some r \<longrightarrow> vr_last_seen r < run_start"
    and "\<forall>k r. map_of (sd_attention s) k = Some r \<longrightarrow> ar_last_seen r < run_start"
    and "cycle_start sha sord fetch prn now s = (sybils, s1)" and "t = load_tables cfg now sybils (primary cfg) s1"
    and "run_score_once sha sord fetch prn ord cfg run_start now s = (n, s')"
  shows "(if k \<in> verdict_key ` set (emitted oc_verdicts ord cfg t)
       then seen_row vr_first_seen vr_last_seen now (map_of (sd_verdicts s) k) (map_of (sd_verdicts s') k)
       else map_of (sd_verdicts s') k = None)
    \<and> (if a \<in> item_key ` set (emitted oc_attention ord cfg t @ allocation_issues cfg now s1)
       then seen_row ar_first_seen ar_last_seen now (map_of (sd_attention s) a) (map_of (sd_attention s') a)
       else map_of (sd_attention s') a = None)"
proof -
  obtain vs ats where
    V: "touched vr_first_seen vr_last_seen now (verdict_key ` set (emitted oc_verdicts ord cfg t)) (sd_verdicts s) vs"
    and A: "touched ar_first_seen ar_last_seen now (item_key ` set (emitted oc_attention ord cfg t @ allocation_issues cfg now s1))
      (sd_attention s) ats"
    and s': "sd_verdicts s' = tdel (\<lambda>_ r. vr_last_seen r < run_start) vs"
      "sd_attention s' = tdel (\<lambda>_ r. ar_last_seen r < run_start) ats"
    by (rule cycle_touches [OF assms(6-8)])
  show ?thesis
    using touched_prune [OF V assms(1,4,3), of k] touchedD(2) [OF V, of k]
      touched_prune [OF A assms(2,5,3), of a] touchedD(2) [OF A, of a] unfolding s' by simp
qed

definition idle_profile :: profile_row where
  "idle_profile = \<lparr>pf_ens_name = Some ''idle.eth'', pf_url = None, pf_created_at = None, pf_self_stake_grt = Some (F 2000000),
     pf_delegated_grt = None, pf_allocation_count = None, pf_query_fees_collected_grt = None, pf_reo_status = None,
     pf_reo_source = None, pf_lodestar_score = None, pf_lodestar_grade = None, pf_qos_query_count = Some 3,
     pf_qos_success_rate = None, pf_qos_latency_ms = None, pf_qos_blocks_behind = None, pf_ingested_at = 0\<rparr>"

definition old_verdict :: "str \<Rightarrow> verdict_row" where
  "old_verdict sev = \<lparr>vr_severity = sev, vr_title = '''', vr_evidence = JNull, vr_window_days = Some 30, vr_first_seen = 1,
     vr_last_seen = 5, vr_status = ''open''\<rparr>"

definition idle_db :: scorer_db where
  "idle_db = \<lparr>sd_qos = \<lparr>qd_judge = \<lparr>jd_probe = empty_db, jd_allocation_map = [], jd_nondeterministic = []\<rparr>,
       qd_alloc_urls = [], qd_alloc_resolved = [], foghorn_qos = [], qos_reroll = [], qd_next_reroll = 1\<rparr>,
     sd_profiles = [(''0xa'', idle_profile)], sd_sybil = [], sd_scores = [],
     sd_verdicts = [((''0xa'', ''leech''), old_verdict ''high''), ((''0xb'', ''behind''), old_verdict ''high'')],
     sd_attention = []\<rparr>"

lemma idle_flags: "flag_nondeterministic prn since now (sd_qos idle_db) = sd_qos idle_db"
  by (simp add: flag_nondeterministic_def detect_nondeterministic_def nondet_found_def judged_probes_def idle_db_def
      empty_db_def map_filter_simps tdel_def)

lemma idle_start: "cycle_start (\<lambda>x. x) (\<lambda>x. x) None (\<lambda>_. []) 9 idle_db = ([], idle_db)"
proof -
  have "detect_and_store (\<lambda>x. x) (\<lambda>x. x) None 9 (sd_profiles idle_db) (sd_sybil idle_db) = Some ([], [])"
    by (simp add: idle_db_def detect_and_store_def candidates_with_def map_filter_simps candidate_of_def idle_profile_def
        find_swarms_def links_def group_pairs_def tdel_def)
  then show ?thesis
    by (simp add: cycle_start_def) (simp add: idle_flags, simp add: idle_db_def)
qed

lemma verdict_address: "v \<in> set (oc_verdicts (judge i cfg)) \<Longrightarrow> vd_indexer_address v = si_indexer_address i"
proof -
  have "vd_indexer_address v = si_indexer_address i" if "v \<in> set (derive_verdicts i cfg sc)" for sc
    using that by (auto simp: derive_verdicts_def mk_verdict_def Let_def split: if_splits option.splits)
  then show "v \<in> set (oc_verdicts (judge i cfg)) \<Longrightarrow> vd_indexer_address v = si_indexer_address i"
    by (auto simp: judge_def judge_unrated_def judge_rated_def Let_def split: if_splits)
qed

lemma idle_leech: "(''0xa'', ''leech'') \<in> verdict_key ` set (emitted oc_verdicts (\<lambda>x. x) scoring_default
    (load_tables scoring_default 9 [] 30 idle_db))"
  and idle_other: "(''0xb'', ''behind'') \<notin> verdict_key ` set (emitted oc_verdicts (\<lambda>x. x) scoring_default
    (load_tables scoring_default 9 [] 30 idle_db))"
proof -
  let ?t = "load_tables scoring_default 9 [] 30 idle_db"
  have pr: "st_profiles ?t = [(''0xa'', profile_of idle_profile)]"
    by (simp add: load_tables_def load_profiles_def idle_db_def to_lower_def char_lower_def)
  have ag: "st_agg ?t = []"
    by (simp add: load_tables_def load_probe_agg_def probe_agg_rows_def agg_items_def idle_db_def empty_db_def map_filter_simps
        group_pairs_def)
  let ?i = "assemble ?t ''0xa'' (primary scoring_default)"
  have "self_stake_grt ?i = Some (F 2000000)" "qos_query_count ?i = Some 3" "si_indexer_address ?i = ''0xa''"
    by (simp_all add: assemble_def Let_def pr opt_or_def profile_of_def idle_profile_def)
  moreover have "fle (F 1000000) (F 2000000)" by code_simp
  ultimately have leech: "is_leech ?i scoring_default" by (simp add: is_leech_def scoring_default_def)
  have "\<exists>v \<in> set (derive_verdicts ?i scoring_default sc). vd_kind v = ''leech'' \<and> vd_indexer_address v = ''0xa''" for sc
    using leech \<open>si_indexer_address ?i = ''0xa''\<close>
    by (auto simp: derive_verdicts_def mk_verdict_def)
  then have "\<exists>v \<in> set (oc_verdicts (judge ?i scoring_default)). vd_kind v = ''leech'' \<and> vd_indexer_address v = ''0xa''"
    by (auto simp: judge_def judge_unrated_def judge_rated_def Let_def STRUCTURAL_VERDICTS_def)
  then obtain v where v: "v \<in> set (oc_verdicts (judge ?i scoring_default))" "verdict_key v = (''0xa'', ''leech'')"
    by (auto simp: verdict_key_def)
  have "emitted oc_verdicts (\<lambda>x. x) scoring_default ?t = oc_verdicts (judge ?i scoring_default)"
    by (simp add: emitted_def score_keys_def pr ag)
  then show "(''0xa'', ''leech'') \<in> verdict_key ` set (emitted oc_verdicts (\<lambda>x. x) scoring_default ?t)"
    and "(''0xb'', ''behind'') \<notin> verdict_key ` set (emitted oc_verdicts (\<lambda>x. x) scoring_default ?t)"
    using v verdict_address [of _ ?i] \<open>si_indexer_address ?i = ''0xa''\<close> by (force, auto simp: verdict_key_def)
qed

theorem cycle_leaves_what_holds_witness:
  "\<exists>n s'. run_score_once (\<lambda>x. x) (\<lambda>x. x) None (\<lambda>_. []) (\<lambda>x. x) scoring_default 8 9 idle_db = (n, s')
     \<and> map_option vr_first_seen (map_of (sd_verdicts s') (''0xa'', ''leech'')) = Some 1
     \<and> map_of (sd_verdicts s') (''0xb'', ''behind'') = None"
proof -
  obtain n s' where r: "run_score_once (\<lambda>x. x) (\<lambda>x. x) None (\<lambda>_. []) (\<lambda>x. x) scoring_default 8 9 idle_db = (n, s')"
    by fastforce
  have p: "primary scoring_default = 30" by (simp add: primary_def score_windows_def scoring_default_def)
  have ok: "twf (sd_verdicts idle_db)" "twf (sd_attention idle_db)" "(8::int) \<le> 9"
    "\<forall>k r. map_of (sd_verdicts idle_db) k = Some r \<longrightarrow> vr_last_seen r < 8"
    "\<forall>k r. map_of (sd_attention idle_db) k = Some r \<longrightarrow> ar_last_seen r < 8"
    by (simp_all add: idle_db_def twf_def old_verdict_def)
  note c = cycle_leaves_what_holds [OF ok idle_start refl r, unfolded p]
  have "seen_row vr_first_seen vr_last_seen 9 (map_of (sd_verdicts idle_db) (''0xa'', ''leech'')) (map_of (sd_verdicts s') (''0xa'', ''leech''))"
    using conjunct1 [OF c, of "(''0xa'', ''leech'')"] unfolding if_P [OF idle_leech] .
  moreover have "map_of (sd_verdicts s') (''0xb'', ''behind'') = None"
    using conjunct1 [OF c, of "(''0xb'', ''behind'')"] unfolding if_not_P [OF idle_other] .
  moreover have "map_of (sd_verdicts idle_db) (''0xa'', ''leech'') = Some (old_verdict ''high'')" by (simp add: idle_db_def)
  ultimately show ?thesis using r by (auto simp: seen_row_def old_verdict_def)
qed

section \<open>Serving errors, graded and listed\<close>

lemma count_of_group:
  assumes "twf G" and "\<And>k v. filter P (f (k, v)) = (if k = a then f (k, v) else [])"
  shows "length (filter P (concat (map f G))) = (case map_of G a of None \<Rightarrow> 0 | Some v \<Rightarrow> length (f (a, v)))"
  using assms(1)
proof (induction G)
  case (Cons x G)
  obtain k v where x: "x = (k, v)" by (cases x)
  have "twf G" and "k = a \<Longrightarrow> map_of G a = None" using Cons.prems by (auto simp: twf_def x map_of_eq_None_iff)
  then show ?case using Cons.IH assms(2) [of k v] by (auto simp: x)
qed simp

definition serving_kind :: "str \<Rightarrow> attention_item \<Rightarrow> bool" where
  "serving_kind a i \<longleftrightarrow> at_indexer_address i = a \<and> at_kind i \<in> {''serving-errors'', ''serving-errors-deployment''}"

lemma serving_items_of: "filter (serving_kind a) (serving_items (k, ds)) = (if k = a then serving_items (k, ds) else [])"
  by (auto simp: serving_items_def serving_kind_def filter_id_conv filter_empty_conv split: prod.splits)

lemma behind_items_other: "filter (serving_kind a) (behind_items r) = []"
  by (auto simp: behind_items_def serving_kind_def filter_empty_conv Let_def split: prod.splits)

lemma length_serving_items: "length (serving_items (a, ds)) = (if 5 \<le> length ds then 1 else length ds)"
  by (simp add: serving_items_def ROLLUP_THRESHOLD_def)

lemma twf_map_val: "twf G \<Longrightarrow> twf (map (\<lambda>(k, v). (k, g v)) G)"
  by (auto simp: twf_def comp_def case_prod_beta)

lemma map_of_map_val: "map_of (map (\<lambda>(k, v). (k, g v)) G) a = map_option g (map_of G a)"
  by (induction G) auto

lemma values_at_image: "values_at a (map h xs) = map (snd \<circ> h) (filter (\<lambda>x. fst (h x) = a) xs)"
  by (simp add: values_at_def filter_map comp_def)

text \<open>
  C40. The grade's penalty and the public list agree on who serves errors: an indexer's erroring
  deployments, which the grade counts against it, are never more than its measured ones, and it has
  one item for each of them, or a single one for the whole indexer from five on.
\<close>

theorem penalty_matches_items:
  assumes "map_of (load_alloc_health cfg now s) a = Some (measured, broken)"
  shows "broken \<le> measured \<and>
    int (length (filter (serving_kind a) (allocation_issues cfg now s))) = (if 5 \<le> broken then 1 else broken)"
proof -
  let ?D = "per_dep (now - days (max_window cfg)) (foghorn_qos (sd_qos s))"
  let ?C = "map snd (filter (\<lambda>x. fst (fst x) = a) ?D)"
  let ?E = "filter (\<lambda>x. fst (fst x) = a) (filter (erroring cfg \<circ> snd) ?D)"
  have h: "map (\<lambda>((a, dp), c). (a, c)) ?D = map (\<lambda>x. (fst (fst x), snd x)) ?D" by (simp add: case_prod_beta)
  have v: "values_at a (map (\<lambda>((a, dp), c). (a, c)) ?D) = ?C" unfolding h values_at_image by (simp add: comp_def)
  have "map_of (load_alloc_health cfg now s) a = map_option (\<lambda>cs. (int (length (filter (\<lambda>c. serving_min_probes cfg \<le> fst c) cs)),
        int (length (filter (erroring cfg) cs)))) (map_of (group_pairs (map (\<lambda>((a, dp), c). (a, c)) ?D)) a)"
    unfolding load_alloc_health_def by (rule map_of_map_val)
  then have m: "measured = int (length (filter (\<lambda>c. serving_min_probes cfg \<le> fst c) ?C))"
    and b: "broken = int (length (filter (erroring cfg) ?C))"
    using assms by (auto simp: map_of_group v split: if_splits)
  have "length (filter (erroring cfg) ?C) \<le> length (filter (\<lambda>c. serving_min_probes cfg \<le> fst c) ?C)"
  proof -
    have "filter (erroring cfg) ?C = filter (erroring cfg) (filter (\<lambda>c. serving_min_probes cfg \<le> fst c) ?C)"
      by (auto simp: erroring_def intro: filter_cong)
    then show ?thesis by (metis length_filter_le)
  qed
  then have le: "broken \<le> measured" using m b by simp
  have e: "length ?E = nat broken" unfolding b by (simp add: filter_map comp_def conj_commute)
  let ?g = "\<lambda>((a, dp), n, ok). (a, (dp, fdiv (f_of_int ok) (f_of_int n), n))"
  have "fst (?g x) = fst (fst x)" for x :: "(str \<times> str) \<times> int \<times> int" by (auto split: prod.splits)
  then have ve: "length (values_at a (map ?g (filter (erroring cfg \<circ> snd) ?D))) = nat broken"
    unfolding values_at_image by (simp add: e del: filter_filter)
  let ?G = "group_pairs (map ?g (filter (erroring cfg \<circ> snd) ?D))"
  have G: "serving_errors cfg now s = map (\<lambda>(k, ds). (k, sort_key (\<lambda>(_, _, n). - n) ds)) ?G"
    by (simp add: serving_errors_def)
  have "length (filter (serving_kind a) (concat (map serving_items (serving_errors cfg now s))))
      = (case map_of (serving_errors cfg now s) a of None \<Rightarrow> 0 | Some ds \<Rightarrow> length (serving_items (a, ds)))"
    by (rule count_of_group) (simp add: G twf_map_val, rule serving_items_of)
  also have "map_of (serving_errors cfg now s) a = map_option (sort_key (\<lambda>(_, _, n). - n)) (map_of ?G a)"
    unfolding G by (rule map_of_map_val)
  also have "(case map_option (sort_key (\<lambda>(_, _, n). - n)) (map_of ?G a) of None \<Rightarrow> 0 | Some ds \<Rightarrow> length (serving_items (a, ds)))
      = (if 5 \<le> nat broken then 1 else nat broken)"
    using ve by (auto simp: map_of_group length_serving_items)
  finally have "int (length (filter (serving_kind a) (concat (map serving_items (serving_errors cfg now s)))))
      = (if 5 \<le> broken then 1 else broken)" using b by auto
  moreover have "filter (serving_kind a) (concat (map (\<lambda>(ix, ds). behind_items (ix, lag_first ds)) ps)) = []" for ps
    by (induction ps) (auto simp: behind_items_other)
  ultimately show ?thesis using le by (simp add: allocation_issues_def)
qed

definition failing_feed :: "(bucket_key, fq_row) table" where
  "failing_feed = map (\<lambda>dp. ((''0xa'', dp, 0, 300), (fq_of (\<lambda>x. x) qos_rollup_default None 0 [])
     \<lparr>fq_query_count := 10, fq_num_200 := 2\<rparr>)) [''d1'', ''d2'']"

definition failing_db :: scorer_db where
  "failing_db = idle_db\<lparr>sd_qos := (sd_qos idle_db)\<lparr>foghorn_qos := failing_feed\<rparr>\<rparr>"

theorem penalty_matches_items_witness:
  "map_of (load_alloc_health scoring_default 9 failing_db) ''0xa'' = Some (2, 2)
   \<and> length (filter (serving_kind ''0xa'') (allocation_issues scoring_default 9 failing_db)) = 2"
proof -
  have d: "per_dep (9 - days (max_window scoring_default)) (foghorn_qos (sd_qos failing_db)) = [((''0xa'', ''d1''), 10, 2), ((''0xa'', ''d2''), 10, 2)]"
    by (simp add: per_dep_def failing_db_def failing_feed_def days_def max_window_def scoring_default_def map_filter_simps
        group_pairs_def mm_push_def to_lower_def char_lower_def)
  have e: "erroring scoring_default (10, 2)"
  proof -
    have "flt (fdiv (f_of_int 2) (f_of_int 10)) (F (5 / 10))" by code_simp
    then show ?thesis by (simp add: erroring_def scoring_default_def)
  qed
  have p: "serving_min_probes scoring_default \<le> 10" by (simp add: scoring_default_def)
  have h: "map_of (load_alloc_health scoring_default 9 failing_db) ''0xa'' = Some (2, 2)"
    by (simp add: load_alloc_health_def d group_pairs_def mm_push_def e p)
  from penalty_matches_items [OF h] show ?thesis using h by simp
qed

end
