(* ===== verification/Alerter.thy ===== *)
theory Alerter
  imports Scorer
begin

text \<open>
  The operator's Discord channel, \<open>foghorn-probe/src/alerter.rs\<close>: the roster of failing indexers, the
  debounce that decides when it changed, the messages and their chunks, and the two stall alerts.
  The POST is a parameter: the status of the \<open>n\<close>th request of a call, or none when it failed; so is
  the printing of a time. The order of a hash map is \<open>ord\<close>.
\<close>

section \<open>Posting\<close>

definition MSG_LIMIT :: nat where "MSG_LIMIT = 1800"
definition DASHBOARD :: str where "DASHBOARD = ''https://lodestar-dashboard.com''"

fun split_lines :: "str \<Rightarrow> str list" where
  "split_lines [] = [[]]"
| "split_lines (c # s) = (if c = CHR ''\<newline>'' then [] # split_lines s
     else (case split_lines s of w # ws \<Rightarrow> (c # w) # ws | [] \<Rightarrow> [[c]]))"

fun chunk_lines :: "str \<Rightarrow> str list \<Rightarrow> str list" where
  "chunk_lines cur [] = (if cur = [] then [] else [cur])"
| "chunk_lines cur (l # ls) =
     (if cur \<noteq> [] \<and> MSG_LIMIT < length cur + length l + 1 then cur # chunk_lines l ls
      else chunk_lines ((if cur = [] then [] else cur @ [CHR ''\<newline>'']) @ l) ls)"

definition discord_body :: "str \<Rightarrow> json" where
  "discord_body msg = JObj [(''username'', JStr ''Foghorn''), (''content'', JStr msg),
     (''allowed_mentions'', JObj [(''parse'', JArr [])])]"

fun post_messages :: "(nat \<Rightarrow> json \<Rightarrow> int option) \<Rightarrow> nat \<Rightarrow> str list \<Rightarrow> bool option" where
  "post_messages post n [] = Some True"
| "post_messages post n (m # ms) = (case post n (discord_body m) of
      None \<Rightarrow> None
    | Some st \<Rightarrow> if ok_status st then post_messages post (Suc n) ms else Some False)"

text \<open>\<open>None\<close> is a request that failed, \<open>Some False\<close> a rejected message.\<close>

definition post_chunks :: "(nat \<Rightarrow> json \<Rightarrow> int option) \<Rightarrow> str \<Rightarrow> bool option" where
  "post_chunks post content = post_messages post 0 (chunk_lines [] (split_lines content))"

section \<open>The roster\<close>

record indexer_alert =
  ia_label :: str
  ia_critical :: bool
  ia_serving_no_data :: bool
  ia_serving_err_deps :: int
  ia_behind_deps :: int
  ia_behind_head :: bool

definition alert_default :: indexer_alert where
  "alert_default = \<lparr>ia_label = '''', ia_critical = False, ia_serving_no_data = False, ia_serving_err_deps = 0,
     ia_behind_deps = 0, ia_behind_head = False\<rparr>"

definition alert_filter :: "(str \<times> str \<times> str) \<times> attention_row \<Rightarrow> bool" where
  "alert_filter r = (case r of ((ix, k, dp), row) \<Rightarrow> ar_severity row = ''critical''
     \<or> k \<in> {''behind-deployment'', ''behind-deployments'', ''serving-errors-deployment'', ''behind-chainhead''})"

definition alert_label :: "scorer_db \<Rightarrow> str \<Rightarrow> str" where
  "alert_label s ix = (case map_of (sd_profiles s) ix of
      Some p \<Rightarrow> opt_or (pf_ens_name p) ix | None \<Rightarrow> ix)"

definition add_alert :: "str \<Rightarrow> str \<Rightarrow> attention_row \<Rightarrow> indexer_alert \<Rightarrow> indexer_alert" where
  "add_alert lbl k row e =
     (let n = opt_or (Option.bind (jget ''deployment_count'' (ar_detail row)) as_i64) 1;
          e1 = (if ia_label e = '''' then e\<lparr>ia_label := lbl\<rparr> else e);
          e2 = (if ar_severity row = ''critical'' then e1\<lparr>ia_critical := True\<rparr> else e1) in
      if k = ''serving-no-data'' then e2\<lparr>ia_serving_no_data := True\<rparr>
      else if k = ''serving-errors'' then e2\<lparr>ia_serving_err_deps := i64w (ia_serving_err_deps e2 + n)\<rparr>
      else if k = ''serving-errors-deployment'' then e2\<lparr>ia_serving_err_deps := i64w (ia_serving_err_deps e2 + 1)\<rparr>
      else if k = ''behind-deployments'' then e2\<lparr>ia_behind_deps := i64w (ia_behind_deps e2 + n)\<rparr>
      else if k = ''behind-deployment'' then e2\<lparr>ia_behind_deps := i64w (ia_behind_deps e2 + 1)\<rparr>
      else if k = ''behind-chainhead'' then e2\<lparr>ia_behind_head := True\<rparr> else e2)"

definition group_alerts :: "scorer_db \<Rightarrow> (str, indexer_alert) table" where
  "group_alerts s = foldl (\<lambda>m ((ix, k, dp), row).
       tput ix (add_alert (alert_label s ix) k row (opt_or (map_of m ix) alert_default)) m)
     [] (filter alert_filter (sd_attention s))"

definition plural :: "int \<Rightarrow> str" where
  "plural n = (if n = 1 then '''' else ''s'')"

definition red_circle :: str where "red_circle = [CHR 0xF0, CHR 0x9F, CHR 0x94, CHR 0xB4]"
definition orange_circle :: str where "orange_circle = [CHR 0xF0, CHR 0x9F, CHR 0x9F, CHR 0xA0]"
definition horn :: str where "horn = [CHR 0xF0, CHR 0x9F, CHR 0x93, CHR 0xAF]"
definition middot :: str where "middot = [CHR 0xC2, CHR 0xB7]"

definition alert_line :: "indexer_alert \<Rightarrow> str" where
  "alert_line a =
     (let parts = (if ia_serving_no_data a then [''serving no data''] else [])
          @ (if 0 < ia_serving_err_deps a then [''serving errors on '' @ show_int (ia_serving_err_deps a)
               @ '' deployment'' @ plural (ia_serving_err_deps a)] else [])
          @ (if 0 < ia_behind_deps a then [''behind on '' @ show_int (ia_behind_deps a)
               @ '' deployment'' @ plural (ia_behind_deps a)] else [])
          @ (if ia_behind_head a then [''behind chainhead''] else [])
      in (if ia_critical a then red_circle else orange_circle) @ '' **'' @ ia_label a @ ''** '' @ emdash @ '' ''
           @ join ''; '' parts)"

text \<open>Critical first, then the most serving errors, then by label.\<close>

definition roster_lines :: "(str, indexer_alert) table \<Rightarrow> str list" where
  "roster_lines by' = map alert_line
     (sort_key (\<lambda>a. \<not> ia_critical a) (sort_key (\<lambda>a. - ia_serving_err_deps a) (sort_key ia_label (map snd by'))))"

definition roster_states :: "(str, indexer_alert) table \<Rightarrow> (str \<times> str) list" where
  "roster_states by' = map (\<lambda>(addr, a). (addr, if ia_critical a then ''C'' else ''H'')) by'"

definition current_failure_roster :: "((str, indexer_alert) table \<Rightarrow> (str, indexer_alert) table) \<Rightarrow> scorer_db \<Rightarrow>
    str list \<times> (str \<times> str) list" where
  "current_failure_roster ord s = (let by' = ord (group_alerts s) in (roster_lines by', roster_states by'))"

section \<open>The debounce\<close>

definition CONFIRM_CYCLES :: int where "CONFIRM_CYCLES = 2"

record member =
  mb_stable :: str
  mb_candidate :: str
  mb_streak :: int

definition absent_member :: member where
  "absent_member = \<lparr>mb_stable = ''absent'', mb_candidate = ''absent'', mb_streak = 0\<rparr>"

definition member_step :: "str \<Rightarrow> member \<Rightarrow> member" where
  "member_step obs m =
     (if obs = mb_stable m then m\<lparr>mb_candidate := obs, mb_streak := 0\<rparr>
      else if obs = mb_candidate m then
        (if CONFIRM_CYCLES \<le> mb_streak m + 1 then m\<lparr>mb_stable := obs, mb_streak := 0\<rparr>
         else m\<lparr>mb_streak := mb_streak m + 1\<rparr>)
      else m\<lparr>mb_candidate := obs, mb_streak := 1\<rparr>)"

definition gone :: "member \<Rightarrow> bool" where
  "gone m \<longleftrightarrow> mb_stable m = ''absent'' \<and> mb_candidate m = ''absent''"

definition observed :: "(str \<times> str) list \<Rightarrow> str \<Rightarrow> str" where
  "observed states a = opt_or (map_of (rev states) a) ''absent''"

definition member_of :: "(str, member) table \<Rightarrow> str \<Rightarrow> member" where
  "member_of t a = opt_or (map_of t a) absent_member"

definition update_member :: "(str \<times> str) list \<Rightarrow> (str, member) table \<Rightarrow> str \<Rightarrow> (str, member) table \<Rightarrow> (str, member) table" where
  "update_member states before a t =
     (let m = member_step (observed states a) (member_of before a) in
      if gone m then tdel (\<lambda>k _. k = a) t else tput a m t)"

definition commit_of :: "(str \<times> str) list \<Rightarrow> (str, member) table \<Rightarrow> str \<Rightarrow> str option" where
  "commit_of states before a =
     (let m = member_step (observed states a) (member_of before a) in
      if gone m \<or> mb_stable m = ''absent'' then None else Some (a @ '':'' @ mb_stable m))"

definition debounced_fingerprint :: "(str \<times> str) list \<Rightarrow> (str, member) table \<Rightarrow> str \<times> (str, member) table" where
  "debounced_fingerprint states t =
     (let addrs = map fst t @ filter (\<lambda>a. map_of t a = None) (map fst states) in
      (join '','' (sort (List.map_filter (commit_of states t) addrs)),
       fold (update_member states t) addrs t))"

section \<open>One cycle\<close>

record alerter_db =
  ad_members :: "(str, member) table"
  ad_last_post :: "int option"
  ad_last_fingerprint :: "str option"
  ad_flags :: "(str, str) table"

definition build_message_body :: "str \<Rightarrow> str list \<Rightarrow> str" where
  "build_message_body header ls = header @ [CHR ''\<newline>''] @ join [CHR ''\<newline>''] ls @ [CHR ''\<newline>'']
     @ ''For more details '' @ emdash @ '' '' @ DASHBOARD @ ''/foghorn''"

definition roster_content :: "bool \<Rightarrow> str list \<Rightarrow> str" where
  "roster_content changed ls = (if ls = [] then
      horn @ '' **Foghorn '' @ emdash @ '' all clear.** No indexers are currently serving errors or behind. Still on watch.''
        @ [CHR ''\<newline>''] @ ''For more details '' @ emdash @ '' '' @ DASHBOARD @ ''/foghorn''
    else let n = int (length ls) in
      build_message_body (horn @ '' **Foghorn '' @ emdash
        @ (if changed then '' '' else '' daily status '' @ middot @ '' '') @ show_int n @ '' indexer'' @ plural n @ '' need attention**'') ls)"

text \<open>What was posted, and the tables; the error of a failed request shows in the tables alone.\<close>

definition alert_cycle :: "((str, indexer_alert) table \<Rightarrow> (str, indexer_alert) table) \<Rightarrow> (nat \<Rightarrow> json \<Rightarrow> int option) \<Rightarrow>
    int \<Rightarrow> scorer_db \<Rightarrow> alerter_db \<Rightarrow> str option \<times> alerter_db" where
  "alert_cycle ord post now s d =
     (let (ls, states) = current_failure_roster ord s;
          (fp, members) = debounced_fingerprint states (ad_members d);
          d1 = d\<lparr>ad_members := members\<rparr>;
          due = (case ad_last_post d of None \<Rightarrow> True | Some t \<Rightarrow> t < now - 86400000000);
          changed = (fp \<noteq> opt_or (ad_last_fingerprint d) '''') in
      if \<not> changed \<and> \<not> due then (None, d1)
      else let content = roster_content changed ls in
        (Some content, if post_chunks post content = Some True
          then d1\<lparr>ad_last_post := Some now, ad_last_fingerprint := Some fp\<rparr> else d1))"

section \<open>Stalls\<close>

record oracle_message =
  om_posted_at :: int
  om_bucket_ts :: "int option"
  om_lag_seconds :: "int option"

definition STALL_SECS :: int where "STALL_SECS = 90 * 60"
definition SCORE_STALE_SECS :: int where "SCORE_STALE_SECS = 3600"

definition age_secs :: "int \<Rightarrow> int \<Rightarrow> int" where
  \<comment> \<open>\<open>num_seconds\<close>: whole seconds, towards zero.\<close>
  "age_secs now t = (if t \<le> now then (now - t) div 1000000 else - ((t - now) div 1000000))"

definition trunc_div60 :: "int \<Rightarrow> int" where
  "trunc_div60 n = (if 0 \<le> n then n div 60 else - (- n div 60))"

text \<open>The message with the latest post, none in an empty table.\<close>

definition latest_message :: "oracle_message list \<Rightarrow> oracle_message option" where
  "latest_message ms = (case ms of [] \<Rightarrow> None
    | m # rest \<Rightarrow> Some (foldl (\<lambda>b x. if om_posted_at b < om_posted_at x then x else b) m rest))"

definition stall_message :: "(int \<Rightarrow> str) \<Rightarrow> int \<Rightarrow> oracle_message \<Rightarrow> str" where
  "stall_message rfc age m = ''**Canonical QoS oracle has stopped publishing**'' @ [CHR ''\<newline>'']
     @ ''Last DataEdge post: `'' @ rfc (om_posted_at m) @ ''` ('' @ fmt_f 1 (fdiv (f_of_int age) (F 3600)) @ ''h ago)'' @ [CHR ''\<newline>'']
     @ ''Last bucket published: `'' @ (case om_bucket_ts m of Some b \<Rightarrow> rfc b | None \<Rightarrow> ''unknown'') @ ''`'' @ [CHR ''\<newline>'']
     @ ''Publish lag at the time: `'' @ (case om_lag_seconds m of Some l \<Rightarrow> show_int (trunc_div60 l) @ ''m'' | None \<Rightarrow> ''unknown'') @ ''`''
     @ [CHR ''\<newline>''] @ ''Read from Gnosis directly, not from the subgraph '' @ emdash @ '' a stale subgraph answers exactly like a fresh one.''
     @ [CHR ''\<newline>''] @ ''Canonical history and Lodestar's own measurements remain queryable: <https://www.lodestar-dashboard.com/qos>''"

definition resumed_message :: "(int \<Rightarrow> str) \<Rightarrow> int \<Rightarrow> oracle_message \<Rightarrow> str" where
  "resumed_message rfc age m = ''**Canonical QoS oracle is publishing again**'' @ [CHR ''\<newline>'']
     @ ''Latest post: `'' @ rfc (om_posted_at m) @ ''` ('' @ show_int (trunc_div60 age)
     @ ''m ago). Worth checking whether it backfilled the gap or resumed from tip '' @ emdash
     @ '' a resumed-from-tip publisher leaves a permanent hole that looks like complete data.''"

definition post_flag :: "(nat \<Rightarrow> json \<Rightarrow> int option) \<Rightarrow> str \<Rightarrow> str \<Rightarrow> str \<Rightarrow> alerter_db \<Rightarrow> str option \<times> alerter_db" where
  "post_flag post key state content d = (Some content,
     if post_chunks post content = Some True then d\<lparr>ad_flags := tput key state (ad_flags d)\<rparr> else d)"

definition alert_oracle_stall :: "(int \<Rightarrow> str) \<Rightarrow> (nat \<Rightarrow> json \<Rightarrow> int option) \<Rightarrow> int \<Rightarrow> oracle_message list \<Rightarrow>
    alerter_db \<Rightarrow> str option \<times> alerter_db" where
  "alert_oracle_stall rfc post now ms d = (case latest_message ms of
      None \<Rightarrow> (None, d)
    | Some m \<Rightarrow>
        let age = age_secs now (om_posted_at m); stalled = (STALL_SECS \<le> age);
            was = (map_of (ad_flags d) ''oracle_stall'' = Some ''stalled'') in
        if stalled = was then (None, d)
        else post_flag post ''oracle_stall'' (if stalled then ''stalled'' else ''live'')
          (if stalled then stall_message rfc age m else resumed_message rfc age m) d)"

definition score_stall_message :: "(int \<Rightarrow> str) \<Rightarrow> int \<Rightarrow> int \<Rightarrow> str" where
  "score_stall_message rfc age newest = ''**Lodestar Oracle scoring has stopped**'' @ [CHR ''\<newline>'']
     @ ''Newest grade computed: `'' @ rfc newest @ ''` ('' @ fmt_f 1 (fdiv (f_of_int age) (F 3600)) @ ''h ago).'' @ [CHR ''\<newline>'']
     @ ''The grade board at <https://www.lodestar-dashboard.com/qos> is showing numbers nobody has recomputed since then. Every indexer is keeping whatever letter it last had.''
     @ [CHR ''\<newline>''] @ ''Check `Scoring cycle failed` in the probe logs '' @ emdash
     @ '' the loop keeps running when the work inside it fails, so the process looking healthy means nothing here.''"

definition score_live_message :: "(int \<Rightarrow> str) \<Rightarrow> int \<Rightarrow> int \<Rightarrow> str" where
  "score_live_message rfc age newest = ''**Lodestar Oracle scoring is running again**'' @ [CHR ''\<newline>'']
     @ ''Newest grade computed: `'' @ rfc newest @ ''` ('' @ show_int (trunc_div60 age) @ ''m ago).''"

definition alert_score_stall :: "(int \<Rightarrow> str) \<Rightarrow> (nat \<Rightarrow> json \<Rightarrow> int option) \<Rightarrow> int \<Rightarrow> scorer_db \<Rightarrow>
    alerter_db \<Rightarrow> str option \<times> alerter_db" where
  "alert_score_stall rfc post now s d = (if sd_scores s = [] then (None, d)
    else
      let newest = Max (set (map (snd \<circ> snd) (sd_scores s))); age = age_secs now newest;
          stalled = (SCORE_STALE_SECS < age); state = (if stalled then ''stalled'' else ''live'');
          prev = map_of (ad_flags d) ''score_stall'' in
      if prev = Some state then (None, d)
      else if \<not> stalled \<and> prev = None then (None, d\<lparr>ad_flags := tput ''score_stall'' ''live'' (ad_flags d)\<rparr>)
      else post_flag post ''score_stall'' state
        (if stalled then score_stall_message rfc age newest else score_live_message rfc age newest) d)"

end
