(* ===== verification/Alerter_Props.thy ===== *)
theory Alerter_Props
  imports Alerter "HOL-Library.Multiset"
begin

text \<open>
  The debounce as a machine over the observations of each cycle: a state settles when it is seen
  twice in a row, and only then, and the fingerprint that triggers a post is a function of what is
  settled. A stalled feed is announced once, and again only after it recovered.
\<close>

section \<open>One member\<close>

definition member_inv :: "member \<Rightarrow> bool" where
  "member_inv m \<longleftrightarrow> (mb_streak m = 0 \<and> mb_candidate m = mb_stable m) \<or> (mb_streak m = 1 \<and> mb_candidate m \<noteq> mb_stable m)"

lemma member_step_inv: "member_inv m \<Longrightarrow> member_inv (member_step obs m)"
  by (auto simp: member_inv_def member_step_def CONFIRM_CYCLES_def)

lemma gone_absent: "member_inv m \<Longrightarrow> gone m \<longleftrightarrow> m = absent_member"
  by (cases m) (auto simp: member_inv_def gone_def absent_member_def)

lemma step_candidate: "member_inv m \<Longrightarrow> mb_candidate (member_step obs m) = obs"
  by (auto simp: member_step_def member_inv_def)

lemma step_twice: "member_inv m \<Longrightarrow> mb_stable (member_step obs (member_step obs m)) = obs"
  using step_candidate [of m obs] member_step_inv [of m obs]
  by (auto simp: member_step_def [of obs "member_step obs m"] member_inv_def CONFIRM_CYCLES_def)

lemma step_moves: "member_inv m \<Longrightarrow> mb_stable (member_step obs m) \<noteq> mb_stable m \<Longrightarrow>
    mb_candidate m = obs \<and> mb_stable (member_step obs m) = obs"
  by (auto simp: member_step_def split: if_splits)

section \<open>The table\<close>

definition all_inv :: "(str, member) table \<Rightarrow> bool" where
  "all_inv t \<longleftrightarrow> twf t \<and> (\<forall>a. member_inv (member_of t a))"

lemma update_members:
  "twf t \<Longrightarrow> twf (fold (update_member states b) as t) \<and> map_of (fold (update_member states b) as t) a =
     (if a \<in> set as then (let m = member_step (observed states a) (member_of b a) in if gone m then None else Some m)
      else map_of t a)"
proof (induction as arbitrary: t)
  case (Cons x as)
  let ?m = "member_step (observed states x) (member_of b x)"
  have t: "twf (update_member states b x t)" using Cons.prems by (simp add: update_member_def Let_def)
  have "map_of (update_member states b x t) a = (if a = x then (if gone ?m then None else Some ?m) else map_of t a)"
    using Cons.prems by (auto simp: update_member_def Let_def map_of_tdel split: option.split)
  then show ?case using Cons.IH [OF t] by (auto simp: Let_def)
qed simp

lemma observed_absent: "a \<notin> fst ` set states \<Longrightarrow> observed states a = ''absent''"
  by (force simp: observed_def opt_or_def map_of_eq_None_iff split: option.split dest: map_of_SomeD)

lemma step_absent: "member_step ''absent'' absent_member = absent_member"
  by (simp add: member_step_def absent_member_def)

lemma debounce_members:
  assumes "all_inv t" and "debounced_fingerprint states t = (fp, t')"
  shows "all_inv t'" and "member_of t' a = member_step (observed states a) (member_of t a)"
proof -
  let ?as = "map fst t @ filter (\<lambda>a. map_of t a = None) (map fst states)"
  have t': "t' = fold (update_member states t) ?as t"
    using assms(2) by (simp add: debounced_fingerprint_def Let_def)
  have up: "twf t' \<and> map_of t' a = (if a \<in> set ?as then (let m = member_step (observed states a) (member_of t a) in
      if gone m then None else Some m) else map_of t a)" for a
    using update_members [of t] assms(1) unfolding t' all_inv_def by blast
  have of: "member_of t' a = member_step (observed states a) (member_of t a)" for a
  proof (cases "a \<in> set ?as")
    case True
    have "member_inv (member_step (observed states a) (member_of t a))"
      using assms(1) member_step_inv by (simp add: all_inv_def)
    then show ?thesis using up [of a] True gone_absent by (auto simp: member_of_def opt_or_def Let_def)
  next
    case False
    then have n: "map_of t a = None" and o': "a \<notin> fst ` set states" by (auto simp: map_of_eq_None_iff)
    then have "member_of t' a = absent_member" "member_of t a = absent_member"
      using up [of a] False by (simp_all add: member_of_def opt_or_def)
    then show ?thesis using observed_absent [OF o'] step_absent by simp
  qed
  then show "member_of t' a = member_step (observed states a) (member_of t a)" .
  show "all_inv t'" using up of assms(1) member_step_inv by (simp add: all_inv_def)
qed

text \<open>The settled failures, each with its address: the text the trigger compares.\<close>

definition settled :: "(str, member) table \<Rightarrow> str \<Rightarrow> str" where
  "settled t a = mb_stable (member_of t a)"

definition fingerprint_of :: "(str \<Rightarrow> str) \<Rightarrow> str" where
  "fingerprint_of st = join '','' (sorted_list_of_multiset (image_mset (\<lambda>a. a @ '':'' @ st a) (mset_set {a. st a \<noteq> ''absent''})))"

lemma mset_map_filter: "distinct xs \<Longrightarrow>
    mset (List.map_filter (\<lambda>a. if P a then Some (f a) else None) xs) = image_mset f (mset_set {a \<in> set xs. P a})"
proof (induction xs)
  case (Cons x xs)
  have "{a \<in> set (x # xs). P a} = (if P x then insert x {a \<in> set xs. P a} else {a \<in> set xs. P a})" by auto
  then show ?case using Cons by (simp add: map_filter_simps)
qed (simp add: map_filter_simps)

lemma debounce_fingerprint:
  assumes "all_inv t" and "distinct (map fst states)" and "debounced_fingerprint states t = (fp, t')"
  shows "fp = fingerprint_of (settled t')"
proof -
  let ?as = "map fst t @ filter (\<lambda>a. map_of t a = None) (map fst states)"
  have d: "distinct ?as" using assms(1,2) by (auto simp: all_inv_def twf_def map_of_eq_None_iff)
  have st: "settled t' a = mb_stable (member_step (observed states a) (member_of t a))" for a
    by (simp add: settled_def debounce_members(2) [OF assms(1,3)])
  have c: "commit_of states t = (\<lambda>a. if settled t' a \<noteq> ''absent'' then Some (a @ '':'' @ settled t' a) else None)"
    by (auto simp: commit_of_def Let_def st gone_def fun_eq_iff)
  have "a \<in> set ?as" if "settled t' a \<noteq> ''absent''" for a
  proof (rule ccontr)
    assume "a \<notin> set ?as"
    then have n: "map_of t a = None" and o': "a \<notin> fst ` set states" by (auto simp: map_of_eq_None_iff)
    then have "settled t' a = ''absent''"
      by (simp add: st observed_absent [OF o'] member_of_def opt_or_def step_absent) (simp add: absent_member_def)
    with that show False ..
  qed
  then have all: "{a \<in> set ?as. settled t' a \<noteq> ''absent''} = {a. settled t' a \<noteq> ''absent''}" by blast
  have "mset (List.map_filter (commit_of states t) ?as) = image_mset (\<lambda>a. a @ '':'' @ settled t' a) (mset_set {a. settled t' a \<noteq> ''absent''})"
    unfolding c mset_map_filter [OF d] all ..
  then have "sort (List.map_filter (commit_of states t) ?as)
      = sorted_list_of_multiset (image_mset (\<lambda>a. a @ '':'' @ settled t' a) (mset_set {a. settled t' a \<noteq> ''absent''}))"
    by (simp only: sorted_list_of_multiset_mset [symmetric])
  then show ?thesis using assms(3) by (simp add: debounced_fingerprint_def Let_def fingerprint_of_def)
qed

section \<open>Properties\<close>

text \<open>A run of the machine over what each cycle observed.\<close>

inductive alert_run :: "(str \<times> str) list list \<Rightarrow> (str, member) table \<Rightarrow> bool" where
  start: "alert_run [] []"
| cycle: "alert_run h t \<Longrightarrow> distinct (map fst states) \<Longrightarrow> debounced_fingerprint states t = (fp, t') \<Longrightarrow>
    alert_run (h @ [states]) t'"

inductive_cases alert_run_snoc: "alert_run (h @ [states]) t"

lemma alert_run_inv: "alert_run h t \<Longrightarrow> all_inv t \<and> (h \<noteq> [] \<longrightarrow> (\<forall>a. mb_candidate (member_of t a) = observed (last h) a))"
proof (induction rule: alert_run.induct)
  case start
  show ?case by (simp add: all_inv_def twf_def member_of_def opt_or_def member_inv_def absent_member_def)
next
  case (cycle h t states fp t')
  then show ?case
    using debounce_members [of t states fp t'] step_candidate by (auto simp: all_inv_def)
qed

text \<open>
  C23. An alert moves on what lasts, and only on that: in every run, a state an indexer shows in two
  cycles in a row is settled by the second; what is settled changes only to a state seen in both of the
  last two cycles; and the text the trigger compares is a function of what is settled, so a one-cycle
  flicker never posts.
\<close>

theorem debounce_confirms:
  assumes "alert_run (h @ [s1]) t" and "distinct (map fst s2)" and "debounced_fingerprint s2 t = (fp, t')"
  shows "(observed s1 a = observed s2 a \<longrightarrow> settled t' a = observed s2 a)
    \<and> (settled t' a \<noteq> settled t a \<longrightarrow> observed s1 a = observed s2 a \<and> settled t' a = observed s2 a)
    \<and> fp = fingerprint_of (settled t')"
proof -
  have i: "all_inv t" "mb_candidate (member_of t a) = observed s1 a" using alert_run_inv [OF assms(1)] by simp_all
  then have m: "member_inv (member_of t a)" by (simp add: all_inv_def)
  have s: "settled t' a = mb_stable (member_step (observed s2 a) (member_of t a))"
    by (simp add: settled_def debounce_members(2) [OF i(1) assms(3)])
  have "settled t' a = observed s2 a" if "observed s1 a = observed s2 a"
    using m i(2) that unfolding s by (auto simp: member_step_def member_inv_def CONFIRM_CYCLES_def)
  moreover have "observed s1 a = observed s2 a \<and> settled t' a = observed s2 a" if "settled t' a \<noteq> settled t a"
    using step_moves [OF m, of "observed s2 a"] i(2) that unfolding s by (simp add: settled_def)
  ultimately show ?thesis using debounce_fingerprint [OF i(1) assms(2,3)] by blast
qed

theorem debounce_confirms_witness:
  "\<exists>fp1 t1 fp2 t2. debounced_fingerprint [(''0xa'', ''C'')] [] = (fp1, t1) \<and> debounced_fingerprint [(''0xa'', ''C'')] t1 = (fp2, t2)
     \<and> fp1 = '''' \<and> settled t2 ''0xa'' = ''C'' \<and> fp2 = fingerprint_of (settled t2)"
proof -
  let ?s = "[(''0xa'', ''C'')]"
  obtain fp1 t1 where d1: "debounced_fingerprint ?s [] = (fp1, t1)" by fastforce
  obtain fp2 t2 where d2: "debounced_fingerprint ?s t1 = (fp2, t2)" by fastforce
  have "alert_run ([] @ [?s]) t1" by (rule alert_run.cycle [OF alert_run.start _ d1]) simp
  from debounce_confirms [OF this _ d2, of "''0xa''"]
  have "settled t2 ''0xa'' = observed ?s ''0xa''" "fp2 = fingerprint_of (settled t2)" by simp_all
  moreover have "fp1 = ''''"
    using d1 by (simp add: debounced_fingerprint_def commit_of_def Let_def map_filter_simps observed_def opt_or_def member_of_def
        member_step_def absent_member_def gone_def)
  ultimately show ?thesis using d1 d2 by (auto simp: observed_def opt_or_def)
qed

end
