(* ===== verification/Alerts.thy ===== *)
theory Alerts
  imports Numbers Allocations
begin

text \<open>
  Per-indexer alerts, \<open>foghorn-core/src/alerts.rs\<close>: what changed between two looks at an indexer, the
  guard on webhook URLs and addresses, the request bodies and their delivery. Strings are their bytes,
  so the length limits are those of the source. Name resolution and the POST are parameters.
\<close>

section \<open>What changed\<close>

definition MAX_POI_STALENESS_DAYS :: int where "MAX_POI_STALENESS_DAYS = 28"
definition POI_AMBER_DAYS_LEFT :: int where "POI_AMBER_DAYS_LEFT = 7"
definition POI_RED_DAYS_LEFT :: int where "POI_RED_DAYS_LEFT = 2"
definition KINDS :: "str list" where "KINDS = [''poi'', ''denied'', ''signal'', ''cuts'', ''reo'']"

record alloc_snap =
  as_id :: str
  as_ipfs_hash :: str
  as_name :: "str option"
  as_created_at_epoch :: int
  as_signal_grt :: f64
  as_denied :: bool

record snapshot =
  sn_current_epoch :: int
  sn_allocations :: "alloc_snap list"
  sn_indexing_reward_cut :: "int option"
  sn_query_fee_cut :: "int option"
  sn_reo_status :: "str option"

record alert_event =
  ev_kind :: str
  ev_message :: str

type_synonym alert_state = "(str, str) table"

definition tone :: "int \<Rightarrow> str" where
  "tone days_left = (if days_left \<le> POI_RED_DAYS_LEFT then ''close''
     else if days_left \<le> POI_AMBER_DAYS_LEFT then ''due'' else ''fresh'')"

definition tone_rank :: "str \<Rightarrow> nat" where
  "tone_rank t = (if t = ''close'' then 2 else if t = ''due'' then 1 else 0)"

definition alloc_label :: "alloc_snap \<Rightarrow> str" where
  "alloc_label a = (case as_name a of
      Some n \<Rightarrow> if n \<noteq> '''' then n @ '' ('' @ as_ipfs_hash a @ '')'' else as_ipfs_hash a
    | None \<Rightarrow> as_ipfs_hash a)"

definition pct :: "int \<Rightarrow> str" where
  "pct ppm = fmt_f 2 (fdiv (f_of_int ppm) (F 10000)) @ ''%''"

definition days_left :: "snapshot \<Rightarrow> alloc_snap \<Rightarrow> int" where
  "days_left sn a = i64w (MAX_POI_STALENESS_DAYS - max (i64w (sn_current_epoch sn - as_created_at_epoch a)) 0)"

definition poi_message :: "int \<Rightarrow> alloc_snap \<Rightarrow> str" where
  "poi_message d a = (if tone d = ''close'' \<and> d \<le> 0 then
      ''POI overdue: '' @ alloc_label a @ '' is '' @ show_int (i64w (- d)) @ ''d past maxPOIStaleness and can be force-closed. Allocation ''
        @ as_id a @ ''.''
    else if tone d = ''close'' then
      ''POI due now: '' @ alloc_label a @ '' has '' @ show_int d @ ''d before it can be force-closed. Allocation '' @ as_id a @ ''.''
    else ''POI due soon: '' @ alloc_label a @ '' has '' @ show_int d @ ''d left. Allocation '' @ as_id a @ ''.'')"

definition denied_message :: "alloc_snap \<Rightarrow> str" where
  "denied_message a = (if as_denied a
     then ''Rewards denied: '' @ alloc_label a @ '' is on the RewardsManager denylist. Allocations there earn nothing.''
     else ''Rewards allowed again: '' @ alloc_label a @ '' is off the denylist.'')"

text \<open>How far the signal moved from its level at the last alert, in percent.\<close>

definition moved :: "f64 \<Rightarrow> f64 \<Rightarrow> f64" where
  "moved b now = (if flt (F 0) b then fdiv (fmul (F 100) (fsub now b)) b
     else if flt (F 0) now then Infty True else F 0)"

definition signal_message :: "f64 \<Rightarrow> alloc_snap \<Rightarrow> str" where
  "signal_message b a = (let m = moved b (as_signal_grt a) in
     ''Signal '' @ (if flt (F 0) m then ''up'' else ''down'') @ '' on '' @ alloc_label a @ '': '' @ fmt_f 0 b @ '' to ''
       @ fmt_f 0 (as_signal_grt a) @ '' GRT ('' @ (if flt (F 0) m then ''+'' else '''') @ fmt_f 0 (fclamp (F (- 100)) (F 9999) m) @ ''%).'')"

definition poi_key :: "alloc_snap \<Rightarrow> str" where "poi_key a = ''poi:'' @ as_id a"
definition denied_key :: "alloc_snap \<Rightarrow> str" where "denied_key a = ''denied:'' @ as_ipfs_hash a"
definition signal_key :: "alloc_snap \<Rightarrow> str" where "signal_key a = ''signal:'' @ as_ipfs_hash a"

definition signal_baseline :: "alert_state \<Rightarrow> alloc_snap \<Rightarrow> f64 option" where
  "signal_baseline prev a = Option.bind (map_of prev (signal_key a)) parse_f64"

definition signal_fires :: "alert_state \<Rightarrow> f64 \<Rightarrow> alloc_snap \<Rightarrow> bool" where
  "signal_fires prev p a = (case signal_baseline prev a of
      Some b \<Rightarrow> fle p (fabs (moved b (as_signal_grt a))) | None \<Rightarrow> False)"

text \<open>One allocation: its POI, and for the first allocation of a deployment its denial and signal.\<close>

definition poi_step :: "alert_state \<Rightarrow> snapshot \<Rightarrow> (str \<Rightarrow> bool) \<Rightarrow> alloc_snap \<Rightarrow> alert_event list \<times> str" where
  "poi_step prev sn on a =
     (let d = days_left sn a; t = tone d; was = (case map_of prev (poi_key a) of Some v \<Rightarrow> v | None \<Rightarrow> ''fresh'') in
      (if on ''poi'' \<and> prev \<noteq> [] \<and> tone_rank was < tone_rank t then [\<lparr>ev_kind = ''poi'', ev_message = poi_message d a\<rparr>] else [], t))"

definition denied_step :: "alert_state \<Rightarrow> (str \<Rightarrow> bool) \<Rightarrow> alloc_snap \<Rightarrow> alert_event list \<times> str" where
  "denied_step prev on a =
     (let was = (map_of prev (denied_key a) = Some ''1'') in
      (if on ''denied'' \<and> prev \<noteq> [] \<and> as_denied a \<noteq> was then [\<lparr>ev_kind = ''denied'', ev_message = denied_message a\<rparr>] else [],
       if as_denied a then ''1'' else ''0''))"

definition signal_step :: "alert_state \<Rightarrow> (str \<Rightarrow> bool) \<Rightarrow> f64 \<Rightarrow> alloc_snap \<Rightarrow> alert_event list \<times> str" where
  "signal_step prev on p a = (case signal_baseline prev a of
      None \<Rightarrow> ([], show_f64 (as_signal_grt a))
    | Some b \<Rightarrow> if signal_fires prev p a
        then (if on ''signal'' \<and> prev \<noteq> [] then [\<lparr>ev_kind = ''signal'', ev_message = signal_message b a\<rparr>] else [],
              show_f64 (as_signal_grt a))
        else ([], show_f64 b))"

fun alloc_steps :: "alert_state \<Rightarrow> snapshot \<Rightarrow> (str \<Rightarrow> bool) \<Rightarrow> f64 \<Rightarrow> str list \<Rightarrow> alloc_snap list \<Rightarrow>
    alert_event list \<times> alert_state \<Rightarrow> alert_event list \<times> alert_state" where
  "alloc_steps prev sn on p seen [] acc = acc"
| "alloc_steps prev sn on p seen (a # as) (evs, next) =
     (let (e1, t) = poi_step prev sn on a; next1 = tput (poi_key a) t next in
      if as_ipfs_hash a \<in> set seen then alloc_steps prev sn on p seen as (evs @ e1, next1)
      else let (e2, v2) = denied_step prev on a; (e3, v3) = signal_step prev on p a in
        alloc_steps prev sn on p (as_ipfs_hash a # seen) as
          (evs @ e1 @ e2 @ e3, tput (signal_key a) v3 (tput (denied_key a) v2 next1)))"

definition cuts_message :: "str \<Rightarrow> int \<Rightarrow> int \<Rightarrow> str" where
  "cuts_message was irc qfc =
     (let (wi, wq) = (case split_once (CHR ''/'') was of Some p \<Rightarrow> p | None \<Rightarrow> ('''', ''''));
          num = (\<lambda>s. case parse_i64 s of Some n \<Rightarrow> n | None \<Rightarrow> 0) in
      ''Cuts changed: indexing rewards '' @ pct (num wi) @ '' to '' @ pct irc @ '', query fees '' @ pct (num wq) @ '' to '' @ pct qfc @ ''.'')"

definition cuts_step :: "alert_state \<Rightarrow> snapshot \<Rightarrow> (str \<Rightarrow> bool) \<Rightarrow> alert_event list \<times> str option" where
  "cuts_step prev sn on = (case (sn_indexing_reward_cut sn, sn_query_fee_cut sn) of
      (Some irc, Some qfc) \<Rightarrow>
        let now = show_int irc @ ''/'' @ show_int qfc in
        (case map_of prev ''cuts'' of
           Some was \<Rightarrow> if on ''cuts'' \<and> was \<noteq> now then [\<lparr>ev_kind = ''cuts'', ev_message = cuts_message was irc qfc\<rparr>] else []
         | None \<Rightarrow> [], Some now)
    | _ \<Rightarrow> ([], map_of prev ''cuts''))"

definition reo_step :: "alert_state \<Rightarrow> snapshot \<Rightarrow> (str \<Rightarrow> bool) \<Rightarrow> alert_event list \<times> str option" where
  "reo_step prev sn on = (case sn_reo_status sn of
      Some now \<Rightarrow>
        (case map_of prev ''reo'' of
           Some was \<Rightarrow> if on ''reo'' \<and> was \<noteq> now
             then [\<lparr>ev_kind = ''reo'', ev_message = ''REO status changed: '' @ was @ '' to '' @ now @ ''.''\<rparr>] else []
         | None \<Rightarrow> [], Some now)
    | None \<Rightarrow> ([], map_of prev ''reo''))"

definition put_opt :: "str \<Rightarrow> str option \<Rightarrow> alert_state \<Rightarrow> alert_state" where
  "put_opt k v s = (case v of Some x \<Rightarrow> tput k x s | None \<Rightarrow> s)"

definition evaluate :: "alert_state \<Rightarrow> snapshot \<Rightarrow> str list \<Rightarrow> f64 \<Rightarrow> alert_event list \<times> alert_state" where
  "evaluate prev sn kinds p =
     (let on = (\<lambda>k. k \<in> set kinds);
          (evs, next) = alloc_steps prev sn on p [] (sn_allocations sn) ([], [(''seen'', ''1'')]);
          (e1, cuts) = cuts_step prev sn on; (e2, reo) = reo_step prev sn on
      in (evs @ e1 @ e2, put_opt ''reo'' reo (put_opt ''cuts'' cuts next)))"

section \<open>Addresses\<close>

text \<open>\<open>std::net::IpAddr\<close>: four octets or eight segments.\<close>

datatype ip = V4 "8 word list" | V6 "16 word list"

fun split_all :: "char \<Rightarrow> str \<Rightarrow> str list" where
  "split_all d [] = [[]]"
| "split_all d (c # s) = (if c = d then [] # split_all d s
     else (case split_all d s of w # ws \<Rightarrow> (c # w) # ws | [] \<Rightarrow> [[c]]))"

definition parse_octet :: "str \<Rightarrow> nat option" where
  \<comment> \<open>Up to three digits, no leading zero.\<close>
  "parse_octet s = (if 3 < length s \<or> (1 < length s \<and> hd s = CHR ''0'') then None
     else (case parse_nat s of Some n \<Rightarrow> if n < 256 then Some n else None | None \<Rightarrow> None))"

fun all_some :: "'a option list \<Rightarrow> 'a list option" where
  "all_some [] = Some []"
| "all_some (None # xs) = None"
| "all_some (Some x # xs) = map_option ((#) x) (all_some xs)"

definition parse_v4 :: "str \<Rightarrow> nat list option" where
  "parse_v4 s = (let parts = split_all (CHR ''.'') s in
     if length parts = 4 then all_some (map parse_octet parts) else None)"

definition hex_digit :: "char \<Rightarrow> nat option" where
  "hex_digit c = (if is_ascii_digit c then Some (of_char c - 48)
     else if CHR ''a'' \<le> c \<and> c \<le> CHR ''f'' then Some (of_char c - 87)
     else if CHR ''A'' \<le> c \<and> c \<le> CHR ''F'' then Some (of_char c - 55) else None)"

definition parse_segment :: "str \<Rightarrow> nat option" where
  "parse_segment s = (if s = [] \<or> 4 < length s then None
     else map_option (foldl (\<lambda>n d. 16 * n + d) 0) (all_some (map hex_digit s)))"

text \<open>Segments separated by colons; the last may be an IPv4 address, which makes two.\<close>

definition parse_segments :: "bool \<Rightarrow> str \<Rightarrow> nat list option" where
  "parse_segments v4 s = (if s = [] then Some []
     else let ps = split_all (CHR '':'') s in
       (case (if v4 then parse_v4 (last ps) else None) of
          Some [a, b, c, d] \<Rightarrow> map_option (\<lambda>xs. xs @ [256 * a + b, 256 * c + d]) (all_some (map parse_segment (butlast ps)))
        | _ \<Rightarrow> all_some (map parse_segment ps)))"

fun split_gap :: "str \<Rightarrow> (str \<times> str) option" where
  \<comment> \<open>At the first \<open>::\<close>.\<close>
  "split_gap (c # d # s) = (if c = CHR '':'' \<and> d = CHR '':'' then Some ([], s)
     else map_option (\<lambda>(a, b). (c # a, b)) (split_gap (d # s)))"
| "split_gap s = None"

definition parse_v6 :: "str \<Rightarrow> nat list option" where
  "parse_v6 s = (case split_gap s of
      None \<Rightarrow> (case parse_segments True s of Some xs \<Rightarrow> if length xs = 8 then Some xs else None | None \<Rightarrow> None)
    | Some (h, t) \<Rightarrow> (case (parse_segments False h, parse_segments True t) of
          (Some xs, Some ys) \<Rightarrow> if length xs + length ys \<le> 7 then Some (xs @ replicate (8 - length xs - length ys) 0 @ ys) else None
        | _ \<Rightarrow> None))"

definition parse_ip :: "str \<Rightarrow> ip option" where
  "parse_ip s = (case parse_v4 s of
      Some os \<Rightarrow> Some (V4 (map of_nat os)) | None \<Rightarrow> map_option (V6 \<circ> map of_nat) (parse_v6 s))"

text \<open>The octets of \<open>to_ipv4_mapped\<close>.\<close>

definition high_octet :: "16 word \<Rightarrow> 8 word" where "high_octet w = ucast (drop_bit 8 w)"

definition ipv4_mapped :: "16 word list \<Rightarrow> 8 word list option" where
  "ipv4_mapped s = (if take 5 s = replicate 5 0 \<and> s ! 5 = 0xFFFF
     then Some [high_octet (s ! 6), ucast (s ! 6), high_octet (s ! 7), ucast (s ! 7)] else None)"

definition is_public_v4 :: "8 word list \<Rightarrow> bool" where
  "is_public_v4 ys = (let o0 = ys ! 0; o1 = ys ! 1; o2 = ys ! 2 in
     \<not> (o0 = 10 \<or> (o0 = 172 \<and> 16 \<le> o1 \<and> o1 \<le> 31) \<or> (o0 = 192 \<and> o1 = 168)
       \<or> o0 = 127 \<or> (o0 = 169 \<and> o1 = 254) \<or> ys = [0, 0, 0, 0] \<or> ys = [255, 255, 255, 255]
       \<or> (o0 = 192 \<and> o1 = 0 \<and> o2 = 2) \<or> (o0 = 198 \<and> o1 = 51 \<and> o2 = 100) \<or> (o0 = 203 \<and> o1 = 0 \<and> o2 = 113)
       \<or> o0 = 0 \<or> (o0 = 100 \<and> 64 \<le> o1 \<and> o1 < 128) \<or> (o0 = 198 \<and> (o1 = 18 \<or> o1 = 19)) \<or> 224 \<le> o0))"

definition is_public_v6 :: "16 word list \<Rightarrow> bool" where
  "is_public_v6 s = (let s0 = s ! 0 in
     \<not> (s = replicate 7 0 @ [1] \<or> s = replicate 8 0 \<or> Bit_Operations.and s0 0xFF00 = 0xFF00 \<or> Bit_Operations.and s0 0xFE00 = 0xFC00 \<or> Bit_Operations.and s0 0xFFC0 = 0xFE80))"

fun is_public :: "ip \<Rightarrow> bool" where
  "is_public (V4 ys) = is_public_v4 ys"
| "is_public (V6 s) = (case ipv4_mapped s of Some ys \<Rightarrow> is_public_v4 ys | None \<Rightarrow> is_public_v6 s)"

section \<open>The webhook\<close>

definition private_host :: "str \<Rightarrow> bool" where
  "private_host h \<longleftrightarrow> h = ''localhost'' \<or> ends_with h ''.localhost'' \<or> ends_with h ''.internal'' \<or> ends_with h ''.local''"

text \<open>Host and port of an authority; \<open>None\<close> without a closing bracket. What follows a bracket and is not
  a colon is dropped, as the source drops it.\<close>

definition host_port :: "str \<Rightarrow> (str \<times> str option) option" where
  "host_port a = (case strip_prefix ''['' a of
      Some v6 \<Rightarrow> map_option (\<lambda>(h, rest). (h, strip_prefix '':'' rest)) (split_once (CHR '']'') v6)
    | None \<Rightarrow> (case split_once (CHR '':'') a of Some (h, p) \<Rightarrow> Some (h, Some p) | None \<Rightarrow> Some (a, None)))"

definition no_host :: str where "no_host = ''the webhook URL has no usable host''"

definition check_webhook_url :: "str \<Rightarrow> str + (str \<times> nat)" where
  "check_webhook_url raw =
     (if 512 < length raw then Inl ''the webhook URL is too long''
      else case strip_prefix ''https://'' raw of
        None \<Rightarrow> Inl ''the webhook URL must be https''
      | Some rest \<Rightarrow>
          let authority = before_any ''/?#'' rest in
          if authority = [] \<or> CHR ''@'' \<in> set authority then Inl no_host
          else case host_port authority of
            None \<Rightarrow> Inl no_host
          | Some (h, port) \<Rightarrow>
              if h = [] \<or> (case port of Some p \<Rightarrow> p = [] \<or> \<not> list_all is_ascii_digit p | None \<Rightarrow> False) then Inl no_host
              else let host = to_lower h in
                if private_host host then Inl ''the webhook URL points at a private host''
                else if (case parse_ip host of Some i \<Rightarrow> \<not> is_public i | None \<Rightarrow> False)
                then Inl ''the webhook URL points at a private address''
                else (case port of
                    None \<Rightarrow> Inr (host, 443)
                  | Some p \<Rightarrow> (case parse_unsigned 65535 p of Some n \<Rightarrow> Inr (host, n) | None \<Rightarrow> Inl no_host)))"

text \<open>Posts in order until one is refused: the result, and what was sent where. The answer of the
  \<open>n\<close>th post is its status, or none.\<close>

fun post_all :: "(nat \<Rightarrow> json \<Rightarrow> int option) \<Rightarrow> ip \<Rightarrow> nat \<Rightarrow> json list \<Rightarrow> (str + unit) \<times> (ip \<times> json) list" where
  "post_all post addr n [] = (Inr (), [])"
| "post_all post addr n (b # bs) = (case post n b of
      None \<Rightarrow> (Inl ''the webhook did not answer'', [(addr, b)])
    | Some st \<Rightarrow> if \<not> ok_status st then (Inl (''the webhook answered '' @ show_int st), [(addr, b)])
        else (let (r, sent) = post_all post addr (Suc n) bs in (r, (addr, b) # sent)))"

definition deliver :: "(str \<Rightarrow> nat \<Rightarrow> ip list option) \<Rightarrow> (nat \<Rightarrow> json \<Rightarrow> int option) \<Rightarrow> str \<Rightarrow> json list \<Rightarrow>
    (str + unit) \<times> (ip \<times> json) list" where
  "deliver lookup post url bodies = (case check_webhook_url url of
      Inl e \<Rightarrow> (Inl e, [])
    | Inr (host, port) \<Rightarrow> (case lookup host port of
          None \<Rightarrow> (Inl (host @ '' does not resolve''), [])
        | Some [] \<Rightarrow> (Inl (host @ '' does not resolve''), [])
        | Some (a # as) \<Rightarrow> if list_all is_public (a # as) then post_all post a 0 bodies
            else (Inl ''the webhook host resolves to a private address'', [])))"

section \<open>Request bodies\<close>

definition DISCORD_LINES_PER_KIND :: nat where "DISCORD_LINES_PER_KIND = 5"

definition is_discord :: "str \<Rightarrow> bool" where
  "is_discord url \<longleftrightarrow> starts_with url ''https://discord.com/api/webhooks/''
     \<or> starts_with url ''https://discordapp.com/api/webhooks/''"

definition kind_lines :: "alert_event list \<Rightarrow> str \<Rightarrow> str list" where
  "kind_lines events k = (let es = filter (\<lambda>e. ev_kind e = k) events in
     map ev_message (take DISCORD_LINES_PER_KIND es) @
     (if DISCORD_LINES_PER_KIND < length es
      then [''and '' @ show_nat (length es - DISCORD_LINES_PER_KIND) @ '' more '' @ k @ '' alerts on the page''] else []))"

fun pack_lines :: "str \<Rightarrow> str \<Rightarrow> str list \<Rightarrow> str list \<times> str" where
  \<comment> \<open>The finished bodies, and the one being filled.\<close>
  "pack_lines header body [] = ([], body)"
| "pack_lines header body (l # ls) =
     (let line = CHR ''\<newline>'' # ''- '' @ l in
      if 1800 < length body + length line
      then (let (done', b) = pack_lines header (header @ line) ls in (body # done', b))
      else pack_lines header (body @ line) ls)"

definition page_link :: "str \<Rightarrow> str" where
  "page_link indexer = ''https://lodestar-dashboard.com/indexers/'' @ indexer @ ''?tab=allocations''"

definition discord_bodies :: "str \<Rightarrow> alert_event list \<Rightarrow> str list" where
  "discord_bodies indexer events =
     (let header = ''**Lodestar alerts for '' @ indexer @ ''**'';
          (out, body) = pack_lines header header (concat (map (kind_lines events) (KINDS @ [''test'']))) in
      out @ [body @ CHR ''\<newline>'' # page_link indexer])"

definition payloads :: "str \<Rightarrow> str \<Rightarrow> alert_event list \<Rightarrow> json list" where
  "payloads url indexer events =
     (if \<not> is_discord url then
        [JObj [(''indexer'', JStr indexer), (''url'', JStr (page_link indexer)),
               (''events'', JArr (map (\<lambda>e. JObj [(''kind'', JStr (ev_kind e)), (''message'', JStr (ev_message e))]) events))]]
      else map (\<lambda>c. JObj [(''content'', JStr c)]) (discord_bodies indexer events))"

end
