(* ===== verification/Subscriptions.thy ===== *)
theory Subscriptions
  imports Alerts Ingest
begin

text \<open>
  Alert subscriptions: what the API accepts, stores and removes (\<open>foghorn-api/src/alerts.rs\<close>) and the
  loop that evaluates them against Lodestar and posts (\<open>foghorn-probe/src/subscriptions.rs\<close>). SHA-256,
  fresh ids and tokens, the Lodestar client and the web are parameters. The stored state is the map
  itself: it is written and read as a JSON object of strings.
\<close>

section \<open>Tables\<close>

record sub_row =
  sb_indexer :: str
  sb_url :: str
  sb_kinds :: "str list"
  sb_pct :: f64
  sb_token_sha256 :: str
  sb_created_at :: int
  sb_last_evaluated_at :: "int option"
  sb_last_delivered_at :: "int option"
  sb_failures :: int
  sb_last_error :: "str option"
  sb_disabled_at :: "int option"

record sub_db =
  subs :: "(str, sub_row) table"
  sub_states :: "(str, alert_state) table"

section \<open>The API\<close>

definition MAX_PER_WEBHOOK :: nat where "MAX_PER_WEBHOOK = 10"
definition MAX_PER_INDEXER :: nat where "MAX_PER_INDEXER = 100"

record create_subscription =
  cr_indexer :: str
  cr_webhook_url :: str
  cr_kinds :: "str list option"
  cr_signal_move_pct :: "f64 option"

record validated =
  va_indexer :: str
  va_webhook_url :: str
  va_kinds :: "str list"
  va_signal_move_pct :: f64

definition is_address :: "str \<Rightarrow> bool" where
  "is_address s \<longleftrightarrow> (case strip_prefix ''0x'' s of
      Some h \<Rightarrow> length h = 40 \<and> list_all is_ascii_hexdigit h | None \<Rightarrow> False)"

definition validate :: "create_subscription \<Rightarrow> str + validated" where
  "validate req =
     (let indexer = to_lower (trim (cr_indexer req)) in
      if \<not> is_address indexer then Inl ''indexer must be a 0x address''
      else let url = trim (cr_webhook_url req) in
        (case check_webhook_url url of
           Inl e \<Rightarrow> Inl e
         | Inr _ \<Rightarrow>
             let kinds = remdups_adj (sort (case cr_kinds req of Some ks \<Rightarrow> ks | None \<Rightarrow> KINDS)) in
             if kinds = [] then Inl ''choose at least one alert''
             else if \<not> list_all (\<lambda>k. k \<in> set KINDS) kinds then Inl ''unknown alert kind''
             else let p = (case cr_signal_move_pct req of Some x \<Rightarrow> x | None \<Rightarrow> F 20) in
               if \<not> (fle (F 1) p \<and> fle p (F 1000)) then Inl ''signal_move_pct must be between 1 and 1000''
               else Inr \<lparr>va_indexer = indexer, va_webhook_url = url, va_kinds = kinds, va_signal_move_pct = p\<rparr>))"

text \<open>A refusal is its status and message.\<close>

type_synonym refusal = "int \<times> str"

definition enabled_subs :: "sub_db \<Rightarrow> sub_row list" where
  "enabled_subs d = filter (\<lambda>r. sb_disabled_at r = None) (map snd (subs d))"

definition check_limits :: "sub_db \<Rightarrow> validated \<Rightarrow> refusal option" where
  "check_limits d v =
     (if MAX_PER_WEBHOOK \<le> length (filter (\<lambda>r. sb_url r = va_webhook_url v) (enabled_subs d))
      then Some (429, ''this webhook already has as many subscriptions as it may'')
      else if MAX_PER_INDEXER \<le> length (filter (\<lambda>r. sb_indexer r = va_indexer v) (enabled_subs d))
      then Some (429, ''this indexer already has as many subscriptions as it may'')
      else None)"

definition insert_sub :: "(str \<Rightarrow> str) \<Rightarrow> str \<Rightarrow> str \<Rightarrow> int \<Rightarrow> validated \<Rightarrow> sub_db \<Rightarrow> sub_db" where
  "insert_sub sha new_id token now v d = d\<lparr>subs := tput new_id \<lparr>sb_indexer = va_indexer v, sb_url = va_webhook_url v,
     sb_kinds = va_kinds v, sb_pct = va_signal_move_pct v, sb_token_sha256 = sha token, sb_created_at = now,
     sb_last_evaluated_at = None, sb_last_delivered_at = None, sb_failures = 0, sb_last_error = None,
     sb_disabled_at = None\<rparr> (subs d)\<rparr>"

definition hello_event :: "validated \<Rightarrow> alert_event" where
  "hello_event v = \<lparr>ev_kind = ''test'', ev_message = ''Subscribed to '' @ va_indexer v @ '' for '' @ join '', '' (va_kinds v)
     @ ''. The first check records where things stand; alerts follow on changes.''\<rparr>"

text \<open>The web of one delivery: what names resolve to, and the answers to its posts.\<close>

type_synonym web = "(str \<Rightarrow> nat \<Rightarrow> ip list option) \<times> (nat \<Rightarrow> json \<Rightarrow> int option)"

definition deliver_events :: "web \<Rightarrow> str \<Rightarrow> str \<Rightarrow> alert_event list \<Rightarrow> str + unit" where
  "deliver_events w url indexer events = fst (deliver (fst w) (snd w) url (payloads url indexer events))"

definition create_sub :: "(str \<Rightarrow> str) \<Rightarrow> web \<Rightarrow> str \<Rightarrow> str \<Rightarrow> int \<Rightarrow> create_subscription \<Rightarrow> sub_db \<Rightarrow>
    (refusal + json) \<times> sub_db" where
  "create_sub sha w new_id token now req d = (case validate req of
      Inl m \<Rightarrow> (Inl (400, m), d)
    | Inr v \<Rightarrow> (case check_limits d v of
          Some r \<Rightarrow> (Inl r, d)
        | None \<Rightarrow> (case deliver_events w (va_webhook_url v) (va_indexer v) [hello_event v] of
              Inl e \<Rightarrow> (Inl (422, ''The test post failed: '' @ e @ ''.''), d)
            | Inr _ \<Rightarrow> (Inr (JObj [(''id'', JStr new_id), (''manage_token'', JStr token), (''indexer'', JStr (va_indexer v)),
                (''kinds'', JArr (map JStr (va_kinds v))), (''signal_move_pct'', jf (va_signal_move_pct v))]), insert_sub sha new_id token now v d))))"

definition owned :: "(str \<Rightarrow> str) \<Rightarrow> str \<Rightarrow> str \<Rightarrow> sub_db \<Rightarrow> sub_row option" where
  "owned sha i token d = (case map_of (subs d) i of
      Some r \<Rightarrow> if sb_token_sha256 r = sha token then Some r else None | None \<Rightarrow> None)"

definition describe_sub :: "(str \<Rightarrow> str) \<Rightarrow> (int \<Rightarrow> json) \<Rightarrow> str \<Rightarrow> str \<Rightarrow> sub_db \<Rightarrow> refusal + json" where
  "describe_sub sha jtime i token d = (case owned sha i token d of
      None \<Rightarrow> Inl (404, ''no such subscription'')
    | Some r \<Rightarrow> Inr (JObj [(''id'', JStr i), (''indexer'', JStr (sb_indexer r)),
        (''webhook_host'', JStr (case check_webhook_url (sb_url r) of Inr (h, _) \<Rightarrow> h | Inl _ \<Rightarrow> '''')),
        (''kinds'', JArr (map JStr (sb_kinds r))), (''signal_move_pct'', jf (sb_pct r)), (''created_at'', jtime (sb_created_at r)),
        (''last_evaluated_at'', jopt jtime (sb_last_evaluated_at r)), (''last_delivered_at'', jopt jtime (sb_last_delivered_at r)),
        (''consecutive_failures'', jint (sb_failures r)), (''last_error'', jopt JStr (sb_last_error r)),
        (''disabled'', JBool (sb_disabled_at r \<noteq> None))]))"

text \<open>Removing a subscription removes its state with it (the foreign key cascades).\<close>

definition remove_sub :: "(str \<Rightarrow> str) \<Rightarrow> str \<Rightarrow> str \<Rightarrow> sub_db \<Rightarrow> (refusal + json) \<times> sub_db" where
  "remove_sub sha i token d = (case owned sha i token d of
      None \<Rightarrow> (Inl (404, ''no such subscription''), d)
    | Some _ \<Rightarrow> (Inr (JObj [(''deleted'', JBool True)]),
        d\<lparr>subs := tdel (\<lambda>k _. k = i) (subs d), sub_states := tdel (\<lambda>k _. k = i) (sub_states d)\<rparr>))"

section \<open>Snapshots\<close>

definition wei_to_grt :: "json \<Rightarrow> f64" where
  "wei_to_grt v = fdiv (case Option.bind (as_str v) parse_f64 of Some x \<Rightarrow> x | None \<Rightarrow> F 0) (F (10 ^ 18))"

definition parse_alloc :: "json \<Rightarrow> alloc_snap option" where
  "parse_alloc a = (let d = jidx a ''subgraphDeployment'' in
     case (as_str (jidx a ''id''), as_str (jidx d ''ipfsHash''), as_i64 (jidx a ''createdAtEpoch'')) of
       (Some i, Some h, Some e) \<Rightarrow> Some \<lparr>as_id = i, as_ipfs_hash = h, as_name = as_str (jidx d ''displayName''),
         as_created_at_epoch = e, as_signal_grt = wei_to_grt (jidx d ''signalledTokens''),
         as_denied = (case as_i64 (jidx d ''deniedSince'') of Some b \<Rightarrow> 0 < b | None \<Rightarrow> False)\<rparr>
     | _ \<Rightarrow> None)"

definition reo_status_of :: "json option \<Rightarrow> str option" where
  "reo_status_of reo = (case reo of None \<Rightarrow> None
     | Some r \<Rightarrow> (let s = jidx r ''status'' in
         if as_bool (jidx s ''available'') = Some True then as_str (jidx s ''status'') else None))"

definition parse_snapshot :: "json \<Rightarrow> json option \<Rightarrow> int \<Rightarrow> snapshot option" where
  "parse_snapshot detail reo epoch = (let ix = jidx (jidx detail ''data'') ''indexer'' in
     if ix = JNull then None
     else case as_array (jidx ix ''allocations'') of
       None \<Rightarrow> None
     | Some as \<Rightarrow> Some \<lparr>sn_current_epoch = epoch, sn_allocations = List.map_filter parse_alloc as,
         sn_indexing_reward_cut = as_i64 (jidx ix ''indexingRewardCut''), sn_query_fee_cut = as_i64 (jidx ix ''queryFeeCut''),
         sn_reo_status = reo_status_of reo\<rparr>)"

definition fetch_snapshot :: "lodestar_client \<Rightarrow> int \<Rightarrow> str \<Rightarrow> snapshot option" where
  "fetch_snapshot c epoch ix = (case get_json c (''/api/indexer/'' @ ix) of
      None \<Rightarrow> None
    | Some detail \<Rightarrow> parse_snapshot detail (get_json c (''/api/reo?address='' @ ix)) epoch)"

section \<open>The cycle\<close>

definition DISABLE_AFTER_FAILURES :: int where "DISABLE_AFTER_FAILURES = 96"

record sub =
  su_id :: str
  su_indexer :: str
  su_url :: str
  su_kinds :: "str list"
  su_pct :: f64
  su_state :: alert_state

definition due_subs :: "sub_db \<Rightarrow> sub list" where
  "due_subs d = map (\<lambda>(i, r). \<lparr>su_id = i, su_indexer = sb_indexer r, su_url = sb_url r, su_kinds = sb_kinds r,
       su_pct = sb_pct r, su_state = (case map_of (sub_states d) i of Some st \<Rightarrow> st | None \<Rightarrow> [])\<rparr>)
     (sort_key (\<lambda>(i, r). sb_indexer r) (filter (\<lambda>(i, r). sb_disabled_at r = None) (subs d)))"

text \<open>An \<open>UPDATE\<close> of one row.\<close>

definition update_sub :: "str \<Rightarrow> (sub_row \<Rightarrow> sub_row) \<Rightarrow> sub_db \<Rightarrow> sub_db" where
  "update_sub i f d = d\<lparr>subs := map (\<lambda>(k, r). if k = i then (k, f r) else (k, r)) (subs d)\<rparr>"

definition saved_row :: "int \<Rightarrow> bool \<Rightarrow> sub_row \<Rightarrow> sub_row" where
  "saved_row now delivered r = r\<lparr>sb_last_evaluated_at := Some now,
     sb_last_delivered_at := (if delivered then Some now else sb_last_delivered_at r),
     sb_failures := (if delivered then 0 else sb_failures r),
     sb_last_error := (if delivered then None else sb_last_error r)\<rparr>"

definition save_state :: "int \<Rightarrow> str \<Rightarrow> alert_state \<Rightarrow> bool \<Rightarrow> sub_db \<Rightarrow> sub_db" where
  "save_state now i st delivered d = update_sub i (saved_row now delivered) (d\<lparr>sub_states := tput i st (sub_states d)\<rparr>)"

definition failed_row :: "int \<Rightarrow> str \<Rightarrow> sub_row \<Rightarrow> sub_row" where
  "failed_row now e r = r\<lparr>sb_failures := sb_failures r + 1, sb_last_error := Some e, sb_last_evaluated_at := Some now,
     sb_disabled_at := (if DISABLE_AFTER_FAILURES \<le> sb_failures r + 1 then Some now else None)\<rparr>"

text \<open>One subscription, given its snapshot. The web it posts to is its own.\<close>

definition sub_step :: "int \<Rightarrow> (str \<Rightarrow> web) \<Rightarrow> sub \<Rightarrow> snapshot option \<Rightarrow> sub_db \<Rightarrow> sub_db" where
  "sub_step now w s snap d = (case snap of
      None \<Rightarrow> d
    | Some sn \<Rightarrow> (let (events, next) = evaluate (su_state s) sn (su_kinds s) (su_pct s) in
        if events = [] then save_state now (su_id s) next False d
        else (case deliver_events (w (su_id s)) (su_url s) (su_indexer s) events of
            Inr _ \<Rightarrow> save_state now (su_id s) next True d
          | Inl e \<Rightarrow> update_sub (su_id s) (failed_row now e) d)))"

text \<open>Each indexer is fetched once per cycle, a failed fetch included.\<close>

type_synonym snap_cache = "(str, snapshot option) table"

definition cached_snapshot :: "(str \<Rightarrow> snapshot option) \<Rightarrow> str \<Rightarrow> snap_cache \<Rightarrow> snapshot option \<times> snap_cache" where
  "cached_snapshot fetch ix cache = (case map_of cache ix of
      Some s \<Rightarrow> (s, cache) | None \<Rightarrow> (let s = fetch ix in (s, tput ix s cache)))"

fun sub_loop :: "int \<Rightarrow> (str \<Rightarrow> web) \<Rightarrow> (str \<Rightarrow> snapshot option) \<Rightarrow> snap_cache \<Rightarrow> sub list \<Rightarrow> sub_db \<Rightarrow> sub_db" where
  "sub_loop now w fetch cache [] d = d"
| "sub_loop now w fetch cache (s # ss) d =
     (let (snap, cache') = cached_snapshot fetch (su_indexer s) cache in
      sub_loop now w fetch cache' ss (sub_step now w s snap d))"

definition current_epoch :: "lodestar_client \<Rightarrow> int option" where
  "current_epoch c = (case get_json c ''/api/network-stats'' of
      None \<Rightarrow> None
    | Some n \<Rightarrow> as_i64 (jidx (jidx (jidx n ''data'') ''graphNetwork'') ''currentEpoch''))"

definition subscription_cycle :: "lodestar_client \<Rightarrow> (str \<Rightarrow> web) \<Rightarrow> int \<Rightarrow> sub_db \<Rightarrow> sub_db option" where
  "subscription_cycle c w now d =
     (let ss = due_subs d in
      if ss = [] then Some d
      else case current_epoch c of
        None \<Rightarrow> None
      | Some epoch \<Rightarrow> Some (sub_loop now w (fetch_snapshot c epoch) [] ss d))"

text \<open>The loop: a cycle that fails changes nothing and the next one follows.\<close>

fun subscription_loop :: "(lodestar_client \<times> (str \<Rightarrow> web) \<times> int) list \<Rightarrow> sub_db \<Rightarrow> sub_db" where
  "subscription_loop [] d = d"
| "subscription_loop ((c, w, now) # rounds) d =
     subscription_loop rounds (case subscription_cycle c w now d of Some d' \<Rightarrow> d' | None \<Rightarrow> d)"

end
