(* ===== verification/Addresses.thy ===== *)
theory Addresses
  imports Alerts
begin

text \<open>
  What a webhook post may not reach: the reserved addresses as blocks of numbers, the host and port a URL names,
  both independent of the tests in \<open>foghorn-core/src/alerts.rs\<close>, and that those tests keep to them.
\<close>

section \<open>Reserved addresses\<close>

text \<open>Independently of the octet tests of the source: an IPv4 address is a number of 32 bits, and the special-purpose
  blocks are prefixes of it. An IPv6 address is reserved by its first bits, or stands for a reserved IPv4 address.\<close>

definition v4_number :: "8 word list \<Rightarrow> nat" where
  "v4_number ys = foldl (\<lambda>n y. 256 * n + unat y) 0 ys"

definition in_block :: "8 word list \<Rightarrow> 8 word list \<times> nat \<Rightarrow> bool" where
  "in_block ys b \<longleftrightarrow> v4_number ys div 2 ^ (32 - snd b) = v4_number (fst b) div 2 ^ (32 - snd b)"

definition special_blocks :: "(8 word list \<times> nat) list" where
  "special_blocks = [([0, 0, 0, 0], 8), ([10, 0, 0, 0], 8), ([100, 64, 0, 0], 10), ([127, 0, 0, 0], 8), ([169, 254, 0, 0], 16),
     ([172, 16, 0, 0], 12), ([192, 0, 2, 0], 24), ([192, 168, 0, 0], 16), ([198, 18, 0, 0], 15), ([198, 51, 100, 0], 24),
     ([203, 0, 113, 0], 24), ([224, 0, 0, 0], 3)]"

definition reserved_v4 :: "8 word list \<Rightarrow> bool" where
  "reserved_v4 ys \<longleftrightarrow> length ys = 4 \<and> (\<exists>b \<in> set special_blocks. in_block ys b)"

definition reserved_v6 :: "16 word list \<Rightarrow> bool" where
  "reserved_v6 s \<longleftrightarrow> length s = 8 \<and> (s = [0, 0, 0, 0, 0, 0, 0, 0] \<or> s = [0, 0, 0, 0, 0, 0, 0, 1]
     \<or> unat (hd s) div 2 ^ 8 = 0xFF \<or> unat (hd s) div 2 ^ 9 = 0x7E \<or> unat (hd s) div 2 ^ 6 = 0x3FA)"

fun reserved :: "ip \<Rightarrow> bool" where
  "reserved (V4 ys) \<longleftrightarrow> reserved_v4 ys"
| "reserved (V6 s) \<longleftrightarrow> reserved_v6 s \<or> (\<exists>hi lo. s = [0, 0, 0, 0, 0, 0xFFFF, hi, lo]
     \<and> reserved_v4 [of_nat (unat hi div 256), of_nat (unat hi), of_nat (unat lo div 256), of_nat (unat lo)])"

text \<open>The octets of a number with a given prefix.\<close>

lemma octet_prefixes:
  fixes a b c :: nat
  assumes "b < 256" "c < 256"
  shows "(a * 256 + b) div 64 = 401 \<Longrightarrow> a = 100 \<and> 64 \<le> b \<and> b < 128"
    and "(a * 256 + b) div 16 = 2753 \<Longrightarrow> a = 172 \<and> 16 \<le> b \<and> b \<le> 31"
    and "(a * 256 + b) div 2 = 25353 \<Longrightarrow> a = 198 \<and> (b = 18 \<or> b = 19)"
    and "a * 256 + b = 43518 \<Longrightarrow> a = 169 \<and> b = 254"
    and "a * 256 + b = 49320 \<Longrightarrow> a = 192 \<and> b = 168"
    and "65536 * a + b * 256 + c = 12582914 \<Longrightarrow> a = 192 \<and> b = 0 \<and> c = 2"
    and "65536 * a + b * 256 + c = 12989284 \<Longrightarrow> a = 198 \<and> b = 51 \<and> c = 100"
    and "65536 * a + b * 256 + c = 13303921 \<Longrightarrow> a = 203 \<and> b = 0 \<and> c = 113"
    and "a div 32 = 7 \<Longrightarrow> 224 \<le> a"
proof -
  have range: "x div k = q \<Longrightarrow> 0 < k \<Longrightarrow> q * k \<le> x \<and> x < q * k + k" for x k q :: nat
    by (metis dividend_less_div_times div_times_less_eq_dividend add.commute)
  show "a = 100 \<and> 64 \<le> b \<and> b < 128" if "(a * 256 + b) div 64 = 401"
  proof -
    have "25664 \<le> a * 256 + b" "a * 256 + b < 25728" using range [OF that] by simp_all
    moreover from this have "a = 100" using assms by linarith
    ultimately show ?thesis by simp
  qed
  show "a = 172 \<and> 16 \<le> b \<and> b \<le> 31" if "(a * 256 + b) div 16 = 2753"
  proof -
    have "44048 \<le> a * 256 + b" "a * 256 + b < 44064" using range [OF that] by simp_all
    moreover from this have "a = 172" using assms by linarith
    ultimately show ?thesis by simp
  qed
  show "a = 198 \<and> (b = 18 \<or> b = 19)" if "(a * 256 + b) div 2 = 25353"
  proof -
    have "50706 \<le> a * 256 + b" "a * 256 + b < 50708" using range [OF that] by simp_all
    moreover from this have "a = 198" using assms by linarith
    ultimately show ?thesis by auto
  qed
  show "224 \<le> a" if "a div 32 = 7" using range [OF that] by simp
  show "a = 169 \<and> b = 254" if n: "a * 256 + b = 43518"
  proof -
    have "a = 169" using n assms by linarith
    then show ?thesis using n by simp
  qed
  show "a = 192 \<and> b = 168" if n: "a * 256 + b = 49320"
  proof -
    have "a = 192" using n assms by linarith
    then show ?thesis using n by simp
  qed
  show "a = 192 \<and> b = 0 \<and> c = 2" if n: "65536 * a + b * 256 + c = 12582914"
  proof -
    have a: "a = 192" using n assms by linarith
    have b: "b = 0" using n assms unfolding a by linarith
    show ?thesis using n unfolding a b by simp
  qed
  show "a = 198 \<and> b = 51 \<and> c = 100" if n: "65536 * a + b * 256 + c = 12989284"
  proof -
    have a: "a = 198" using n assms by linarith
    have b: "b = 51" using n assms unfolding a by linarith
    show ?thesis using n unfolding a b by simp
  qed
  show "a = 203 \<and> b = 0 \<and> c = 113" if n: "65536 * a + b * 256 + c = 13303921"
  proof -
    have a: "a = 203" using n assms by linarith
    have b: "b = 0" using n assms unfolding a by linarith
    show ?thesis using n unfolding a b by simp
  qed
qed

text \<open>The blocks by the length of their prefix.\<close>

lemma special_numbers: "map (\<lambda>b. v4_number (fst b) div 2 ^ (32 - snd b)) special_blocks =
    [0, 10, 401, 127, 43518, 2753, 12582914, 49320, 25353, 12989284, 13303921, 7]"
  by (simp add: special_blocks_def v4_number_def)

lemma special_prefixes: "(\<exists>b \<in> set special_blocks. in_block ys b) \<longleftrightarrow>
    v4_number ys div 2 ^ 24 = 0 \<or> v4_number ys div 2 ^ 24 = 10 \<or> v4_number ys div 2 ^ 22 = 401 \<or> v4_number ys div 2 ^ 24 = 127
    \<or> v4_number ys div 2 ^ 16 = 43518 \<or> v4_number ys div 2 ^ 20 = 2753 \<or> v4_number ys div 2 ^ 8 = 12582914
    \<or> v4_number ys div 2 ^ 16 = 49320 \<or> v4_number ys div 2 ^ 17 = 25353 \<or> v4_number ys div 2 ^ 8 = 12989284
    \<or> v4_number ys div 2 ^ 8 = 13303921 \<or> v4_number ys div 2 ^ 29 = 7"
  using special_numbers by (simp add: special_blocks_def in_block_def)

lemma public_v4_unreserved:
  assumes "is_public_v4 ys"
  shows "\<not> reserved_v4 ys"
proof
  assume r: "reserved_v4 ys"
  then obtain a b c d where ys: "ys = [a, b, c, d]" by (auto simp: reserved_v4_def length_Suc_conv eval_nat_numeral)
  define A B C D where o: "A = unat a" "B = unat b" "C = unat c" "D = unat d"
  have lt: "A < 256" "B < 256" "C < 256" "D < 256"
    using unsigned_less [where 'a = nat and 'b = 8] by (simp_all add: o)
  let ?n = "v4_number [a, b, c, d]"
  have n: "?n = ((A * 256 + B) * 256 + C) * 256 + D" by (simp add: v4_number_def o mult.commute)
  have p24: "?n div (2 ^ 8) = (A * 256 + B) * 256 + C" unfolding n using lt(4) by simp
  have p16: "?n div (2 ^ 16) = A * 256 + B" using div_mult2_eq [of ?n "2 ^ 8" "2 ^ 8"] lt(3) p24 by simp
  have p8: "?n div (2 ^ 24) = A" using div_mult2_eq [of ?n "2 ^ 16" "2 ^ 8"] lt(2) p16 by simp
  have pre: "?n div (2 ^ 17) = (A * 256 + B) div 2" "?n div (2 ^ 20) = (A * 256 + B) div 16"
    "?n div (2 ^ 22) = (A * 256 + B) div 64" "?n div (2 ^ 29) = A div 32"
    using div_mult2_eq [of ?n "2 ^ 16" 2] div_mult2_eq [of ?n "2 ^ 16" 16] div_mult2_eq [of ?n "2 ^ 16" 64]
      div_mult2_eq [of ?n "2 ^ 24" 32] p16 p8 by simp_all
  have pub: "\<not> A = 0" "\<not> A = 10" "\<not> A = 127" "\<not> 224 \<le> A" "\<not> (A = 100 \<and> 64 \<le> B \<and> B < 128)" "\<not> (A = 169 \<and> B = 254)"
    "\<not> (A = 172 \<and> 16 \<le> B \<and> B \<le> 31)" "\<not> (A = 192 \<and> B = 168)" "\<not> (A = 192 \<and> B = 0 \<and> C = 2)"
    "\<not> (A = 198 \<and> (B = 18 \<or> B = 19))" "\<not> (A = 198 \<and> B = 51 \<and> C = 100)" "\<not> (A = 203 \<and> B = 0 \<and> C = 113)"
    using assms unfolding ys o is_public_v4_def Let_def
    by (simp_all add: word_le_nat_alt word_less_nat_alt word_unat_eq_iff)
  have mult_pairs: "(A * 256 + B) * 256 + C = 65536 * A + B * 256 + C" by simp
  note pf = octet_prefixes [OF lt(2,3)]
  have "\<exists>blk \<in> set special_blocks. in_block [a, b, c, d] blk" using r by (simp add: reserved_v4_def ys)
  note special = this [unfolded special_prefixes p8 p16 p24 pre mult_pairs]
  show False
    by (insert special, elim disjE; (drule pf)?; erule pub [THEN notE])
qed

lemma high_bits:
  fixes w :: "16 word"
  shows "unat w div 256 = 0xFF \<longleftrightarrow> Bit_Operations.and w 0xFF00 = 0xFF00"
    and "unat w div 512 = 0x7E \<longleftrightarrow> Bit_Operations.and w 0xFE00 = 0xFC00"
    and "unat w div 64 = 0x3FA \<longleftrightarrow> Bit_Operations.and w 0xFFC0 = 0xFE80"
proof -
  have "unat w < 2 ^ 16" using unsigned_less [of w, where 'a = nat] by simp
  then have "unat (drop_bit n w) = unat w div 2 ^ n" for n
    unfolding unsigned_drop_bit_eq by (simp add: take_bit_nat_eq_self drop_bit_eq_div)
  from this [of 8] this [of 9] this [of 6] have d: "unat w div 256 = 0xFF \<longleftrightarrow> drop_bit 8 w = 0xFF" "unat w div 512 = 0x7E \<longleftrightarrow> drop_bit 9 w = 0x7E"
    "unat w div 64 = 0x3FA \<longleftrightarrow> drop_bit 6 w = 0x3FA" by (simp_all add: word_unat_eq_iff)
  have ext: "v = u \<longleftrightarrow> (bit v 0 = bit u 0 \<and> bit v 1 = bit u 1 \<and> bit v 2 = bit u 2 \<and> bit v 3 = bit u 3 \<and> bit v 4 = bit u 4 \<and> bit v 5 = bit u 5 \<and> bit v 6 = bit u 6 \<and> bit v 7 = bit u 7
      \<and> bit v 8 = bit u 8 \<and> bit v 9 = bit u 9 \<and> bit v 10 = bit u 10 \<and> bit v 11 = bit u 11 \<and> bit v 12 = bit u 12 \<and> bit v 13 = bit u 13 \<and> bit v 14 = bit u 14 \<and> bit v 15 = bit u 15)" for v u :: "16 word"
  proof -
    have "v = u \<longleftrightarrow> (\<forall>n < 16. bit v n = bit u n)" using bit_word_eqI [of v u] by auto
    then show ?thesis by (simp add: numeral_eq_Suc All_less_Suc2)
  qed
  have out: "16 \<le> n \<Longrightarrow> \<not> bit w n" for n by (auto dest: bit_imp_le_length)
  show "unat w div 256 = 0xFF \<longleftrightarrow> Bit_Operations.and w 0xFF00 = 0xFF00"
    unfolding d ext by (simp add: bit_and_iff bit_drop_bit_eq out)
  show "unat w div 512 = 0x7E \<longleftrightarrow> Bit_Operations.and w 0xFE00 = 0xFC00"
    unfolding d ext by (simp add: bit_and_iff bit_drop_bit_eq out)
  show "unat w div 64 = 0x3FA \<longleftrightarrow> Bit_Operations.and w 0xFFC0 = 0xFE80"
    unfolding d ext by (simp add: bit_and_iff bit_drop_bit_eq out)
qed

lemma replicates: "replicate 4 x = [x, x, x, x]" "replicate 5 x = [x, x, x, x, x]"
  "replicate 7 x = [x, x, x, x, x, x, x]" "replicate 8 x = [x, x, x, x, x, x, x, x]"
  by (simp_all add: eval_nat_numeral)

lemma public_v6_unreserved: "is_public_v6 s \<Longrightarrow> \<not> reserved_v6 s"
  by (cases s) (auto simp: reserved_v6_def is_public_v6_def Let_def high_bits replicates)

lemma mapped_unreserved: "ipv4_mapped s = Some ys \<Longrightarrow> \<not> reserved_v6 s"
  by (cases s) (auto simp: ipv4_mapped_def reserved_v6_def replicates split: if_splits)

lemma mapped_octets: "ipv4_mapped [0, 0, 0, 0, 0, 0xFFFF, hi, lo] =
    Some [of_nat (unat hi div 256), of_nat (unat hi), of_nat (unat lo div 256), of_nat (unat lo)]"
proof -
  have "of_nat (unat w div 256) = (ucast (w div 256) :: 8 word)" for w :: "16 word"
  proof -
    have "of_nat (unat (w div 256)) = (ucast (w div 256) :: 8 word)" by simp
    then show ?thesis unfolding unat_div by simp
  qed
  then show ?thesis by (simp add: ipv4_mapped_def high_octet_def replicates drop_bit_eq_div)
qed

lemma public_unreserved: "is_public i \<Longrightarrow> \<not> reserved i"
  by (cases i) (auto simp: public_v4_unreserved public_v6_unreserved mapped_unreserved mapped_octets split: option.splits)

section \<open>The host of a URL\<close>

text \<open>An https URL names its host up to case and its port: the authority ends at a slash, a question mark or a
  hash and has no user; an address in brackets may be followed by anything, and only a colon there opens a port.\<close>

definition names_host :: "str \<Rightarrow> str \<Rightarrow> nat \<Rightarrow> bool" where
  "names_host url host port \<longleftrightarrow> (\<exists>authority rest h. url = ''https://'' @ authority @ rest
     \<and> set authority \<inter> set ''/?#@'' = {} \<and> (rest = [] \<or> hd rest \<in> set ''/?#'') \<and> h \<noteq> [] \<and> host = to_lower h
     \<and> (authority = h \<and> hd h \<noteq> CHR ''['' \<and> CHR '':'' \<notin> set h \<and> port = 443
        \<or> (\<exists>p. authority = h @ '':'' @ p \<and> hd h \<noteq> CHR ''['' \<and> CHR '':'' \<notin> set h \<and> parse_nat p = Some port)
        \<or> (\<exists>p. authority = ''['' @ h @ '']:'' @ p \<and> CHR '']'' \<notin> set h \<and> parse_nat p = Some port)
        \<or> (\<exists>tail. authority = ''['' @ h @ '']'' @ tail \<and> CHR '']'' \<notin> set h \<and> (tail = [] \<or> hd tail \<noteq> CHR '':'') \<and> port = 443)))"

lemma parse_unsigned_digits:
  assumes "p \<noteq> []" "list_all is_ascii_digit p" "parse_unsigned mx p = Some n"
  shows "parse_nat p = Some n"
proof -
  have "split_sign p = (False, p)" using assms(1,2) digit_not_sign by (cases p) (auto simp: split_sign_def)
  then show ?thesis using assms(3) by (auto simp: parse_unsigned_def split: option.splits if_splits)
qed

text \<open>The host and port of an authority, and what they come to.\<close>

lemma host_port_names:
  assumes "host_port a = Some (h, port)" "h \<noteq> []"
  shows "case port of
      None \<Rightarrow> a = h \<and> hd h \<noteq> CHR ''['' \<and> CHR '':'' \<notin> set h
        \<or> (\<exists>tail. a = ''['' @ h @ '']'' @ tail \<and> CHR '']'' \<notin> set h \<and> (tail = [] \<or> hd tail \<noteq> CHR '':''))
    | Some p \<Rightarrow> a = h @ '':'' @ p \<and> hd h \<noteq> CHR ''['' \<and> CHR '':'' \<notin> set h
        \<or> a = ''['' @ h @ '']:'' @ p \<and> CHR '']'' \<notin> set h"
proof (cases "strip_prefix ''['' a")
  case None
  then have "a = [] \<or> hd a \<noteq> CHR ''[''" by (cases a) (auto split: if_splits)
  then show ?thesis using assms None split_once_Some [of "CHR '':''" a] split_once_None [of "CHR '':''" a]
    by (auto simp: host_port_def split: option.splits)
next
  case (Some v6)
  then obtain rest where v6: "split_once (CHR '']'') v6 = Some (h, rest)" "port = strip_prefix '':'' rest"
    using assms(1) by (auto simp: host_port_def)
  have "strip_prefix '':'' rest = None \<longleftrightarrow> rest = [] \<or> hd rest \<noteq> CHR '':''" by (cases rest) auto
  then show ?thesis using split_once_Some [OF v6(1)] Some
    by (auto simp: v6(2) strip_prefix_iff split: option.split)
qed

lemma check_accepts:
  assumes "check_webhook_url url = Inr (host, port)"
  shows "names_host url host port" and "\<not> private_host host" and "\<forall>i. parse_ip host = Some i \<longrightarrow> \<not> reserved i"
proof -
  obtain rest where rest: "url = ''https://'' @ rest"
    using assms by (auto simp: check_webhook_url_def strip_prefix_iff split: if_splits option.splits)
  define a where "a = before_any ''/?#'' rest"
  obtain h p where hp: "host_port a = Some (h, p)" "h \<noteq> []" "host = to_lower h" "CHR ''@'' \<notin> set a"
      "\<not> private_host host" "case parse_ip host of Some i \<Rightarrow> is_public i | None \<Rightarrow> True"
      "case p of None \<Rightarrow> port = 443 | Some s \<Rightarrow> s \<noteq> [] \<and> list_all is_ascii_digit s \<and> parse_unsigned 65535 s = Some port"
    using assms unfolding check_webhook_url_def rest
    by (auto simp: strip_prefix_append a_def [symmetric] Let_def split: if_splits option.splits prod.splits)
  show "\<not> private_host host" by (rule hp(5))
  show "\<forall>i. parse_ip host = Some i \<longrightarrow> \<not> reserved i" using hp(6) public_unreserved by auto
  have "rest = a @ dropWhile (\<lambda>c. c \<notin> set ''/?#'') rest" by (simp add: a_def before_any_def)
  moreover have "set a \<inter> set ''/?#'' = {}" by (auto simp: a_def before_any_def dest: set_takeWhileD)
  moreover have "dropWhile (\<lambda>c. c \<notin> set ''/?#'') rest = [] \<or> hd (dropWhile (\<lambda>c. c \<notin> set ''/?#'') rest) \<in> set ''/?#''"
    using hd_dropWhile [of "\<lambda>c. c \<notin> set ''/?#''" rest] by blast
  ultimately have url: "url = ''https://'' @ a @ dropWhile (\<lambda>c. c \<notin> set ''/?#'') rest" "set a \<inter> set ''/?#@'' = {}"
    "dropWhile (\<lambda>c. c \<notin> set ''/?#'') rest = [] \<or> hd (dropWhile (\<lambda>c. c \<notin> set ''/?#'') rest) \<in> set ''/?#''"
    using rest hp(4) by auto
  show "names_host url host port"
    unfolding names_host_def
  proof (intro exI conjI)
    show "a = h \<and> hd h \<noteq> CHR ''['' \<and> CHR '':'' \<notin> set h \<and> port = 443
        \<or> (\<exists>p. a = h @ '':'' @ p \<and> hd h \<noteq> CHR ''['' \<and> CHR '':'' \<notin> set h \<and> parse_nat p = Some port)
        \<or> (\<exists>p. a = ''['' @ h @ '']:'' @ p \<and> CHR '']'' \<notin> set h \<and> parse_nat p = Some port)
        \<or> (\<exists>tail. a = ''['' @ h @ '']'' @ tail \<and> CHR '']'' \<notin> set h \<and> (tail = [] \<or> hd tail \<noteq> CHR '':'') \<and> port = 443)"
    proof (cases p)
      case None
      then show ?thesis using host_port_names [OF hp(1,2)] hp(7) by auto
    next
      case (Some s)
      then have "parse_nat s = Some port" using hp(7) parse_unsigned_digits by auto
      then show ?thesis using host_port_names [OF hp(1,2)] Some by auto
    qed
  qed (use url hp(2,3) in blast)+
qed

end
