(* ===== verification/Alerts_Props.thy ===== *)
theory Alerts_Props
  imports Addresses
begin

text \<open>
  Alerts say each change once, and a webhook reaches public addresses only.
\<close>

section \<open>What a look writes\<close>

text \<open>The writes and the events of the loop over the allocations, as lists.\<close>

fun alloc_writes :: "alert_state \<Rightarrow> snapshot \<Rightarrow> f64 \<Rightarrow> str list \<Rightarrow> alloc_snap list \<Rightarrow> (str \<times> str) list" where
  "alloc_writes prev sn p seen [] = []"
| "alloc_writes prev sn p seen (a # as) = (poi_key a, tone (days_left sn a)) #
     (if as_ipfs_hash a \<in> set seen then alloc_writes prev sn p seen as
      else (denied_key a, if as_denied a then ''1'' else ''0'')
        # (signal_key a, snd (signal_step prev (\<lambda>_. False) p a)) # alloc_writes prev sn p (as_ipfs_hash a # seen) as)"

fun alloc_events :: "alert_state \<Rightarrow> snapshot \<Rightarrow> (str \<Rightarrow> bool) \<Rightarrow> f64 \<Rightarrow> str list \<Rightarrow> alloc_snap list \<Rightarrow> alert_event list" where
  "alloc_events prev sn on p seen [] = []"
| "alloc_events prev sn on p seen (a # as) = fst (poi_step prev sn on a) @
     (if as_ipfs_hash a \<in> set seen then alloc_events prev sn on p seen as
      else fst (denied_step prev on a) @ fst (signal_step prev on p a) @ alloc_events prev sn on p (as_ipfs_hash a # seen) as)"

abbreviation puts :: "(str \<times> str) list \<Rightarrow> alert_state \<Rightarrow> alert_state" where
  "puts ws \<equiv> fold (\<lambda>w. tput (fst w) (snd w)) ws"

lemma signal_value: "snd (signal_step prev on p a) = snd (signal_step prev (\<lambda>_. False) p a)"
  by (simp add: signal_step_def split: option.split)

lemma alloc_steps_eq: "alloc_steps prev sn on p seen as (evs, next)
    = (evs @ alloc_events prev sn on p seen as, puts (alloc_writes prev sn p seen as) next)"
proof (induction as arbitrary: seen evs "next")
  case (Cons a as)
  have "snd (poi_step prev sn on a) = tone (days_left sn a)" by (simp add: poi_step_def Let_def)
  moreover have "snd (denied_step prev on a) = (if as_denied a then ''1'' else ''0'')" by (simp add: denied_step_def Let_def)
  ultimately show ?case
    using Cons.IH signal_value [of prev on p a]
    by (cases "poi_step prev sn on a"; cases "denied_step prev on a"; cases "signal_step prev on p a") (simp add: Let_def)
qed simp

lemma key_neq [simp]: "poi_key a \<noteq> denied_key b" "denied_key b \<noteq> poi_key a" "poi_key a \<noteq> signal_key b" "signal_key b \<noteq> poi_key a"
  "denied_key a \<noteq> signal_key b" "signal_key b \<noteq> denied_key a"
  "poi_key a \<noteq> ''cuts''" "denied_key a \<noteq> ''cuts''" "signal_key a \<noteq> ''cuts''"
  "poi_key a \<noteq> ''reo''" "denied_key a \<noteq> ''reo''" "signal_key a \<noteq> ''reo''"
  by (simp_all add: poi_key_def denied_key_def signal_key_def)

lemma key_inj [simp]: "poi_key a = poi_key b \<longleftrightarrow> as_id a = as_id b"
  "denied_key a = denied_key b \<longleftrightarrow> as_ipfs_hash a = as_ipfs_hash b"
  "signal_key a = signal_key b \<longleftrightarrow> as_ipfs_hash a = as_ipfs_hash b"
  by (simp_all add: poi_key_def denied_key_def signal_key_def)

lemma write_keys: "w \<in> set (alloc_writes prev sn p seen as) \<Longrightarrow>
    \<exists>a \<in> set as. fst w = poi_key a \<or> (as_ipfs_hash a \<notin> set seen \<and> (fst w = denied_key a \<or> fst w = signal_key a))"
proof (induction as arbitrary: seen)
  case (Cons a as)
  then show ?case
    using Cons.IH [of seen] Cons.IH [of "as_ipfs_hash a # seen"] by (simp split: if_splits) (elim disjE; fastforce)+
qed simp

lemma writes_distinct: "distinct (map as_id as) \<Longrightarrow> distinct (map fst (alloc_writes prev sn p seen as))"
proof (induction as arbitrary: seen)
  case (Cons a as)
  have poi: "poi_key a \<notin> fst ` set (alloc_writes prev sn p s as)" for s
    using write_keys [of _ prev sn p s as] Cons.prems by fastforce
  have "denied_key a \<notin> fst ` set (alloc_writes prev sn p (as_ipfs_hash a # seen) as)"
    "signal_key a \<notin> fst ` set (alloc_writes prev sn p (as_ipfs_hash a # seen) as)"
    using write_keys [of _ prev sn p "as_ipfs_hash a # seen" as] by fastforce+
  then show ?case using Cons poi by auto
qed simp

lemma puts_get: "distinct (map fst ws) \<Longrightarrow> w \<in> set ws \<Longrightarrow> map_of (puts ws t) (fst w) = Some (snd w)"
proof (induction ws arbitrary: t)
  case (Cons x ws)
  have "map_of (puts ws t) k = map_of t k" if "k \<notin> fst ` set ws" for t k
    using that by (induction ws arbitrary: t) auto
  then show ?case using Cons by (cases "w = x") auto
qed simp

lemma puts_other: "k \<notin> fst ` set ws \<Longrightarrow> map_of (puts ws t) k = map_of t k"
  by (induction ws arbitrary: t) auto

section \<open>Numbers in the state\<close>

lemma parse_f64_ok: "parse_f64 s = Some x \<Longrightarrow> f64_ok x"
  by (auto simp: parse_f64_def Let_def split: if_splits option.splits prod.splits)

lemma moved_same: "flt (F 0) p \<Longrightarrow> \<not> fle p (fabs (moved x x))"
  by (cases x; cases p) (auto simp: moved_def fsub_def F_numeral)

section \<open>Looking again\<close>

lemma signal_again:
  assumes "map_of next (signal_key a) = Some (snd (signal_step prev (\<lambda>_. False) p a))"
    and "flt (F 0) p" and "f64_ok (as_signal_grt a)"
  shows "fst (signal_step next on p a) = []" and "snd (signal_step next (\<lambda>_. False) p a) = snd (signal_step prev (\<lambda>_. False) p a)"
proof -
  have "\<exists>x. snd (signal_step prev (\<lambda>_. False) p a) = show_f64 x \<and> f64_ok x \<and> \<not> fle p (fabs (moved x (as_signal_grt a)))"
  proof (cases "signal_baseline prev a")
    case None
    then show ?thesis using moved_same [OF assms(2)] assms(3)
      by (intro exI [of _ "as_signal_grt a"]) (simp add: signal_step_def)
  next
    case (Some b)
    then have "f64_ok b" using parse_f64_ok by (auto simp: signal_baseline_def bind_eq_Some_conv)
    then show ?thesis using Some moved_same [OF assms(2)] assms(3)
      by (intro exI [of _ "if signal_fires prev p a then as_signal_grt a else b"])
        (simp add: signal_step_def signal_fires_def)
  qed
  then obtain x where x: "snd (signal_step prev (\<lambda>_. False) p a) = show_f64 x" "f64_ok x"
      "\<not> fle p (fabs (moved x (as_signal_grt a)))" by blast
  have "signal_baseline next a = Some x" using assms(1) x(1) parse_show_f64 [OF x(2)] by (simp add: signal_baseline_def)
  then have "signal_step next on' p a = ([], show_f64 x)" for on'
    using x(3) by (simp add: signal_step_def signal_fires_def)
  then show "fst (signal_step next on p a) = []" and "snd (signal_step next (\<lambda>_. False) p a) = snd (signal_step prev (\<lambda>_. False) p a)"
    using x(1) by simp_all
qed

lemma allocs_again:
  assumes "\<forall>w \<in> set (alloc_writes prev sn p seen as). map_of next (fst w) = Some (snd w)"
    and "flt (F 0) p" and "\<forall>a \<in> set as. f64_ok (as_signal_grt a)"
  shows "alloc_events next sn on p seen as = [] \<and> alloc_writes next sn p seen as = alloc_writes prev sn p seen as"
  using assms(1,3)
proof (induction as arbitrary: seen)
  case (Cons a as)
  have poi: "fst (poi_step next sn on a) = []" using Cons.prems(1) by (simp add: poi_step_def Let_def)
  show ?case
  proof (cases "as_ipfs_hash a \<in> set seen")
    case True
    then show ?thesis using poi Cons.IH [of seen] Cons.prems by simp
  next
    case False
    then have d: "map_of next (denied_key a) = Some (if as_denied a then ''1'' else ''0'')"
      and s: "map_of next (signal_key a) = Some (snd (signal_step prev (\<lambda>_. False) p a))"
      using Cons.prems(1) by simp_all
    have "fst (denied_step next on a) = []" using d by (simp add: denied_step_def)
    then show ?thesis
      using False poi signal_again [OF s assms(2)] Cons.IH [of "as_ipfs_hash a # seen"] Cons.prems by simp
  qed
qed simp

lemma map_of_put_opt: "map_of (put_opt k v s) = (case v of Some x \<Rightarrow> (map_of s)(k \<mapsto> x) | None \<Rightarrow> map_of s)"
  by (simp add: put_opt_def split: option.split)

lemma cuts_again: "map_of next ''cuts'' = snd (cuts_step prev sn on) \<Longrightarrow> cuts_step next sn on = ([], snd (cuts_step prev sn on))"
  by (auto simp: cuts_step_def Let_def split: option.splits)

lemma reo_again: "map_of next ''reo'' = snd (reo_step prev sn on) \<Longrightarrow> reo_step next sn on = ([], snd (reo_step prev sn on))"
  by (auto simp: reo_step_def split: option.splits)

lemma evaluate_eq: "evaluate prev sn kinds p =
    (alloc_events prev sn (\<lambda>k. k \<in> set kinds) p [] (sn_allocations sn) @ fst (cuts_step prev sn (\<lambda>k. k \<in> set kinds))
       @ fst (reo_step prev sn (\<lambda>k. k \<in> set kinds)),
     put_opt ''reo'' (snd (reo_step prev sn (\<lambda>k. k \<in> set kinds))) (put_opt ''cuts'' (snd (cuts_step prev sn (\<lambda>k. k \<in> set kinds)))
       (puts (alloc_writes prev sn p [] (sn_allocations sn)) [(''seen'', ''1'')])))"
  by (simp add: evaluate_def alloc_steps_eq Let_def split: prod.split)

section \<open>Properties\<close>

text \<open>
  C7. Every change is told once: looking again at the same snapshot with the state the first look
  stored tells nothing and stores the same state, for allocations with distinct ids and a positive
  threshold; signals survive their decimal form in the state exactly.
\<close>

theorem second_look_is_quiet:
  assumes "evaluate prev sn kinds p = (events, next)" and "distinct (map as_id (sn_allocations sn))"
    and "flt (F 0) p" and "\<forall>a \<in> set (sn_allocations sn). f64_ok (as_signal_grt a)"
  shows "evaluate next sn kinds p = ([], next)"
proof -
  let ?on = "\<lambda>k. k \<in> set kinds" and ?W = "alloc_writes prev sn p [] (sn_allocations sn)"
  have n: "next = put_opt ''reo'' (snd (reo_step prev sn ?on)) (put_opt ''cuts'' (snd (cuts_step prev sn ?on)) (puts ?W [(''seen'', ''1'')]))"
    using assms(1) unfolding evaluate_eq by simp
  have other: "''cuts'' \<notin> fst ` set ?W" "''reo'' \<notin> fst ` set ?W"
    using write_keys [of _ prev sn p "[]" "sn_allocations sn"] by (fastforce dest: sym)+
  have "map_of next (fst w) = Some (snd w)" if "w \<in> set ?W" for w
  proof -
    have "fst w \<noteq> ''cuts''" "fst w \<noteq> ''reo''" using imageI [OF that, of fst] other by metis+
    then show ?thesis
      using puts_get [OF writes_distinct [OF assms(2)] that] unfolding n map_of_put_opt by (simp split: option.split)
  qed
  then have again: "alloc_events next sn ?on p [] (sn_allocations sn) = []" "alloc_writes next sn p [] (sn_allocations sn) = ?W"
    using allocs_again [OF _ assms(3,4)] by blast+
  have "map_of next ''cuts'' = snd (cuts_step prev sn ?on)" "map_of next ''reo'' = snd (reo_step prev sn ?on)"
    unfolding n map_of_put_opt using puts_other [OF other(1)] puts_other [OF other(2)] by (simp_all split: option.split)
  then show ?thesis unfolding evaluate_eq again using cuts_again reo_again n by simp
qed

definition one_alloc :: snapshot where
  "one_alloc = \<lparr>sn_current_epoch = 100, sn_allocations = [\<lparr>as_id = ''0xa'', as_ipfs_hash = ''QmA'', as_name = None,
     as_created_at_epoch = 75, as_signal_grt = F 1000, as_denied = True\<rparr>], sn_indexing_reward_cut = Some 100000,
     sn_query_fee_cut = Some 0, sn_reo_status = Some ''eligible''\<rparr>"

definition seen_before :: alert_state where "seen_before = [(''seen'', ''1'')]"

theorem second_look_is_quiet_witness:
  "map ev_kind (fst (evaluate seen_before one_alloc KINDS (F 20))) = [''poi'', ''denied'']
   \<and> evaluate (snd (evaluate seen_before one_alloc KINDS (F 20))) one_alloc KINDS (F 20)
     = ([], snd (evaluate seen_before one_alloc KINDS (F 20)))"
proof
  have d: "days_left one_alloc (hd (sn_allocations one_alloc)) = 3"
    by (simp add: one_alloc_def days_left_def MAX_POI_STALENESS_DAYS_def i64w_def)
  show "map ev_kind (fst (evaluate seen_before one_alloc KINDS (F 20))) = [''poi'', ''denied'']"
    using d by (simp add: evaluate_eq one_alloc_def KINDS_def poi_step_def seen_before_def tone_def tone_rank_def
        POI_RED_DAYS_LEFT_def POI_AMBER_DAYS_LEFT_def denied_step_def signal_step_def signal_baseline_def cuts_step_def
        reo_step_def poi_key_def denied_key_def signal_key_def Let_def)
  have "distinct (map as_id (sn_allocations one_alloc))" "flt (F 0) (F 20)"
    "\<forall>a \<in> set (sn_allocations one_alloc). f64_ok (as_signal_grt a)"
    by (simp_all add: one_alloc_def del: F_numeral) simp_all
  from second_look_is_quiet [OF prod.collapse [symmetric] this]
  show "evaluate (snd (evaluate seen_before one_alloc KINDS (F 20))) one_alloc KINDS (F 20)
     = ([], snd (evaluate seen_before one_alloc KINDS (F 20)))" .
qed

lemma post_all_sent: "post_all post addr n bs = (r, sent) \<Longrightarrow>
    (\<forall>x \<in> set sent. fst x = addr) \<and> (\<exists>rest. bs = map snd sent @ rest) \<and> (r = Inr () \<longrightarrow> map snd sent = bs)"
proof (induction bs arbitrary: n r sent)
  case (Cons b bs)
  show ?case
  proof (cases "\<exists>st. post n b = Some st \<and> ok_status st")
    case True
    obtain r' sent' where p: "post_all post addr (Suc n) bs = (r', sent')" by fastforce
    then have "sent = (addr, b) # sent'" "r = r'" using Cons.prems True by auto
    then show ?thesis using Cons.IH [OF p] by simp
  next
    case False
    then show ?thesis using Cons.prems by (auto split: option.splits if_splits)
  qed
qed simp


definition hook_url :: str where "hook_url = ''https://hooks.example.com:8443/x''"

lemma hook_url_ok: "check_webhook_url hook_url = Inr (''hooks.example.com'', 8443)"
proof -
  have v4: "parse_v4 ''hooks.example.com'' = None" by (simp add: parse_v4_def)
  have "parse_ip ''hooks.example.com'' = None"
    by (simp add: parse_ip_def v4 parse_v6_def parse_segments_def parse_segment_def)
  moreover have "to_lower ''hooks.example.com'' = ''hooks.example.com''" by (simp add: to_lower_def char_lower_def)
  moreover have "\<not> private_host ''hooks.example.com''" by (simp add: private_host_def ends_with_def starts_with_def)
  moreover have "parse_unsigned 65535 ''8443'' = Some 8443"
    by (simp add: parse_unsigned_def split_sign_def parse_nat_def is_ascii_digit_def)
  ultimately show ?thesis
    by (simp add: hook_url_def check_webhook_url_def before_any_def host_port_def is_ascii_digit_def)
qed


text \<open>What the address test does not know: the NAT64 prefix, which stands for the IPv4 address in it.\<close>

lemma nat64_is_accepted:
  "check_webhook_url ''https://[64:ff9b::a00:1]/x'' = Inr (''64:ff9b::a00:1'', 443)"
proof -
  have v4: "parse_v4 s = None" if "CHR ''.'' \<notin> set s" for s
  proof -
    have "length (split_all (CHR ''.'') s) = 1" using that by (induction s) (auto split: list.split)
    then show ?thesis by (simp add: parse_v4_def)
  qed
  have "parse_v6 ''64:ff9b::a00:1'' = Some [0x64, 0xff9b, 0, 0, 0, 0, 0xa00, 1]"
    by (simp add: parse_v6_def parse_segments_def v4 parse_segment_def hex_digit_def is_ascii_digit_def replicates)
  then have "parse_ip ''64:ff9b::a00:1'' = Some (V6 [0x64, 0xff9b, 0, 0, 0, 0, 0xa00, 1])"
    by (simp add: parse_ip_def v4)
  moreover have "is_public (V6 [0x64, 0xff9b, 0, 0, 0, 0, 0xa00, 1])"
    by (simp add: ipv4_mapped_def is_public_v6_def Let_def replicates)
  moreover have "to_lower ''64:ff9b::a00:1'' = ''64:ff9b::a00:1''" by (simp add: to_lower_def char_lower_def)
  moreover have "\<not> private_host ''64:ff9b::a00:1''" by (simp add: private_host_def ends_with_def starts_with_def)
  ultimately show ?thesis
    by (simp add: check_webhook_url_def before_any_def host_port_def)
qed

section \<open>Discord's limit\<close>

lemma pack_lines_spec:
  assumes "pack_lines header body ls = (out, b)" and "length body \<le> 1800"
    and "\<forall>l \<in> set ls. length header + length l \<le> 1797"
  shows "(\<forall>c \<in> set (out @ [b]). length c \<le> 1800) \<and> (\<exists>y. hd (out @ [b]) = body @ y)
    \<and> (\<forall>l \<in> set ls. \<exists>c \<in> set (out @ [b]). \<exists>x y. c = x @ l @ y)"
  using assms
proof (induction header body ls arbitrary: out rule: pack_lines.induct)
  case (2 header body l ls)
  let ?line = "CHR ''\<newline>'' # ''- '' @ l"
  show ?case
  proof (cases "1800 < length body + length ?line")
    case True
    obtain out' where p: "pack_lines header (header @ ?line) ls = (out', b)" "out = body # out'"
      using "2.prems"(1) True by (auto simp: Let_def split: prod.splits)
    have len: "length (header @ ?line) \<le> 1800" using "2.prems"(3) by simp
    note IH = "2.IH"(1) [OF refl True p(1) len]
    then obtain y where y: "hd (out' @ [b]) = (header @ CHR ''\<newline>'' # ''- '') @ l @ y" using "2.prems"(3) by auto
    have "hd (out' @ [b]) \<in> set (out' @ [b])" by (rule hd_in_set) simp
    then have "\<exists>c \<in> set (out @ [b]). \<exists>x z. c = x @ l @ z" using y p(2) by (metis append_Cons list.set_intros(2))
    moreover have "\<forall>l' \<in> set ls. \<exists>c \<in> set (out @ [b]). \<exists>x z. c = x @ l' @ z"
      using IH "2.prems"(3) unfolding p(2) by (metis append_Cons list.set_intros(2))
    moreover have "\<forall>c \<in> set (out @ [b]). length c \<le> 1800" using IH "2.prems"(2,3) unfolding p(2) by simp
    ultimately show ?thesis unfolding p(2) by simp
  next
    case False
    have p: "pack_lines header (body @ ?line) ls = (out, b)" using "2.prems"(1) False by (simp add: Let_def)
    have len: "length (body @ ?line) \<le> 1800" using False by simp
    note IH = "2.IH"(2) [OF refl False p len]
    then obtain y where y: "hd (out @ [b]) = (body @ CHR ''\<newline>'' # ''- '') @ l @ y" using "2.prems"(3) by auto
    have "hd (out @ [b]) \<in> set (out @ [b])" by (rule hd_in_set) simp
    then have "\<exists>c \<in> set (out @ [b]). \<exists>x z. c = x @ l @ z" using y by metis
    moreover have "\<exists>z. hd (out @ [b]) = body @ z" using y by (metis append.assoc)
    ultimately show ?thesis using IH "2.prems"(3) by simp
  qed
qed simp

lemma kind_line_length:
  assumes "\<forall>e \<in> set events. length (ev_message e) \<le> 1700" and "length events < 10 ^ 20"
    and "k \<in> set (KINDS @ [''test''])" and "m \<in> set (kind_lines events k)"
  shows "length m \<le> 1700"
proof -
  let ?es = "filter (\<lambda>e. ev_kind e = k) events"
  have "length ?es \<le> length events" by (rule length_filter_le)
  then have "length ?es - DISCORD_LINES_PER_KIND < 10 ^ 20" using assms(2) by linarith
  then have "length (show_nat (length ?es - DISCORD_LINES_PER_KIND)) \<le> 20" by (intro show_nat_length) simp_all
  moreover have "length k \<le> 6" using assms(3) by (auto simp: KINDS_def)
  ultimately show ?thesis
    using assms(1,4) by (auto simp: kind_lines_def Let_def dest: in_set_takeD split: if_splits)
qed

text \<open>
  C10. Every Discord message stays under the 2,000 characters Discord takes and no line is lost: for an
  indexer address and messages of at most 1,700 bytes, each body is shorter than the limit and each
  line chosen for a kind is in one of the bodies, whole.
\<close>

theorem discord_posts_fit:
  assumes "length indexer \<le> 42" and "\<forall>e \<in> set events. length (ev_message e) \<le> 1700" and "length events < 10 ^ 20"
  shows "(\<forall>c \<in> set (discord_bodies indexer events). length c < 2000)
    \<and> (\<forall>k \<in> set (KINDS @ [''test'']). \<forall>m \<in> set (kind_lines events k).
        \<exists>c \<in> set (discord_bodies indexer events). \<exists>x y. c = x @ m @ y)"
proof -
  let ?h = "''**Lodestar alerts for '' @ indexer @ ''**''" and ?ls = "concat (map (kind_lines events) (KINDS @ [''test'']))"
  obtain out b where p: "pack_lines ?h ?h ?ls = (out, b)" by fastforce
  have "length l \<le> 1700" if "l \<in> set ?ls" for l using kind_line_length [OF assms(2,3)] that by auto
  then have "\<forall>l \<in> set ?ls. length ?h + length l \<le> 1797" using assms(1) by fastforce
  from pack_lines_spec [OF p _ this] assms(1)
  have s: "\<forall>c \<in> set (out @ [b]). length c \<le> 1800" "\<forall>l \<in> set ?ls. \<exists>c \<in> set (out @ [b]). \<exists>x y. c = x @ l @ y" by simp_all
  have d: "discord_bodies indexer events = out @ [b @ CHR ''\<newline>'' # page_link indexer]"
    unfolding discord_bodies_def Let_def p by simp
  have "length (page_link indexer) \<le> 100" using assms(1) by (simp add: page_link_def)
  then have "\<forall>c \<in> set (discord_bodies indexer events). length c < 2000" using s(1) by (fastforce simp: d)
  moreover have "\<exists>c \<in> set (discord_bodies indexer events). \<exists>x y. c = x @ m @ y"
    if "k \<in> set (KINDS @ [''test''])" "m \<in> set (kind_lines events k)" for k m
  proof -
    have "m \<in> set ?ls" using that by auto
    then obtain c x y where "c \<in> set (out @ [b])" "c = x @ m @ y" using s(2) by blast
    then have "c \<in> set out \<or> b @ CHR ''\<newline>'' # page_link indexer = x @ m @ (y @ CHR ''\<newline>'' # page_link indexer)" by auto
    then show ?thesis using \<open>c = x @ m @ y\<close> unfolding d by (metis in_set_conv_decomp Un_iff set_append list.set_intros(1))
  qed
  ultimately show ?thesis by blast
qed

theorem discord_posts_fit_witness:
  "list_all (\<lambda>c. length c < 2000) (discord_bodies ''0xa'' (replicate 7 \<lparr>ev_kind = ''poi'', ev_message = ''m''\<rparr>))"
  using discord_posts_fit [of "''0xa''" "replicate 7 \<lparr>ev_kind = ''poi'', ev_message = ''m''\<rparr>"] by (simp add: list_all_iff)

text \<open>A line of its own over the limit is posted as it is: the names in it are not the program's.\<close>

lemma long_line_overflows:
  assumes "ev_kind e = ''poi''" and "2000 \<le> length (ev_message e)"
  shows "\<exists>c \<in> set (discord_bodies indexer [e]). 2000 < length c"
proof -
  have "concat (map (kind_lines [e]) (KINDS @ [''test''])) = [ev_message e]"
    by (simp add: KINDS_def kind_lines_def DISCORD_LINES_PER_KIND_def assms(1))
  then show ?thesis using assms(2) by (simp add: discord_bodies_def Let_def)
qed

end
