(* ===== verification/Subscriptions_Props.thy ===== *)
theory Subscriptions_Props
  imports Subscriptions Alerts_Props
begin

text \<open>
  What a cycle of the subscription loop does to each subscription, a webhook that keeps failing, and
  what the API accepts and lets a token reach.
\<close>

section \<open>One row at a time\<close>

text \<open>The row and the state of one subscription, and what a step does to them.\<close>

definition sub_at :: "sub_db \<Rightarrow> str \<Rightarrow> sub_row option \<times> alert_state option" where
  "sub_at d i = (map_of (subs d) i, map_of (sub_states d) i)"

definition sub_effect :: "int \<Rightarrow> (str \<Rightarrow> web) \<Rightarrow> sub \<Rightarrow> snapshot option \<Rightarrow> sub_row option \<times> alert_state option \<Rightarrow>
    sub_row option \<times> alert_state option" where
  "sub_effect now w s snap rs = (case snap of
      None \<Rightarrow> rs
    | Some sn \<Rightarrow> (let (events, next) = evaluate (su_state s) sn (su_kinds s) (su_pct s) in
        if events = [] then (map_option (saved_row now False) (fst rs), Some next)
        else (case deliver_events (w (su_id s)) (su_url s) (su_indexer s) events of
            Inr _ \<Rightarrow> (map_option (saved_row now True) (fst rs), Some next)
          | Inl e \<Rightarrow> (map_option (failed_row now e) (fst rs), snd rs))))"

lemma update_sub_row [simp]: "map_of (subs (update_sub i f d)) k =
    (if k = i then map_option f (map_of (subs d) k) else map_of (subs d) k)"
proof -
  have "map_of (map (\<lambda>(k, r). if k = i then (k, f r) else (k, r)) t) k =
      (if k = i then map_option f (map_of t k) else map_of t k)" for t :: "(str, sub_row) table"
    by (induction t) auto
  then show ?thesis by (simp add: update_sub_def)
qed

lemma update_sub_more [simp]: "sub_states (update_sub i f d) = sub_states d"
  "map fst (subs (update_sub i f d)) = map fst (subs d)"
  by (auto simp: update_sub_def split_def)

lemma sub_step_at: "sub_at (sub_step now w s snap d) i =
    (if su_id s = i then sub_effect now w s snap (sub_at d i) else sub_at d i)"
  by (auto simp: sub_step_def sub_effect_def sub_at_def save_state_def Let_def split_def split: option.splits sum.splits)

lemma sub_step_keys [simp]: "map fst (subs (sub_step now w s snap d)) = map fst (subs d)"
  by (auto simp: sub_step_def save_state_def Let_def split_def split: option.splits sum.splits)

lemma steps_at:
  assumes "distinct (map su_id ss)"
  shows "sub_at (fold (\<lambda>s. sub_step now w s (fetch (su_indexer s))) ss d) i =
    (case find (\<lambda>s. su_id s = i) ss of
       Some s \<Rightarrow> sub_effect now w s (fetch (su_indexer s)) (sub_at d i) | None \<Rightarrow> sub_at d i)"
  using assms
proof (induction ss arbitrary: d)
  case (Cons s ss)
  have none: "find (\<lambda>x. su_id x = i) ss = None" if "su_id s = i"
    using Cons.prems that by (auto simp: find_None_iff) (metis imageI)
  show ?case using Cons by (cases "su_id s = i") (simp_all add: none sub_step_at split: option.split)
qed simp

section \<open>The cache\<close>

definition cache_ok :: "(str \<Rightarrow> snapshot option) \<Rightarrow> snap_cache \<Rightarrow> bool" where
  "cache_ok fetch cache \<longleftrightarrow> (\<forall>ix s. map_of cache ix = Some s \<longrightarrow> s = fetch ix)"

lemma cached_ok: "cache_ok fetch cache \<Longrightarrow> cached_snapshot fetch ix cache = (s, cache') \<Longrightarrow> s = fetch ix \<and> cache_ok fetch cache'"
  by (auto simp: cache_ok_def cached_snapshot_def Let_def split: option.splits if_splits)

lemma sub_loop_fold: "cache_ok fetch cache \<Longrightarrow>
    sub_loop now w fetch cache ss d = fold (\<lambda>s. sub_step now w s (fetch (su_indexer s))) ss d"
proof (induction ss arbitrary: cache d)
  case (Cons s ss)
  obtain sn cache' where c: "cached_snapshot fetch (su_indexer s) cache = (sn, cache')" by (cases "cached_snapshot fetch (su_indexer s) cache")
  show ?case using cached_ok[OF Cons.prems c] Cons.IH by (simp add: c)
qed simp

section \<open>The due subscriptions\<close>

definition stored :: "sub_db \<Rightarrow> str \<Rightarrow> alert_state" where
  "stored d i = (case map_of (sub_states d) i of Some st \<Rightarrow> st | None \<Rightarrow> [])"

definition as_sub :: "sub_db \<Rightarrow> str \<Rightarrow> sub_row \<Rightarrow> sub" where
  "as_sub d i r = \<lparr>su_id = i, su_indexer = sb_indexer r, su_url = sb_url r, su_kinds = sb_kinds r,
     su_pct = sb_pct r, su_state = stored d i\<rparr>"

lemma as_sub_sel [simp]: "su_id (as_sub d i r) = i" "su_indexer (as_sub d i r) = sb_indexer r" "su_url (as_sub d i r) = sb_url r"
  "su_kinds (as_sub d i r) = sb_kinds r" "su_pct (as_sub d i r) = sb_pct r" "su_state (as_sub d i r) = stored d i"
  by (simp_all add: as_sub_def)

lemma due_subs_alt: "due_subs d = map (\<lambda>(i, r). as_sub d i r)
    (sort_key (\<lambda>(i, r). sb_indexer r) (filter (\<lambda>(i, r). sb_disabled_at r = None) (subs d)))"
  by (simp add: due_subs_def as_sub_def stored_def)

lemma due_distinct: "twf (subs d) \<Longrightarrow> distinct (map su_id (due_subs d))"
proof -
  assume w: "twf (subs d)"
  have e: "map su_id (due_subs d) = map fst (sort_key (\<lambda>(i, r). sb_indexer r) (filter (\<lambda>(i, r). sb_disabled_at r = None) (subs d)))"
    by (simp add: due_subs_alt split_def)
  have m: "mset (map su_id (due_subs d)) = mset (map fst (filter (\<lambda>(i, r). sb_disabled_at r = None) (subs d)))"
    by (simp only: e mset_map mset_sort)
  have "distinct (map fst (filter (\<lambda>(i, r). sb_disabled_at r = None) (subs d)))"
    using w by (simp add: twf_def distinct_map_filter)
  then show ?thesis using mset_eq_imp_distinct_iff[OF m] by simp
qed

lemma due_set: "twf (subs d) \<Longrightarrow> s \<in> set (due_subs d) \<longleftrightarrow>
    (\<exists>i r. map_of (subs d) i = Some r \<and> sb_disabled_at r = None \<and> s = as_sub d i r)"
  by (fastforce simp: due_subs_alt twf_def)

lemma due_find:
  assumes "twf (subs d)"
  shows "find (\<lambda>s. su_id s = i) (due_subs d) = (case map_of (subs d) i of
     Some r \<Rightarrow> if sb_disabled_at r = None then Some (as_sub d i r) else None | None \<Rightarrow> None)"
proof (cases "find (\<lambda>s. su_id s = i) (due_subs d)")
  case None
  then have *: "\<forall>s \<in> set (due_subs d). su_id s \<noteq> i" by (auto simp: find_None_iff)
  have "sb_disabled_at r \<noteq> None" if "map_of (subs d) i = Some r" for r 
  proof
    assume "sb_disabled_at r = None"
    then have "as_sub d i r \<in> set (due_subs d)" using that due_set[OF assms] by blast
    then show False using * by auto
  qed
  then show ?thesis using None by (auto split: option.splits)
next
  case (Some s)
  then have "s \<in> set (due_subs d)" "su_id s = i" by (auto simp: find_Some_iff)
  then show ?thesis using Some due_set[OF assms] by auto
qed

text \<open>What a cycle that reached Lodestar does to one subscription.\<close>

lemma cycle_at:
  assumes "twf (subs d)" "current_epoch c = Some ep" "map_of (subs d) i = Some r"
  shows "\<exists>d'. subscription_cycle c w now d = Some d' \<and> twf (subs d') \<and>
    sub_at d' i = (if sb_disabled_at r = None
      then sub_effect now w (as_sub d i r) (fetch_snapshot c ep (sb_indexer r)) (sub_at d i) else sub_at d i)"
proof -
  let ?d = "fold (\<lambda>s. sub_step now w s (fetch_snapshot c ep (su_indexer s))) (due_subs d) d"
  have keys: "map fst (subs (fold (\<lambda>s. sub_step now w s (fetch_snapshot c ep (su_indexer s))) ss x)) = map fst (subs x)" for ss x
    by (induction ss arbitrary: x) simp_all
  have e: "subscription_cycle c w now d = Some ?d"
    by (simp add: subscription_cycle_def Let_def assms(2) sub_loop_fold cache_ok_def)
  have "sub_at ?d i = (if sb_disabled_at r = None
      then sub_effect now w (as_sub d i r) (fetch_snapshot c ep (sb_indexer r)) (sub_at d i) else sub_at d i)"
    by (simp add: steps_at[OF due_distinct[OF assms(1)]] due_find[OF assms(1)] assms(3))
  then show ?thesis using e keys assms(1) by (auto simp: twf_def)
qed

section \<open>What a cycle leaves\<close>

text \<open>
  C6. A failed post loses nothing. When a cycle finds events for an enabled subscription, either every
  request was answered with success, and then the new state is stored and the failures are cleared, or
  one failed, and then the stored state stays as it was, so that the events are found again, the failure
  is counted with its error, and the 96th in a row disables the subscription. Other rows play no part.
\<close>

theorem failed_post_loses_nothing:
  assumes "twf (subs d)" "map_of (subs d) i = Some r" "sb_disabled_at r = None"
    and "current_epoch c = Some ep" "fetch_snapshot c ep (sb_indexer r) = Some sn"
    and "evaluate (case map_of (sub_states d) i of Some st \<Rightarrow> st | None \<Rightarrow> []) sn (sb_kinds r) (sb_pct r) = (events, next)"
    and "events \<noteq> []"
  shows "\<exists>d'. subscription_cycle c w now d = Some d' \<and>
    (case deliver_events (w i) (sb_url r) (sb_indexer r) events of
       Inr _ \<Rightarrow> map_of (sub_states d') i = Some next \<and>
         map_of (subs d') i = Some (r\<lparr>sb_last_evaluated_at := Some now, sb_last_delivered_at := Some now,
           sb_failures := 0, sb_last_error := None\<rparr>)
     | Inl e \<Rightarrow> map_of (sub_states d') i = map_of (sub_states d) i \<and>
         map_of (subs d') i = Some (r\<lparr>sb_last_evaluated_at := Some now, sb_failures := sb_failures r + 1,
           sb_last_error := Some e, sb_disabled_at := (if 96 \<le> sb_failures r + 1 then Some now else None)\<rparr>))"
proof -
  obtain d' where d': "subscription_cycle c w now d = Some d'"
    and at: "sub_at d' i = sub_effect now w (as_sub d i r) (Some sn) (sub_at d i)"
    using cycle_at[OF assms(1,4,2), where w = w and now = now] assms(3,5) by auto
  have ev: "evaluate (stored d i) sn (sb_kinds r) (sb_pct r) = (events, next)" using assms(6) by (simp add: stored_def)
  show ?thesis
    using at by (auto simp: d' sub_at_def sub_effect_def ev assms(2,7) saved_row_def failed_row_def DISABLE_AFTER_FAILURES_def
      split: sum.splits)
qed

section \<open>A webhook that keeps failing\<close>

definition round_fails :: "sub_db \<Rightarrow> str \<Rightarrow> sub_row \<Rightarrow> lodestar_client \<times> (str \<Rightarrow> web) \<times> int \<Rightarrow> bool" where
  "round_fails d i r rd = (case rd of (c, w, now) \<Rightarrow>
     \<exists>ep sn. current_epoch c = Some ep \<and> fetch_snapshot c ep (sb_indexer r) = Some sn \<and>
       (let events = fst (evaluate (stored d i) sn (sb_kinds r) (sb_pct r)) in
        events \<noteq> [] \<and> (\<exists>e. deliver_events (w i) (sb_url r) (sb_indexer r) events = Inl e)))"

definition same_request :: "sub_row \<Rightarrow> sub_row \<Rightarrow> bool" where
  "same_request r r' \<longleftrightarrow> sb_indexer r' = sb_indexer r \<and> sb_url r' = sb_url r \<and> sb_kinds r' = sb_kinds r \<and> sb_pct r' = sb_pct r"

lemma fails_same: "stored d' i = stored d i \<Longrightarrow> same_request r r' \<Longrightarrow> round_fails d' i r' x = round_fails d i r x"
  by (simp add: round_fails_def same_request_def)

text \<open>One failing round of an enabled subscription, and any round of a disabled one.\<close>

lemma failing_round:
  assumes "twf (subs d)" "map_of (subs d) i = Some r" "sb_disabled_at r = None" "round_fails d i r (c, w, now)"
  shows "\<exists>d' r'. subscription_cycle c w now d = Some d' \<and> twf (subs d') \<and> map_of (subs d') i = Some r' \<and>
    map_of (sub_states d') i = map_of (sub_states d) i \<and> same_request r r' \<and> sb_failures r' = sb_failures r + 1 \<and>
    (sb_disabled_at r' = None \<longleftrightarrow> sb_failures r + 1 < 96)"
proof -
  obtain ep sn where ep: "current_epoch c = Some ep" and sn: "fetch_snapshot c ep (sb_indexer r) = Some sn"
    and ev: "fst (evaluate (stored d i) sn (sb_kinds r) (sb_pct r)) \<noteq> []"
    and de: "\<exists>e. deliver_events (w i) (sb_url r) (sb_indexer r) (fst (evaluate (stored d i) sn (sb_kinds r) (sb_pct r))) = Inl e"
    using assms(4) by (auto simp: round_fails_def Let_def)
  obtain d' where "subscription_cycle c w now d = Some d'" "twf (subs d')"
    and "sub_at d' i = sub_effect now w (as_sub d i r) (Some sn) (sub_at d i)"
    using cycle_at[OF assms(1) ep assms(2), where w = w and now = now] assms(3) sn by auto
  then show ?thesis using ev de
    by (auto simp: sub_at_def sub_effect_def split_def Let_def assms(2) failed_row_def DISABLE_AFTER_FAILURES_def same_request_def)
qed

lemma disabled_round:
  assumes "twf (subs d)" "map_of (subs d) i = Some r" "sb_disabled_at r \<noteq> None"
  shows "\<exists>d'. (case subscription_cycle c w now d of Some d' \<Rightarrow> d' | None \<Rightarrow> d) = d' \<and> twf (subs d') \<and>
    map_of (subs d') i = Some r \<and> map_of (sub_states d') i = map_of (sub_states d) i"
proof (cases "current_epoch c")
  case None
  then show ?thesis using assms by (simp add: subscription_cycle_def Let_def)
next
  case (Some ep)
  then show ?thesis using cycle_at[OF assms(1) Some assms(2), where w = w and now = now] assms(2,3) by (auto simp: sub_at_def)
qed

lemma disabled_forever:
  assumes "twf (subs d)" "map_of (subs d) i = Some r" "sb_disabled_at r \<noteq> None"
  shows "map_of (subs (subscription_loop rounds d)) i = Some r \<and>
    map_of (sub_states (subscription_loop rounds d)) i = map_of (sub_states d) i"
  using assms
proof (induction rounds arbitrary: d)
  case (Cons x rounds)
  obtain c w now where x: "x = (c, w, now)" by (cases x)
  show ?case using disabled_round[OF Cons.prems, of c w now] Cons.IH Cons.prems(3) by (auto simp: x)
qed simp

text \<open>
  C28. A webhook that keeps failing is retried and then left alone. While every round finds events for a
  subscription and fails to post them, its stored state does not move, so nothing is taken for delivered;
  the failures count the rounds; and it is disabled from the 96th on, after which no round posts to it,
  counts for it or changes it.
\<close>

theorem failing_webhook_is_stopped:
  assumes "twf (subs d)" "map_of (subs d) i = Some r" "sb_disabled_at r = None" "0 \<le> sb_failures r" "sb_failures r < 96"
    and "\<forall>x \<in> set rounds. round_fails d i r x"
  shows "\<exists>r'. map_of (subs (subscription_loop rounds d)) i = Some r' \<and>
    map_of (sub_states (subscription_loop rounds d)) i = map_of (sub_states d) i \<and>
    sb_failures r' = min 96 (sb_failures r + int (length rounds)) \<and> (sb_disabled_at r' = None \<longleftrightarrow> sb_failures r' < 96)"
  using assms
proof (induction rounds arbitrary: d r)
  case (Cons x rounds)
  obtain c w now where x: "x = (c, w, now)" by (cases x)
  obtain d' r' where d': "subscription_cycle c w now d = Some d'" "twf (subs d')" "map_of (subs d') i = Some r'"
      "map_of (sub_states d') i = map_of (sub_states d) i" "same_request r r'" "sb_failures r' = sb_failures r + 1"
      "sb_disabled_at r' = None \<longleftrightarrow> sb_failures r + 1 < 96"
    using failing_round[OF Cons.prems(1,2,3), of c w now] Cons.prems(6) x by auto
  have loop: "subscription_loop (x # rounds) d = subscription_loop rounds d'" by (simp add: x d')
  show ?case
  proof (cases "sb_failures r + 1 < 96")
    case True
    have "stored d' i = stored d i" by (simp add: stored_def d')
    then have "\<forall>x \<in> set rounds. round_fails d' i r' x" using Cons.prems(6) fails_same[of d' i d r r'] d'(5) by auto
    then show ?thesis using Cons.IH[OF d'(2,3)] True d' Cons.prems(4) unfolding loop by (auto simp: add.assoc add.commute)
  next
    case False
    then have "sb_failures r' = 96" using d'(6) Cons.prems(5) by simp
    then show ?thesis using disabled_forever[OF d'(2,3), of rounds] False d' Cons.prems(5) unfolding loop by auto
  qed
qed simp

section \<open>A concrete subscription\<close>

definition demo_detail :: json where
  "demo_detail = JObj [(''data'', JObj [(''indexer'', JObj [(''allocations'', JArr [])])])]"

definition demo_client :: lodestar_client where
  "demo_client = \<lparr>lc_enriched = Unreachable, lc_qos = (\<lambda>_. Unreachable), lc_json = (\<lambda>path.
     if path = ''/api/network-stats'' then Reply 200 (Some (JObj [(''data'', JObj [(''graphNetwork'', JObj [(''currentEpoch'', jint 9)])])]))
     else if path = ''/api/reo?address=0xab'' then Reply 200 (Some (JObj [(''status'', JObj [(''available'', JBool True), (''status'', JStr ''denied'')])]))
     else Reply 200 (Some demo_detail))\<rparr>"

definition demo_snapshot :: snapshot where
  "demo_snapshot = \<lparr>sn_current_epoch = 9, sn_allocations = [], sn_indexing_reward_cut = None, sn_query_fee_cut = None,
     sn_reo_status = Some ''denied''\<rparr>"

definition demo_row :: sub_row where
  "demo_row = \<lparr>sb_indexer = ''0xab'', sb_url = ''https://a.io/x'', sb_kinds = [''reo''], sb_pct = F 20, sb_token_sha256 = ''h'',
     sb_created_at = 0, sb_last_evaluated_at = None, sb_last_delivered_at = None, sb_failures = 94, sb_last_error = None,
     sb_disabled_at = None\<rparr>"

definition demo_db :: sub_db where
  "demo_db = \<lparr>subs = [(''s'', demo_row)], sub_states = [(''s'', [(''seen'', ''1''), (''reo'', ''eligible'')])]\<rparr>"

definition demo_events :: "alert_event list" where
  "demo_events = [\<lparr>ev_kind = ''reo'', ev_message = ''REO status changed: eligible to denied.''\<rparr>]"

lemma demo_epoch: "current_epoch demo_client = Some 9"
  by (simp add: current_epoch_def demo_client_def get_json_def lodestar_get_def ok_status_def jidx_def jint_def)

lemma demo_fetch: "fetch_snapshot demo_client 9 ''0xab'' = Some demo_snapshot"
  by (simp add: fetch_snapshot_def demo_client_def get_json_def lodestar_get_def ok_status_def jidx_def demo_detail_def
    parse_snapshot_def reo_status_of_def demo_snapshot_def Let_def map_filter_simps)

lemma demo_evaluate: "evaluate [(''seen'', ''1''), (''reo'', ''eligible'')] demo_snapshot [''reo''] (F 20) =
    (demo_events, [(''seen'', ''1''), (''reo'', ''denied'')])"
  by (simp add: evaluate_def cuts_step_def reo_step_def put_opt_def demo_snapshot_def demo_events_def)

lemma demo_refused: "\<exists>e. deliver_events (\<lambda>_ _. None, \<lambda>_ _. None) u ix evs = Inl e"
  by (auto simp: deliver_events_def deliver_def split: sum.splits)

theorem failed_post_loses_nothing_witness:
  "\<exists>d' e. subscription_cycle demo_client (\<lambda>_. (\<lambda>_ _. None, \<lambda>_ _. None)) 7 demo_db = Some d' \<and>
    map_of (sub_states d') ''s'' = Some [(''seen'', ''1''), (''reo'', ''eligible'')] \<and>
    map_of (subs d') ''s'' = Some (demo_row\<lparr>sb_last_evaluated_at := Some 7, sb_failures := 95, sb_last_error := Some e\<rparr>)"
proof -
  let ?w = "\<lambda>_ :: str. ((\<lambda>_ _. None, \<lambda>_ _. None) :: web)"
  obtain e where e: "deliver_events (?w ''s'') (sb_url demo_row) (sb_indexer demo_row) demo_events = Inl e" using demo_refused by blast
  have r: "sb_indexer demo_row = ''0xab''" "sb_kinds demo_row = [''reo'']" "sb_pct demo_row = F 20" "sb_failures demo_row = 94"
    "sb_disabled_at demo_row = None" by (simp_all add: demo_row_def)
  obtain d' where "subscription_cycle demo_client ?w 7 demo_db = Some d'"
    "map_of (sub_states d') ''s'' = map_of (sub_states demo_db) ''s''"
    "map_of (subs d') ''s'' = Some (demo_row\<lparr>sb_last_evaluated_at := Some 7, sb_failures := 95, sb_last_error := Some e, sb_disabled_at := None\<rparr>)"
    using failed_post_loses_nothing[of demo_db "''s''" demo_row demo_client 9 demo_snapshot demo_events
      "[(''seen'', ''1''), (''reo'', ''denied'')]", where now = 7 and w = ?w] demo_epoch demo_fetch demo_evaluate e
    by (auto simp: r demo_db_def twf_def demo_events_def)
  then show ?thesis by (intro exI[of _ d'] exI[of _ e]) (simp add: demo_db_def demo_row_def)
qed

theorem failing_webhook_is_stopped_witness:
  "\<exists>r'. map_of (subs (subscription_loop (replicate 3 (demo_client, \<lambda>_. (\<lambda>_ _. None, \<lambda>_ _. None), 7)) demo_db)) ''s'' = Some r' \<and>
     sb_failures r' = 96 \<and> sb_disabled_at r' \<noteq> None"
proof -
  let ?x = "(demo_client, \<lambda>_ :: str. ((\<lambda>_ _. None, \<lambda>_ _. None) :: web), 7 :: int)"
  have r: "sb_indexer demo_row = ''0xab''" "sb_kinds demo_row = [''reo'']" "sb_pct demo_row = F 20" "sb_failures demo_row = 94"
    "sb_disabled_at demo_row = None" by (simp_all add: demo_row_def)
  have st: "stored demo_db ''s'' = [(''seen'', ''1''), (''reo'', ''eligible'')]" by (simp add: stored_def demo_db_def)
  have ev: "evaluate [(''seen'', ''1''), (''reo'', ''eligible'')] demo_snapshot [''reo''] (Fin 20) =
      (demo_events, [(''seen'', ''1''), (''reo'', ''denied'')])" using demo_evaluate by simp
  have "round_fails demo_db ''s'' demo_row ?x"
    using demo_refused by (auto simp add: round_fails_def r st demo_epoch demo_fetch ev demo_events_def Let_def)
  then show ?thesis
    using failing_webhook_is_stopped[of demo_db "''s''" demo_row "replicate 3 ?x"]
    by (auto simp: r demo_db_def twf_def)
qed

section \<open>The API\<close>

lemma tput_fresh: "k \<notin> fst ` set t \<Longrightarrow> tput k v t = t @ [(k, v)]"
  by (induction k v t rule: tput.induct) auto

lemma tdel_absent: "i \<notin> fst ` set t \<Longrightarrow> tdel (\<lambda>k _. k = i) t = t"
  by (force simp: tdel_def filter_id_conv)

lemma tdel_added: "i \<notin> fst ` set t \<Longrightarrow> tdel (\<lambda>k _. k = i) (tput i v t) = t"
  using tdel_absent[of i t] by (simp add: tput_fresh) (simp add: tdel_def)

text \<open>
  C13. Creating a subscription can be undone by its token and by no other. A subscription is created only
  after its test post was answered with success; it is returned its id and token; every other token is told
  there is no such subscription and changes nothing; and the token removes it, which leaves both tables as
  they were before.
\<close>

theorem create_then_remove:
  assumes "create_sub sha w i token now req d = (Inr out, d')" "i \<notin> fst ` set (subs d)" "i \<notin> fst ` set (sub_states d)"
  shows "(\<exists>v. validate req = Inr v \<and> deliver_events w (va_webhook_url v) (va_indexer v) [hello_event v] = Inr ()) \<and>
    jidx out ''id'' = JStr i \<and> jidx out ''manage_token'' = JStr token \<and>
    (\<forall>t. sha t \<noteq> sha token \<longrightarrow> describe_sub sha jtime i t d' = Inl (404, ''no such subscription'') \<and>
      remove_sub sha i t d' = (Inl (404, ''no such subscription''), d')) \<and>
    (\<exists>j. describe_sub sha jtime i token d' = Inr j) \<and>
    remove_sub sha i token d' = (Inr (JObj [(''deleted'', JBool True)]), d)"
proof -
  obtain v where v: "validate req = Inr v" "deliver_events w (va_webhook_url v) (va_indexer v) [hello_event v] = Inr ()"
    and d': "d' = insert_sub sha i token now v d" and out: "jidx out ''id'' = JStr i" "jidx out ''manage_token'' = JStr token"
    using assms(1) by (auto simp: create_sub_def jidx_def split: sum.splits option.splits)
  obtain r where app: "subs d' = subs d @ [(i, r)]" and r: "sb_token_sha256 r = sha token" and st: "sub_states d' = sub_states d"
    using d' assms(2) by (auto simp: insert_sub_def tput_fresh)
  have look: "map_of (subs d') i = Some r" using assms(2) by (auto simp: app map_add_def split: option.splits dest: map_of_SomeD intro: rev_image_eqI)
  have "remove_sub sha i token d' = (Inr (JObj [(''deleted'', JBool True)]), d)"
    using assms(2,3) by (simp add: remove_sub_def owned_def look r) (simp add: d' insert_sub_def tdel_absent tdel_added)
  then show ?thesis using v out by (auto simp: describe_sub_def remove_sub_def owned_def look r)
qed

definition demo_request :: create_subscription where
  "demo_request = \<lparr>cr_indexer = ''0x'' @ replicate 40 (CHR ''a''), cr_webhook_url = hook_url, cr_kinds = Some [''reo'', ''poi'', ''reo''],
     cr_signal_move_pct = None\<rparr>"

lemma demo_valid: "validate demo_request = Inr \<lparr>va_indexer = ''0x'' @ replicate 40 (CHR ''a''), va_webhook_url = hook_url,
    va_kinds = [''poi'', ''reo''], va_signal_move_pct = F 20\<rparr>"
proof -
  have sp: "\<not> is_space (CHR ''0'')" "\<not> is_space (CHR ''a'')" "\<not> is_space (CHR ''h'')" "\<not> is_space (CHR ''x'')"
    by (simp_all add: is_space_def)
  have low: "map char_lower (replicate 40 (CHR ''a'')) = replicate 40 (CHR ''a'')" by (simp add: char_lower_def)
  have r: "rev (dropWhile is_space (replicate 40 (CHR ''a'') @ ''x0'')) = ''0x'' @ replicate 40 (CHR ''a'')"
    by (simp add: dropWhile_append3 sp)
  have a: "to_lower (trim (''0x'' @ replicate 40 (CHR ''a''))) = ''0x'' @ replicate 40 (CHR ''a'')"
    using r by (simp add: trim_def to_lower_def sp low char_lower_def)
  have h: "is_address (''0x'' @ replicate 40 (CHR ''a''))" by (simp add: is_address_def is_ascii_hexdigit_def list_all_iff)
  have t: "trim hook_url = hook_url" by (simp add: trim_def hook_url_def sp)
  have k: "remdups_adj (sort [''reo'', ''poi'', ''reo'']) = [''poi'', ''reo'']" by simp
  have p: "fle (F 1) (F 20)" "fle (F 20) (F 1000)" by simp_all
  have ind: "to_lower (trim (cr_indexer demo_request)) = ''0x'' @ replicate 40 (CHR ''a'')" by (simp only: demo_request_def create_subscription.simps a)
  have rest: "cr_webhook_url demo_request = hook_url" "cr_kinds demo_request = Some [''reo'', ''poi'', ''reo'']"
    "cr_signal_move_pct demo_request = None" by (simp_all add: demo_request_def)
  have ks: "list_all (\<lambda>k. k \<in> set KINDS) [''poi'', ''reo'']" by (simp add: KINDS_def)
  show ?thesis
    by (simp only: validate_def Let_def ind rest h t k hook_url_ok p ks sum.case option.case if_True if_False not_True_eq_False
      simp_thms list.distinct)
qed

theorem create_then_remove_witness:
  "\<exists>out d'. create_sub (\<lambda>t. t) (\<lambda>_ _. Some [V4 [93, 184, 216, 34]], \<lambda>_ _. Some 204) ''n'' ''tok'' 7 demo_request demo_db = (Inr out, d')
    \<and> remove_sub (\<lambda>t. t) ''n'' ''tok'' d' = (Inr (JObj [(''deleted'', JBool True)]), demo_db)
    \<and> remove_sub (\<lambda>t. t) ''n'' ''other'' d' = (Inl (404, ''no such subscription''), d')"
proof -
  let ?w = "(\<lambda>_ _. Some [V4 [93, 184, 216, 34]], \<lambda>_ _. Some 204) :: web"
  have public: "is_public_v4 [93, 184, 216, 34]" by (simp add: is_public_v4_def Let_def)
  have all: "fst (post_all (\<lambda>_ _. Some 204) a n bs) = Inr ()" for a n bs
    by (induction bs arbitrary: n) (simp_all add: ok_status_def split_def)
  have del: "deliver_events ?w hook_url ix evs = Inr ()" for ix evs
    by (simp add: deliver_events_def deliver_def hook_url_ok public all)
  have lim: "check_limits demo_db v = None" for v
    by (simp add: check_limits_def enabled_subs_def demo_db_def MAX_PER_WEBHOOK_def MAX_PER_INDEXER_def)
  have "\<exists>out d'. create_sub (\<lambda>t. t) ?w ''n'' ''tok'' 7 demo_request demo_db = (Inr out, d')"
    by (simp add: create_sub_def demo_valid del lim)
  then obtain out d' where c: "create_sub (\<lambda>t. t) ?w ''n'' ''tok'' 7 demo_request demo_db = (Inr out, d')" by blast
  have "''n'' \<notin> fst ` set (subs demo_db)" "''n'' \<notin> fst ` set (sub_states demo_db)" by (simp_all add: demo_db_def)
  from create_then_remove[OF c this] c show ?thesis by (intro exI conjI) auto
qed

end
