(* ===== verification/Fees.thy ===== *)
theory Fees
  imports Allocations
begin

text \<open>
  Realised query fees, \<open>foghorn-probe/src/fees.rs\<close> and \<open>query_fees\<close> of \<open>nest.rs\<close>: settlements are read
  from the nest in pages after the highest block stored, until a page is short. The nest is a function
  of the two numbers of the query; \<open>fees_answer\<close> is what that query says of a list of events.
\<close>

section \<open>The nest\<close>

record nest_fee =
  nf_indexer :: str
  nf_deployment_id :: str
  nf_allocation_id :: str
  nf_payer :: str
  nf_tokens_collected :: str
  nf_tokens_curators :: "str option"
  nf_block_number :: int
  nf_block_timestamp :: int
  nf_log_index :: int

type_synonym fee_nest = "int \<Rightarrow> nat \<Rightarrow> nest_fee sql_body reply"

definition query_fees :: "(str \<Rightarrow> 8 word list option) \<Rightarrow> (8 word list \<Rightarrow> str) \<Rightarrow> fee_nest \<Rightarrow> int \<Rightarrow> nat \<Rightarrow>
    nest_error + nest_fee list" where
  "query_fees unhex b58 n since limit = (case nest_sql (n since limit) of
      Inl e \<Rightarrow> Inl e
    | Inr rows \<Rightarrow> Inr (map (\<lambda>f. f\<lparr>nf_deployment_id := normalise_deployment_id unhex b58 (nf_deployment_id f),
        nf_indexer := to_lower (nf_indexer f)\<rparr>) rows))"

definition fee_key :: "nest_fee \<Rightarrow> int \<times> int" where
  "fee_key f = (nf_block_number f, nf_log_index f)"

definition fees_answer :: "nest_fee list \<Rightarrow> fee_nest" where
  "fees_answer events since limit = Reply 200 (Some \<lparr>
     sb_rows = take limit (sort_key nf_block_number (sort_key nf_log_index (filter (\<lambda>f. since < nf_block_number f) events))),
     sb_truncated = False\<rparr>)"

section \<open>The table\<close>

record fee_row =
  fe_indexer_address :: str
  fe_deployment_id :: str
  fe_allocation_id :: str
  fe_payer :: str
  fe_tokens_collected :: rat
  fe_tokens_curators :: "rat option"
  fe_block_timestamp :: int

type_synonym fee_table = "(int \<times> int, fee_row) table"

definition PAGE :: nat where "PAGE = 5000"

definition fee_since :: "fee_table \<Rightarrow> int" where
  "fee_since t = (if t = [] then 0 else Max (set (map (fst \<circ> fst) t)))"

text \<open>One row; \<open>None\<close> when an amount is not a number, which fails the transaction.\<close>

definition fee_row_of :: "(str \<Rightarrow> rat option) \<Rightarrow> nest_fee \<Rightarrow> fee_row option" where
  "fee_row_of numeric f = (case numeric (nf_tokens_collected f) of
      None \<Rightarrow> None
    | Some c \<Rightarrow> map_option (\<lambda>q. \<lparr>fe_indexer_address = nf_indexer f, fe_deployment_id = nf_deployment_id f,
        fe_allocation_id = to_lower (nf_allocation_id f), fe_payer = to_lower (nf_payer f), fe_tokens_collected = c,
        fe_tokens_curators = q, fe_block_timestamp = nf_block_timestamp f\<rparr>)
        (case nf_tokens_curators f of None \<Rightarrow> Some None | Some s \<Rightarrow> map_option Some (numeric s)))"

definition insert_fee :: "(str \<Rightarrow> rat option) \<Rightarrow> nest_fee \<Rightarrow> fee_table option \<Rightarrow> fee_table option" where
  "insert_fee numeric f t = (case t of None \<Rightarrow> None
    | Some t \<Rightarrow> map_option (\<lambda>r. tput_new (fee_key f) r t) (fee_row_of numeric f))"

text \<open>A pass: how many rows it went through, \<open>None\<close> for an error, and the table.\<close>

definition ingest_fees_once :: "(str \<Rightarrow> 8 word list option) \<Rightarrow> (8 word list \<Rightarrow> str) \<Rightarrow> (str \<Rightarrow> rat option) \<Rightarrow> fee_nest \<Rightarrow>
    fee_table \<Rightarrow> nat option \<times> fee_table" where
  "ingest_fees_once unhex b58 numeric n t = (case query_fees unhex b58 n (fee_since t) PAGE of
      Inl e \<Rightarrow> (None, t)
    | Inr fees \<Rightarrow> (case fold (insert_fee numeric) fees (Some t) of
        None \<Rightarrow> (None, t) | Some t' \<Rightarrow> (Some (length fees), t')))"

text \<open>The backlog is drained before the loop sleeps: until a short page or an error.\<close>

partial_function (option) drain_fees :: "(fee_table \<Rightarrow> nat option \<times> fee_table) \<Rightarrow> fee_table \<Rightarrow> fee_table option" where
  "drain_fees pass t = (case pass t of
      (None, t') \<Rightarrow> Some t'
    | (Some k, t') \<Rightarrow> if k < PAGE then Some t' else drain_fees pass t')"

end
