(* ===== verification/Fees_Props.thy ===== *)
theory Fees_Props
  imports Fees
begin

text \<open>
  Draining the backlog of settlements ends and stores every event but those of a block a page ended in;
  what is left behind there is never asked for again.
\<close>

section \<open>One pass\<close>

text \<open>What is newer than a block, in the order of the query, and the blocks a page may end inside.\<close>

definition backlog :: "nest_fee list \<Rightarrow> int \<Rightarrow> nest_fee list" where
  "backlog chain since = sort_key nf_block_number (sort_key nf_log_index (filter (\<lambda>f. since < nf_block_number f) chain))"

definition split_at :: "nest_fee list \<Rightarrow> int \<Rightarrow> int \<Rightarrow> bool" where
  "split_at chain since b \<longleftrightarrow> PAGE < length (backlog chain since) \<and>
     nf_block_number (backlog chain since ! (PAGE - 1)) = b \<and> nf_block_number (backlog chain since ! PAGE) = b"

abbreviation keys :: "fee_table \<Rightarrow> (int \<times> int) set" where "keys t \<equiv> fst ` set t"

lemma set_backlog [simp]: "set (backlog chain since) = {f \<in> set chain. since < nf_block_number f}"
  by (simp add: backlog_def)

lemma length_backlog [simp]: "length (backlog chain since) = length (filter (\<lambda>f. since < nf_block_number f) chain)"
  by (simp add: backlog_def)

lemma sorted_backlog: "sorted (map nf_block_number (backlog chain since))"
  by (simp add: backlog_def)

lemma keys_tput_new [simp]: "keys (tput_new k v t) = insert k (keys t)"
proof (cases "map_of t k")
  case None
  then show ?thesis by (simp add: tput_new_def)
next
  case (Some r)
  then have "(k, r) \<in> set t" by (rule map_of_SomeD)
  then have "k \<in> keys t" by (rule image_eqI[rotated]) simp
  then show ?thesis by (simp add: tput_new_def Some insert_absorb)
qed

lemma insert_fees:
  assumes "\<forall>f \<in> set fs. fee_row_of numeric f \<noteq> None"
  shows "\<exists>t'. fold (insert_fee numeric) fs (Some t) = Some t' \<and> keys t' = keys t \<union> fee_key ` set fs"
  using assms
proof (induction fs arbitrary: t)
  case (Cons f fs)
  obtain r where r: "fee_row_of numeric f = Some r" using Cons.prems by auto
  obtain t' where "fold (insert_fee numeric) fs (Some (tput_new (fee_key f) r t)) = Some t'"
    "keys t' = keys (tput_new (fee_key f) r t) \<union> fee_key ` set fs"
    using Cons.IH[of "tput_new (fee_key f) r t"] Cons.prems by auto
  moreover have "insert_fee numeric f (Some t) = Some (tput_new (fee_key f) r t)" by (simp add: insert_fee_def r)
  ultimately show ?case by simp
qed simp

definition normal_fee :: "(str \<Rightarrow> 8 word list option) \<Rightarrow> (8 word list \<Rightarrow> str) \<Rightarrow> nest_fee \<Rightarrow> nest_fee" where
  "normal_fee unhex b58 f = f\<lparr>nf_deployment_id := normalise_deployment_id unhex b58 (nf_deployment_id f),
     nf_indexer := to_lower (nf_indexer f)\<rparr>"

lemma normal_fee_key [simp]: "fee_key (normal_fee unhex b58 f) = fee_key f"
  by (simp add: normal_fee_def fee_key_def)

definition castable :: "(str \<Rightarrow> rat option) \<Rightarrow> nest_fee \<Rightarrow> bool" where
  "castable numeric f \<longleftrightarrow> numeric (nf_tokens_collected f) \<noteq> None \<and>
     (case nf_tokens_curators f of None \<Rightarrow> True | Some s \<Rightarrow> numeric s \<noteq> None)"

lemma castable_row: "castable numeric f \<Longrightarrow> fee_row_of numeric (normal_fee unhex b58 f) \<noteq> None"
  by (auto simp: castable_def fee_row_of_def normal_fee_def split: option.splits)

lemma fee_pass:
  assumes "\<forall>f \<in> set chain. castable numeric f"
  shows "\<exists>t'. ingest_fees_once unhex b58 numeric (fees_answer chain) t =
      (Some (length (take PAGE (backlog chain (fee_since t)))), t') \<and>
    keys t' = keys t \<union> fee_key ` set (take PAGE (backlog chain (fee_since t)))"
proof -
  let ?rows = "take PAGE (backlog chain (fee_since t))"
  have q: "query_fees unhex b58 (fees_answer chain) (fee_since t) PAGE = Inr (map (normal_fee unhex b58) ?rows)"
    by (simp add: query_fees_def fees_answer_def nest_sql_def ok_status_def backlog_def normal_fee_def cong: map_cong)
  have "\<forall>f \<in> set (map (normal_fee unhex b58) ?rows). fee_row_of numeric f \<noteq> None"
    using assms castable_row set_take_subset[of PAGE "backlog chain (fee_since t)"] by fastforce
  then obtain t' where t': "fold (insert_fee numeric) (map (normal_fee unhex b58) ?rows) (Some t) = Some t'"
      "keys t' = keys t \<union> fee_key ` set (map (normal_fee unhex b58) ?rows)"
    using insert_fees by meson
  show ?thesis unfolding ingest_fees_once_def q sum.case t'(1) option.case
    using t'(2) by (intro exI[of _ t']) (simp add: image_image)
qed

text \<open>The next query starts at the block of the last row.\<close>

lemma fee_since_ge: "k \<in> keys t \<Longrightarrow> fst k \<le> fee_since t"
  by (force simp: fee_since_def intro: Max_ge)

lemma fee_since_next:
  assumes k: "keys t' = keys t \<union> fee_key ` set rows" and s: "sorted (map nf_block_number rows)"
    and n: "rows \<noteq> []" "\<forall>f \<in> set rows. fee_since t < nf_block_number f"
  shows "fee_since t' = nf_block_number (last rows)"
proof -
  have ne: "t' \<noteq> []" using k n(1) by auto
  have l: "last rows \<in> set rows" using n(1) by simp
  have le: "nf_block_number f \<le> nf_block_number (last rows)" if "f \<in> set rows" for f
  proof -
    obtain i where i: "i < length rows" "f = rows ! i" using \<open>f \<in> set rows\<close> by (auto simp: in_set_conv_nth)
    then show ?thesis using s n(1) by (simp add: last_conv_nth sorted_iff_nth_mono)
  qed
  have up: "fst k' \<le> nf_block_number (last rows)" if "k' \<in> keys t'" for k'
  proof (cases "k' \<in> keys t")
    case True
    then show ?thesis using fee_since_ge[OF True] n(2) l by fastforce
  next
    case False
    then show ?thesis using that k le by (auto simp: fee_key_def)
  qed
  have "(nf_block_number (last rows), nf_log_index (last rows)) \<in> keys t'" using k l by (auto simp: fee_key_def)
  then have "Max (fst ` keys t') = nf_block_number (last rows)"
    using up by (intro Max_eqI) (auto intro: rev_image_eqI)
  then show ?thesis using ne by (simp add: fee_since_def image_image)
qed

section \<open>The backlog\<close>

lemma split_blockI:
  assumes "e \<in> set (drop PAGE (backlog chain since))" and "nf_block_number e \<le> nf_block_number (backlog chain since ! (PAGE - 1))"
  shows "split_at chain since (nf_block_number e)"
proof -
  let ?B = "backlog chain since"
  have long: "PAGE < length ?B" using assms(1) by (cases "PAGE < length ?B") auto
  obtain i where "i < length (drop PAGE ?B)" "e = drop PAGE ?B ! i" using assms(1) by (auto simp only: in_set_conv_nth)
  then have i: "PAGE + i < length ?B" "e = ?B ! (PAGE + i)" using long by (simp_all del: length_backlog)
  have mono: "nf_block_number (?B ! j) \<le> nf_block_number (?B ! k)" if "j \<le> k" "k < length ?B" for j k
    using sorted_backlog[of chain since] that by (simp add: sorted_iff_nth_mono)
  show ?thesis using mono[of "PAGE - 1" PAGE] mono[of PAGE "PAGE + i"] long i assms(2) by (simp add: split_at_def)
qed

lemma filter_shorter:
  assumes "\<And>x. P x \<Longrightarrow> Q x" "y \<in> set xs" "Q y" "\<not> P y"
  shows "length (filter P xs) < length (filter Q xs)"
proof -
  have "length (filter P ys) \<le> length (filter Q ys)" for ys using assms(1) by (induction ys) auto
  then show ?thesis using assms by (induction xs) (auto simp: less_Suc_eq_le)
qed

lemma drain_all_fees:
  assumes "\<forall>f \<in> set chain. castable numeric f"
  shows "\<exists>t'. drain_fees (ingest_fees_once unhex b58 numeric (fees_answer chain)) t = Some t' \<and>
    keys t \<subseteq> keys t' \<and> keys t' \<subseteq> keys t \<union> fee_key ` {e \<in> set chain. fee_since t < nf_block_number e} \<and>
    (\<forall>e \<in> set chain. fee_since t < nf_block_number e \<longrightarrow>
      fee_key e \<in> keys t' \<or> (\<exists>since. split_at chain since (nf_block_number e)))"
proof (induction "length (backlog chain (fee_since t))" arbitrary: t rule: less_induct)
  case less
  let ?B = "backlog chain (fee_since t)" and ?rows = "take PAGE (backlog chain (fee_since t))"
  let ?pass = "ingest_fees_once unhex b58 numeric (fees_answer chain)"
  obtain t1 where pass: "?pass t = (Some (length ?rows), t1)" and k: "keys t1 = keys t \<union> fee_key ` set ?rows"
    using fee_pass[OF assms, of unhex b58 t] by blast
  show ?case
  proof (cases "length ?rows < PAGE")
    case True
    then have all: "?rows = ?B" by simp
    have "drain_fees ?pass t = Some t1" using True by (subst drain_fees.simps) (simp only: pass prod.case option.case if_True)
    then show ?thesis using k[unfolded all] by auto
  next
    case False
    then have n: "PAGE \<le> length ?B" by simp
    have pos: "0 < PAGE" by (simp add: PAGE_def)
    then have ne: "?rows \<noteq> []" using n by (metis length_greater_0_conv less_le_trans not_gr_zero take_eq_Nil)
    then have last: "last ?rows = ?B ! (PAGE - 1)" using n pos by (simp add: last_conv_nth min_absorb2 del: length_backlog)
    have new: "\<forall>f \<in> set ?rows. fee_since t < nf_block_number f" using set_take_subset[of PAGE ?B] by auto
    have "sorted (map nf_block_number ?rows)" using sorted_backlog by (simp add: sorted_wrt_take take_map[symmetric])
    from fee_since_next[OF k this ne new] have since: "fee_since t1 = nf_block_number (?B ! (PAGE - 1))" by (simp add: last)
    have mem: "?B ! (PAGE - 1) \<in> set ?B" using n pos by (intro nth_mem) linarith
    have "length (backlog chain (fee_since t1)) < length ?B"
      unfolding length_backlog using mem since by (intro filter_shorter[where y = "?B ! (PAGE - 1)"]) auto
    from less[OF this] obtain t' where t': "drain_fees ?pass t1 = Some t'" "keys t1 \<subseteq> keys t'"
        "keys t' \<subseteq> keys t1 \<union> fee_key ` {e \<in> set chain. fee_since t1 < nf_block_number e}"
        "\<forall>e \<in> set chain. fee_since t1 < nf_block_number e \<longrightarrow> fee_key e \<in> keys t' \<or> (\<exists>since. split_at chain since (nf_block_number e))"
      by blast
    have d: "drain_fees ?pass t = Some t'" using False t'(1) by (subst drain_fees.simps) (simp only: pass prod.case option.case if_False)
    have "fee_key e \<in> keys t' \<or> (\<exists>since. split_at chain since (nf_block_number e))"
      if e: "e \<in> set chain" "fee_since t < nf_block_number e" for e
    proof (cases "e \<in> set ?rows")
      case True
      then show ?thesis using k t'(2) by auto
    next
      case False
      then have "e \<in> set (drop PAGE ?B)" using e by (metis Un_iff append_take_drop_id mem_Collect_eq set_append set_backlog)
      then show ?thesis using split_blockI[of e chain "fee_since t"] t'(4) e(1) since by (cases "fee_since t1 < nf_block_number e") auto
    qed
    moreover have "keys t \<subseteq> keys t'" using k t'(2) by auto
    moreover have "keys t' \<subseteq> keys t \<union> fee_key ` {e \<in> set chain. fee_since t < nf_block_number e}"
    proof -
      have "set ?rows \<subseteq> {e \<in> set chain. fee_since t < nf_block_number e}" using set_take_subset[of PAGE ?B] by simp
      moreover have "fee_since t < fee_since t1" using mem since by simp
      then have "{e \<in> set chain. fee_since t1 < nf_block_number e} \<subseteq> {e \<in> set chain. fee_since t < nf_block_number e}" by auto
      ultimately show ?thesis using t'(3) unfolding k by blast
    qed
    ultimately show ?thesis using d by blast
  qed
qed

section \<open>Properties\<close>

text \<open>
  C18. The backlog of settlements is drained, up to the blocks a page ends inside. Whatever is stored and
  however long the chain of events, the loop comes to its end; nothing stored is lost, and what is added
  are events of the chain newer than what was stored; and every event newer than what was stored is stored, unless a page of
  the query ended between two events of its block.
\<close>

theorem fee_backlog_drained:
  assumes "\<forall>f \<in> set chain. castable numeric f"
  shows "\<exists>t'. drain_fees (ingest_fees_once unhex b58 numeric (fees_answer chain)) t = Some t' \<and>
    fst ` set t \<subseteq> fst ` set t' \<and> fst ` set t' \<subseteq> fst ` set t \<union> fee_key ` {e \<in> set chain. fee_since t < nf_block_number e} \<and>
    (\<forall>e \<in> set chain. fee_since t < nf_block_number e \<longrightarrow>
      fee_key e \<in> fst ` set t' \<or> (\<exists>since. split_at chain since (nf_block_number e)))"
  using drain_all_fees[OF assms] .

definition demo_fee :: "int \<Rightarrow> int \<Rightarrow> nest_fee" where
  "demo_fee b l = \<lparr>nf_indexer = ''0xab'', nf_deployment_id = ''Qm'', nf_allocation_id = ''0xcd'', nf_payer = ''0xef'',
     nf_tokens_collected = ''5'', nf_tokens_curators = None, nf_block_number = b, nf_block_timestamp = 0, nf_log_index = l\<rparr>"

theorem fee_backlog_drained_witness:
  "\<exists>t'. drain_fees (ingest_fees_once (\<lambda>_. None) (\<lambda>_. []) (\<lambda>_. Some 5) (fees_answer [demo_fee 8 1, demo_fee 7 0])) [] = Some t' \<and>
    fst ` set t' = {(7, 0), (8, 1)}"
proof -
  let ?chain = "[demo_fee 8 1, demo_fee 7 0]"
  have c: "\<forall>f \<in> set ?chain. castable (\<lambda>_. Some 5) f" by (simp add: castable_def demo_fee_def)
  have "\<not> PAGE < length (backlog ?chain since)" for since by (simp add: PAGE_def)
  then have n: "\<not> split_at ?chain since b" for since b unfolding split_at_def by blast
  have k: "fee_key (demo_fee b l) = (b, l)" "nf_block_number (demo_fee b l) = b" for b l by (simp_all add: fee_key_def demo_fee_def)
  obtain t' where t': "drain_fees (ingest_fees_once (\<lambda>_. None) (\<lambda>_. []) (\<lambda>_. Some 5) (fees_answer ?chain)) [] = Some t'"
    and up: "fst ` set t' \<subseteq> fee_key ` set ?chain" and down: "\<forall>e \<in> set ?chain. 0 < nf_block_number e \<longrightarrow> fee_key e \<in> fst ` set t'"
    using fee_backlog_drained[OF c, of "\<lambda>_. None" "\<lambda>_. []" "[]"] n by (fastforce simp: fee_since_def)
  have "fst ` set t' = {(7, 0), (8, 1)}" using up down by (simp add: k) blast
  then show ?thesis using t' by blast
qed

text \<open>What a page left behind in its last block is lost: the next query starts after that block.\<close>

lemma split_tail_lost:
  "\<exists>t'. drain_fees (ingest_fees_once unhex b58 (\<lambda>_. Some 5) (fees_answer (map (\<lambda>i. demo_fee 7 (int i)) [0..<5001]))) [] = Some t' \<and>
    (7, 5000) \<notin> fst ` set t'"
proof -
  let ?chain = "map (\<lambda>i. demo_fee 7 (int i)) [0..<5001]"
  let ?pass = "ingest_fees_once unhex b58 (\<lambda>_. Some 5) (fees_answer ?chain)"
  have c: "\<forall>f \<in> set ?chain. castable (\<lambda>_. Some 5) f" by (auto simp: castable_def demo_fee_def)
  have k: "fee_key (demo_fee b l) = (b, l)" "nf_block_number (demo_fee b l) = b" "nf_log_index (demo_fee b l) = l" for b l
    by (simp_all add: fee_key_def demo_fee_def)
  have f: "filter (\<lambda>f. 0 < nf_block_number f) ?chain = ?chain" by (auto simp: k intro!: filter_True)
  have "sort_key nf_log_index ?chain = ?chain" "sort_key nf_block_number ?chain = ?chain"
    by (auto simp: k comp_def sorted_iff_nth_mono intro!: sort_key_id_if_sorted)
  then have b: "backlog ?chain 0 = ?chain" unfolding backlog_def f by simp
  obtain t1 where t1: "?pass [] = (Some 5000, t1)" "keys t1 = fee_key ` set (take PAGE ?chain)"
    using fee_pass[OF c, of unhex b58 "[]"] by (auto simp: fee_since_def b PAGE_def)
  have rows: "fee_key ` set (take PAGE ?chain) = (\<lambda>i. (7, int i)) ` {0..<5000}"
    by (auto simp: take_map take_upt PAGE_def image_image k)
  have since: "fee_since t1 = 7"
  proof -
    have "t1 \<noteq> []" using t1(2) rows by auto
    moreover have "fst ` keys t1 = {7}" unfolding t1(2) rows image_image by (simp add: image_constant_conv)
    ultimately show ?thesis by (simp add: fee_since_def image_image)
  qed
  obtain t' where t': "drain_fees ?pass t1 = Some t'" "keys t' \<subseteq> keys t1 \<union> fee_key ` {e \<in> set ?chain. fee_since t1 < nf_block_number e}"
    using drain_all_fees[OF c, of unhex b58 t1] by blast
  have "drain_fees ?pass [] = Some t'" by (subst drain_fees.simps) (simp add: t1(1) t'(1) PAGE_def)
  moreover have "(7, 5000) \<notin> keys t'" using t'(2) by (auto simp: t1(2) rows since k)
  ultimately show ?thesis by blast
qed

end
