(* ===== verification/Feed_Api.thy ===== *)
theory Feed_Api
  imports Qos
begin

text \<open>
  Serving the feed by day in the canonical oracle's shape, \<open>foghorn-api/src/qos.rs\<close>: the daily rollup with
  its filters, orders and pages, its JSON, and the provenance block. Text is compared by its bytes.
\<close>

section \<open>Filters\<close>

datatype daily_order = IdAsc | IdDesc | DayAsc | DayDesc | QueryCountAsc | QueryCountDesc

record daily_filter =
  df_indexer :: "str option"
  df_deployment :: "str option"
  df_day_eq :: "int option"
  df_day_gte :: "int option"
  df_day_lte :: "int option"
  df_query_count_gte :: "int option"
  df_id_gt :: "str option"
  df_order :: daily_order
  df_skip :: int
  df_limit :: int

definition daily_default :: daily_filter where
  "daily_default = \<lparr>df_indexer = None, df_deployment = None, df_day_eq = None, df_day_gte = None, df_day_lte = None,
     df_query_count_gte = None, df_id_gt = None, df_order = DayDesc, df_skip = 0, df_limit = 1000\<rparr>"

definition for_indexer :: "str \<Rightarrow> daily_filter" where
  "for_indexer a = daily_default\<lparr>df_indexer := Some (to_lower a)\<rparr>"

definition for_deployment :: "str \<Rightarrow> daily_filter" where
  "for_deployment d = daily_default\<lparr>df_deployment := Some d\<rparr>"

definition first_skip :: "int option \<Rightarrow> int option \<Rightarrow> daily_filter \<Rightarrow> daily_filter" where
  "first_skip first skip f = f\<lparr>
     df_limit := max 1 (min 1000 (case first of Some n \<Rightarrow> n | None \<Rightarrow> 100)),
     df_skip := max 0 (case skip of Some n \<Rightarrow> n | None \<Rightarrow> 0)\<rparr>"

section \<open>The rollup\<close>

record daily_row =
  dr_id :: str
  dr_indexer_address :: str
  dr_deployment_id :: str
  dr_day_number :: int
  dr_day_start :: int
  dr_day_end :: int
  dr_indexer_url :: "str option"
  dr_gateway_id :: "str option"
  dr_chain_id :: "str option"
  dr_query_count :: int
  dr_num_200 :: int
  dr_proportion_200 :: "f64 option"
  dr_avg_latency :: "f64 option"
  dr_max_latency :: "f64 option"
  dr_avg_behind :: "f64 option"
  dr_max_behind :: "f64 option"
  dr_comparable_count :: int
  dr_divergent_count :: int
  dr_correctness_rate :: "f64 option"
  dr_data_point_count :: int
  dr_computed_at :: int

definition day_of :: "int \<Rightarrow> int" where
  "day_of b = b div 86400000000"

definition text_max :: "str list \<Rightarrow> str option" where
  "text_max us = (case us of [] \<Rightarrow> None | u # us \<Rightarrow> Some (foldl max u us))"

definition somes :: "'a option list \<Rightarrow> 'a list" where
  "somes xs = List.map_filter id xs"

text \<open>\<open>a / NULLIF(b, 0)\<close> of two counts, as doubles.\<close>

definition per_count :: "f64 \<Rightarrow> int \<Rightarrow> f64 option" where
  "per_count a n = (if n = 0 then None else Some (fdiv a (f_of_int n)))"

definition weighted_latency :: "fq_row list \<Rightarrow> f64 option" where
  "weighted_latency rows = (let timed = List.map_filter (\<lambda>r. map_option (\<lambda>l. (l, fq_num_200 r)) (fq_avg_latency r)) rows in
     if timed = [] then None
     else per_count (fsum (map (\<lambda>(l, n). fmul l (f_of_int n)) timed)) (sum_list (map snd timed)))"

definition daily_id :: "str \<Rightarrow> str \<Rightarrow> int \<Rightarrow> str" where
  "daily_id ix dp day = ix @ ''-'' @ dp @ ''-'' @ show_int day"

definition daily_row_of :: "str \<times> str \<times> int \<Rightarrow> fq_row list \<Rightarrow> daily_row" where
  "daily_row_of k rows = (case k of (ix, dp, day) \<Rightarrow>
     (let total = sum_list (map fq_query_count rows); ok200 = sum_list (map fq_num_200 rows);
          comparable = sum_list (map fq_comparable_count rows); divergent = sum_list (map fq_divergent_count rows) in
      \<lparr>dr_id = daily_id ix dp day, dr_indexer_address = ix, dr_deployment_id = dp, dr_day_number = day,
       dr_day_start = day * 86400, dr_day_end = day * 86400 + 86399,
       dr_indexer_url = text_max (somes (map fq_indexer_url rows)), dr_gateway_id = text_max (map fq_gateway_id rows),
       dr_chain_id = text_max (map fq_chain_id rows), dr_query_count = total, dr_num_200 = ok200,
       dr_proportion_200 = per_count (f_of_int ok200) total, dr_avg_latency = weighted_latency rows,
       dr_max_latency = f_max (somes (map fq_max_latency rows)), dr_avg_behind = f_avg (somes (map fq_avg_behind rows)),
       dr_max_behind = f_max (somes (map fq_max_behind rows)), dr_comparable_count = comparable,
       dr_divergent_count = divergent, dr_correctness_rate = (if 0 < comparable
         then Some (fsub (F 1) (fdiv (f_of_int divergent) (f_of_int comparable))) else None),
       dr_data_point_count = int (length rows), dr_computed_at = Max (set (map fq_computed_at rows))\<rparr>))"

definition opt_test :: "('a \<Rightarrow> bool) \<Rightarrow> 'a option \<Rightarrow> bool" where
  "opt_test p v = (case v of None \<Rightarrow> True | Some x \<Rightarrow> p x)"

definition in_group :: "daily_filter \<Rightarrow> str \<times> str \<times> int \<Rightarrow> bool" where
  "in_group f k = (case k of (ix, dp, day) \<Rightarrow> opt_test ((=) ix) (df_indexer f) \<and> opt_test ((=) dp) (df_deployment f)
     \<and> opt_test ((=) day) (df_day_eq f) \<and> opt_test (\<lambda>d. d \<le> day) (df_day_gte f) \<and> opt_test (\<lambda>d. day \<le> d) (df_day_lte f))"

text \<open>Every row of the feed goes to its indexer, deployment and day, whatever its bucket's width.\<close>

definition daily_groups :: "daily_filter \<Rightarrow> (bucket_key, fq_row) table \<Rightarrow> ((str \<times> str \<times> int) \<times> fq_row list) list" where
  "daily_groups f t = group_pairs (filter (\<lambda>(k, _). in_group f k) (map (\<lambda>((ix, dp, b, _), r). ((ix, dp, day_of b), r)) t))"

definition daily_keeps :: "daily_filter \<Rightarrow> daily_row \<Rightarrow> bool" where
  "daily_keeps f r \<longleftrightarrow> opt_test (\<lambda>n. n \<le> dr_query_count r) (df_query_count_gte f) \<and> opt_test (\<lambda>i. i < dr_id r) (df_id_gt f)"

fun order_rows :: "daily_order \<Rightarrow> daily_row list \<Rightarrow> daily_row list" where
  "order_rows IdAsc rs = sort_key dr_id rs"
| "order_rows IdDesc rs = rev (sort_key dr_id rs)"
| "order_rows DayAsc rs = sort_key dr_day_number (sort_key (\<lambda>r. - dr_query_count r) rs)"
| "order_rows DayDesc rs = sort_key (\<lambda>r. - dr_day_number r) (sort_key (\<lambda>r. - dr_query_count r) rs)"
| "order_rows QueryCountAsc rs = sort_key dr_query_count (sort_key dr_id rs)"
| "order_rows QueryCountDesc rs = sort_key (\<lambda>r. - dr_query_count r) (sort_key dr_id rs)"

definition daily_points :: "daily_filter \<Rightarrow> (bucket_key, fq_row) table \<Rightarrow> daily_row list" where
  "daily_points f t = take (nat (df_limit f)) (drop (nat (df_skip f))
     (order_rows (df_order f) (filter (daily_keeps f) (map (\<lambda>(k, rows). daily_row_of k rows) (daily_groups f t)))))"

section \<open>Feeds\<close>

datatype feed = Measured | Foreign

definition from_gateway_id :: "str option \<Rightarrow> feed" where
  "from_gateway_id g = (case g of None \<Rightarrow> Measured
     | Some g \<Rightarrow> if to_lower g = ''lodestar'' \<or> to_lower g = ''foghorn'' then Measured else Foreign)"

fun points_for :: "feed \<Rightarrow> daily_filter \<Rightarrow> (bucket_key, fq_row) table \<Rightarrow> daily_row list" where
  "points_for Measured f t = daily_points f t"
| "points_for Foreign f t = []"

definition row_to_oracle_json :: "daily_row \<Rightarrow> json" where
  "row_to_oracle_json r = JObj [
     (''id'', JStr (dr_id r)), (''dayNumber'', jint (dr_day_number r)), (''dayStart'', jint (dr_day_start r)),
     (''dayEnd'', jint (dr_day_end r)), (''dataPointCount'', jint (dr_data_point_count r)),
     (''indexer_wallet'', JStr (dr_indexer_address r)), (''indexer_url'', jopt JStr (dr_indexer_url r)),
     (''subgraph_deployment_ipfs_hash'', JStr (dr_deployment_id r)), (''gateway_id'', jopt JStr (dr_gateway_id r)),
     (''chain_id'', jopt JStr (dr_chain_id r)), (''query_count'', jint (dr_query_count r)),
     (''num_indexer_200_responses'', jint (dr_num_200 r)),
     (''proportion_indexer_200_responses'', jopt jf (dr_proportion_200 r)),
     (''avg_indexer_latency_ms'', jopt jf (dr_avg_latency r)), (''max_indexer_latency_ms'', jopt jf (dr_max_latency r)),
     (''avg_indexer_blocks_behind'', jopt jf (dr_avg_behind r)), (''max_indexer_blocks_behind'', jopt jf (dr_max_behind r)),
     (''comparable_count'', jint (dr_comparable_count r)), (''divergent_count'', jint (dr_divergent_count r)),
     (''correctness_rate'', jopt jf (dr_correctness_rate r))]"

section \<open>Provenance\<close>

record dispatch_count =
  dm_paid :: int
  dm_total :: int

text \<open>Paid and all observations of a trailing window, refusals of payment left out.\<close>

definition dispatch_rows :: "int \<Rightarrow> probe_db \<Rightarrow> observation_row list" where
  "dispatch_rows since d = List.map_filter (\<lambda>((pid, _), o').
     (case map_of (probes d) pid of
        Some p \<Rightarrow> if since \<le> pr_dispatched_at p \<and> (case ob_error_class o' of Some e \<Rightarrow> \<not> starts_with e ''payment_'' | None \<Rightarrow> True)
          then Some o' else None
      | None \<Rightarrow> None)) (observations d)"

definition dispatch_mix :: "int \<Rightarrow> int \<Rightarrow> probe_db \<Rightarrow> dispatch_count" where
  "dispatch_mix now hours d = (let rows = dispatch_rows (now - hours * 3600000000) d in
     \<lparr>dm_paid = int (length (filter (\<lambda>r. ob_dispatch_mode r = ''paid'') rows)), dm_total = int (length rows)\<rparr>)"

definition share :: "int \<Rightarrow> int \<Rightarrow> str" where
  "share n all = fmt_f 0 (fdiv (fmul (F 100) (f_of_int n)) (f_of_int all)) @ ''%''"

definition bias_text :: "dispatch_count option \<Rightarrow> str" where
  "bias_text mix = (case mix of
      None \<Rightarrow> ''OPTIMISTIC '' @ emdash @ '' probes are routed by Edge & Node's gateway, so indexers it declines to route to are never observed failing. Treat proportion_indexer_200_responses as an upper bound.''
    | Some m \<Rightarrow>
        if dm_total m = 0 then ''UNKNOWN '' @ emdash @ '' no probes in this window.''
        else if dm_paid m = dm_total m then ''NONE '' @ emdash @ '' all '' @ show_int (dm_total m)
          @ '' probes in this window were dispatched directly by us and paid with TAP receipts, so indexers that fail are observed failing.''
        else if dm_paid m = 0 then ''OPTIMISTIC '' @ emdash @ '' all '' @ show_int (dm_total m)
          @ '' probes in this window were routed by Edge & Node's gateway, which sends queries to indexers it believes are healthy, so failures it already avoids are invisible to us. Treat proportion_indexer_200_responses as an upper bound.''
        else ''PARTIAL '' @ emdash @ '' '' @ share (dm_paid m) (dm_total m) @ '' of probes in this window ('' @ show_int (dm_paid m)
          @ '' of '' @ show_int (dm_total m)
          @ '') were dispatched directly by us and paid with TAP receipts, and carry no selection bias. The remaining ''
          @ share (dm_total m - dm_paid m) (dm_total m)
          @ '' were routed by Edge & Node's gateway, which avoids indexers it believes are unhealthy, so that portion is an upper bound. The two are mixed in these aggregates; `dispatch_mode` separates them per observation.'')"

definition measured_provenance :: "str option \<Rightarrow> dispatch_count option \<Rightarrow> json" where
  "measured_provenance gw mix = JObj [
     (''source'', JStr ''lodestar-oracle''),
     (''gateway_id'', JStr (case gw of Some g \<Rightarrow> g | None \<Rightarrow> ''lodestar'')),
     (''method'', JStr ''active block-pinned probing, JCS-canonicalised response clustering''),
     (''query_count_means'', JStr ''probes we dispatched, NOT organic gateway traffic''),
     (''independent_of'', JStr ''Edge & Node QoS oracle pipeline''),
     (''success_rate_bias'', JStr (bias_text mix)),
     (''dispatch'', jopt (\<lambda>m. JObj [
        (''paid_direct'', jint (dm_paid m)), (''via_gateway'', jint (dm_total m - dm_paid m)),
        (''note'', JStr ''Paid probes are unbiased because we choose the indexer. Payment refusals are excluded from these counts and from every measurement: they describe our escrow, not the operator.'')]) mix),
     (''unbiased_fields'', JStr ''avg/max_indexer_blocks_behind (chainhead resolved independently) and correctness_rate (responses compared against each other, not reported by the indexer)'')]"

end
