(* ===== verification/Feed_Api_Props.thy ===== *)
theory Feed_Api_Props
  imports Feed_Api
begin

text \<open>
  Paging through the daily points by id returns each of them once, and their counts add up to the feed's.
\<close>

section \<open>Ids\<close>

lemma show_int_dash: "show_int a = show_int b \<Longrightarrow> a = b"
proof -
  have d: "parse_nat (show_nat n) = Some n" for n by simp
  have neg: "hd (show_nat n) \<noteq> CHR ''-''" for n
    using show_nat_Cons[of n] digit_not_sign by fastforce
  assume e: "show_int a = show_int b"
  show "a = b"
  proof (cases "a < 0"; cases "b < 0")
    assume "a < 0" "b < 0"
    then have "show_nat (nat (- a)) = show_nat (nat (- b))" using e by (simp add: show_int_def)
    then have "nat (- a) = nat (- b)" by (metis d option.inject)
    then show ?thesis using \<open>a < 0\<close> \<open>b < 0\<close> by simp
  next
    assume "a < 0" "\<not> b < 0"
    then show ?thesis using e neg[of "nat b"] by (metis list.sel(1) show_int_def)
  next
    assume "\<not> a < 0" "b < 0"
    then show ?thesis using e neg[of "nat a"] by (metis list.sel(1) show_int_def)
  next
    assume "\<not> a < 0" "\<not> b < 0"
    then have "show_nat (nat a) = show_nat (nat b)" using e by (simp add: show_int_def)
    then have "nat a = nat b" by (metis d option.inject)
    then show ?thesis using \<open>\<not> a < 0\<close> \<open>\<not> b < 0\<close> by simp
  qed
qed

lemma dash_split: "CHR ''-'' \<notin> set a \<Longrightarrow> CHR ''-'' \<notin> set b \<Longrightarrow> a @ CHR ''-'' # x = b @ CHR ''-'' # y \<Longrightarrow> a = b \<and> x = y"
proof (induction a arbitrary: b)
  case Nil
  then show ?case by (cases b) auto
next
  case (Cons c a)
  then show ?case by (cases b) auto
qed

lemma daily_id_inj:
  assumes "CHR ''-'' \<notin> set ix" "CHR ''-'' \<notin> set dp" "CHR ''-'' \<notin> set ix'" "CHR ''-'' \<notin> set dp'"
    and "daily_id ix dp day = daily_id ix' dp' day'"
  shows "(ix, dp, day) = (ix', dp', day')"
proof -
  have "ix = ix' \<and> dp @ ''-'' @ show_int day = dp' @ ''-'' @ show_int day'"
    using assms dash_split[of ix ix' "dp @ ''-'' @ show_int day" "dp' @ ''-'' @ show_int day'"] by (simp add: daily_id_def)
  then have "ix = ix'" "dp = dp' \<and> show_int day = show_int day'" using assms(2,4) dash_split[of dp dp'] by auto
  then show ?thesis using show_int_dash by blast
qed

definition plain_keys :: "(bucket_key, fq_row) table \<Rightarrow> bool" where
  "plain_keys t \<longleftrightarrow> (\<forall>((ix, dp, _), _) \<in> set t. CHR ''-'' \<notin> set ix \<and> CHR ''-'' \<notin> set dp)"

definition daily_rows :: "daily_filter \<Rightarrow> (bucket_key, fq_row) table \<Rightarrow> daily_row list" where
  "daily_rows f t = map (\<lambda>(k, rows). daily_row_of k rows) (daily_groups f t)"

lemma daily_row_id [simp]: "dr_id (daily_row_of (ix, dp, day) rows) = daily_id ix dp day"
  by (simp add: daily_row_of_def Let_def)

lemma daily_ids_distinct:
  assumes "plain_keys t"
  shows "distinct (map dr_id (daily_rows f t))"
proof -
  let ?g = "daily_groups f t"
  have plain: "CHR ''-'' \<notin> set ix \<and> CHR ''-'' \<notin> set dp" if "(ix, dp, day) \<in> fst ` set ?g" for ix dp day
    using that assms by (auto simp: daily_groups_def group_keys plain_keys_def split: prod.splits) blast+
  have ids: "map dr_id (daily_rows f t) = map (\<lambda>(ix, dp, day). daily_id ix dp day) (map fst ?g)"
    by (auto simp: daily_rows_def)
  have "inj_on (\<lambda>(ix, dp, day). daily_id ix dp day) (fst ` set ?g)"
  proof (rule inj_onI)
    fix a b
    assume ab: "a \<in> fst ` set ?g" "b \<in> fst ` set ?g"
      and eq: "(\<lambda>(ix, dp, day). daily_id ix dp day) a = (\<lambda>(ix, dp, day). daily_id ix dp day) b"
    obtain ix dp day ix' dp' day' where c: "a = (ix, dp, day)" "b = (ix', dp', day')" by (cases a, cases b)
    show "a = b" unfolding c using daily_id_inj[of ix dp ix' dp' day day'] plain ab eq unfolding c by auto
  qed
  moreover have "distinct (map fst ?g)" using twf_group unfolding daily_groups_def twf_def .
  ultimately show ?thesis unfolding ids distinct_map by simp
qed

section \<open>Pages\<close>

text \<open>The pages a consumer reads: from the id of the last row of a full page, until a page is short.\<close>

fun id_pages :: "nat \<Rightarrow> daily_filter \<Rightarrow> str option \<Rightarrow> (bucket_key, fq_row) table \<Rightarrow> daily_row list" where
  "id_pages 0 f after t = []"
| "id_pages (Suc n) f after t = (let page = daily_points (f\<lparr>df_order := IdAsc, df_skip := 0, df_id_gt := after\<rparr>) t in
     if int (length page) < df_limit f then page else page @ id_pages n f (Some (dr_id (last page))) t)"

definition sorted_rows :: "daily_filter \<Rightarrow> (bucket_key, fq_row) table \<Rightarrow> daily_row list" where
  "sorted_rows f t = sort_key dr_id (filter (\<lambda>r. opt_test (\<lambda>n. n \<le> dr_query_count r) (df_query_count_gte f)) (daily_rows f t))"

lemma page_of: "daily_points (f\<lparr>df_order := IdAsc, df_skip := 0, df_id_gt := after\<rparr>) t =
    take (nat (df_limit f)) (filter (\<lambda>r. opt_test (\<lambda>i. i < dr_id r) after) (sorted_rows f t))"
proof -
  let ?f = "f\<lparr>df_order := IdAsc, df_skip := 0, df_id_gt := after\<rparr>"
  have g: "daily_groups ?f t = daily_groups f t" by (simp add: daily_groups_def in_group_def)
  have k: "daily_keeps ?f r \<longleftrightarrow> opt_test (\<lambda>i. i < dr_id r) after \<and> opt_test (\<lambda>n. n \<le> dr_query_count r) (df_query_count_gte f)" for r
    by (auto simp: daily_keeps_def)
  show ?thesis by (simp add: daily_points_def g sorted_rows_def daily_rows_def filter_sort k conj_commute cong: filter_cong)
qed

lemma strict_rows: "plain_keys t \<Longrightarrow> sorted_wrt (<) (map dr_id (sorted_rows f t))"
proof -
  assume p: "plain_keys t"
  have "distinct (map dr_id (filter (\<lambda>r. opt_test (\<lambda>n. n \<le> dr_query_count r) (df_query_count_gte f)) (daily_rows f t)))"
    using daily_ids_distinct[OF p] by (simp add: distinct_map_filter)
  then have "distinct (map dr_id (sorted_rows f t))"
    unfolding sorted_rows_def by (metis mset_eq_imp_distinct_iff mset_map mset_sort)
  moreover have "sorted (map dr_id (sorted_rows f t))" by (simp add: sorted_rows_def)
  ultimately show ?thesis by (simp add: strict_sorted_iff)
qed

lemma rest_of:
  assumes "sorted_wrt (<) (map dr_id (pre @ rest))" "pre \<noteq> []"
  shows "filter (\<lambda>r. dr_id (last pre) < dr_id r) (pre @ rest) = rest"
proof -
  have "\<not> dr_id (last pre) < dr_id r" if r: "r \<in> set pre" for r
  proof -
    obtain i where i: "i < length pre" "r = pre ! i" using r by (auto simp: in_set_conv_nth)
    have "sorted (map dr_id pre)" using assms(1) by (simp add: sorted_wrt_append strict_sorted_imp_sorted)
    then have "dr_id r \<le> dr_id (last pre)" using i assms(2) by (simp add: last_conv_nth sorted_iff_nth_mono)
    then show ?thesis by simp
  qed
  then have "filter (\<lambda>r. dr_id (last pre) < dr_id r) pre = []" by (auto simp: filter_empty_conv)
  moreover have "filter (\<lambda>r. dr_id (last pre) < dr_id r) rest = rest"
    using assms by (auto simp: filter_id_conv sorted_wrt_append)
  ultimately show ?thesis by simp
qed

lemma id_pages_rest:
  assumes "plain_keys t" "sorted_rows f t = pre @ rest" "length rest < n" "0 < df_limit f"
    and "filter (\<lambda>r. opt_test (\<lambda>i. i < dr_id r) after) (sorted_rows f t) = rest"
  shows "id_pages n f after t = rest"
  using assms(2,3,5)
proof (induction n arbitrary: pre rest after)
  case (Suc n)
  let ?page = "take (nat (df_limit f)) rest"
  have page: "daily_points (f\<lparr>df_order := IdAsc, df_skip := 0, df_id_gt := after\<rparr>) t = ?page"
    unfolding page_of Suc.prems(3) ..
  show ?case
  proof (cases "int (length ?page) < df_limit f")
    case True
    then have "?page = rest" using assms(4) by auto
    then show ?thesis using True by (simp add: page)
  next
    case False
    then have ne: "?page \<noteq> []" using assms(4) by auto
    have all: "sorted_rows f t = (pre @ ?page) @ drop (nat (df_limit f)) rest" by (simp add: Suc.prems(1))
    have "sorted_wrt (<) (map dr_id ((pre @ ?page) @ drop (nat (df_limit f)) rest))"
      using strict_rows[OF assms(1), of f] unfolding all .
    from rest_of[OF this] ne have "filter (\<lambda>r. dr_id (last ?page) < dr_id r) (sorted_rows f t) = drop (nat (df_limit f)) rest"
      unfolding all by simp
    then have "filter (\<lambda>r. opt_test (\<lambda>i. i < dr_id r) (Some (dr_id (last ?page)))) (sorted_rows f t) = drop (nat (df_limit f)) rest"
      by (simp add: opt_test_def)
    moreover have "length (drop (nat (df_limit f)) rest) < n" using ne Suc.prems(2) assms(4) by (cases rest) auto
    ultimately have "id_pages n f (Some (dr_id (last ?page))) t = drop (nat (df_limit f)) rest"
      using Suc.IH[OF all] by blast
    then show ?thesis using False by (simp add: page Let_def)
  qed
qed simp

text \<open>
  Paging loses no daily point and repeats none: a consumer that asks for the points in the order of
  their ids, each page after the last id of the one before, until a page is short, receives every daily
  point its filter selects, each exactly once, whatever the size of its pages.
\<close>

theorem daily_pages_complete:
  assumes "plain_keys t" "0 < df_limit f" "length (daily_groups f t) < n"
  shows "(let out = id_pages n f None t in
    sorted_wrt (<) (map dr_id out) \<and>
    set out = {r \<in> (\<lambda>(k, rows). daily_row_of k rows) ` set (daily_groups f t).
      case df_query_count_gte f of Some q \<Rightarrow> q \<le> dr_query_count r | None \<Rightarrow> True})"
proof -
  have "length (sorted_rows f t) < n"
    using assms(3) le_less_trans[OF length_filter_le] by (simp add: sorted_rows_def daily_rows_def)
  then have "id_pages n f None t = sorted_rows f t"
    using id_pages_rest[OF assms(1), of f "[]" "sorted_rows f t" n None] assms(2) by (simp add: opt_test_def)
  moreover have "set (sorted_rows f t) = {r \<in> (\<lambda>(k, rows). daily_row_of k rows) ` set (daily_groups f t).
      case df_query_count_gte f of Some q \<Rightarrow> q \<le> dr_query_count r | None \<Rightarrow> True}"
    by (auto simp: sorted_rows_def daily_rows_def opt_test_def split: option.splits)
  ultimately show ?thesis using strict_rows[OF assms(1), of f] by (simp add: Let_def)
qed

section \<open>Counts\<close>

lemma sum_tput: "(\<Sum>(k, v) \<leftarrow> tput k v m. (g v :: int)) =
    (\<Sum>(k, v) \<leftarrow> m. g v) - (case map_of m k of None \<Rightarrow> 0 | Some u \<Rightarrow> g u) + g v"
  by (induction k v m rule: tput.induct) auto

lemma sum_groups: "(\<Sum>(k, vs) \<leftarrow> group_pairs ps. (\<Sum>v \<leftarrow> vs. h v :: int)) = (\<Sum>(k, v) \<leftarrow> ps. h v)"
proof (induction ps rule: rev_induct)
  case (snoc p ps)
  then show ?case
    by (cases p) (auto simp: group_pairs_snoc mm_push_def sum_tput split: option.split)
qed (simp add: group_pairs_def)

text \<open>
  C3. The daily points account for the whole feed: over all of them the queries, the successes, the
  comparable and the diverging answers add up to what the feed's buckets hold, and their data points count
  the buckets. A bucket stored at two widths is counted at both.
\<close>

theorem daily_counts_conserved:
  assumes "int (length (daily_groups daily_default t)) \<le> limit"
  shows "(let out = daily_points (daily_default\<lparr>df_limit := limit\<rparr>) t; total = (\<lambda>h. \<Sum>(k, r) \<leftarrow> t. h r) in
    (\<Sum>r \<leftarrow> out. dr_query_count r) = total fq_query_count \<and> (\<Sum>r \<leftarrow> out. dr_num_200 r) = total fq_num_200 \<and>
    (\<Sum>r \<leftarrow> out. dr_comparable_count r) = total fq_comparable_count \<and>
    (\<Sum>r \<leftarrow> out. dr_divergent_count r) = total fq_divergent_count \<and>
    (\<Sum>r \<leftarrow> out. dr_data_point_count r) = int (length t))"
proof -
  let ?out = "daily_points (daily_default\<lparr>df_limit := limit\<rparr>) t" and ?g = "daily_groups daily_default t"
  let ?pairs = "map (\<lambda>((ix, dp, b, _), r). ((ix, dp, day_of b), r)) t"
  have g: "?g = group_pairs ?pairs" "daily_groups (daily_default\<lparr>df_limit := limit\<rparr>) t = ?g"
    by (simp_all add: daily_groups_def in_group_def daily_default_def opt_test_def split_def)
  have all: "mset ?out = mset (map (\<lambda>(k, rows). daily_row_of k rows) ?g)"
  proof -
    have k: "filter (daily_keeps (daily_default\<lparr>df_limit := limit\<rparr>)) rs = rs" for rs
      by (simp add: filter_id_conv daily_keeps_def daily_default_def opt_test_def)
    have sel: "df_order (daily_default\<lparr>df_limit := limit\<rparr>) = DayDesc" "df_skip (daily_default\<lparr>df_limit := limit\<rparr>) = 0"
      "df_limit (daily_default\<lparr>df_limit := limit\<rparr>) = limit" by (simp_all add: daily_default_def)
    have "length ?g \<le> nat limit" using assms by simp
    then show ?thesis by (simp add: daily_points_def g(2) k sel)
  qed
  have sum: "(\<Sum>r \<leftarrow> ?out. d r) = (\<Sum>(k, r) \<leftarrow> t. h r)"
    if d: "\<And>k rows. d (daily_row_of k rows) = (\<Sum>r \<leftarrow> rows. h r)" for d and h :: "fq_row \<Rightarrow> int"
  proof -
    have "(\<Sum>r \<leftarrow> ?out. d r) = (\<Sum>r \<leftarrow> map (\<lambda>(k, rows). daily_row_of k rows) ?g. d r)"
      by (metis all mset_map sum_mset_sum_list)
    also have "\<dots> = (\<Sum>(k, rows) \<leftarrow> ?g. \<Sum>r \<leftarrow> rows. h r)" by (simp add: comp_def split_def d)
    also have "\<dots> = (\<Sum>(k, r) \<leftarrow> t. h r)" unfolding g(1) sum_groups by (simp add: comp_def split_def)
    finally show ?thesis .
  qed
  have one: "(\<Sum>(k, r) \<leftarrow> t. 1) = int (length t)" by (induction t) auto
  have len: "int (length rows) = (\<Sum>r \<leftarrow> rows. 1)" for rows :: "fq_row list" by (induction rows) auto
  have cols: "dr_query_count (daily_row_of k rows) = (\<Sum>r \<leftarrow> rows. fq_query_count r)"
    "dr_num_200 (daily_row_of k rows) = (\<Sum>r \<leftarrow> rows. fq_num_200 r)"
    "dr_comparable_count (daily_row_of k rows) = (\<Sum>r \<leftarrow> rows. fq_comparable_count r)"
    "dr_divergent_count (daily_row_of k rows) = (\<Sum>r \<leftarrow> rows. fq_divergent_count r)"
    "dr_data_point_count (daily_row_of k rows) = (\<Sum>r \<leftarrow> rows. 1)" for k rows
    by (simp_all add: daily_row_of_def Let_def split_def len)
  show ?thesis
    unfolding Let_def using sum[OF cols(1)] sum[OF cols(2)] sum[OF cols(3)] sum[OF cols(4)] sum[OF cols(5)] one by simp
qed

text \<open>The widths add up: one answer, in buckets of two widths, is two queries of the day.\<close>

lemma widths_add_up:
  assumes "fq_query_count r = 1"
  shows "map dr_query_count (daily_points daily_default [((ix, dp, 0, 60), r), ((ix, dp, 0, 300), r)]) = [2]"
  using assms by (simp add: daily_points_def daily_groups_def daily_default_def in_group_def opt_test_def group_pairs_def
      mm_push_def day_of_def daily_keeps_def daily_row_of_def Let_def)

section \<open>A concrete feed\<close>

definition demo_bucket :: "int \<Rightarrow> fq_row" where
  "demo_bucket n = \<lparr>fq_indexer_url = None, fq_chain_id = ''c'', fq_gateway_id = ''g'', fq_query_count = n, fq_num_200 = 0,
     fq_proportion_200 = F 0, fq_avg_latency = None, fq_max_latency = None, fq_stdev_latency = None, fq_p50 = None,
     fq_p95 = None, fq_p99 = None, fq_avg_behind = None, fq_max_behind = None, fq_comparable_count = 0,
     fq_divergent_count = 0, fq_correctness_rate = None, fq_computed_at = 0\<rparr>"

definition demo_feed :: "(bucket_key, fq_row) table" where
  "demo_feed = [((''0xb'', ''Qm'', 0, 300), demo_bucket 1), ((''0xa'', ''Qm'', 0, 300), demo_bucket 2),
     ((''0xa'', ''Qm'', 300000000, 300), demo_bucket 4)]"

theorem daily_counts_conserved_witness:
  "(\<Sum>r \<leftarrow> daily_points (daily_default\<lparr>df_limit := 2\<rparr>) demo_feed. dr_query_count r) = 7"
proof -
  have "length (daily_groups daily_default demo_feed) = 2"
    by (simp add: daily_groups_def demo_feed_def daily_default_def in_group_def opt_test_def group_pairs_def mm_push_def day_of_def)
  then have "int (length (daily_groups daily_default demo_feed)) \<le> 2" by simp
  from daily_counts_conserved[OF this] show ?thesis by (simp add: Let_def demo_feed_def demo_bucket_def)
qed

theorem daily_pages_complete_witness:
  "dr_query_count ` set (id_pages 3 (daily_default\<lparr>df_limit := 1\<rparr>) None demo_feed) = {1, 6} \<and>
    sorted_wrt (<) (map dr_id (id_pages 3 (daily_default\<lparr>df_limit := 1\<rparr>) None demo_feed))"
proof -
  have plain: "plain_keys demo_feed" by (simp add: plain_keys_def demo_feed_def)
  have g: "daily_groups (daily_default\<lparr>df_limit := 1\<rparr>) demo_feed =
      [((''0xb'', ''Qm'', 0), [demo_bucket 1]), ((''0xa'', ''Qm'', 0), [demo_bucket 2, demo_bucket 4])]"
    by (simp add: daily_groups_def demo_feed_def daily_default_def in_group_def opt_test_def group_pairs_def mm_push_def day_of_def)
  have f: "0 < df_limit (daily_default\<lparr>df_limit := 1\<rparr>)" "length (daily_groups (daily_default\<lparr>df_limit := 1\<rparr>) demo_feed) < 3"
    "df_query_count_gte (daily_default\<lparr>df_limit := 1\<rparr>) = None"
    by (simp add: daily_default_def, simp only: g list.size, simp_all add: daily_default_def)
  have counts: "dr_query_count (daily_row_of k rows) = (\<Sum>r \<leftarrow> rows. fq_query_count r)" for k rows
    by (simp add: daily_row_of_def Let_def split_def)
  have n: "fq_query_count (demo_bucket n) = n" for n by (simp add: demo_bucket_def)
  have "set (id_pages 3 (daily_default\<lparr>df_limit := 1\<rparr>) None demo_feed) =
      {daily_row_of (''0xb'', ''Qm'', 0) [demo_bucket 1], daily_row_of (''0xa'', ''Qm'', 0) [demo_bucket 2, demo_bucket 4]}"
    and "sorted_wrt (<) (map dr_id (id_pages 3 (daily_default\<lparr>df_limit := 1\<rparr>) None demo_feed))"
    using daily_pages_complete[OF plain f(1,2)] by (auto simp: Let_def f(3) g)
  then show ?thesis by (simp add: counts n insert_commute)
qed

end
