(* ===== verification/Escrow.thy ===== *)
theory Escrow
  imports Alerts Config
begin

text \<open>
  Which indexers can be paid, \<open>foghorn-probe/src/escrow.rs\<close>: one \<open>eth_call\<close> per indexer with an active
  allocation, the balance read from its hexadecimal answer and stored. The JSON-RPC endpoint is a function
  from a request to its decoded answer, none when it does not answer JSON.
\<close>

definition GET_BALANCE_SELECTOR :: str where "GET_BALANCE_SELECTOR = ''d6bd603c''"

type_synonym rpc = "json \<Rightarrow> json option"

function trim_0x :: "str \<Rightarrow> str" where
  "trim_0x s = (case strip_prefix ''0x'' s of Some r \<Rightarrow> trim_0x r | None \<Rightarrow> s)"
  by auto

termination trim_0x
  by (relation "measure length") (auto simp: strip_prefix_iff)

declare trim_0x.simps [simp del]

definition pad_word :: "str \<Rightarrow> str" where
  "pad_word a = (let h = to_lower (trim_0x a) in replicate (64 - length h) (CHR ''0'') @ h)"

definition balance_call :: "tap_config \<Rightarrow> str \<Rightarrow> json" where
  "balance_call cfg receiver = JObj [(''jsonrpc'', JStr ''2.0''), (''id'', jint 1), (''method'', JStr ''eth_call''),
     (''params'', JArr [JObj [(''to'', JStr (tap_escrow cfg)),
        (''data'', JStr (''0x'' @ GET_BALANCE_SELECTOR @ pad_word (tap_payer cfg) @ pad_word (tap_verifier cfg) @ pad_word receiver))],
        JStr ''latest''])]"

text \<open>\<open>u128::from_str_radix(s, 16)\<close>.\<close>

definition hex_number :: "str \<Rightarrow> nat option" where
  "hex_number s = (if s = [] then None else map_option (foldl (\<lambda>n d. 16 * n + d) 0) (all_some (map hex_digit s)))"

definition parse_hex_u128 :: "str \<Rightarrow> nat option" where
  "parse_hex_u128 s = (case hex_number (case strip_prefix ''+'' s of Some r \<Rightarrow> r | None \<Rightarrow> s) of
      Some n \<Rightarrow> if n < 2 ^ 128 then Some n else None | None \<Rightarrow> None)"

definition balance_of_hex :: "str \<Rightarrow> f64" where
  "balance_of_hex hex = f_of_int (case parse_hex_u128 hex of Some n \<Rightarrow> int n | None \<Rightarrow> 0)"

definition read_balance :: "rpc \<Rightarrow> tap_config \<Rightarrow> str \<Rightarrow> f64 option" where
  "read_balance rpc cfg receiver = (case rpc (balance_call cfg receiver) of
      None \<Rightarrow> None
    | Some v \<Rightarrow> (case jget ''error'' v of
          Some _ \<Rightarrow> None
        | None \<Rightarrow> (case Option.bind (jget ''result'' v) as_str of
              None \<Rightarrow> None
            | Some s \<Rightarrow> let hex = trim_0x s in
                if hex = [] then None else Some (balance_of_hex hex))))"

definition escrow_candidates :: "active_table \<Rightarrow> str list" where
  "escrow_candidates t = remdups (map (aa_indexer_address \<circ> snd) (filter (\<lambda>r. aa_indexer_url (snd r) \<noteq> None) t))"

definition escrow_excluded :: "tap_config \<Rightarrow> str \<Rightarrow> bool" where
  "escrow_excluded cfg ix \<longleftrightarrow> (\<exists>e \<in> set (tap_excluded_indexers cfg). to_lower e = to_lower ix)"

text \<open>One indexer: an excluded one and a failed read are passed over; a balance that does not cast ends
  the pass.\<close>

definition escrow_step :: "(str \<Rightarrow> rat option) \<Rightarrow> rpc \<Rightarrow> tap_config \<Rightarrow> str \<Rightarrow> nat \<Rightarrow> escrow_table \<Rightarrow> (nat \<times> escrow_table) option" where
  "escrow_step numeric rpc cfg ix funded t = (if escrow_excluded cfg ix then Some (funded, t)
     else case read_balance rpc cfg ix of
       None \<Rightarrow> Some (funded, t)
     | Some b \<Rightarrow> (case numeric (fmt_f 0 b) of
           None \<Rightarrow> None
         | Some q \<Rightarrow> Some (if flt (F 0) b then Suc funded else funded, tput ix (Some q) t)))"

fun escrow_loop :: "(str \<Rightarrow> rat option) \<Rightarrow> rpc \<Rightarrow> tap_config \<Rightarrow> str list \<Rightarrow> nat \<Rightarrow> escrow_table \<Rightarrow> nat option \<times> escrow_table" where
  "escrow_loop numeric rpc cfg [] funded t = (Some funded, t)"
| "escrow_loop numeric rpc cfg (ix # ixs) funded t = (case escrow_step numeric rpc cfg ix funded t of
      None \<Rightarrow> (None, t) | Some (funded', t') \<Rightarrow> escrow_loop numeric rpc cfg ixs funded' t')"

text \<open>Indexers with a balance and indexers checked, \<open>None\<close> for an error; and the table.\<close>

definition escrow_sync :: "(str \<Rightarrow> rat option) \<Rightarrow> rpc \<Rightarrow> tap_config \<Rightarrow> active_table \<Rightarrow> escrow_table \<Rightarrow>
    (nat \<times> nat) option \<times> escrow_table" where
  "escrow_sync numeric rpc cfg active t = (let ixs = escrow_candidates active;
     (funded, t') = escrow_loop numeric rpc cfg ixs 0 t in (map_option (\<lambda>n. (n, length ixs)) funded, t'))"

section \<open>Lemmas\<close>

text \<open>What the database casts back from a balance printed without decimals: the integer itself.\<close>

definition casts_integers :: "(str \<Rightarrow> rat option) \<Rightarrow> bool" where
  "casts_integers numeric \<longleftrightarrow> (\<forall>n. numeric (show_nat n) = Some (of_nat n))"

lemma rhe_of_nat: "rhe (of_nat n) = int n"
  using rhe_of_int[of "int n"] by simp

text \<open>A balance is an integer again after rounding, and stays positive.\<close>

lemma balance_fin:
  assumes "n < 2 ^ 128"
  shows "\<exists>m. f_of_int (int n) = Fin (of_nat m) \<and> (0 < m \<longleftrightarrow> 0 < n)"
proof -
  let ?x = "of_nat n :: rat"
  have int: "\<exists>k. rnd ?x = of_int k"
  proof (cases "n \<le> 2 ^ 53")
    case True
    then have "rnd ?x = of_int (int n)" using rnd_of_int[of "int n"] by simp
    then show ?thesis by blast
  next
    case False
    then have "2 ^ 53 \<le> ?x" by (metis less_imp_le not_le_imp_less of_nat_le_iff of_nat_numeral of_nat_power)
    then have big: "pow2 53 \<le> ?x" using pow2_nonneg[of 53] by simp
    have "0 < ?x" using False by simp
    then have "pow2 53 < pow2 (flog2 ?x + 1)" using flog2_bounds(2)[of ?x] big by linarith
    then have e: "0 \<le> ulp_exp ?x" by (simp add: pow2_less_iff ulp_exp_def)
    have "rnd ?x = of_int (rhe (?x / pow2 (ulp_exp ?x)) * 2 ^ nat (ulp_exp ?x))"
      using False pow2_nonneg[OF e] by (simp add: rnd_def)
    then show ?thesis by blast
  qed
  then obtain k where k: "rnd ?x = of_int k" by blast
  have "0 \<le> k" using rnd_nonneg[of ?x] k by simp
  then obtain m where m: "rnd ?x = of_nat m" using k zero_le_imp_eq_int[of k] by auto
  have pos: "0 < m \<longleftrightarrow> 0 < n"
  proof
    assume "0 < n"
    then have "1 \<le> ?x" by simp
    then have "1 \<le> rnd ?x" using rnd_mono[of 1 ?x] by simp
    then show "0 < m" using m by (cases m) auto
  next
    assume "0 < m"
    then show "0 < n" using m by (cases n) auto
  qed
  have "?x \<le> pow2 128" using assms pow2_nonneg[of 128] by (metis less_imp_le nat_numeral of_int_numeral of_int_power of_nat_le_iff of_nat_numeral of_nat_power zero_le_numeral)
  then have "rnd ?x \<le> pow2 128" using rnd_mono[of ?x "pow2 128"] rnd_grid[of 1 128] by simp
  moreover have "pow2 128 < pow2 1024" by (rule pow2_less) simp
  moreover have "- pow2 1024 < rnd ?x" using m pow2_pos[of 1024] by (metis less_le_trans neg_less_0_iff_less of_nat_0_le_iff)
  ultimately have "F ?x = Fin (of_nat m)" using m by (simp add: F_def Let_def)
  then show ?thesis using pos by (auto simp: f_of_int_def)
qed

lemma fmt_whole: "fmt_f 0 (Fin (of_nat m)) = show_nat m"
  using rhe_of_nat[of m] by simp

lemma parse_hex_bound: "parse_hex_u128 h = Some n \<Longrightarrow> n < 2 ^ 128"
  by (auto simp: parse_hex_u128_def split: option.splits if_splits)

lemma balance_hex_fin: "\<exists>m. balance_of_hex h = Fin (of_nat m) \<and> (0 < m \<longleftrightarrow> (\<exists>n. parse_hex_u128 h = Some n \<and> 0 < n))"
proof (cases "parse_hex_u128 h")
  case None
  then show ?thesis using balance_fin[of 0] by (auto simp: balance_of_hex_def)
next
  case (Some n)
  then show ?thesis using balance_fin[OF parse_hex_bound[OF Some]] by (auto simp: balance_of_hex_def)
qed

lemma all_some_Some: "all_some xs = Some ys \<Longrightarrow> x \<in> set xs \<Longrightarrow> x \<noteq> None"
  by (induction xs arbitrary: ys rule: all_some.induct) auto

lemma hex_digits_only: "hex_number h = Some n \<Longrightarrow> trim_0x (''0x'' @ h) = h \<and> h \<noteq> [] \<and> strip_prefix ''+'' h = None"
proof -
  assume a: "hex_number h = Some n"
  then have all: "\<forall>c \<in> set h. hex_digit c \<noteq> None" and ne: "h \<noteq> []"
    using all_some_Some by (fastforce simp: hex_number_def split: if_splits)+
  then obtain c r where h: "h = c # r" "hex_digit c \<noteq> None" and r: "r \<noteq> [] \<Longrightarrow> hex_digit (hd r) \<noteq> None"
    by (cases h) auto
  have "strip_prefix ''0x'' h = None"
  proof (cases r)
    case (Cons d r')
    then have "d \<noteq> CHR ''x''" using r by (auto simp: hex_digit_def is_ascii_digit_def)
    then show ?thesis by (simp add: h Cons)
  qed (simp add: h)
  moreover have "strip_prefix ''+'' h = None" using h by (auto simp: hex_digit_def is_ascii_digit_def)
  ultimately show ?thesis using h by (subst trim_0x.simps) (simp, subst trim_0x.simps, simp)
qed

section \<open>Properties\<close>

lemma escrow_loop_at:
  assumes "distinct ixs" "escrow_loop numeric rpc cfg ixs k t = (Some k', t')"
  shows "map_of t' ix = (if ix \<in> set ixs \<and> \<not> escrow_excluded cfg ix
    then (case read_balance rpc cfg ix of Some b \<Rightarrow> Some (numeric (fmt_f 0 b)) | None \<Rightarrow> map_of t ix) else map_of t ix)"
  using assms
proof (induction ixs arbitrary: k t)
  case (Cons a ixs)
  obtain k1 t1 where step: "escrow_step numeric rpc cfg a k t = Some (k1, t1)"
    using Cons.prems(2) by (auto split: option.splits)
  then have "escrow_loop numeric rpc cfg ixs k1 t1 = (Some k', t')" using Cons.prems(2) by simp
  note IH = Cons.IH[OF _ this]
  show ?case using IH Cons.prems(1) step by (auto simp: escrow_step_def split: if_splits option.splits)
qed simp

lemma escrow_never_fails:
  assumes "casts_integers numeric"
  shows "\<exists>k'. fst (escrow_loop numeric rpc cfg ixs k t) = Some k'"
proof (induction ixs arbitrary: k t)
  case (Cons ix ixs)
  have b: "\<exists>q. numeric (fmt_f 0 b) = Some q" if rd: "read_balance rpc cfg ix = Some b" for b
  proof -
    obtain h where "b = balance_of_hex h" using rd by (auto simp: read_balance_def Let_def split: option.splits if_splits)
    then obtain m where "b = Fin (of_nat m)" using balance_hex_fin by metis
    then show ?thesis using assms fmt_whole[of m] by (simp add: casts_integers_def)
  qed
  have "escrow_step numeric rpc cfg ix k t \<noteq> None" using b by (auto simp: escrow_step_def split: option.split)
  then show ?case using Cons.IH by (auto split: option.split)
qed simp

text \<open>
  C16. Escrow gates payment. A pass of the escrow sync always ends well; afterwards an allocation with a
  URL, of an indexer we do not exclude and whose balance was read, can be paid exactly when the balance on
  chain is positive, rounding and printing included; and whoever was not asked about, is excluded, or was
  not answered for keeps what was recorded before.
\<close>

theorem escrow_gates_payment:
  assumes "casts_integers numeric" "(i, a) \<in> set active" "aa_indexer_url a = Some u" "u \<noteq> ''''"
    and "\<not> escrow_excluded cfg (aa_indexer_address a)" "to_lower (aa_indexer_address a) = aa_indexer_address a"
    and "rpc (balance_call cfg (aa_indexer_address a)) = Some v" "jget ''error'' v = None"
    and "jget ''result'' v = Some (JStr (''0x'' @ h))" "hex_number h = Some n" "n < 2 ^ 128"
  shows "\<exists>k t'. escrow_sync numeric rpc cfg active t = (Some k, t') \<and>
    (payable_row t' (tap_excluded_indexers cfg) a \<longleftrightarrow> 0 < n) \<and>
    (\<forall>ix. ix \<notin> set (escrow_candidates active) \<or> escrow_excluded cfg ix \<or> rpc (balance_call cfg ix) = None \<longrightarrow>
      map_of t' ix = map_of t ix)"
proof -
  let ?ix = "aa_indexer_address a"
  obtain k t' where l: "escrow_loop numeric rpc cfg (escrow_candidates active) 0 t = (Some k, t')"
    using escrow_never_fails[OF assms(1)] by (metis fst_conv prod.collapse)
  note at = escrow_loop_at[OF _ l]
  have d: "distinct (escrow_candidates active)" by (simp add: escrow_candidates_def)
  have c: "?ix \<in> set (escrow_candidates active)" using assms(2,3) by (force simp: escrow_candidates_def)
  have "read_balance rpc cfg ?ix = Some (balance_of_hex h)"
    using hex_digits_only[OF assms(10)] by (simp add: read_balance_def assms(7,8,9) Let_def)
  moreover obtain m where m: "balance_of_hex h = Fin (of_nat m)" "0 < m \<longleftrightarrow> 0 < n"
    using balance_hex_fin[of h] assms(10,11) hex_digits_only[OF assms(10)] by (auto simp: parse_hex_u128_def)
  moreover have "numeric (show_nat m) = Some (of_nat m)" using assms(1) by (simp add: casts_integers_def)
  ultimately have row: "map_of t' ?ix = Some (Some (of_nat m))" using at[OF d, of ?ix] c assms(5) fmt_whole[of m] by simp
  have "?ix \<notin> set (map to_lower (tap_excluded_indexers cfg))" using assms(5,6) by (auto simp: escrow_excluded_def)
  then have "payable_row t' (tap_excluded_indexers cfg) a \<longleftrightarrow> 0 < n" using m(2) assms(3,4) by (simp add: payable_row_def row)
  moreover have "map_of t' ix = map_of t ix"
    if "ix \<notin> set (escrow_candidates active) \<or> escrow_excluded cfg ix \<or> rpc (balance_call cfg ix) = None" for ix
    using that by (auto simp: at[OF d] read_balance_def)
  ultimately show ?thesis by (auto simp: escrow_sync_def Let_def l)
qed

definition demo_active :: active_row where
  "demo_active = \<lparr>aa_indexer_address = ''0xab'', aa_deployment_id = ''Qm'', aa_indexer_url = Some ''https://i.io'',
     aa_allocated_tokens = None, aa_refreshed_at = 0\<rparr>"

theorem escrow_gates_payment_witness:
  "\<exists>k t'. escrow_sync (\<lambda>s. map_option of_nat (parse_nat s)) (\<lambda>_. Some (JObj [(''result'', JStr ''0x1f'')])) tap_default
      [(''0xa1'', demo_active)] [] = (Some k, t') \<and> payable_row t' [] demo_active"
proof -
  let ?rpc = "\<lambda>_ :: json. Some (JObj [(''result'', JStr ''0x1f'')])" and ?numeric = "\<lambda>s. map_option of_nat (parse_nat s) :: rat option"
  have c: "casts_integers ?numeric" by (simp add: casts_integers_def)
  have row: "(''0xa1'', demo_active) \<in> set [(''0xa1'', demo_active)]" "aa_indexer_url demo_active = Some ''https://i.io''"
    "''https://i.io'' \<noteq> ''''" by (simp_all add: demo_active_def)
  have cfg: "tap_excluded_indexers tap_default = []" by (simp add: tap_default_def)
  then have ex: "\<not> escrow_excluded tap_default (aa_indexer_address demo_active)" by (simp add: escrow_excluded_def)
  have low: "to_lower (aa_indexer_address demo_active) = aa_indexer_address demo_active"
    by (simp add: demo_active_def to_lower_def char_lower_def)
  have hx: "hex_number ''1f'' = Some 31" by (simp add: hex_number_def hex_digit_def is_ascii_digit_def)
  have rp: "?rpc x = Some (JObj [(''result'', JStr ''0x1f'')])" for x by simp
  have v: "jget ''error'' (JObj [(''result'', JStr ''0x1f'')]) = None"
    "jget ''result'' (JObj [(''result'', JStr ''0x1f'')]) = Some (JStr (''0x'' @ ''1f''))" by simp_all
  have n: "(31 :: nat) < 2 ^ 128" by simp
  from escrow_gates_payment[where rpc = ?rpc and t = "[]", OF c row ex low rp v hx n] show ?thesis
    unfolding cfg by (simp only: zero_less_numeral simp_thms) blast
qed

text \<open>An answer that is no number of 128 bits is recorded as an empty account.\<close>

lemma unreadable_balance_is_zero:
  assumes "rpc (balance_call cfg ix) = Some (JObj [(''result'', JStr (''0x'' @ h))])" "parse_hex_u128 (trim_0x (''0x'' @ h)) = None"
    and "trim_0x (''0x'' @ h) \<noteq> []"
  shows "read_balance rpc cfg ix = Some (F 0)"
  using assms by (simp add: read_balance_def Let_def balance_of_hex_def f_of_int_def del: append.simps)

end
