(* ===== verification/Status.thy ===== *)
theory Status
  imports Qos Ingest Numbers
begin

text \<open>
  The status probe, \<open>foghorn-probe/src/status.rs\<close>: one unpaid request per indexer and URL, one sample per
  deployment it reports, or one sample with the error. The endpoint is a function of the URL; within a
  chunk the answers arrive in any order.
\<close>

definition MAX_TARGETS :: nat where "MAX_TARGETS = 600"

record status_sample =
  sa_indexer_address :: str
  sa_deployment_id :: str
  sa_synced :: "bool option"
  sa_health :: "str option"
  sa_chain_head_block :: "int option"
  sa_latest_block :: "int option"
  sa_lag_blocks :: "int option"
  sa_fatal_error :: "str option"
  sa_probe_error :: "str option"

text \<open>The two sources of targets, in table order, without duplicates.\<close>

definition load_targets :: "profile_table \<Rightarrow> qos_db \<Rightarrow> (str \<times> str) list" where
  "load_targets profiles q = map (\<lambda>(a, u). (to_lower a, u)) (take MAX_TARGETS (remdups
     (List.map_filter (\<lambda>(a, r). case pf_url r of Some u \<Rightarrow> if u \<noteq> '''' then Some (a, u) else None | None \<Rightarrow> None) profiles
      @ List.map_filter (\<lambda>(key, who). case (who, map_of (qd_alloc_urls q) key) of
          (Some a, Some (Some u)) \<Rightarrow> if u \<noteq> '''' then Some (a, u) else None | _ \<Rightarrow> None) (jd_allocation_map (qd_judge q)))))"

text \<open>A request that failed, or a status with the body or the decoder's message.\<close>

datatype status_reply = StatusFailed str | StatusReply int "str + json"

definition err_sample :: "str \<Rightarrow> str \<Rightarrow> status_sample" where
  "err_sample a msg = \<lparr>sa_indexer_address = a, sa_deployment_id = '''', sa_synced = None, sa_health = None,
     sa_chain_head_block = None, sa_latest_block = None, sa_lag_blocks = None, sa_fatal_error = None, sa_probe_error = Some msg\<rparr>"

definition parse_block_num :: "json \<Rightarrow> int option" where
  "parse_block_num v = (case Option.bind (as_str v) parse_i64 of Some n \<Rightarrow> Some n | None \<Rightarrow> as_i64 v)"

definition block_at :: "str list \<Rightarrow> json option \<Rightarrow> int option" where
  "block_at path chain = Option.bind (Option.bind chain (jpointer path)) parse_block_num"

definition status_sample_of :: "str \<Rightarrow> json \<Rightarrow> status_sample" where
  "status_sample_of a st =
     (let chain = Option.bind (as_array (jidx st ''chains'')) (\<lambda>cs. case cs of [] \<Rightarrow> None | c # _ \<Rightarrow> Some c);
          head = block_at [''chainHeadBlock'', ''number''] chain; latest = block_at [''latestBlock'', ''number''] chain in
      \<lparr>sa_indexer_address = a, sa_deployment_id = (case as_str (jidx st ''subgraph'') of Some s \<Rightarrow> s | None \<Rightarrow> ''''),
       sa_synced = as_bool (jidx st ''synced''), sa_health = as_str (jidx st ''health''),
       sa_chain_head_block = head, sa_latest_block = latest,
       sa_lag_blocks = (case (head, latest) of (Some h, Some l) \<Rightarrow> Some (max (i64w (h - l)) 0) | _ \<Rightarrow> None),
       sa_fatal_error = Option.bind (jpointer [''fatalError'', ''message''] st) as_str, sa_probe_error = None\<rparr>)"

definition status_url :: "str \<Rightarrow> str" where
  "status_url base = trim_end_matches (CHR ''/'') base @ ''/status''"

definition probe_one :: "(int \<Rightarrow> str) \<Rightarrow> (str \<Rightarrow> status_reply) \<Rightarrow> str \<times> str \<Rightarrow> status_sample list" where
  "probe_one show_status http target = (case target of (a, base) \<Rightarrow>
     (case http (status_url base) of
        StatusFailed e \<Rightarrow> [err_sample a (''network: '' @ e)]
      | StatusReply st body \<Rightarrow>
          if \<not> ok_status st then [err_sample a (''http '' @ show_status st)]
          else (case body of
              Inl e \<Rightarrow> [err_sample a (''decode: '' @ e)]
            | Inr j \<Rightarrow> (case Option.bind (jpointer [''data'', ''indexingStatuses''] j) as_array of
                None \<Rightarrow> [err_sample a ''no indexingStatuses in response'']
              | Some [] \<Rightarrow> [err_sample a ''empty indexingStatuses'']
              | Some sts \<Rightarrow> map (status_sample_of a) sts))))"

text \<open>The chunks of a pass, and the samples in the order they arrive.\<close>

function status_chunks :: "nat \<Rightarrow> 'a list \<Rightarrow> 'a list list" where
  "status_chunks n xs = (if xs = [] then [] else take (max n 1) xs # status_chunks n (drop (max n 1) xs))"
  by auto

termination status_chunks
  by (relation "measure (length \<circ> snd)") auto

declare status_chunks.simps [simp del]

definition run_status_once :: "(int \<Rightarrow> str) \<Rightarrow> (str \<Rightarrow> status_reply) \<Rightarrow> (status_sample list list \<Rightarrow> status_sample list list) \<Rightarrow>
    nat \<Rightarrow> (str \<times> str) list \<Rightarrow> status_sample list \<Rightarrow> nat \<times> status_sample list" where
  "run_status_once show_status http arrive concurrency targets table =
     (let new = concat (map (\<lambda>c. concat (arrive (map (probe_one show_status http) c))) (status_chunks concurrency targets))
      in (length new, table @ new))"

section \<open>Lemmas\<close>

lemma concat_chunks [simp]: "concat (status_chunks n xs) = xs"
  by (induction n xs rule: status_chunks.induct) (subst status_chunks.simps, auto)

lemma mset_concat_perm: "mset xss = mset yss \<Longrightarrow> mset (concat xss) = mset (concat yss)"
  by (simp add: mset_concat flip: sum_mset_sum_list)

text \<open>Neither the width of the chunks nor the order of the answers decides what is stored.\<close>

lemma status_pass_complete:
  assumes "\<And>xss. mset (arrive xss) = mset xss"
  shows "mset (snd (run_status_once show_status http arrive n targets table)) =
      mset table + mset (concat (map (probe_one show_status http) targets))"
    and "fst (run_status_once show_status http arrive n targets table) = length (concat (map (probe_one show_status http) targets))"
proof -
  let ?p = "probe_one show_status http"
  have c: "mset (concat (map (\<lambda>c. concat (arrive (map ?p c))) cs)) = mset (concat (map ?p (concat cs)))" for cs
    by (induction cs) (auto simp: mset_concat_perm[OF assms])
  show "mset (snd (run_status_once show_status http arrive n targets table)) = mset table + mset (concat (map ?p targets))"
    by (simp add: run_status_once_def Let_def c)
  have "size (mset (concat (map (\<lambda>c. concat (arrive (map ?p c))) (status_chunks n targets)))) = size (mset (concat (map ?p targets)))"
    by (simp add: c)
  then show "fst (run_status_once show_status http arrive n targets table) = length (concat (map ?p targets))"
    by (simp add: run_status_once_def Let_def)
qed

text \<open>Every target leaves a trace, and a recorded lag is never negative.\<close>

lemma probe_one_nonempty: "probe_one show_status http target \<noteq> []"
  by (auto simp: probe_one_def split: prod.splits status_reply.splits sum.splits option.splits list.splits)

lemma sample_of_lag: "sa_lag_blocks (status_sample_of a st) = Some l \<Longrightarrow> 0 \<le> l"
  by (auto simp: status_sample_of_def Let_def split: option.splits)

lemma err_sample_lag [simp]: "sa_lag_blocks (err_sample a e) = None"
  by (simp add: err_sample_def)

lemma probe_one_samples: "s \<in> set (probe_one show_status http (a, base)) \<Longrightarrow> (\<exists>e. s = err_sample a e) \<or> (\<exists>st. s = status_sample_of a st)"
  unfolding probe_one_def
  by (auto split: status_reply.splits sum.splits option.splits list.splits if_splits)

lemma sample_lag: "s \<in> set (probe_one show_status http target) \<Longrightarrow> sa_lag_blocks s = Some l \<Longrightarrow> 0 \<le> l"
  using probe_one_samples[of s show_status http "fst target" "snd target"] sample_of_lag by (metis err_sample_lag option.distinct(1) prod.collapse)

end
