(* ===== verification/Oracle_Watch.thy ===== *)
theory Oracle_Watch
  imports Alerter Numbers
begin

text \<open>
  Watching the canonical oracle: its publisher's posts from the chain explorer (\<open>foghorn-probe/src/dataedge.rs\<close>)
  and whether its subgraph accepts them (\<open>peer.rs\<close>). Hex and UTF-8 decoding, JSON parsing and the parsing
  of times are parameters; the messages feed the stall alert of Alerter.
\<close>

section \<open>The publisher\<close>

record explorer_tx =
  tx_hash :: str
  tx_raw_input :: str
  tx_timestamp :: str
  tx_block_number :: int
  tx_status :: "str option"

record oracle_payload =
  op_topic :: str
  op_hash :: str
  op_timestamp :: int

record message_row =
  me_topic :: str
  me_ipfs_hash :: str
  me_bucket_ts :: int
  me_posted_at :: int
  me_block_number :: int
  me_lag_seconds :: int

record payload_row =
  pa_topic :: str
  pa_bucket_ts :: int
  pa_raw :: str
  pa_bytes :: int
  pa_via :: str

record watch_db =
  wa_messages :: "(str, message_row) table"
  wa_payloads :: "(str, payload_row) table"

text \<open>The first opening brace to the last closing one.\<close>

definition brace_span :: "str \<Rightarrow> str option" where
  "brace_span s = (let rest = dropWhile (\<lambda>c. c \<noteq> CHR ''{'') s; body = rev (dropWhile (\<lambda>c. c \<noteq> CHR ''}'') (rev rest)) in
     if rest = [] \<or> body = [] then None else Some body)"

definition payload_of :: "json \<Rightarrow> oracle_payload option" where
  "payload_of j = (case (jget ''topic'' j, jget ''hash'' j, jget ''timestamp'' j) of
      (Some (JStr t), Some (JStr h), Some ts) \<Rightarrow> map_option (\<lambda>n. \<lparr>op_topic = t, op_hash = h, op_timestamp = n\<rparr>) (as_i64 ts)
    | _ \<Rightarrow> None)"

text \<open>\<open>unhex\<close> gives the bytes, \<open>utf8\<close> whether they are text, \<open>parse\<close> reads JSON strictly.\<close>

definition decode_payload :: "(str \<Rightarrow> str option) \<Rightarrow> (str \<Rightarrow> bool) \<Rightarrow> (str \<Rightarrow> json option) \<Rightarrow> str \<Rightarrow> oracle_payload option" where
  "decode_payload unhex utf8 parse raw =
     (case unhex (case strip_prefix ''0x'' raw of Some h \<Rightarrow> h | None \<Rightarrow> raw) of
        None \<Rightarrow> None
      | Some bytes \<Rightarrow> (case brace_span bytes of
          None \<Rightarrow> None
        | Some s \<Rightarrow> if utf8 s then Option.bind (parse s) payload_of else None))"

definition message_of :: "oracle_payload \<Rightarrow> int \<Rightarrow> explorer_tx \<Rightarrow> message_row" where
  "message_of p posted tx = \<lparr>me_topic = op_topic p, me_ipfs_hash = op_hash p, me_bucket_ts = op_timestamp p * 1000000,
     me_posted_at = posted, me_block_number = tx_block_number tx,
     me_lag_seconds = i32w (age_secs posted (op_timestamp p * 1000000))\<rparr>"

text \<open>The gateways in turn: the first answer that is JSON is kept, unless the CID is already there.\<close>

fun capture_payload :: "(str \<Rightarrow> str reply) \<Rightarrow> (str \<Rightarrow> json option) \<Rightarrow> str list \<Rightarrow> str \<Rightarrow> str \<Rightarrow> int \<Rightarrow> watch_db \<Rightarrow> watch_db" where
  "capture_payload get parse [] c topic bucket d = d"
| "capture_payload get parse (base # bases) c topic bucket d =
     (case get (trim_end_matches (CHR ''/'') base @ ''/'' @ c) of
        Reply st (Some body) \<Rightarrow>
          if ok_status st \<and> parse body \<noteq> None
          then d\<lparr>wa_payloads := tput_new c \<lparr>pa_topic = topic, pa_bucket_ts = bucket, pa_raw = body,
                   pa_bytes = i32w (int (length body)), pa_via = base\<rparr> (wa_payloads d)\<rparr>
          else capture_payload get parse bases c topic bucket d
      | _ \<Rightarrow> capture_payload get parse bases c topic bucket d)"

text \<open>One transaction: how many messages were new, and the tables. \<open>valid_ts\<close> is chrono's range of times,
  \<open>parse_time\<close> its reading of the explorer's.\<close>

definition watch_tx :: "(str \<Rightarrow> oracle_payload option) \<Rightarrow> (int \<Rightarrow> bool) \<Rightarrow> (str \<Rightarrow> int option) \<Rightarrow>
    (str \<Rightarrow> str \<Rightarrow> int \<Rightarrow> watch_db \<Rightarrow> watch_db) \<Rightarrow> explorer_tx \<Rightarrow> nat \<times> watch_db \<Rightarrow> nat \<times> watch_db" where
  "watch_tx decode valid_ts parse_time capture tx acc = (case acc of (n, d) \<Rightarrow>
     if tx_status tx = Some ''error'' then (n, d)
     else case decode (tx_raw_input tx) of
       None \<Rightarrow> (n, d)
     | Some p \<Rightarrow> if \<not> valid_ts (op_timestamp p) then (n, d)
         else case parse_time (tx_timestamp tx) of
           None \<Rightarrow> (n, d)
         | Some posted \<Rightarrow>
             if map_of (wa_messages d) (tx_hash tx) = None
             then (Suc n, capture (op_hash p) (op_topic p) (op_timestamp p * 1000000)
                     (d\<lparr>wa_messages := tput_new (tx_hash tx) (message_of p posted tx) (wa_messages d)\<rparr>))
             else (n, d))"

definition capture_of :: "data_edge_config \<Rightarrow> (str \<Rightarrow> str reply) \<Rightarrow> (str \<Rightarrow> json option) \<Rightarrow> str \<Rightarrow> str \<Rightarrow> int \<Rightarrow> watch_db \<Rightarrow> watch_db" where
  "capture_of cfg get parse c topic bucket d =
     (if de_capture_payloads cfg then capture_payload get parse (de_ipfs_gateways cfg) c topic bucket d else d)"

definition poll_once :: "(str \<Rightarrow> oracle_payload option) \<Rightarrow> (int \<Rightarrow> bool) \<Rightarrow> (str \<Rightarrow> int option) \<Rightarrow>
    (str \<Rightarrow> str \<Rightarrow> int \<Rightarrow> watch_db \<Rightarrow> watch_db) \<Rightarrow> explorer_tx list option \<Rightarrow> watch_db \<Rightarrow> nat option \<times> watch_db" where
  "poll_once decode valid_ts parse_time capture page d = (case page of
      None \<Rightarrow> (None, d)
    | Some txs \<Rightarrow> (let (n, d') = fold (watch_tx decode valid_ts parse_time capture) txs (0, d) in (Some n, d')))"

definition messages_seen :: "watch_db \<Rightarrow> oracle_message list" where
  "messages_seen d = map (\<lambda>(_, m). \<lparr>om_posted_at = me_posted_at m, om_bucket_ts = Some (me_bucket_ts m),
     om_lag_seconds = Some (me_lag_seconds m)\<rparr>) (wa_messages d)"

section \<open>The subgraph\<close>

text \<open>Scalars come as strings or numbers; \<open>num_text\<close> prints a JSON number.\<close>

fun peer_text :: "(jnum \<Rightarrow> str) \<Rightarrow> json option \<Rightarrow> str option" where
  "peer_text num_text (Some (JStr s)) = (if s \<noteq> '''' then Some s else None)"
| "peer_text num_text (Some (JNum n)) = Some (num_text n)"
| "peer_text num_text _ = None"

fun peer_num :: "json option \<Rightarrow> f64 option" where
  "peer_num (Some (JStr s)) = parse_f64 s"
| "peer_num (Some (JNum (NInt n))) = Some (f_of_int n)"
| "peer_num (Some (JNum (NFloat x))) = Some x"
| "peer_num _ = None"

definition peer_int :: "json option \<Rightarrow> int option" where
  "peer_int v = map_option i64_of_f (peer_num v)"

text \<open>The \<open>/0\<close> of a JSON pointer.\<close>

fun elem0 :: "json \<Rightarrow> json option" where
  "elem0 (JArr (x # _)) = Some x"
| "elem0 (JObj m) = map_of m ''0''"
| "elem0 _ = None"

definition newest :: "str \<Rightarrow> str \<Rightarrow> json \<Rightarrow> json option" where
  "newest entity key v = Option.bind (Option.bind (jpointer [''data'', entity] v) elem0) (jget key)"

text \<open>The single row of the table; a time is kept as the seconds given to \<open>to_timestamp\<close>.\<close>

record health_row =
  he_indexed_block :: "int option"
  he_has_indexing_errors :: "bool option"
  he_newest_message_at :: "f64 option"
  he_newest_message_valid :: "bool option"
  he_newest_message_error :: "str option"
  he_newest_valid_day :: "int option"
  he_newest_valid_day_start :: "f64 option"
  he_checked_at :: int

definition check_subgraph_health :: "(jnum \<Rightarrow> str) \<Rightarrow> int \<Rightarrow> json option \<Rightarrow> health_row option \<Rightarrow> bool \<times> health_row option" where
  "check_subgraph_health num_text now reply old = (case reply of
      None \<Rightarrow> (False, old)
    | Some v \<Rightarrow> if jget ''errors'' v \<noteq> None then (False, old)
        else (True, Some \<lparr>he_indexed_block = peer_int (jpointer [''data'', ''_meta'', ''block'', ''number''] v),
          he_has_indexing_errors = Option.bind (jpointer [''data'', ''_meta'', ''hasIndexingErrors''] v) as_bool,
          he_newest_message_at = map_option f_of_int (peer_int (newest ''oracleMessages'' ''createdAt'' v)),
          he_newest_message_valid = Option.bind (newest ''oracleMessages'' ''valid'' v) as_bool,
          he_newest_message_error = peer_text num_text (newest ''oracleMessages'' ''errorMessage'' v),
          he_newest_valid_day = map_option i32w (peer_int (newest ''allocationDailyDataPoints'' ''dayNumber'' v)),
          he_newest_valid_day_start = map_option f_of_int (peer_int (newest ''allocationDailyDataPoints'' ''dayStart'' v)),
          he_checked_at = now\<rparr>))"

definition latest_oracle_day :: "json option \<Rightarrow> int option" where
  "latest_oracle_day reply = (case reply of
      None \<Rightarrow> None
    | Some v \<Rightarrow> if jget ''errors'' v \<noteq> None then None
        else map_option i64_of_f (peer_num (newest ''allocationDailyDataPoints'' ''dayNumber'' v)))"

section \<open>Lemmas\<close>

text \<open>What a message table gains comes from posts that were not reverted, and each is stored once.\<close>

lemma capture_messages [simp]: "wa_messages (capture_payload get parse bases c topic bucket d) = wa_messages d"
  by (induction bases) (auto split: reply.splits option.splits)

lemma capture_of_messages [simp]: "wa_messages (capture_of cfg get parse c topic bucket d) = wa_messages d"
  by (simp add: capture_of_def)

lemma watch_messages:
  assumes "\<And>c t b d. wa_messages (capture c t b d) = wa_messages d"
    and "fold (watch_tx decode valid_ts parse_time capture) txs (n, d) = (n', d')"
    and "map_of (wa_messages d') h = Some m"
  shows "map_of (wa_messages d) h = Some m \<or> (\<exists>tx \<in> set txs. tx_hash tx = h \<and> tx_status tx \<noteq> Some ''error'' \<and>
    (\<exists>p posted. decode (tx_raw_input tx) = Some p \<and> parse_time (tx_timestamp tx) = Some posted \<and> m = message_of p posted tx))"
  using assms(2)
proof (induction txs arbitrary: n d)
  case Nil
  then show ?case using assms(3) by simp
next
  case (Cons tx txs)
  obtain n1 d1 where step: "watch_tx decode valid_ts parse_time capture tx (n, d) = (n1, d1)" by (cases "watch_tx decode valid_ts parse_time capture tx (n, d)")
  then have "fold (watch_tx decode valid_ts parse_time capture) txs (n1, d1) = (n', d')" using Cons.prems by simp
  from Cons.IH[OF this] step show ?case
    by (auto simp: watch_tx_def assms(1) map_of_tput_new split: if_splits option.splits)
qed

end
