(* ===== verification/Oracle_Watch_Props.thy ===== *)
theory Oracle_Watch_Props
  imports Oracle_Watch
begin

text \<open>
  The stall alert over any run of checks: what the channel reads alternates, and what it read last is what
  holds once a check could post.
\<close>

section \<open>What the channel reads\<close>

text \<open>An alert is delivered when the webhook accepts every message it is cut into; a run gives the messages of
  the alerts it delivered and the database after it. A check has its time, the messages of the oracle seen until
  then, and its webhook.\<close>

type_synonym stall_check = "int \<times> oracle_message list \<times> (nat \<Rightarrow> json \<Rightarrow> int option)"

definition delivered :: "(nat \<Rightarrow> json \<Rightarrow> int option) \<Rightarrow> str option \<Rightarrow> str list list" where
  "delivered post posted = (case posted of
      Some c \<Rightarrow> if post_chunks post c = Some True then [chunk_lines [] (split_lines c)] else []
    | None \<Rightarrow> [])"

fun stall_run :: "(int \<Rightarrow> str) \<Rightarrow> stall_check list \<Rightarrow> alerter_db \<Rightarrow> str list list \<times> alerter_db" where
  "stall_run rfc [] d = ([], d)"
| "stall_run rfc ((now, ms, post) # cs) d =
     (let (posted, d') = alert_oracle_stall rfc post now ms d; (heard, d'') = stall_run rfc cs d' in
      (delivered post posted @ heard, d''))"

text \<open>The first message of an alert opens with its headline.\<close>

definition opens_with :: "str \<Rightarrow> str list \<Rightarrow> bool" where
  "opens_with headline alert \<longleftrightarrow> (\<exists>rest more. alert = (headline @ rest) # more)"

definition says_stopped :: "str list \<Rightarrow> bool" where
  "says_stopped = opens_with ''**Canonical QoS oracle has stopped publishing**''"

definition says_again :: "str list \<Rightarrow> bool" where
  "says_again = opens_with ''**Canonical QoS oracle is publishing again**''"

definition accepts :: "(nat \<Rightarrow> json \<Rightarrow> int option) \<Rightarrow> bool" where
  "accepts post \<longleftrightarrow> (\<forall>n b. \<exists>s. post n b = Some s \<and> ok_status s)"

lemma accepts_posts: "accepts post \<Longrightarrow> post_chunks post c = Some True"
proof -
  assume a: "accepts post"
  have "post_messages post n ms = Some True" for n ms
  proof (induction ms arbitrary: n)
    case (Cons m ms)
    obtain s where "post n (discord_body m) = Some s" "ok_status s" using a by (auto simp: accepts_def)
    then show ?case using Cons.IH by simp
  qed simp
  then show ?thesis by (simp add: post_chunks_def)
qed

lemma split_first_line: "CHR ''\<newline>'' \<notin> set l \<Longrightarrow> split_lines (l @ CHR ''\<newline>'' # s) = l # split_lines s"
  by (induction l) auto

lemma chunk_lines_open: "cur \<noteq> [] \<Longrightarrow> \<exists>rest more. chunk_lines cur ls = (cur @ rest) # more"
proof (induction ls arbitrary: cur)
  case (Cons l ls)
  from Cons.IH [of "cur @ CHR ''\<newline>'' # l"] Cons.prems show ?case by auto
qed simp

lemma headline_first:
  assumes "content = h @ CHR ''\<newline>'' # s" "h \<noteq> []" "CHR ''\<newline>'' \<notin> set h"
  shows "opens_with h (chunk_lines [] (split_lines content))"
  using chunk_lines_open [OF assms(2), of "split_lines s"]
  by (simp add: assms(1) split_first_line [OF assms(3)] opens_with_def)

lemma headlines_differ: "says_stopped a \<Longrightarrow> \<not> says_again a"
  by (auto simp: says_stopped_def says_again_def opens_with_def)

lemma stall_says: "says_stopped (chunk_lines [] (split_lines (stall_message rfc age m)))"
proof -
  have "\<exists>s. stall_message rfc age m = ''**Canonical QoS oracle has stopped publishing**'' @ CHR ''\<newline>'' # s"
    by (simp add: stall_message_def)
  then show ?thesis unfolding says_stopped_def by (elim exE) (rule headline_first, assumption, simp_all)
qed

lemma resumed_says: "says_again (chunk_lines [] (split_lines (resumed_message rfc age m)))"
proof -
  have "\<exists>s. resumed_message rfc age m = ''**Canonical QoS oracle is publishing again**'' @ CHR ''\<newline>'' # s"
    by (simp add: resumed_message_def)
  then show ?thesis unfolding says_again_def by (elim exE) (rule headline_first, assumption, simp_all)
qed

section \<open>One check\<close>

definition told_stalled :: "alerter_db \<Rightarrow> bool" where
  "told_stalled d \<longleftrightarrow> map_of (ad_flags d) ''oracle_stall'' = Some ''stalled''"

text \<open>Nothing is delivered and what was told stands, or the opposite is told and remembered.\<close>

lemma stall_check_cases:
  assumes "alert_oracle_stall rfc post now ms d = (posted, d')"
  shows "(\<exists>a. delivered post posted = [a] \<and> told_stalled d' = (\<not> told_stalled d)
      \<and> (if told_stalled d' then says_stopped a else says_again a))
    \<or> (delivered post posted = [] \<and> told_stalled d' = told_stalled d)"
  using assms by (auto simp: alert_oracle_stall_def post_flag_def told_stalled_def delivered_def Let_def stall_says resumed_says
      split: option.splits if_splits)

lemma latest_posted: "m \<in> set ms \<Longrightarrow> \<forall>m' \<in> set ms. om_posted_at m' \<le> om_posted_at m \<Longrightarrow>
    \<exists>l. latest_message ms = Some l \<and> om_posted_at l = om_posted_at m"
proof -
  have "om_posted_at (foldl (\<lambda>b x. if om_posted_at b < om_posted_at x then x else b) b xs)
      = Max (insert (om_posted_at b) (om_posted_at ` set xs))" for b :: oracle_message and xs
  proof (induction xs arbitrary: b)
    case (Cons x xs)
    show ?case unfolding foldl_Cons Cons.IH by (cases "xs = []") (auto simp: max_def)
  qed simp
  moreover assume "m \<in> set ms" "\<forall>m' \<in> set ms. om_posted_at m' \<le> om_posted_at m"
  moreover from this have "Max (om_posted_at ` set ms) = om_posted_at m" by (intro Max_eqI) auto
  ultimately show ?thesis by (cases ms) (auto simp: latest_message_def)
qed

lemma stall_check_truth:
  assumes "alert_oracle_stall rfc post now ms d = (posted, d')" "accepts post" "m \<in> set ms"
    "\<forall>m' \<in> set ms. om_posted_at m' \<le> om_posted_at m"
  shows "told_stalled d' \<longleftrightarrow> 90 * 60 * 1000000 \<le> now - om_posted_at m"
proof -
  obtain l where l: "latest_message ms = Some l" "om_posted_at l = om_posted_at m"
    using latest_posted [OF assms(3,4)] by blast
  have "STALL_SECS \<le> age_secs now (om_posted_at m) \<longleftrightarrow> 90 * 60 * 1000000 \<le> now - om_posted_at m"
    by (auto simp: STALL_SECS_def age_secs_def)
  then show ?thesis using assms(1) l
    by (auto simp: alert_oracle_stall_def post_flag_def told_stalled_def Let_def accepts_posts [OF assms(2)] split: if_splits)
qed

section \<open>Runs\<close>

lemma stall_run_alternates:
  assumes "stall_run rfc cs d = (heard, d')"
  shows "distinct_adj (map says_stopped heard) \<and> (\<forall>a \<in> set heard. says_stopped a \<noteq> says_again a)
    \<and> (heard \<noteq> [] \<longrightarrow> says_stopped (hd heard) = (\<not> told_stalled d))
    \<and> told_stalled d' = (if heard = [] then told_stalled d else says_stopped (last heard))"
  using assms
proof (induction cs arbitrary: d heard d')
  case (Cons c cs)
  obtain now ms post where c: "c = (now, ms, post)" by (cases c)
  obtain posted d1 where s: "alert_oracle_stall rfc post now ms d = (posted, d1)" by (cases "alert_oracle_stall rfc post now ms d")
  obtain heard1 d2 where r: "stall_run rfc cs d1 = (heard1, d2)" by (cases "stall_run rfc cs d1")
  have h: "heard = delivered post posted @ heard1" "d' = d2" using Cons.prems by (simp_all add: c s r)
  from stall_check_cases [OF s] show ?case
  proof
    assume "delivered post posted = [] \<and> told_stalled d1 = told_stalled d"
    then have same: "heard = heard1" "told_stalled d1 = told_stalled d" using h(1) by simp_all
    show ?thesis using Cons.IH [OF r] unfolding h(2) same .
  next
    assume "\<exists>a. delivered post posted = [a] \<and> told_stalled d1 = (\<not> told_stalled d)
      \<and> (if told_stalled d1 then says_stopped a else says_again a)"
    then obtain a where a: "heard = a # heard1" "told_stalled d1 = (\<not> told_stalled d)"
      "says_stopped a = told_stalled d1" "says_again a = (\<not> told_stalled d1)"
      using h(1) headlines_differ by (auto split: if_splits)
    then show ?thesis using Cons.IH [OF r] h(2) by (cases heard1) (auto simp: distinct_adj_Cons)
  qed
qed simp

lemma stall_run_snoc: "stall_run rfc (cs @ [c]) d =
    (let (heard, d1) = stall_run rfc cs d; (heard', d2) = stall_run rfc [c] d1 in (heard @ heard', d2))"
  by (induction cs arbitrary: d) (auto simp: Let_def split: prod.splits)

text \<open>
  C8. The channel hears of a stalled oracle once, and once of its return. In every run of checks, whatever
  the oracle's messages and however often the webhook refuses, each alert delivered (accepted in all its parts) opens
  with one of the two headlines and they alternate, beginning with the one the stored flag says was not told before;
  and after a check that saw a post of the oracle and could itself post, the last headline delivered (the stored flag
  when there was none) is what holds: stopped exactly when the newest post is at least ninety minutes old.
\<close>

theorem stall_alerts_alternate:
  assumes "stall_run rfc (cs @ [(now, ms, post)]) d = (heard, d')" and "accepts post" and "m \<in> set ms"
    and "\<forall>m' \<in> set ms. om_posted_at m' \<le> om_posted_at m"
  shows "(\<forall>a \<in> set heard. says_stopped a \<noteq> says_again a) \<and> distinct_adj (map says_stopped heard)
    \<and> (heard \<noteq> [] \<longrightarrow> says_stopped (hd heard) = (map_of (ad_flags d) ''oracle_stall'' \<noteq> Some ''stalled''))
    \<and> ((if heard = [] then map_of (ad_flags d) ''oracle_stall'' = Some ''stalled'' else says_stopped (last heard))
       \<longleftrightarrow> 90 * 60 * 1000000 \<le> now - om_posted_at m)"
proof -
  obtain heard1 d1 where r: "stall_run rfc cs d = (heard1, d1)" by (cases "stall_run rfc cs d")
  obtain posted d2 where s: "alert_oracle_stall rfc post now ms d1 = (posted, d2)" by (cases "alert_oracle_stall rfc post now ms d1")
  have "d' = d2" using assms(1) by (simp add: stall_run_snoc r s Let_def)
  then have "told_stalled d' \<longleftrightarrow> 90 * 60 * 1000000 \<le> now - om_posted_at m" using stall_check_truth [OF s assms(2-4)] by simp
  then show ?thesis using stall_run_alternates [OF assms(1)] by (simp add: told_stalled_def split: if_splits)
qed

definition demo_post :: "nat \<Rightarrow> json \<Rightarrow> int option" where
  "demo_post n b = Some 204"

definition demo_message :: oracle_message where
  "demo_message = \<lparr>om_posted_at = 0, om_bucket_ts = None, om_lag_seconds = None\<rparr>"

definition demo_alerter :: alerter_db where
  "demo_alerter = \<lparr>ad_members = [], ad_last_post = None, ad_last_fingerprint = None, ad_flags = []\<rparr>"

theorem stall_alerts_alternate_witness:
  "\<exists>heard. fst (stall_run (\<lambda>_. ''t'') [(6000000000, [demo_message], demo_post)] demo_alerter) = heard
     \<and> heard \<noteq> [] \<and> says_stopped (last heard)"
proof -
  obtain heard d' where r: "stall_run (\<lambda>_. ''t'') ([] @ [(6000000000, [demo_message], demo_post)]) demo_alerter = (heard, d')"
    by (metis surj_pair)
  have a: "accepts demo_post" by (simp add: accepts_def demo_post_def ok_status_def)
  have m: "demo_message \<in> set [demo_message]" "\<forall>m' \<in> set [demo_message]. om_posted_at m' \<le> om_posted_at demo_message" by simp_all
  have "90 * 60 * 1000000 \<le> 6000000000 - om_posted_at demo_message" by (simp add: demo_message_def)
  then show ?thesis using stall_alerts_alternate [OF r a m] r by (auto simp: demo_alerter_def split: if_splits)
qed

end
