(* ===== verification/Autodiscover.thy ===== *)
theory Autodiscover
  imports Scheduler
begin

text \<open>
  Finding deployments to probe and generating their queries, \<open>foghorn-probe/src/autodiscover.rs\<close>. The
  gateway is a function from a URL and a request body to the decoded answer, none when the request fails
  or the answer is not JSON; the RPC is the one of Scheduler.
\<close>

definition NETWORK_SUBGRAPH_ID :: str where
  "NETWORK_SUBGRAPH_ID = ''DZz4kDTdmzWLWsV373w2bSmoar3umKKH9y82SUKr5qmp''"

definition NETWORK_SUBGRAPH_BASE :: str where
  "NETWORK_SUBGRAPH_BASE = ''https://gateway-arbitrum.network.thegraph.com/api''"

definition MAX_FIELDS :: nat where "MAX_FIELDS = 8"
definition VALIDATE_LAG :: nat where "VALIDATE_LAG = 3000"

type_synonym post_json = "str \<Rightarrow> json \<Rightarrow> json option"

record auto_candidate =
  cd_ipfs_hash :: str
  cd_network :: str

definition str_or_empty :: "json option \<Rightarrow> str" where
  "str_or_empty v = (case Option.bind v as_str of Some s \<Rightarrow> s | None \<Rightarrow> '''')"

definition auto_candidate_of :: "json \<Rightarrow> auto_candidate option" where
  "auto_candidate_of d = (let ipfs = str_or_empty (jget ''ipfsHash'' d); net = str_or_empty (jpointer [''manifest'', ''network''] d) in
     if starts_with ipfs ''Qm'' \<and> net \<noteq> '''' then Some \<lparr>cd_ipfs_hash = ipfs, cd_network = net\<rparr> else None)"

definition candidates_query :: "nat \<Rightarrow> json" where
  "candidates_query n = JObj [(''query'', JStr (''{ subgraphDeployments(first: '' @ show_nat n
     @ '', orderBy: stakedTokens, orderDirection: desc, where: { stakedTokens_gt: \"0\" }) { ipfsHash manifest { network } } }''))]"

definition discover_candidates :: "post_json \<Rightarrow> str \<Rightarrow> nat \<Rightarrow> auto_candidate list option" where
  "discover_candidates post api_key n =
     (case post (NETWORK_SUBGRAPH_BASE @ ''/'' @ api_key @ ''/subgraphs/id/'' @ NETWORK_SUBGRAPH_ID) (candidates_query n) of
        None \<Rightarrow> None
      | Some v \<Rightarrow> Some (List.map_filter auto_candidate_of
          (case Option.bind (jpointer [''data'', ''subgraphDeployments''] v) as_array of Some ds \<Rightarrow> ds | None \<Rightarrow> [])))"

section \<open>Schemas\<close>

definition kind_of :: "json \<Rightarrow> str" where
  "kind_of t = (case as_str (jidx t ''kind'') of Some k \<Rightarrow> k | None \<Rightarrow> '''')"

text \<open>Four levels at most.\<close>

fun list_walk :: "nat \<Rightarrow> bool \<Rightarrow> json \<Rightarrow> str option" where
  "list_walk 0 saw cur = None"
| "list_walk (Suc n) saw cur =
     (let k = kind_of cur; saw' = (saw \<or> k = ''LIST'') in
      if k = ''OBJECT'' then (if saw' then as_str (jidx cur ''name'') else None)
      else if jidx cur ''ofType'' = JNull then None else list_walk n saw' (jidx cur ''ofType''))"

definition list_element_object :: "json \<Rightarrow> str option" where
  "list_element_object t = list_walk 4 False t"

definition is_scalar_or_enum :: "json \<Rightarrow> bool" where
  "is_scalar_or_enum t = (let k = kind_of t in
     if k = ''SCALAR'' \<or> k = ''ENUM'' then True
     else if k = ''NON_NULL'' then kind_of (jidx t ''ofType'') \<in> {''SCALAR'', ''ENUM''} else False)"

definition plural_field :: "json \<Rightarrow> (str \<times> str) option" where
  "plural_field f = do {
     name \<leftarrow> as_str (jidx f ''name'');
     args \<leftarrow> (if starts_with name ''_'' then None else as_array (jidx f ''args''));
     let names = List.map_filter (\<lambda>a. as_str (jidx a ''name'')) args;
     entity \<leftarrow> (if ''first'' \<in> set names \<and> ''block'' \<in> set names then list_element_object (jidx f ''type'') else None);
     Some (name, entity)
   }"

fun find_map :: "('a \<Rightarrow> 'b option) \<Rightarrow> 'a list \<Rightarrow> 'b option" where
  "find_map f [] = None"
| "find_map f (x # xs) = (case f x of Some y \<Rightarrow> Some y | None \<Rightarrow> find_map f xs)"

text \<open>A field without a name is passed over before the limit is looked at.\<close>

fun select_fields :: "str list \<Rightarrow> json list \<Rightarrow> str list" where
  "select_fields acc [] = acc"
| "select_fields acc (tf # tfs) = (case as_str (jidx tf ''name'') of
      None \<Rightarrow> select_fields acc tfs
    | Some name \<Rightarrow> let acc' = (if is_scalar_or_enum (jidx tf ''type'') then acc @ [name] else acc) in
        if MAX_FIELDS \<le> length acc' then acc' else select_fields acc' tfs)"

definition with_id :: "str list \<Rightarrow> str list" where
  "with_id fs = (if ''id'' \<in> set fs then fs else take MAX_FIELDS (''id'' # fs))"

definition schema_query :: json where
  "schema_query = JObj [(''query'', JStr ''{ __schema { queryType { fields { name args { name } type { kind name ofType { kind name ofType { kind name ofType { kind name } } } } } } } }'')]"

definition type_query :: "str \<Rightarrow> json" where
  "type_query entity = JObj [(''query'', JStr (''{ __type(name: \"'' @ entity
     @ ''\") { fields { name type { kind name ofType { kind name } } } } }''))]"

definition build_query_fields :: "post_json \<Rightarrow> str \<Rightarrow> (str \<times> str list) option" where
  "build_query_fields post url = do {
     v \<leftarrow> post url schema_query;
     fs \<leftarrow> Option.bind (jpointer [''data'', ''__schema'', ''queryType'', ''fields''] v) as_array;
     (name, entity) \<leftarrow> find_map plural_field fs;
     tv \<leftarrow> post url (type_query entity);
     tfields \<leftarrow> Option.bind (jpointer [''data'', ''__type'', ''fields''] tv) as_array;
     let selected = with_id (select_fields [] tfields);
     if selected = [] then None else Some (name, selected)
   }"

definition render_template :: "str \<Rightarrow> str list \<Rightarrow> str" where
  "render_template field fs = ''{ '' @ field
     @ ''(first: 4, orderBy: id, orderDirection: asc, block: { hash: \"$block_hash\" }) { '' @ join '' '' fs @ '' } }''"

definition validate_query :: "post_json \<Rightarrow> str \<Rightarrow> str \<Rightarrow> str \<Rightarrow> bool" where
  "validate_query post url template block_hash =
     (case post url (JObj [(''query'', JStr (replace_all_str ''$block_hash'' block_hash template))]) of
        Some v \<Rightarrow> (case jget ''data'' v of Some (JObj _) \<Rightarrow> True | _ \<Rightarrow> False) | None \<Rightarrow> False)"

section \<open>Test sets\<close>

definition auto_test_set :: "(str \<Rightarrow> str) \<Rightarrow> auto_candidate \<Rightarrow> str \<Rightarrow> str list \<Rightarrow> test_set" where
  "auto_test_set canon_id cand field fs = \<lparr>ts_id = canon_id (cd_ipfs_hash cand), ts_ipfs_hash = canon_id (cd_ipfs_hash cand),
     ts_network = cd_network cand, ts_description = ''auto:'' @ field @ '' ('' @ cd_network cand @ '')'',
     ts_gateway_subgraph_id = None,
     ts_queries = [\<lparr>tq_category = ''Q_auto'', tq_template = render_template field fs, tq_entity_ids = []\<rparr>]\<rparr>"

text \<open>A query is checked against an older block when the RPC names one, and not at all when it does not.\<close>

definition auto_probe :: "post_json \<Rightarrow> (str \<Rightarrow> str \<Rightarrow> json \<Rightarrow> json option) \<Rightarrow> (str \<Rightarrow> str) \<Rightarrow> foghorn_config \<Rightarrow> gateway_config \<Rightarrow>
    auto_candidate \<Rightarrow> test_set option" where
  "auto_probe post rpc canon_id cfg gw cand = do {
     rpc_url \<leftarrow> map_of (rpc_urls cfg) (cd_network cand);
     let url = trim_end_matches (CHR ''/'') (gw_url gw) @ ''/'' @ gw_api_key gw @ ''/deployments/id/'' @ cd_ipfs_hash cand;
     (field, fs) \<leftarrow> build_query_fields post url;
     let valid = (case get_safe_block (rpc rpc_url) VALIDATE_LAG of
         Some (_, hash) \<Rightarrow> validate_query post url (render_template field fs) hash | None \<Rightarrow> True);
     if valid then Some (auto_test_set canon_id cand field fs) else None
   }"

fun take_probes :: "nat \<Rightarrow> (auto_candidate \<Rightarrow> test_set option) \<Rightarrow> auto_candidate list \<Rightarrow> test_set list" where
  "take_probes n f [] = []"
| "take_probes n f (c # cs) = (if n = 0 then []
     else case f c of Some t \<Rightarrow> t # take_probes (n - 1) f cs | None \<Rightarrow> take_probes n f cs)"

definition discover_test_sets :: "post_json \<Rightarrow> (str \<Rightarrow> str \<Rightarrow> json \<Rightarrow> json option) \<Rightarrow> (str \<Rightarrow> str) \<Rightarrow> foghorn_config \<Rightarrow> nat \<Rightarrow> test_set list" where
  "discover_test_sets post rpc canon_id cfg limit = (case gateway cfg of
      None \<Rightarrow> []
    | Some gw \<Rightarrow> (case discover_candidates post (gw_api_key gw) (limit * 3) of
          None \<Rightarrow> [] | Some cs \<Rightarrow> take_probes limit (auto_probe post rpc canon_id cfg gw) cs))"

section \<open>Lemmas\<close>

lemma length_take_probes: "length (take_probes n f cs) \<le> n"
  by (induction n f cs rule: take_probes.induct) (auto split: option.split)

lemma set_take_probes: "t \<in> set (take_probes n f cs) \<Longrightarrow> \<exists>c \<in> set cs. f c = Some t"
  by (induction n f cs rule: take_probes.induct) (auto split: if_splits option.splits)

lemma length_select: "length acc < MAX_FIELDS \<Longrightarrow> length (select_fields acc tfs) \<le> MAX_FIELDS"
  by (induction acc tfs rule: select_fields.induct) (auto simp: Let_def not_le split: option.splits if_splits)

lemma with_id_ok: "length fs \<le> MAX_FIELDS \<Longrightarrow> length (with_id fs) \<le> MAX_FIELDS \<and> ''id'' \<in> set (with_id fs)"
  by (simp add: with_id_def MAX_FIELDS_def)

lemma replace_none: "CHR ''$'' \<notin> set s \<Longrightarrow> replace_all_str (CHR ''$'' # p) b s = s"
proof (induction s)
  case (Cons c s)
  then show ?case by (subst replace_all_str.simps) auto
qed (subst replace_all_str.simps, simp)

lemma replace_through: "CHR ''$'' \<notin> set a \<Longrightarrow> replace_all_str (CHR ''$'' # p) b (a @ s) = a @ replace_all_str (CHR ''$'' # p) b s"
proof (induction a)
  case (Cons c a)
  then show ?case by (subst replace_all_str.simps) auto
qed simp

lemma replace_here: "p \<noteq> [] \<Longrightarrow> replace_all_str p b (p @ s) = b @ replace_all_str p b s"
  by (subst replace_all_str.simps) simp

lemma template_pins:
  assumes "CHR ''$'' \<notin> set field" "\<forall>f \<in> set fs. CHR ''$'' \<notin> set f"
  shows "replace_all_str ''$block_hash'' h (render_template field fs) =
    ''{ '' @ field @ ''(first: 4, orderBy: id, orderDirection: asc, block: { hash: \"'' @ h @ ''\" }) { '' @ join '' '' fs @ '' } }''"
proof -
  have j: "CHR ''$'' \<notin> set (join '' '' fs)" using assms(2) by (induction "'' ''" fs rule: join.induct) auto
  let ?pre = "''{ '' @ field @ ''(first: 4, orderBy: id, orderDirection: asc, block: { hash: \"''"
  let ?post = "''\" }) { '' @ join '' '' fs @ '' } }''"
  have t: "render_template field fs = ?pre @ ''$block_hash'' @ ?post" by (simp add: render_template_def)
  have "CHR ''$'' \<notin> set ?pre" "CHR ''$'' \<notin> set ?post" using assms(1) j by simp_all
  then show ?thesis unfolding t using replace_through[of ?pre "''block_hash''" h "''$block_hash'' @ ?post"]
      replace_here[of "''$block_hash''" h ?post] replace_none[of ?post "''block_hash''" h] by simp
qed

text \<open>What discovery adds to the probe set: at most the limit, each a deployment on a network with an RPC,
  with one query that asks for the id and at most eight fields, pinned to the block of the round.\<close>

lemma discovered_probes_are_pinned:
  assumes "t \<in> set (discover_test_sets post rpc canon_id cfg limit)"
  shows "length (discover_test_sets post rpc canon_id cfg limit) \<le> limit \<and> map_of (rpc_urls cfg) (ts_network t) \<noteq> None \<and>
    (\<exists>field fs q. ts_queries t = [q] \<and> parameterisations q = [None] \<and> length fs \<le> MAX_FIELDS \<and> ''id'' \<in> set fs \<and>
      (CHR ''$'' \<notin> set field \<and> (\<forall>f \<in> set fs. CHR ''$'' \<notin> set f) \<longrightarrow> (\<forall>h. final_query q h None =
        ''{ '' @ field @ ''(first: 4, orderBy: id, orderDirection: asc, block: { hash: \"'' @ h @ ''\" }) { '' @ join '' '' fs @ '' } }'')))"
proof -
  obtain gw cs where gw: "gateway cfg = Some gw" "discover_candidates post (gw_api_key gw) (limit * 3) = Some cs"
    using assms unfolding discover_test_sets_def
    by (cases "gateway cfg"; cases "discover_candidates post (gw_api_key (the (gateway cfg))) (limit * 3)") auto
  then have d: "discover_test_sets post rpc canon_id cfg limit = take_probes limit (auto_probe post rpc canon_id cfg gw) cs"
    by (simp add: discover_test_sets_def)
  obtain c where c: "auto_probe post rpc canon_id cfg gw c = Some t" using assms set_take_probes unfolding d by blast
  obtain field fs url where f: "build_query_fields post url = Some (field, fs)" "t = auto_test_set canon_id c field fs"
    and net: "map_of (rpc_urls cfg) (cd_network c) \<noteq> None"
    using c by (auto simp: auto_probe_def Let_def bind_eq_Some_conv split: if_splits)
  obtain tfs where fs: "fs = with_id (select_fields [] tfs)"
    using f(1) by (auto simp: build_query_fields_def Let_def bind_eq_Some_conv split: if_splits)
  have "length fs \<le> MAX_FIELDS \<and> ''id'' \<in> set fs"
    unfolding fs using with_id_ok[OF length_select[of "[]"]] by (simp add: MAX_FIELDS_def)
  then show ?thesis using net length_take_probes template_pins unfolding d f(2)
    by (intro conjI exI[of _ field] exI[of _ fs]) (auto simp: auto_test_set_def parameterisations_def final_query_def)
qed

end
