(* ===== verification/Graphql.thy ===== *)
theory Graphql
  imports Feed_Api Alerter
begin

text \<open>
  The oracle-compatible GraphQL endpoint, \<open>foghorn-api/src/graphql.rs\<close>: the arguments a consumer sends,
  the daily filter they become, the fields of a point as the scalars graph-node serves (its big numbers are
  strings), and the resolvers at the root and below an indexer or a deployment. Parsing a query document
  and answering the fields it selects, in its order, is the work of \<open>async_graphql\<close>: \<open>pick_fields\<close> is
  what it does with a row's resolvers.
\<close>

section \<open>Arguments\<close>

datatype order_direction = Asc | Desc

datatype allocation_order_by = ById | ByDayNumber | ByDayStart | ByDayEnd | ByQueryCount
  | ByProportion200Responses | ByAvgLatencyMs | ByAvgBlocksBehind

record point_filter =
  gf_dayNumber :: "int option"
  gf_dayNumber_gte :: "int option"
  gf_dayNumber_lte :: "int option"
  gf_query_count_gte :: "str option"
  gf_id_gt :: "str option"
  gf_indexer_wallet :: "str option"
  gf_deployment :: "str option"
  gf_gateway_id :: "str option"

record point_args =
  ga_first :: "int option"
  ga_skip :: "int option"
  ga_order_by :: "allocation_order_by option"
  ga_direction :: "order_direction option"
  ga_where :: "point_filter option"

definition where_feed :: "point_filter \<Rightarrow> feed" where
  "where_feed w = from_gateway_id (gf_gateway_id w)"

definition where_apply :: "point_filter \<Rightarrow> daily_filter \<Rightarrow> daily_filter" where
  "where_apply w f = (let
     f1 = f\<lparr>df_day_eq := gf_dayNumber w, df_day_gte := gf_dayNumber_gte w, df_day_lte := gf_dayNumber_lte w,
       df_query_count_gte := Option.bind (gf_query_count_gte w) parse_i64, df_id_gt := gf_id_gt w\<rparr>;
     f2 = (case gf_indexer_wallet w of Some a \<Rightarrow> f1\<lparr>df_indexer := Some (to_lower a)\<rparr> | None \<Rightarrow> f1)
   in case gf_deployment w of Some d \<Rightarrow> f2\<lparr>df_deployment := Some d\<rparr> | None \<Rightarrow> f2)"

definition order_of :: "allocation_order_by option \<Rightarrow> order_direction option \<Rightarrow> daily_order" where
  "order_of by dir = (let desc = (dir = Some Desc) in
     case by of
       Some ById \<Rightarrow> if desc then IdDesc else IdAsc
     | Some ByQueryCount \<Rightarrow> if desc then QueryCountDesc else QueryCountAsc
     | _ \<Rightarrow> if desc then DayDesc else DayAsc)"

text \<open>What every points resolver does with its arguments, from the filter it starts with.\<close>

definition args_feed :: "point_args \<Rightarrow> feed" where
  "args_feed a = (case ga_where a of Some w \<Rightarrow> where_feed w | None \<Rightarrow> Measured)"

definition args_where :: "point_args \<Rightarrow> daily_filter \<Rightarrow> daily_filter" where
  "args_where a f = (case ga_where a of Some w \<Rightarrow> where_apply w f | None \<Rightarrow> f)"

definition args_page :: "point_args \<Rightarrow> daily_filter \<Rightarrow> daily_filter" where
  "args_page a f = first_skip (ga_first a) (ga_skip a) (f\<lparr>df_order := order_of (ga_order_by a) (ga_direction a)\<rparr>)"

section \<open>Resolvers of points\<close>

text \<open>A query that fails is a GraphQL error, \<open>None\<close>.\<close>

definition fetch_points :: "bool \<Rightarrow> feed \<Rightarrow> daily_filter \<Rightarrow> (bucket_key, fq_row) table \<Rightarrow> daily_row list option" where
  "fetch_points up feed f t = (if up \<or> feed = Foreign then Some (points_for feed f t) else None)"

definition root_points :: "bool \<Rightarrow> point_args \<Rightarrow> (bucket_key, fq_row) table \<Rightarrow> daily_row list option" where
  "root_points up a t = fetch_points up (args_feed a) (args_page a (args_where a daily_default)) t"

definition deployment_points :: "str \<Rightarrow> bool \<Rightarrow> point_args \<Rightarrow> (bucket_key, fq_row) table \<Rightarrow> daily_row list option" where
  "deployment_points i up a t = fetch_points up (args_feed a)
     (args_page a ((args_where a (for_deployment i))\<lparr>df_deployment := Some i\<rparr>)) t"

definition indexer_points :: "str \<Rightarrow> bool \<Rightarrow> point_args \<Rightarrow> (bucket_key, fq_row) table \<Rightarrow> daily_row list option" where
  "indexer_points i up a t = fetch_points up (args_feed a)
     (args_page a ((args_where a (for_indexer i))\<lparr>df_indexer := Some i\<rparr>)) t"

definition query_daily_points :: "bool \<Rightarrow> point_args \<Rightarrow> (bucket_key, fq_row) table \<Rightarrow> daily_row list option" where
  "query_daily_points up a t = fetch_points up (args_feed a) (args_page a (args_where a daily_default)) t"

definition root_indexer :: "str \<Rightarrow> str" where
  "root_indexer i = to_lower i"

section \<open>Fields\<close>

text \<open>A missing number is the string 0 where the oracle's field is not null, and null elsewhere. A column the
  query does not select is \<open>None\<close> to \<open>opt_num\<close>.\<close>

definition big :: "f64 option \<Rightarrow> json" where
  "big v = JStr (show_f64 (case v of Some x \<Rightarrow> x | None \<Rightarrow> F 0))"

definition opt_num :: "f64 option option \<Rightarrow> json" where
  "opt_num col = jopt (JStr \<circ> show_f64) (case col of Some v \<Rightarrow> v | None \<Rightarrow> None)"

definition id_obj :: "str \<Rightarrow> json" where
  "id_obj i = JObj [(''id'', JStr i)]"

definition point_fields :: "daily_row \<Rightarrow> (str \<times> json) list" where
  "point_fields r = [
     (''id'', JStr (dr_id r)), (''dayNumber'', jint (dr_day_number r)),
     (''dayStart'', JStr (show_int (dr_day_start r))), (''dayEnd'', JStr (show_int (dr_day_end r))),
     (''dataPointCount'', JStr (show_int (dr_data_point_count r))),
     (''indexer_wallet'', JStr (dr_indexer_address r)),
     (''indexer_url'', JStr (case dr_indexer_url r of Some u \<Rightarrow> u | None \<Rightarrow> '''')),
     (''subgraph_deployment_ipfs_hash'', JStr (dr_deployment_id r)),
     (''chain_id'', jopt JStr (dr_chain_id r)), (''gateway_id'', jopt JStr (dr_gateway_id r)),
     (''query_count'', big (Some (f_of_int (dr_query_count r)))),
     (''num_indexer_200_responses'', big (Some (f_of_int (dr_num_200 r)))),
     (''proportion_indexer_200_responses'', big (dr_proportion_200 r)),
     (''avg_indexer_latency_ms'', big (dr_avg_latency r)), (''max_indexer_latency_ms'', big (dr_max_latency r)),
     (''avg_indexer_blocks_behind'', big (dr_avg_behind r)), (''max_indexer_blocks_behind'', big (dr_max_behind r)),
     (''avg_query_fee'', opt_num None), (''max_query_fee'', opt_num None), (''total_query_fees'', opt_num None),
     (''comparable_count'', JStr (show_int (dr_comparable_count r))),
     (''divergent_count'', JStr (show_int (dr_divergent_count r))),
     (''correctness_rate'', jopt (JStr \<circ> show_f64) (dr_correctness_rate r)),
     (''subgraphDeployment'', id_obj (dr_deployment_id r)), (''indexer'', id_obj (dr_indexer_address r))]"

definition query_point_id :: "daily_row \<Rightarrow> str" where
  "query_point_id r = dr_deployment_id r @ ''-'' @ show_int (dr_day_number r)"

definition query_point_fields :: "daily_row \<Rightarrow> (str \<times> json) list" where
  "query_point_fields r = [
     (''id'', JStr (query_point_id r)), (''dayNumber'', jint (dr_day_number r)),
     (''dayStart'', JStr (show_int (dr_day_start r))), (''dayEnd'', JStr (show_int (dr_day_end r))),
     (''query_count'', big (Some (f_of_int (dr_query_count r)))),
     (''subgraph_deployment_ipfs_hash'', JStr (dr_deployment_id r)),
     (''chain_id'', jopt JStr (dr_chain_id r)), (''gateway_id'', jopt JStr (dr_gateway_id r)),
     (''subgraphDeployment'', id_obj (dr_deployment_id r)),
     (''avg_gateway_latency_ms'', JNull), (''gateway_query_success_rate'', JNull),
     (''user_attributed_error_rate'', JNull)]"

definition pick_fields :: "str list \<Rightarrow> (str \<times> json) list \<Rightarrow> json" where
  "pick_fields names fs = JObj (List.map_filter (\<lambda>n. map_option (Pair n) (map_of fs n)) names)"

text \<open>The body of an answer: the data, or null with the error beside it.\<close>

definition points_body :: "str \<Rightarrow> str list \<Rightarrow> (daily_row \<Rightarrow> (str \<times> json) list) \<Rightarrow> daily_row list option \<Rightarrow> json" where
  "points_body name names fs out = JObj [(''data'',
     case out of Some rows \<Rightarrow> JObj [(name, JArr (map (pick_fields names \<circ> fs) rows))] | None \<Rightarrow> JNull)]"

section \<open>The status of the feed\<close>

record feed_status =
  gs_bucket :: "int option"
  gs_computed :: "int option"

definition newest_of :: "int list \<Rightarrow> int option" where
  "newest_of ts = (if ts = [] then None else Some (Max (set ts)))"

definition foghorn_status :: "(bucket_key, fq_row) table \<Rightarrow> feed_status" where
  "foghorn_status t = \<lparr>gs_bucket = newest_of (map (\<lambda>((_, _, b, _), _). b) t),
     gs_computed = newest_of (map (fq_computed_at \<circ> snd) t)\<rparr>"

text \<open>\<open>rfc\<close> prints a time.\<close>

definition status_fields :: "(int \<Rightarrow> str) \<Rightarrow> int \<Rightarrow> feed_status \<Rightarrow> (str \<times> json) list" where
  "status_fields rfc now s = [(''gateway_id'', JStr ''lodestar''),
     (''last_bucket'', jopt (JStr \<circ> rfc) (gs_bucket s)), (''last_computed'', jopt (JStr \<circ> rfc) (gs_computed s)),
     (''age_seconds'', jopt (\<lambda>t. jint (age_secs now t)) (gs_bucket s)),
     (''query_count_means'', JStr ''probes dispatched by Foghorn, NOT organic gateway traffic'')]"

end
