(* ===== verification/Graphql_Props.thy ===== *)
theory Graphql_Props
  imports Graphql Feed_Api_Props Qos_Props Ingest
begin

text \<open>
  What the GraphQL endpoint promises its consumers: the points below an indexer or a deployment are its own,
  and the consumer this repository contains, the allocation ingest, reads our own feed from it as far as its pages
  go.
\<close>

section \<open>Printed counts\<close>

lemma F_int_unique:
  assumes "F (of_nat q) = Fin (of_int n)" "n < 2 ^ 53"
  shows "int q = n"
proof (cases "int q \<le> 2 ^ 53")
  case True
  then show ?thesis using assms(1) F_of_int[of "int q"] by simp
next
  case False
  then have "(2 ^ 53 :: rat) \<le> of_nat q"
    by (metis linorder_not_le less_imp_le of_int_le_iff of_int_of_nat_eq of_int_numeral of_int_power)
  from F_mono[OF this] have "fle (F (of_int (2 ^ 53))) (Fin (of_int n))" by (simp add: assms(1))
  moreover have "F (of_int (2 ^ 53)) = Fin (of_int (2 ^ 53))" by (rule F_of_int) simp
  ultimately have "(of_int (2 ^ 53) :: rat) \<le> of_int n" by simp
  then have "(2 ^ 53 :: int) \<le> n" unfolding of_int_le_iff .
  then show ?thesis using assms(2) by linarith
qed

lemma shortest_integer:
  assumes "0 < n" "n < 2 ^ 53" "0 \<le> k" "k < int fuel" "shortest fuel k (of_int n) = (m, j)"
  shows "0 \<le> j \<and> int m * 10 ^ nat j = n"
  using assms(3,4,5)
proof (induction fuel arbitrary: k)
  case (Suc fuel)
  let ?hit = "\<lambda>q. F (of_nat q * ten k) = Fin (of_int n :: rat)"
  show ?case
  proof (cases "find ?hit (candidates (of_int n) k)")
    case None
    have "k \<noteq> 0"
    proof
      assume k: "k = 0"
      have "nat n \<in> set (candidates (of_int n) k)" by (simp add: candidates_def k Let_def)
      then have "\<not> ?hit (nat n)" using None by (simp add: find_None_iff)
      moreover have "?hit (nat n)" using assms(1,2) F_of_int[of n] by (simp add: k)
      ultimately show False by simp
    qed
    then show ?thesis using Suc.IH[of "k - 1"] Suc.prems None by simp
  next
    case (Some q)
    then have "?hit q" by (auto simp: find_Some_iff)
    moreover have "(of_nat q * ten k :: rat) = of_nat (q * 10 ^ nat k)" using Suc.prems(1) by (simp add: ten_nonneg)
    ultimately have "F (of_nat (q * 10 ^ nat k)) = Fin (of_int n)" by simp
    from F_int_unique[OF this assms(2)] have "int q * 10 ^ nat k = n" by simp
    then show ?thesis using Suc.prems Some by simp
  qed
qed simp

lemma top_power_small:
  assumes "0 < n" "n < 2 ^ 53"
  shows "0 \<le> top_power (of_int n) \<and> top_power (of_int n) < int 24"
proof -
  have b: "pow2 0 \<le> of_int n" "(of_int n :: rat) \<le> pow2 53" "(0::rat) < of_int n"
    using assms by (simp_all add: pow2_nonneg)
  have "flog2 (pow2 0) \<le> flog2 (of_int n)" "flog2 (of_int n) \<le> flog2 (pow2 53)"
    using flog2_mono[of "pow2 0" "of_int n"] flog2_mono[of "of_int n" "pow2 53"] b by auto
  moreover have "flog2 (pow2 0) = 0" "flog2 (pow2 53) = 53" by (rule flog2_unique; simp add: pow2_less_iff del: pow2_0)+
  ultimately show ?thesis by (auto simp: top_power_def Let_def)
qed

lemma show_f64_int:
  assumes "0 \<le> n" "n < 2 ^ 53"
  shows "show_f64 (f_of_int n) = show_int n"
proof (cases "n = 0")
  case True
  have "show_nat 0 = ''0''" by code_simp
  then show ?thesis by (simp add: True f_of_int_small show_int_def)
next
  case False
  obtain m j where s: "shortest 24 (top_power (of_int n)) (of_int n) = (m, j)" by fastforce
  then have mj: "0 \<le> j" "int m * 10 ^ nat j = n"
    using shortest_integer[OF _ assms(2) _ _ s] top_power_small[of n] False assms by auto
  then have "show_decimal m j = show_nat (nat n)"
    by (simp add: show_decimal_def) (metis nat_int of_nat_mult of_nat_power of_nat_numeral)
  then show ?thesis using s False assms by (simp add: f_of_int_small show_int_def)
qed

section \<open>Both shapes\<close>

definition no_filter :: point_filter where
  "no_filter = \<lparr>gf_dayNumber = None, gf_dayNumber_gte = None, gf_dayNumber_lte = None, gf_query_count_gte = None,
     gf_id_gt = None, gf_indexer_wallet = None, gf_deployment = None, gf_gateway_id = None\<rparr>"

definition narrow :: "(point_filter \<Rightarrow> point_filter) \<Rightarrow> point_args \<Rightarrow> point_args" where
  "narrow g a = a\<lparr>ga_where := Some (g (case ga_where a of Some w \<Rightarrow> w | None \<Rightarrow> no_filter))\<rparr>"

lemma to_lower_idem [simp]: "to_lower (to_lower s) = to_lower s"
proof -
  have "char_lower (char_lower c) = char_lower c" for c
  proof (cases "CHR ''A'' \<le> c \<and> c \<le> CHR ''Z''")
    case True
    then have "of_char c \<le> (90 :: nat)" by (simp add: less_eq_char_def)
    then show ?thesis using True by (simp add: char_lower_def less_eq_char_def)
  qed (auto simp: char_lower_def)
  then show ?thesis by (simp add: to_lower_def)
qed

lemma page_bound: "length (points_for fd (args_page a f) t) \<le> 1000"
proof (cases fd)
  case Measured
  have "nat (df_limit (args_page a f)) \<le> 1000" by (simp add: args_page_def first_skip_def)
  then show ?thesis by (simp add: Measured daily_points_def min.coboundedI2)
qed simp

lemma order_rows_set [simp]: "set (order_rows o' rs) = set rs"
  by (cases o') auto

lemma point_keys:
  assumes "r \<in> set (points_for fd f t)"
  shows "\<exists>k. in_group f k \<and> k = (dr_indexer_address r, dr_deployment_id r, dr_day_number r)"
proof -
  have "r \<in> set (daily_points f t)" using assms by (cases fd) auto
  then have "r \<in> (\<lambda>(k, rows). daily_row_of k rows) ` set (daily_groups f t)"
    unfolding daily_points_def by (auto dest!: in_set_takeD in_set_dropD)
  then obtain k rows where k: "(k, rows) \<in> set (daily_groups f t)" "r = daily_row_of k rows" by auto
  then have "in_group f k" unfolding daily_groups_def group_entry by auto
  then show ?thesis using k(2) by (cases k) (auto simp: daily_row_of_def Let_def)
qed

text \<open>
  Both query shapes are answered alike: the points nested below an indexer or a deployment are those the
  top-level query gives when its filter names that indexer or deployment, whatever else the filter says of
  it; so they are never another's, and no page is longer than a thousand.
\<close>

theorem nested_points_are_the_parents:
  "\<exists>xs ys. indexer_points (root_indexer i) True a t = Some xs
     \<and> root_points True (narrow (\<lambda>w. w\<lparr>gf_indexer_wallet := Some i\<rparr>) a) t = Some xs
     \<and> set xs \<subseteq> {r. dr_indexer_address r = to_lower i} \<and> length xs \<le> 1000
     \<and> deployment_points d True a t = Some ys
     \<and> root_points True (narrow (\<lambda>w. w\<lparr>gf_deployment := Some d\<rparr>) a) t = Some ys
     \<and> set ys \<subseteq> {r. dr_deployment_id r = d} \<and> length ys \<le> 1000"
proof -
  let ?fi = "args_page a ((args_where a (for_indexer (root_indexer i)))\<lparr>df_indexer := Some (root_indexer i)\<rparr>)"
  let ?fd = "args_page a ((args_where a (for_deployment d))\<lparr>df_deployment := Some d\<rparr>)"
  have "indexer_points (root_indexer i) True a t = Some (points_for (args_feed a) ?fi t)"
    "deployment_points d True a t = Some (points_for (args_feed a) ?fd t)"
    by (simp_all add: indexer_points_def deployment_points_def fetch_points_def)
  moreover have "root_points True (narrow (\<lambda>w. w\<lparr>gf_indexer_wallet := Some i\<rparr>) a) t = Some (points_for (args_feed a) ?fi t)"
    "root_points True (narrow (\<lambda>w. w\<lparr>gf_deployment := Some d\<rparr>) a) t = Some (points_for (args_feed a) ?fd t)"
    by (auto simp: root_points_def fetch_points_def narrow_def args_feed_def where_feed_def args_page_def args_where_def
        where_apply_def first_skip_def for_indexer_def for_deployment_def daily_default_def root_indexer_def no_filter_def
        from_gateway_id_def Let_def split: option.splits)
  moreover have "set (points_for (args_feed a) ?fi t) \<subseteq> {r. dr_indexer_address r = to_lower i}"
    using point_keys[of _ "args_feed a" ?fi t] by (auto simp: in_group_def opt_test_def args_page_def first_skip_def root_indexer_def)
  moreover have "set (points_for (args_feed a) ?fd t) \<subseteq> {r. dr_deployment_id r = d}"
    using point_keys[of _ "args_feed a" ?fd t] by (auto simp: in_group_def opt_test_def args_page_def first_skip_def)
  ultimately show ?thesis using page_bound by blast
qed

text \<open>
  One row is a deployment, an indexer and a day, but the id of the query points leaves the indexer out: two
  indexers of a deployment share an id.
\<close>

lemma query_points_share_ids:
  "map query_point_id (the (query_daily_points True \<lparr>ga_first = None, ga_skip = None, ga_order_by = None, ga_direction = None,
     ga_where = None\<rparr> [((''0xa'', ''Qm'', 0, 300), demo_bucket 1), ((''0xb'', ''Qm'', 0, 300), demo_bucket 2)]))
   = [''Qm-0'', ''Qm-0'']"
proof -
  have "show_nat 0 = ''0''" by code_simp
  then show ?thesis
    by (simp add: query_daily_points_def fetch_points_def args_feed_def args_page_def args_where_def order_of_def first_skip_def
        daily_points_def daily_groups_def daily_default_def in_group_def opt_test_def group_pairs_def mm_push_def day_of_def
        daily_keeps_def daily_row_of_def query_point_id_def demo_bucket_def Let_def show_int_def)
qed

section \<open>The ingest as a consumer\<close>

text \<open>The two queries of \<open>ingest.rs\<close>, answered by this endpoint over a feed.\<close>

definition newest_args :: point_args where
  "newest_args = \<lparr>ga_first = Some 1, ga_skip = None, ga_order_by = Some ByDayNumber, ga_direction = Some Desc, ga_where = None\<rparr>"

definition page_args :: "int \<Rightarrow> str \<Rightarrow> point_args" where
  "page_args from_day last_id = \<lparr>ga_first = Some 1000, ga_skip = None, ga_order_by = Some ById, ga_direction = Some Asc,
     ga_where = Some (no_filter\<lparr>gf_dayNumber_gte := Some from_day, gf_query_count_gte := Some ''10'', gf_id_gt := Some last_id\<rparr>)\<rparr>"

definition page_names :: "str list" where
  "page_names = [''id'', ''dayNumber'', ''dayStart'', ''indexer_wallet'', ''query_count'', ''proportion_indexer_200_responses'',
     ''avg_indexer_blocks_behind'', ''subgraphDeployment'']"

definition answer_newest :: "(bucket_key, fq_row) table \<Rightarrow> json option" where
  "answer_newest t = Some (points_body ''allocationDailyDataPoints'' [''dayNumber''] point_fields (root_points True newest_args t))"

definition answer_page :: "(bucket_key, fq_row) table \<Rightarrow> int \<Rightarrow> str \<Rightarrow> json option" where
  "answer_page t from_day last_id = Some (points_body ''allocationDailyDataPoints'' page_names point_fields
     (root_points True (page_args from_day last_id) t))"

text \<open>What the ingest should make of one point, without the JSON between.\<close>

definition point_row :: "daily_row \<Rightarrow> (str \<times> str, alloc_agg) table \<Rightarrow> (str \<times> str, alloc_agg) table" where
  "point_row r m = (let k = (dr_indexer_address r, dr_deployment_id r);
     e = (case map_of m k of Some e \<Rightarrow> e | None \<Rightarrow> \<lparr>al_succ_weighted = F 0, al_query_sum = 0, al_latest_day = 0,
            al_latest_day_start = 0, al_latest_bb = F 0\<rparr>);
     e1 = e\<lparr>al_succ_weighted := fadd (al_succ_weighted e) (fmul (case dr_proportion_200 r of Some x \<Rightarrow> x | None \<Rightarrow> F 0)
              (f_of_int (dr_query_count r))), al_query_sum := i64w (al_query_sum e + dr_query_count r)\<rparr>
   in tput k (if al_latest_day e \<le> dr_day_number r then e1\<lparr>al_latest_day := dr_day_number r,
        al_latest_day_start := dr_day_start r, al_latest_bb := (case dr_avg_behind r of Some x \<Rightarrow> x | None \<Rightarrow> F 0)\<rparr> else e1) m)"

definition readable_row :: "daily_row \<Rightarrow> bool" where
  "readable_row r \<longleftrightarrow> dr_indexer_address r \<noteq> '''' \<and> dr_deployment_id r \<noteq> '''' \<and> to_lower (dr_indexer_address r) = dr_indexer_address r
     \<and> 0 \<le> dr_query_count r \<and> dr_query_count r < 2 ^ 53 \<and> 0 \<le> dr_day_number r \<and> dr_day_number r < 2 ^ 40
     \<and> dr_day_start r = dr_day_number r * 86400
     \<and> pred_option f64_ok (dr_proportion_200 r) \<and> pred_option f64_ok (dr_avg_behind r)"

lemma str_i64_show [simp]: "- (2 ^ 63) \<le> n \<Longrightarrow> n < 2 ^ 63 \<Longrightarrow> str_i64 (JStr (show_int n)) = Some n"
  by (simp add: str_i64_def)

lemma str_f64_big [simp]: "pred_option f64_ok v \<Longrightarrow> str_f64 d (big v) = (case v of Some x \<Rightarrow> x | None \<Rightarrow> F 0)"
  by (cases v) (simp_all add: str_f64_def big_def parse_show_f64 del: F_simps show_f64.simps)

lemma alloc_point_reads:
  assumes "readable_row r"
  shows "alloc_point (pick_fields page_names (point_fields r)) m = point_row r m"
proof -
  let ?v = "pick_fields page_names (point_fields r)"
  have f: "jidx ?v ''indexer_wallet'' = JStr (dr_indexer_address r)" "json_str_at [''subgraphDeployment'', ''id''] ?v = Some (dr_deployment_id r)"
    "jidx ?v ''dayNumber'' = jint (dr_day_number r)" "jidx ?v ''dayStart'' = JStr (show_int (dr_day_start r))"
    "jidx ?v ''query_count'' = big (Some (f_of_int (dr_query_count r)))"
    "jidx ?v ''proportion_indexer_200_responses'' = big (dr_proportion_200 r)"
    "jidx ?v ''avg_indexer_blocks_behind'' = big (dr_avg_behind r)"
    by (simp_all add: pick_fields_def page_names_def point_fields_def map_filter_simps jidx_def json_str_at_def id_obj_def)
  have r: "readable_row r" "pred_option f64_ok (dr_proportion_200 r)" "pred_option f64_ok (dr_avg_behind r)"
    using assms by (auto simp: readable_row_def)
  have n: "str_i64 (big (Some (f_of_int (dr_query_count r)))) = Some (dr_query_count r)"
    using r(1) by (simp add: big_def show_f64_int readable_row_def)
  have day: "either_i64 (jint (dr_day_number r)) = dr_day_number r" "either_i64 (JStr (show_int (dr_day_start r))) = dr_day_start r"
    using r(1) by (simp_all add: either_i64_def readable_row_def jint_def) (simp_all add: str_i64_def)
  have k: "dr_indexer_address r \<noteq> ''''" "dr_deployment_id r \<noteq> ''''" "to_lower (dr_indexer_address r) = dr_indexer_address r"
    using r(1) by (simp_all add: readable_row_def)
  show ?thesis unfolding alloc_point_def point_row_def f n day str_f64_big[OF r(2)] str_f64_big[OF r(3)]
    by (simp add: k Let_def del: F_simps)
qed

text \<open>The pages read every row after the start, in the order of the ids.\<close>

definition page_filter :: "int \<Rightarrow> daily_filter" where
  "page_filter from_day = daily_default\<lparr>df_day_gte := Some from_day, df_query_count_gte := Some 10\<rparr>"

lemma parse_ten: "parse_i64 ''10'' = Some 10"
  by code_simp

lemma answer_page_rows: "answer_page t d last_id = Some (points_body ''allocationDailyDataPoints'' page_names point_fields
    (Some (take 1000 (filter (\<lambda>r. last_id < dr_id r) (sorted_rows (page_filter d) t)))))"
proof -
  have "args_page (page_args d last_id) (args_where (page_args d last_id) daily_default) =
      (page_filter d)\<lparr>df_order := IdAsc, df_skip := 0, df_id_gt := Some last_id\<rparr>"
    by (simp add: args_page_def page_args_def args_where_def where_apply_def no_filter_def parse_ten first_skip_def
        page_filter_def daily_default_def order_of_def)
  moreover have "args_feed (page_args d last_id) = Measured"
    by (simp add: args_feed_def page_args_def where_feed_def no_filter_def from_gateway_id_def)
  ultimately have "root_points True (page_args d last_id) t =
      Some (daily_points ((page_filter d)\<lparr>df_order := IdAsc, df_skip := 0, df_id_gt := Some last_id\<rparr>) t)"
    by (simp add: root_points_def fetch_points_def)
  then show ?thesis unfolding answer_page_def page_of by (simp add: opt_test_def page_filter_def daily_default_def)
qed

lemma fold_reads: "list_all readable_row rs \<Longrightarrow> fold alloc_point (map (pick_fields page_names \<circ> point_fields) rs) m = fold point_row rs m"
  by (induction rs arbitrary: m) (simp_all add: alloc_point_reads)

lemma alloc_pages_read:
  assumes "plain_keys t" "sorted_rows (page_filter d) t = pre @ rest"
    and "filter (\<lambda>r. last_id < dr_id r) (sorted_rows (page_filter d) t) = rest" "list_all readable_row rest"
  shows "alloc_pages (answer_page t d) n last_id m = Some (fold point_row (take (1000 * n) rest) m)"
  using assms(2-4)
proof (induction n arbitrary: pre rest last_id m)
  case (Suc n)
  let ?page = "take 1000 rest"
  let ?js = "map (pick_fields page_names \<circ> point_fields) ?page"
  have ok: "list_all readable_row ?page" "list_all readable_row (drop 1000 rest)"
    using Suc.prems(3) by (auto simp: list_all_iff dest: in_set_takeD in_set_dropD)
  have body: "Option.bind (jpointer [''data'', ''allocationDailyDataPoints'']
      (points_body ''allocationDailyDataPoints'' page_names point_fields (Some ?page))) as_array = Some ?js"
    by (simp add: points_body_def)
  show ?case
  proof (cases "?page = []")
    case True
    then show ?thesis using body by (simp add: answer_page_rows Suc.prems(2))
  next
    case False
    let ?l = "dr_id (last ?page)"
    have last: "as_str (jidx (last ?js) ''id'') = Some ?l"
      using False by (simp add: last_map pick_fields_def page_names_def point_fields_def map_filter_simps jidx_def)
    have "last ?page \<in> set (sorted_rows (page_filter d) t)" using False Suc.prems(1) by (metis append_take_drop_id last_in_set Un_iff set_append)
    then have "?l \<noteq> ''''" by (auto simp: sorted_rows_def daily_rows_def daily_row_of_def daily_id_def Let_def)
    have step: "alloc_pages (answer_page t d) (Suc n) last_id m = (if length rest < 1000 then Some (fold point_row ?page m)
        else alloc_pages (answer_page t d) n ?l (fold point_row ?page m))"
      using False body last \<open>?l \<noteq> ''''\<close> fold_reads[OF ok(1)]
      by (simp add: answer_page_rows Suc.prems(2) Let_def)
    have all: "sorted_rows (page_filter d) t = (pre @ ?page) @ drop 1000 rest" by (simp add: Suc.prems(1))
    have "sorted_wrt (<) (map dr_id ((pre @ ?page) @ drop 1000 rest))"
      using strict_rows[OF assms(1), of "page_filter d"] unfolding all .
    from rest_of[OF this] False have more: "filter (\<lambda>r. ?l < dr_id r) (sorted_rows (page_filter d) t) = drop 1000 rest"
      unfolding all by simp
    show ?thesis
    proof (cases "length rest < 1000")
      case True
      then show ?thesis unfolding step by simp
    next
      case False
      from Suc.IH[OF all more ok(2)] have "alloc_pages (answer_page t d) n ?l (fold point_row ?page m)
        = Some (fold point_row (take (1000 * n) (drop 1000 rest)) (fold point_row ?page m))" .
      moreover have "take (1000 * Suc n) rest = ?page @ take (1000 * n) (drop 1000 rest)" by (simp add: take_add)
      ultimately show ?thesis using False unfolding step by simp
    qed
  qed
qed simp

text \<open>What the ingest holds of one pair after some points.\<close>

definition own_rows :: "str \<times> str \<Rightarrow> daily_row list \<Rightarrow> daily_row list" where
  "own_rows k rs = filter (\<lambda>r. (dr_indexer_address r, dr_deployment_id r) = k) rs"

definition sums_up :: "alloc_agg \<Rightarrow> daily_row list \<Rightarrow> bool" where
  "sums_up e rs \<longleftrightarrow> al_query_sum e = (\<Sum>r \<leftarrow> rs. dr_query_count r) \<and> al_latest_day e = Max (dr_day_number ` set rs)
     \<and> al_latest_day_start e = 86400 * Max (dr_day_number ` set rs)"

lemma own_rows_le:
  assumes "list_all readable_row rs"
  shows "(\<Sum>r \<leftarrow> own_rows k rs. dr_query_count r) \<le> (\<Sum>r \<leftarrow> rs. dr_query_count r)" "0 \<le> (\<Sum>r \<leftarrow> rs. dr_query_count r)"
    "0 \<le> (\<Sum>r \<leftarrow> own_rows k rs. dr_query_count r)"
  using assms by (induction rs) (auto simp: own_rows_def readable_row_def)

lemma point_row_other: "(dr_indexer_address r, dr_deployment_id r) \<noteq> k \<Longrightarrow> map_of (point_row r m) k = map_of m k"
  by (simp add: point_row_def Let_def)

lemma alloc_rows_sum:
  assumes "list_all readable_row rs" "(\<Sum>r \<leftarrow> rs. dr_query_count r) < 2 ^ 53"
  shows "case map_of (fold point_row rs []) k of None \<Rightarrow> own_rows k rs = [] | Some e \<Rightarrow> own_rows k rs \<noteq> [] \<and> sums_up e (own_rows k rs)"
  using assms
proof (induction rs rule: rev_induct)
  case (snoc r rs)
  let ?m = "fold point_row rs []" and ?k = "(dr_indexer_address r, dr_deployment_id r)"
  have r: "readable_row r" and rs: "list_all readable_row rs" using snoc.prems(1) by simp_all
  have le: "(\<Sum>r \<leftarrow> rs. dr_query_count r) < 2 ^ 53" using snoc.prems(2) r by (simp add: readable_row_def)
  note IH = snoc.IH[OF rs le]
  have own: "own_rows k (rs @ [r]) = own_rows k rs @ (if ?k = k then [r] else [])" by (simp add: own_rows_def)
  show ?case
  proof (cases "?k = k")
    case False
    then show ?thesis using IH by (simp add: own point_row_other split: option.splits)
  next
    case True
    have q: "0 \<le> dr_query_count r" "0 \<le> dr_day_number r" "dr_day_start r = dr_day_number r * 86400" using r by (simp_all add: readable_row_def)
    have s: "(\<Sum>r \<leftarrow> own_rows k rs. dr_query_count r) + dr_query_count r < 2 ^ 53"
      using own_rows_le(1)[OF rs, of k] snoc.prems(2) by simp
    have w: "i64w ((\<Sum>r \<leftarrow> own_rows k rs. dr_query_count r) + dr_query_count r) = (\<Sum>r \<leftarrow> own_rows k rs. dr_query_count r) + dr_query_count r"
      by (rule i64w_id) (use own_rows_le(3)[OF rs, of k] q s in simp_all)
    show ?thesis
    proof (cases "map_of ?m k")
      case None
      then have o: "own_rows k rs = []" using IH by simp
      have e: "i64w (dr_query_count r) = dr_query_count r" using w by (simp add: o)
      have "point_row r ?m = tput k \<lparr>al_succ_weighted = fadd (F 0) (fmul (case dr_proportion_200 r of Some x \<Rightarrow> x | None \<Rightarrow> F 0)
          (f_of_int (dr_query_count r))), al_query_sum = dr_query_count r, al_latest_day = dr_day_number r,
          al_latest_day_start = dr_day_start r, al_latest_bb = (case dr_avg_behind r of Some x \<Rightarrow> x | None \<Rightarrow> F 0)\<rparr> ?m"
        using None q by (simp add: point_row_def True e del: F_simps)
      then show ?thesis using q by (simp add: own o True sums_up_def)
    next
      case (Some e)
      then have o: "own_rows k rs \<noteq> []" "al_query_sum e = (\<Sum>r \<leftarrow> own_rows k rs. dr_query_count r)"
        "al_latest_day e = Max (dr_day_number ` set (own_rows k rs))"
        "al_latest_day_start e = 86400 * Max (dr_day_number ` set (own_rows k rs))" using IH by (simp_all add: sums_up_def)
      have w': "i64w (al_query_sum e + dr_query_count r) = al_query_sum e + dr_query_count r" using w by (simp add: o(2))
      have mx: "Max (insert (dr_day_number r) (dr_day_number ` set (own_rows k rs))) = max (dr_day_number r) (al_latest_day e)"
        using o(1) by (simp add: o(3))
      have "\<exists>e'. map_of (point_row r ?m) k = Some e' \<and> al_query_sum e' = al_query_sum e + dr_query_count r
          \<and> al_latest_day e' = max (dr_day_number r) (al_latest_day e)
          \<and> al_latest_day_start e' = 86400 * max (dr_day_number r) (al_latest_day e)"
        using o(4) by (auto simp: point_row_def True Some w' Let_def q(3) o(3)[symmetric] max_def)
      then obtain e' where e': "map_of (point_row r ?m) k = Some e'" "al_query_sum e' = al_query_sum e + dr_query_count r"
        "al_latest_day e' = max (dr_day_number r) (al_latest_day e)"
        "al_latest_day_start e' = 86400 * max (dr_day_number r) (al_latest_day e)" by blast
      then show ?thesis by (simp add: own True sums_up_def mx o(2))
    qed
  qed
qed (simp add: own_rows_def)

lemma alloc_rows_twf: "twf m \<Longrightarrow> twf (fold point_row rs m)"
  by (induction rs arbitrary: m) (simp_all add: point_row_def Let_def)

definition newest_day :: "(bucket_key, fq_row) table \<Rightarrow> int" where
  "newest_day t = Max ((\<lambda>((_, _, b, _), _). day_of b) ` set t)"

text \<open>A feed the source's own writers leave: something in it, lower-case addresses, no dash in an address or a
  deployment id, times from the second day of the epoch on, and in the ingest's three days fewer queries than the
  integers a float holds exactly.\<close>

definition sound_feed :: "(bucket_key, fq_row) table \<Rightarrow> bool" where
  "sound_feed t \<longleftrightarrow> plain_keys t \<and> t \<noteq> []
     \<and> (\<Sum>(k, r) \<leftarrow> filter (\<lambda>((_, _, b, _), _). newest_day t - 2 \<le> day_of b) t. fq_query_count r) < 2 ^ 53
     \<and> (\<forall>((ix, dp, b, _), r) \<in> set t. ix \<noteq> '''' \<and> dp \<noteq> '''' \<and> to_lower ix = ix \<and> 86400000000 \<le> b \<and> b < 2 ^ 55 \<and> 0 \<le> fq_query_count r)"

abbreviation window :: "(bucket_key, fq_row) table \<Rightarrow> daily_filter" where
  "window t \<equiv> page_filter (newest_day t - 2)"

lemma sound_days: "sound_feed t \<Longrightarrow> ((ix, dp, b, w), r) \<in> set t \<Longrightarrow> 1 \<le> day_of b \<and> day_of b < 2 ^ 40"
proof -
  assume "sound_feed t" "((ix, dp, b, w), r) \<in> set t"
  then have b: "86400000000 \<le> b" "b \<le> 2 ^ 55" by (fastforce simp: sound_feed_def)+
  have "86400000000 div 86400000000 \<le> b div 86400000000" "b div 86400000000 \<le> 2 ^ 55 div 86400000000"
    using b by (auto intro: zdiv_mono1)
  then show ?thesis by (simp add: day_of_def)
qed

lemma pairs_le: "list_all (\<lambda>(k, r). 0 \<le> fq_query_count r) ps \<Longrightarrow>
    (\<Sum>(k, r) \<leftarrow> filter P ps. fq_query_count r) \<le> (\<Sum>(k, r) \<leftarrow> ps. fq_query_count r)"
  by (induction ps) auto

definition day_pairs :: "(bucket_key, fq_row) table \<Rightarrow> ((str \<times> str \<times> int) \<times> fq_row) list" where
  "day_pairs t = map (\<lambda>((ix, dp, b, _), r). ((ix, dp, day_of b), r)) t"

lemma daily_counts_le:
  assumes "sound_feed t"
  shows "(\<Sum>r \<leftarrow> daily_rows (window t) t. dr_query_count r) < 2 ^ 53"
    "list_all (\<lambda>r. 0 \<le> dr_query_count r) (daily_rows (window t) t)"
proof -
  let ?f = "window t" and ?recent = "\<lambda>((_, _, b, _), _). newest_day t - 2 \<le> day_of b"
  have "filter (\<lambda>(k, _). in_group ?f k) (day_pairs t) = day_pairs (filter ?recent t)"
    unfolding day_pairs_def filter_map
    by (simp add: in_group_def page_filter_def daily_default_def opt_test_def comp_def split_def)
  then have g: "daily_groups ?f t = group_pairs (day_pairs (filter ?recent t))"
    by (simp add: daily_groups_def day_pairs_def)
  have c: "dr_query_count (daily_row_of k rows) = (\<Sum>r \<leftarrow> rows. fq_query_count r)" for k rows
    by (simp add: daily_row_of_def Let_def split_def)
  have pos: "list_all (\<lambda>(k, r). 0 \<le> fq_query_count r) (day_pairs (filter ?recent t))"
    using assms by (fastforce simp: sound_feed_def day_pairs_def list_all_iff)
  have "(\<Sum>r \<leftarrow> daily_rows ?f t. dr_query_count r) = (\<Sum>(k, rows) \<leftarrow> daily_groups ?f t. \<Sum>r \<leftarrow> rows. fq_query_count r)"
    by (simp add: daily_rows_def comp_def split_def c)
  also have "\<dots> = (\<Sum>(k, r) \<leftarrow> day_pairs (filter ?recent t). fq_query_count r)" unfolding g sum_groups by simp
  also have "\<dots> = (\<Sum>(k, r) \<leftarrow> filter ?recent t. fq_query_count r)" by (simp add: day_pairs_def comp_def split_def)
  finally show "(\<Sum>r \<leftarrow> daily_rows ?f t. dr_query_count r) < 2 ^ 53" using assms by (simp add: sound_feed_def)
  have "0 \<le> dr_query_count (daily_row_of k rows)" if "(k, rows) \<in> set (daily_groups ?f t)" for k rows
    using that pos unfolding g group_entry c by (fastforce simp: values_at_def list_all_iff intro!: sum_list_nonneg)
  then show "list_all (\<lambda>r. 0 \<le> dr_query_count r) (daily_rows ?f t)" by (auto simp: daily_rows_def list_all_iff)
qed

lemma member_le: "list_all (\<lambda>r. 0 \<le> h r) rs \<Longrightarrow> r \<in> set rs \<Longrightarrow> h r \<le> (\<Sum>r \<leftarrow> rs. (h r :: int))"
proof (induction rs)
  case (Cons x rs)
  have "0 \<le> (\<Sum>r \<leftarrow> rs. h r)" using Cons.prems(1) by (auto simp: list_all_iff intro!: sum_list_nonneg)
  then show ?case using Cons by auto
qed simp

lemma sound_readable:
  assumes "sound_feed t" "r \<in> set (daily_rows (window t) t)"
  shows "readable_row r"
proof -
  obtain k rows where k: "(k, rows) \<in> set (daily_groups (window t) t)" "r = daily_row_of k rows" using assms(2) by (auto simp: daily_rows_def)
  obtain ix dp day where kk: "k = (ix, dp, day)" by (cases k)
  from k(1) have "k \<in> fst ` set (day_pairs t)"
    unfolding daily_groups_def group_entry day_pairs_def[symmetric] by auto
  then obtain b w q where q: "((ix, dp, b, w), q) \<in> set t" "day = day_of b" by (auto simp: day_pairs_def kk)
  then have "ix \<noteq> ''''" "dp \<noteq> ''''" "to_lower ix = ix" using assms(1) by (fastforce simp: sound_feed_def)+
  moreover have "1 \<le> day" "day < 2 ^ 40" using sound_days[OF assms(1) q(1)] by (simp_all add: q(2))
  moreover have "0 \<le> dr_query_count r" using daily_counts_le(2)[OF assms(1)] assms(2) by (simp add: list_all_iff)
  moreover have "dr_query_count r \<le> (\<Sum>r \<leftarrow> daily_rows (window t) t. dr_query_count r)"
    using daily_counts_le(2)[OF assms(1)] assms(2) by (auto intro: member_le)
  moreover have "dr_indexer_address r = ix" "dr_deployment_id r = dp" "dr_day_number r = day" "dr_day_start r = day * 86400"
    "pred_option f64_ok (dr_proportion_200 r)" "pred_option f64_ok (dr_avg_behind r)"
    by (simp_all add: k(2) kk daily_row_of_def Let_def per_count_def f_avg_def fdiv_ok)
  ultimately show ?thesis using daily_counts_le(1)[OF assms(1)] by (simp add: readable_row_def)
qed

lemma newest_answer:
  assumes "sound_feed t"
  shows "answer_newest t = Some (JObj [(''data'', JObj [(''allocationDailyDataPoints'', JArr [JObj [(''dayNumber'', jint (newest_day t))]])])])"
proof -
  let ?f = "args_page newest_args (args_where newest_args daily_default)"
  let ?rs = "sort_key (\<lambda>r. - dr_day_number r) (sort_key (\<lambda>r. - dr_query_count r) (daily_rows daily_default t))"
  have f: "df_limit ?f = 1" "df_skip ?f = 0" "df_order ?f = DayDesc" "daily_groups ?f t = daily_groups daily_default t"
    "filter (daily_keeps ?f) rs = rs" for rs
    by (simp_all add: args_page_def newest_args_def args_where_def first_skip_def order_of_def daily_groups_def in_group_def
        daily_keeps_def daily_default_def opt_test_def filter_id_conv)
  have "root_points True newest_args t = Some (take 1 ?rs)"
    by (simp add: root_points_def fetch_points_def args_feed_def f daily_points_def daily_rows_def newest_args_def[THEN arg_cong, of ga_where])
  moreover have days: "dr_day_number ` set ?rs = (\<lambda>((_, _, b, _), _). day_of b) ` set t"
  proof -
    have "daily_groups daily_default t = group_pairs (day_pairs t)"
      by (simp add: daily_groups_def day_pairs_def in_group_def daily_default_def opt_test_def split_def)
    then have "(\<lambda>(ix, dp, day). day) ` fst ` set (daily_groups daily_default t) = (\<lambda>(ix, dp, day). day) ` fst ` set (day_pairs t)"
      by (simp only: group_keys)
    moreover have "dr_day_number ` set ?rs = (\<lambda>(ix, dp, day). day) ` fst ` set (daily_groups daily_default t)"
      by (force simp: daily_rows_def image_image daily_row_of_def Let_def split_def)
    ultimately show ?thesis by (force simp: day_pairs_def image_image split_def)
  qed
  moreover have "take 1 ?rs = [hd ?rs] \<and> dr_day_number (hd ?rs) = newest_day t"
  proof -
    have "set t \<noteq> {}" using assms by (simp add: sound_feed_def)
    then have "dr_day_number ` set ?rs \<noteq> {}" unfolding days by blast
    then have ne: "?rs \<noteq> []" by blast
    have "sorted (map (\<lambda>r. - dr_day_number r) ?rs)" by simp
    then have "\<forall>r \<in> set ?rs. dr_day_number r \<le> dr_day_number (hd ?rs)" using ne by (cases ?rs) auto
    then have "dr_day_number (hd ?rs) = Max (dr_day_number ` set ?rs)"
      using imageI[OF hd_in_set[OF ne], of dr_day_number] by (intro Max_eqI[symmetric]) auto
    then show ?thesis using ne unfolding days newest_day_def by (cases ?rs) auto
  qed
  ultimately show ?thesis
    by (simp add: answer_newest_def points_body_def pick_fields_def point_fields_def map_filter_simps)
qed

lemma sorted_sum: "(\<Sum>r \<leftarrow> sort_key g rs. h r) = (\<Sum>r \<leftarrow> rs. (h r :: int))"
  by (metis mset_map mset_sort sum_mset_sum_list)

lemma kept_sum: "list_all (\<lambda>r. 0 \<le> h r) rs \<Longrightarrow> (\<Sum>r \<leftarrow> filter P rs. h r) \<le> (\<Sum>r \<leftarrow> rs. (h r :: int))"
  by (induction rs) auto

text \<open>What the ingest reads: the first sixty pages of the window, in the order of the ids.\<close>

definition read_rows :: "(bucket_key, fq_row) table \<Rightarrow> daily_row list" where
  "read_rows t = take 60000 (sorted_rows (window t) t)"

lemma window_rows:
  assumes "sound_feed t"
  shows "list_all readable_row (sorted_rows (window t) t)" "list_all readable_row (read_rows t)"
    "(\<Sum>r \<leftarrow> read_rows t. dr_query_count r) < 2 ^ 53" "list_all (\<lambda>r. 10 \<le> dr_query_count r) (read_rows t)"
proof -
  let ?rows = "sorted_rows (window t) t"
  show all: "list_all readable_row ?rows" using sound_readable[OF assms] by (auto simp: sorted_rows_def list_all_iff)
  then show "list_all readable_row (read_rows t)" by (auto simp: read_rows_def list_all_iff dest: in_set_takeD)
  have "0 \<le> (\<Sum>r \<leftarrow> drop 60000 ?rows. dr_query_count r)"
    using all by (intro sum_list_nonneg) (auto simp: list_all_iff readable_row_def dest: in_set_dropD)
  moreover have "(\<Sum>r \<leftarrow> ?rows. dr_query_count r) =
      (\<Sum>r \<leftarrow> take 60000 ?rows. dr_query_count r) + (\<Sum>r \<leftarrow> drop 60000 ?rows. dr_query_count r)"
    by (metis append_take_drop_id map_append sum_list_append)
  moreover have "(\<Sum>r \<leftarrow> ?rows. dr_query_count r) < 2 ^ 53"
    using daily_counts_le[OF assms] kept_sum[of dr_query_count "daily_rows (window t) t"]
    by (simp add: sorted_rows_def sorted_sum) (meson le_less_trans)
  ultimately show "(\<Sum>r \<leftarrow> read_rows t. dr_query_count r) < 2 ^ 53" unfolding read_rows_def by linarith
  show "list_all (\<lambda>r. 10 \<le> dr_query_count r) (read_rows t)"
    by (auto simp: read_rows_def sorted_rows_def page_filter_def list_all_iff opt_test_def dest!: in_set_takeD)
qed

lemma map_of_snd: "map_of (map (\<lambda>x. (fst x, g (snd x))) xs) k = map_option g (map_of xs k)"
  by (induction xs) auto

lemma twf_filter: "twf t \<Longrightarrow> twf (filter P t)"
  by (simp add: twf_def distinct_map_filter)

lemma map_of_twf_filter: "twf t \<Longrightarrow> map_of (filter (\<lambda>(k, v). P v) t) k = (case map_of t k of Some v \<Rightarrow> if P v then Some v else None | None \<Rightarrow> None)"
  by (induction t) (fastforce simp: twf_def image_iff split: option.split dest: map_of_SomeD)+

lemma nil_less: "([] :: str) < s \<longleftrightarrow> s \<noteq> []"
  by (cases s) auto

text \<open>The steps of the ingest: the newest day is sound, its window's rows count queries, and what is kept is stored.\<close>

lemma newest_day_sound:
  assumes "sound_feed t"
  shows "1 \<le> newest_day t" "newest_day t < 2 ^ 40"
proof -
  have "newest_day t \<in> (\<lambda>((_, _, b, _), _). day_of b) ` set t"
    unfolding newest_day_def by (rule Max_in) (use assms in \<open>auto simp: sound_feed_def\<close>)
  then show "1 \<le> newest_day t" "newest_day t < 2 ^ 40" using sound_days[OF assms] by force+
qed

lemma window_counts_positive:
  assumes "sound_feed t" "own_rows k (read_rows t) \<noteq> []"
  shows "0 < (\<Sum>r \<leftarrow> own_rows k (read_rows t). dr_query_count r)" (is "0 < sum_list (map _ ?own)")
proof -
  have "list_all (\<lambda>r. 10 \<le> dr_query_count r) ?own" using window_rows(4)[OF assms(1)] by (auto simp: own_rows_def list_all_iff)
  then have n: "list_all (\<lambda>r. 0 \<le> dr_query_count r) ?own" "10 \<le> dr_query_count (hd ?own)"
    using hd_in_set[OF assms(2)] by (auto simp: list_all_iff)
  then show ?thesis using member_le[OF n(1) hd_in_set[OF assms(2)]] by linarith
qed

lemma upsert_kept:
  assumes "twf m" "twf t0"
  shows "map_of (fold (\<lambda>x. tput (fst x) (g (snd x))) (filter (\<lambda>(_, a). p a) m) t0) k =
    (case map_of m k of Some e \<Rightarrow> if p e then Some (g e) else map_of t0 k | None \<Rightarrow> map_of t0 k)"
proof -
  let ?kept = "filter (\<lambda>(_, a). p a) m"
  have d: "distinct (map fst (map (\<lambda>x. (fst x, g (snd x))) ?kept))"
    using twf_filter[OF assms(1), of "\<lambda>(_, a). p a"] by (simp add: twf_def comp_def)
  have "map_of (fold (\<lambda>x. tput (fst x) (g (snd x))) ?kept t0) k =
      (case map_of (rev (map (\<lambda>x. (fst x, g (snd x))) ?kept)) k of None \<Rightarrow> map_of t0 k | Some v \<Rightarrow> Some v)"
    by (rule tbl.put_all)
  moreover have "map_of (rev (map (\<lambda>x. (fst x, g (snd x))) ?kept)) k = map_option g (map_of ?kept k)"
    unfolding map_of_rev_distinct[OF d] by (rule map_of_snd[of g])
  moreover have "map_of ?kept k = (case map_of m k of Some v \<Rightarrow> if p v then Some v else None | None \<Rightarrow> None)"
    by (rule map_of_twf_filter[OF assms(1)])
  ultimately show ?thesis by (simp split: option.split)
qed

definition stored_alloc :: "int \<Rightarrow> int \<Rightarrow> alloc_agg \<Rightarrow> alloc_qos_row" where
  "stored_alloc day now a = \<lparr>aq_day_number = i32w day, aq_day_start = al_latest_day_start a,
     aq_success_rate = fdiv (al_succ_weighted a) (f_of_int (al_query_sum a)), aq_blocks_behind = al_latest_bb a,
     aq_query_count = al_query_sum a, aq_updated_at = now\<rparr>"

lemma stored_alloc_fields [simp]: "aq_query_count (stored_alloc day now a) = al_query_sum a"
  "aq_day_start (stored_alloc day now a) = al_latest_day_start a" "aq_updated_at (stored_alloc day now a) = now"
  by (simp_all add: stored_alloc_def)

lemma ingest_stores_window:
  assumes "sound_feed t"
  shows "snd (ingest_allocation_qos (answer_newest t) (answer_page t) started now t0) = tdel (\<lambda>_ r. aq_updated_at r < started)
    (fold (\<lambda>x. tput (fst x) (stored_alloc (newest_day t) now (snd x))) (filter (\<lambda>(_, a). 0 < al_query_sum a)
      (fold point_row (read_rows t) [])) t0)"
proof -
  let ?rows = "sorted_rows (window t) t"
  note day = newest_day_sound[OF assms]
  have newest: "latest_day (the (answer_newest t)) = newest_day t"
    using day by (simp add: newest_answer[OF assms] latest_day_def either_i64_def jint_def str_i64_def)
  have w: "i64w (newest_day t - (ALLOC_WINDOW_DAYS - 1)) = newest_day t - 2"
    using day by (simp add: ALLOC_WINDOW_DAYS_def i64w_id)
  have ids: "filter (\<lambda>r. '''' < dr_id r) ?rows = ?rows"
    by (auto simp: filter_id_conv sorted_rows_def daily_rows_def daily_row_of_def daily_id_def Let_def nil_less)
  have pages: "alloc_pages (answer_page t (newest_day t - 2)) 60 '''' [] = Some (fold point_row (read_rows t) [])"
    using alloc_pages_read[OF _ _ ids window_rows(1)[OF assms], of "[]" 60 "[]"] assms by (simp add: sound_feed_def read_rows_def)
  show ?thesis
    using day newest w pages newest_answer[OF assms] by (simp add: ingest_allocation_qos_def stored_alloc_def Let_def split_def)
qed

text \<open>
  C5. The endpoint is a drop-in replacement for the oracle's: the allocation ingest of this repository, pointed
  at it instead, reads the points of the feed's last three days with at least ten queries, through the printed
  numbers and the pages of a thousand, as far as its sixty pages go: the first sixty thousand in the order of their
  ids. It stores, for exactly the pairs of indexer and deployment among them, the sum of their queries and the start
  of the newest of their days, and drops every row it did not write, those of pairs beyond the sixtieth page too.
  The feed is what its writers leave: it has a row, each with a lower-case address and a deployment id, neither
  empty nor with a dash, a start from the second day of the epoch to the year 3111 and no negative count, and fewer
  than \<open>2 ^ 53\<close> queries in the three days; the table before has one row per pair, each older than the start of the
  ingest, whose clock does not run backwards.
\<close>

theorem ingest_reads_own_feed:
  assumes "sound_feed t" "twf t0" "list_all (\<lambda>(k, r). aq_updated_at r < started) t0" "started \<le> now"
  shows "(let out = snd (ingest_allocation_qos (answer_newest t) (answer_page t) started now t0);
      own = own_rows k (take 60000 (sorted_rows (page_filter (newest_day t - 2)) t)) in
    map_option (\<lambda>r. (aq_query_count r, aq_day_start r, aq_updated_at r)) (map_of out k) =
      (if own = [] then None
       else Some (\<Sum>r \<leftarrow> own. dr_query_count r, 86400 * Max (dr_day_number ` set own), now)))"
proof -
  let ?own = "own_rows k (read_rows t)" and ?agg = "fold point_row (read_rows t) []"
  let ?kept = "filter (\<lambda>(_, a). 0 < al_query_sum a) ?agg"
  let ?t1 = "fold (\<lambda>x. tput (fst x) (stored_alloc (newest_day t) now (snd x))) ?kept t0"
  have agg: "case map_of ?agg k of None \<Rightarrow> ?own = [] | Some e \<Rightarrow> ?own \<noteq> [] \<and> sums_up e ?own"
    by (rule alloc_rows_sum[OF window_rows(2,3)[OF assms(1)]])
  have twf: "twf ?agg" by (rule alloc_rows_twf) (simp add: twf_def)
  have t1: "twf ?t1" by (rule tbl.wf_put_all[OF assms(2)])
  note got = upsert_kept[OF twf assms(2), where p = "\<lambda>a. 0 < al_query_sum a" and g = "stored_alloc (newest_day t) now" and k = k]
  have old: "aq_updated_at r < started" if "map_of t0 k = Some r" for r
    using that assms(3) by (auto simp: list_all_iff dest: map_of_SomeD)
  have "map_option (\<lambda>r. (aq_query_count r, aq_day_start r, aq_updated_at r)) (map_of (tdel (\<lambda>_ r. aq_updated_at r < started) ?t1) k) =
      (if ?own = [] then None else Some (\<Sum>r \<leftarrow> ?own. dr_query_count r, 86400 * Max (dr_day_number ` set ?own), now))"
  proof (cases "map_of ?agg k")
    case None
    then have "?own = []" "map_of ?t1 k = map_of t0 k" using agg got by simp_all
    then show ?thesis using old by (cases "map_of t0 k") (simp_all add: map_of_tdel[OF t1])
  next
    case (Some e)
    then have e: "?own \<noteq> []" "sums_up e ?own" using agg by simp_all
    then have "0 < al_query_sum e" using window_counts_positive[OF assms(1)] by (simp add: sums_up_def)
    then have "map_of ?t1 k = Some (stored_alloc (newest_day t) now e)" using got Some by simp
    then show ?thesis using e assms(4) by (simp add: map_of_tdel[OF t1] sums_up_def)
  qed
  then show ?thesis unfolding Let_def ingest_stores_window[OF assms(1)] read_rows_def .
qed

definition day_feed :: "(bucket_key, fq_row) table" where
  "day_feed = [((''0xa'', ''Qm'', 86400000000, 300), demo_bucket 12), ((''0xa'', ''Qm'', 86700000000, 300), demo_bucket 3),
     ((''0xb'', ''Qm'', 86400000000, 300), demo_bucket 4)]"

theorem ingest_reads_own_feed_witness:
  "map_option (\<lambda>r. (aq_query_count r, aq_day_start r, aq_updated_at r)) (map_of (snd (ingest_allocation_qos (answer_newest day_feed) (answer_page day_feed) 5 6 []))
     (''0xa'', ''Qm'')) = Some (15, 86400, 6)"
proof -
  have lower: "to_lower ''0xa'' = ''0xa''" "to_lower ''0xb'' = ''0xb''" by code_simp+
  have "newest_day day_feed = 1" by (simp add: newest_day_def day_feed_def day_of_def)
  moreover from this have "sound_feed day_feed"
    by (simp add: sound_feed_def) (simp add: day_feed_def plain_keys_def demo_bucket_def lower day_of_def)
  moreover have "sorted_rows (page_filter (- 1)) day_feed = [daily_row_of (''0xa'', ''Qm'', 1) [demo_bucket 12, demo_bucket 3]]"
    by (simp add: sorted_rows_def daily_rows_def daily_groups_def page_filter_def daily_default_def in_group_def opt_test_def
        day_feed_def group_pairs_def mm_push_def day_of_def daily_row_of_def Let_def demo_bucket_def)
  ultimately show ?thesis
    using ingest_reads_own_feed[of day_feed "[]" 5 6 "(''0xa'', ''Qm'')"]
    by (simp add: twf_def Let_def own_rows_def daily_row_of_def demo_bucket_def)
qed

end
