(* ===== verification/Api.thy ===== *)
theory Api
  imports Graphql Fees Oracle_Watch Ingest
begin

text \<open>
  What the read-only handlers of \<open>foghorn-api/src/routes.rs\<close> share: the tables they read, the request's
  environment, PostgreSQL's ordering of doubles and its aggregates, windows that reach back some days, and
  pages. A handler answers a status code or a JSON body.
\<close>

section \<open>State\<close>

record freshness_row =
  fr_indexer_address :: str
  fr_deployment_id :: str
  fr_sampled_at :: int
  fr_chainhead_lag_blocks :: int

record api_db =
  ap_scorer :: scorer_db
  ap_freshness :: "freshness_row list"
  ap_alloc_qos :: "(str \<times> str, alloc_qos_row) table"
  ap_fees :: fee_table
  ap_watch :: watch_db
  ap_health :: "health_row option"
  ap_nondet_first_seen :: "(str, int) table"

abbreviation ap_qos :: "api_db \<Rightarrow> qos_db" where "ap_qos d \<equiv> sd_qos (ap_scorer d)"
abbreviation ap_judge :: "api_db \<Rightarrow> judge_db" where "ap_judge d \<equiv> qd_judge (ap_qos d)"
abbreviation ap_probe :: "api_db \<Rightarrow> probe_db" where "ap_probe d \<equiv> jd_probe (ap_judge d)"

text \<open>The environment of one request: the clock, which of its queries succeed, in the order it makes them,
  and how a time is printed by \<open>serde\<close> and by \<open>to_rfc3339\<close>.\<close>

record api_env =
  ev_now :: int
  ev_up :: "nat \<Rightarrow> bool"
  ev_iso :: "int \<Rightarrow> str"
  ev_rfc :: "int \<Rightarrow> str"

type_synonym response = "int + json"

definition HTTP_404 :: int where "HTTP_404 = 404"
definition HTTP_500 :: int where "HTTP_500 = 500"

text \<open>A query whose failure ends the request, and one whose failure falls back to a value.\<close>

definition ask :: "api_env \<Rightarrow> nat \<Rightarrow> 'a option \<Rightarrow> int + 'a" where
  "ask e n r = (if ev_up e n then (case r of Some v \<Rightarrow> Inr v | None \<Rightarrow> Inl HTTP_500) else Inl HTTP_500)"

definition ask_or :: "api_env \<Rightarrow> nat \<Rightarrow> 'a \<Rightarrow> 'a \<Rightarrow> 'a" where
  "ask_or e n d v = (if ev_up e n then v else d)"

definition answer :: "int + 'a \<Rightarrow> ('a \<Rightarrow> int + 'b) \<Rightarrow> int + 'b" where
  "answer r f = (case r of Inl c \<Rightarrow> Inl c | Inr v \<Rightarrow> f v)"

lemma answer_simps [simp]: "answer (Inl c) f = Inl c" "answer (Inr v) f = f v"
  by (simp_all add: answer_def)

section \<open>Order\<close>

text \<open>PostgreSQL's total order of doubles: NaN is equal to itself and above every number.\<close>

instantiation f64 :: linorder
begin

definition less_eq_f64 :: "f64 \<Rightarrow> f64 \<Rightarrow> bool" where
  "less_eq_f64 x y \<longleftrightarrow> is_nan y \<or> fle x y"

definition less_f64 :: "f64 \<Rightarrow> f64 \<Rightarrow> bool" where
  "less_f64 x y \<longleftrightarrow> x \<le> y \<and> \<not> y \<le> x"

instance
proof
  fix x y z :: f64
  have nan: "is_nan a \<longleftrightarrow> a = NaN" for a by (cases a) auto
  have no: "\<not> fle NaN a" "\<not> fle a NaN" for a using fle_not_nan by fastforce+
  show "(x < y) = (x \<le> y \<and> \<not> y \<le> x)" by (rule less_f64_def)
  show "x \<le> x" using fle_refl by (auto simp: less_eq_f64_def)
  show "x \<le> y \<Longrightarrow> y \<le> z \<Longrightarrow> x \<le> z" using fle_trans no by (auto simp: less_eq_f64_def nan)
  show "x \<le> y \<Longrightarrow> y \<le> x \<Longrightarrow> x = y" using fle_antisym no by (auto simp: less_eq_f64_def nan)
  show "x \<le> y \<or> y \<le> x" using fle_total by (auto simp: less_eq_f64_def)
qed

end

definition desc_by :: "('a \<Rightarrow> 'b::linorder) \<Rightarrow> 'a list \<Rightarrow> 'a list" where
  "desc_by f xs = rev (sort_key f (rev xs))"

lemma set_desc_by [simp]: "set (desc_by f xs) = set xs"
  by (simp add: desc_by_def)

lemma length_desc_by [simp]: "length (desc_by f xs) = length xs"
  by (simp add: desc_by_def)

lemma desc_by_sorted: "sorted_wrt (\<lambda>a b. f b \<le> f a) (desc_by f xs)"
proof -
  have "sorted_wrt (\<lambda>a b. f a \<le> f b) (sort_key f (rev xs))"
    using sorted_sort_key[of f "rev xs"] by (simp add: sorted_map)
  then show ?thesis by (simp add: desc_by_def sorted_wrt_rev)
qed

section \<open>Aggregates\<close>

text \<open>\<open>ROUND(AVG(..))::int\<close> of integers, exact, half away from zero; \<open>percentile_cont\<close> as a double.\<close>

definition half_away :: "rat \<Rightarrow> int" where
  "half_away x = (if 0 \<le> x then \<lfloor>x + 1 / 2\<rfloor> else - \<lfloor>1 / 2 - x\<rfloor>)"

definition avg_int :: "int list \<Rightarrow> int option" where
  "avg_int xs = (if xs = [] then None else Some (half_away (of_int (sum_list xs) / of_nat (length xs))))"

definition percentile_cont :: "rat \<Rightarrow> int list \<Rightarrow> f64 option" where
  "percentile_cont p xs = (if xs = [] then None else
     let ys = sort xs; pos = fmul (F p) (f_of_int (int (length ys) - 1)) in
     (case pos of
        Fin q \<Rightarrow> let lo = f_of_int (ys ! nat \<lfloor>q\<rfloor>); hi = f_of_int (ys ! nat \<lceil>q\<rceil>) in
          Some (if \<lfloor>q\<rfloor> = \<lceil>q\<rceil> then lo else fadd lo (fmul (fsub pos (f_of_int \<lfloor>q\<rfloor>)) (fsub hi lo)))
      | _ \<Rightarrow> None))"

definition rate :: "int \<Rightarrow> int \<Rightarrow> f64" where
  "rate n all = (if 0 < all then fdiv (f_of_int n) (f_of_int all) else F 0)"

section \<open>Windows and pages\<close>

text \<open>\<open>NOW() - interval\<close>, an error outside the range of a timestamp (4713 BC to 294276 AD, in microseconds of
  the Unix epoch); and \<open>LIMIT\<close> with \<open>OFFSET\<close>, an error when one is negative.\<close>

definition pg_back :: "int \<Rightarrow> int \<Rightarrow> int option" where
  "pg_back now us = (let t = now - us in
     if - 210866803200000000 \<le> t \<and> t < 9224318016000000000 then Some t else None)"

definition day_us :: int where "day_us = 86400000000"
definition hour_us :: int where "hour_us = 3600000000"

definition page_of_rows :: "int \<Rightarrow> int \<Rightarrow> 'a list \<Rightarrow> 'a list option" where
  "page_of_rows limit offset xs = (if limit < 0 \<or> offset < 0 then None else Some (take (nat limit) (drop (nat offset) xs)))"

text \<open>What a public list promises, and what follows of a page of it: nothing left out comes before what is shown.\<close>

locale listing =
  fixes rows :: "'q \<Rightarrow> 'r list" and key :: "'r \<Rightarrow> 'k::linorder"
  assumes best_first: "sorted_wrt (\<lambda>a b. key b \<le> key a) (rows q)"
begin

lemma left_out_below: "x \<in> set (take n (rows q)) \<Longrightarrow> y \<in> set (drop n (rows q)) \<Longrightarrow> key y \<le> key x"
  using best_first[of q] sorted_wrt_append[of "\<lambda>a b. key b \<le> key a" "take n (rows q)" "drop n (rows q)"] by simp

lemma first_page_best:
  assumes "page_of_rows limit 0 (rows q) = Some ys" "x \<in> set ys" "y \<in> set (rows q)" "y \<notin> set ys"
  shows "key y \<le> key x"
proof -
  have "ys = take (nat limit) (rows q)" using assms(1) by (simp add: page_of_rows_def split: if_splits)
  moreover have "set (rows q) = set (take (nat limit) (rows q)) \<union> set (drop (nat limit) (rows q))" by (simp flip: set_append)
  ultimately show ?thesis using assms(2-4) left_out_below by blast
qed

end

definition or_else :: "'a \<Rightarrow> 'a option \<Rightarrow> 'a" where
  "or_else d v = (case v of Some x \<Rightarrow> x | None \<Rightarrow> d)"

lemma or_else_simps [simp]: "or_else d None = d" "or_else d (Some x) = x"
  by (simp_all add: or_else_def)

definition clamp_int :: "int \<Rightarrow> int \<Rightarrow> int \<Rightarrow> int" where
  "clamp_int lo hi n = max lo (min hi n)"

text \<open>\<open>body["key"] = v\<close>, and a list with its length.\<close>

fun jset :: "str \<Rightarrow> json \<Rightarrow> json \<Rightarrow> json" where
  "jset k v (JObj m) = JObj (tput k v m)"
| "jset k v j = j"

definition counted_list :: "str \<Rightarrow> json list \<Rightarrow> (str \<times> json) list" where
  "counted_list name xs = [(name, JArr xs), (''count'', jint (int (length xs)))]"

definition jtime :: "(int \<Rightarrow> str) \<Rightarrow> int \<Rightarrow> json" where
  "jtime show t = JStr (show t)"

end
