(* ===== verification/Routes_Probe.thy ===== *)
theory Routes_Probe
  imports Api
begin

text \<open>
  The handlers over probes and judged answers, \<open>foghorn-api/src/routes.rs\<close>: the statistics, the public feed of
  disagreements, one probe, the quality of an indexer and of a deployment, freshness and the deployments.
  Each is the rows its queries return and the JSON it makes of them.
\<close>

section \<open>Health and statistics\<close>

definition health :: "str \<Rightarrow> response" where
  "health version = Inr (JObj [(''status'', JStr ''ok''), (''version'', JStr version)])"

definition split_events :: "probe_db \<Rightarrow> (str \<times> divergence_row) list" where
  \<comment> \<open>The rows in which the answers differed.\<close>
  "split_events d = filter (\<lambda>(_, v). 1 < dv_cluster_count v) (divergences d)"

definition stats :: "api_env \<Rightarrow> api_db \<Rightarrow> response" where
  "stats e d = (let p = ap_probe d; since = ev_now e - day_us;
     total_probes = ask_or e 0 0 (int (length (probes p)));
     total_divergences = ask_or e 1 0 (int (length (split_events p)));
     opted_in = ask_or e 2 0 (count_distinct (map (snd \<circ> fst) (observations p)));
     covered = ask_or e 3 0 (count_distinct (map (pr_deployment_id \<circ> snd) (probes p)));
     probes_24h = ask_or e 4 0 (int (length (filter (\<lambda>(_, r). since < pr_dispatched_at r) (probes p))));
     divergences_24h = ask_or e 5 0 (int (length (filter (\<lambda>(_, v). since < dv_created_at v) (split_events p))))
   in Inr (JObj [(''total_probes'', jint total_probes), (''total_divergences'', jint total_divergences),
     (''opted_in_indexers'', jint opted_in), (''deployments_covered'', jint covered),
     (''divergence_rate_24h'', jf (rate divergences_24h probes_24h)),
     (''probes_24h'', jint probes_24h), (''divergences_24h'', jint divergences_24h)]))"

section \<open>The feed of disagreements\<close>

record feed_params =
  fp_limit :: "int option"
  fp_offset :: "int option"
  fp_deployment_id :: "str option"
  fp_indexer :: "str option"

record feed_event =
  ve_probe_id :: str
  ve_probe :: probe_row
  ve_cluster_count :: int
  ve_diff_patches :: json
  ve_indexer_count :: int
  ve_created_at :: int

definition probe_observations :: "probe_db \<Rightarrow> str \<Rightarrow> (str \<times> observation_row) list" where
  "probe_observations d pid = List.map_filter (\<lambda>((q, a), o'). if q = pid then Some (a, o') else None) (observations d)"

definition feed_events :: "probe_db \<Rightarrow> str option \<Rightarrow> feed_event list" where
  "feed_events d dep = desc_by ve_created_at (List.map_filter (\<lambda>(pid, v). case map_of (probes d) pid of
      None \<Rightarrow> None
    | Some p \<Rightarrow> if opt_test (\<lambda>x. pr_deployment_id p = x) dep then Some \<lparr>ve_probe_id = pid, ve_probe = p,
        ve_cluster_count = dv_cluster_count v, ve_diff_patches = dv_diff_patches v,
        ve_indexer_count = int (length (probe_observations d pid)), ve_created_at = dv_created_at v\<rparr> else None)
      (split_events d))"

definition feed_event_json :: "api_env \<Rightarrow> feed_event \<Rightarrow> json" where
  "feed_event_json e r = (let p = ve_probe r in JObj [
     (''probe_id'', JStr (ve_probe_id r)), (''deployment_id'', JStr (pr_deployment_id p)),
     (''block_number'', jint (pr_block_number p)), (''block_hash'', JStr (pr_block_hash p)),
     (''query_category'', JStr (pr_query_category p)), (''dispatched_at'', jtime (ev_iso e) (pr_dispatched_at p)),
     (''cluster_count'', jint (ve_cluster_count r)), (''indexer_count'', jint (ve_indexer_count r)),
     (''diff_patch_count'', jint (case as_array (ve_diff_patches r) of Some xs \<Rightarrow> int (length xs) | None \<Rightarrow> 0))])"

definition feed_rows :: "feed_params \<Rightarrow> probe_db \<Rightarrow> feed_event list option" where
  "feed_rows q d = page_of_rows (min (or_else 50 (fp_limit q)) 200) (or_else 0 (fp_offset q)) (feed_events d (fp_deployment_id q))"

definition feed_route :: "api_env \<Rightarrow> feed_params \<Rightarrow> api_db \<Rightarrow> response" where
  "feed_route e q d = answer (ask e 0 (feed_rows q (ap_probe d)))
     (\<lambda>rows. Inr (JObj (counted_list ''events'' (map (feed_event_json e) rows))))"

section \<open>One probe\<close>

definition probe_json :: "api_env \<Rightarrow> str \<Rightarrow> probe_row \<Rightarrow> json" where
  "probe_json e pid p = JObj [(''id'', JStr pid), (''deployment_id'', JStr (pr_deployment_id p)),
     (''block_hash'', JStr (pr_block_hash p)), (''block_number'', jint (pr_block_number p)),
     (''query_category'', JStr (pr_query_category p)), (''query_text'', JStr (pr_query_text p)),
     (''dispatched_at'', jtime (ev_iso e) (pr_dispatched_at p))]"

definition observation_json :: "str \<times> observation_row \<Rightarrow> json" where
  "observation_json r = (case r of (a, o') \<Rightarrow> JObj [
     (''indexer_address'', JStr a), (''response_hash'', jopt JStr (ob_response_hash o')),
     (''latency_ms'', jint (ob_latency_ms o')), (''meta_block_number'', jopt jint (ob_meta_block_number o')),
     (''meta_block_hash'', jopt JStr (ob_meta_block_hash o')), (''http_status'', jopt jint (ob_http_status o')),
     (''error_class'', jopt JStr (ob_error_class o')), (''stake_weight'', jf (ob_stake_weight o'))])"

definition divergence_json :: "divergence_row \<Rightarrow> json" where
  "divergence_json v = JObj [(''cluster_count'', jint (dv_cluster_count v)), (''diff_patches'', dv_diff_patches v),
     (''largest_by_count'', JObj [(''hash'', JStr (dv_largest_by_count_hash v)), (''size'', jint (dv_largest_by_count_size v))]),
     (''largest_by_stake'', JObj [(''hash'', JStr (dv_largest_by_stake_hash v)), (''weight'', jf (dv_largest_by_stake_weight v))])]"

definition probe_detail :: "api_env \<Rightarrow> str \<Rightarrow> api_db \<Rightarrow> response" where
  "probe_detail e pid d = (let db = ap_probe d in
     answer (ask e 0 (Some (map_of (probes db) pid))) (\<lambda>found. case found of
       None \<Rightarrow> Inl HTTP_404
     | Some p \<Rightarrow> answer (ask e 1 (Some (sort_key fst (probe_observations db pid)))) (\<lambda>obs.
         answer (ask e 2 (Some (map_of (divergences db) pid))) (\<lambda>dv.
           Inr (JObj [(''probe'', probe_json e pid p), (''observations'', JArr (map observation_json obs)),
             (''divergence'', jopt divergence_json dv)])))))"

section \<open>Quality of an indexer\<close>

definition judged_in_window :: "api_env \<Rightarrow> int \<Rightarrow> judge_db \<Rightarrow> judged_row list option" where
  "judged_in_window e ds d = map_option (\<lambda>since. judged_probes d since True) (pg_back (ev_now e) (ds * day_us))"

definition answered_rows :: "judged_row list \<Rightarrow> judged_row list" where
  "answered_rows js = filter (\<lambda>j. jr_response_hash j \<noteq> None) js"

record summary_row =
  qs_total_probes :: int
  qs_divergent_probes :: int
  qs_avg_latency :: "int option"
  qs_p50 :: "f64 option"
  qs_p95 :: "f64 option"

definition total_probes_of :: "judged_row list \<Rightarrow> int" where
  "total_probes_of js = count_distinct (map jr_probe_id (answered_rows js))"

definition divergent_probes_of :: "judged_row list \<Rightarrow> int" where
  "divergent_probes_of js = count_distinct (map jr_probe_id (filter jr_fault js))"

definition quality_summary :: "judged_row list \<Rightarrow> summary_row" where
  "quality_summary js = (let ls = map jr_latency_ms (answered_rows js) in
     \<lparr>qs_total_probes = total_probes_of js, qs_divergent_probes = divergent_probes_of js, qs_avg_latency = avg_int ls,
      qs_p50 = percentile_cont (1 / 2) ls, qs_p95 = percentile_cont (95 / 100) ls\<rparr>)"

definition of_indexer :: "str \<Rightarrow> judged_row list \<Rightarrow> judged_row list" where
  "of_indexer a js = filter (\<lambda>j. jr_indexer_address j = a) js"

definition quality_by_deployment :: "judged_row list \<Rightarrow> (str \<times> int \<times> int) list" where
  "quality_by_deployment js = map (\<lambda>(dep, rs). (dep, total_probes_of rs, divergent_probes_of rs))
     (group_pairs (map (\<lambda>j. (jr_deployment_id j, j)) js))"

record quality_row_set =
  qw_summary :: summary_row
  qw_by_deployment :: "(str \<times> int \<times> int) list"
  qw_recent :: "judged_row list"

definition quality_rows :: "api_env \<Rightarrow> str \<Rightarrow> int \<Rightarrow> judge_db \<Rightarrow> int + quality_row_set" where
  "quality_rows e a ds d = (let js = map_option (of_indexer a) (judged_in_window e ds d) in
     answer (ask e 0 (map_option quality_summary js)) (\<lambda>sm.
       answer (ask e 1 (map_option quality_by_deployment js)) (\<lambda>by_dep.
         answer (ask e 2 (map_option (\<lambda>js. take 20 (desc_by jr_dispatched_at js)) js)) (\<lambda>rec.
           Inr \<lparr>qw_summary = sm, qw_by_deployment = by_dep, qw_recent = rec\<rparr>))))"

definition by_deployment_json :: "str \<times> int \<times> int \<Rightarrow> json" where
  "by_deployment_json r = (case r of (dep, tp, dp) \<Rightarrow> JObj [(''deployment_id'', JStr dep), (''total_probes'', jint tp),
     (''divergent_probes'', jint dp), (''divergence_rate'', jf (rate dp tp))])"

definition recent_probe_json :: "api_env \<Rightarrow> judged_row \<Rightarrow> json" where
  "recent_probe_json e j = JObj [(''probe_id'', JStr (jr_probe_id j)), (''deployment_id'', JStr (jr_deployment_id j)),
     (''query_category'', JStr (jr_query_category j)), (''dispatched_at'', jtime (ev_iso e) (jr_dispatched_at j)),
     (''response_hash'', jopt JStr (jr_response_hash j)), (''divergent'', JBool (jr_fault j))]"

definition indexer_quality :: "api_env \<Rightarrow> str \<Rightarrow> int option \<Rightarrow> api_db \<Rightarrow> response" where
  "indexer_quality e address ds d = (let n = or_else 30 ds; a = to_lower address in
     answer (quality_rows e a n (ap_judge d)) (\<lambda>q. let s = qw_summary q in
       Inr (JObj [(''indexer_address'', JStr a), (''days'', jint n), (''total_probes'', jint (qs_total_probes s)),
         (''divergent_probes'', jint (qs_divergent_probes s)),
         (''divergence_rate'', jf (rate (qs_divergent_probes s) (qs_total_probes s))),
         (''avg_latency_ms'', jopt jint (qs_avg_latency s)), (''p50_latency_ms'', jopt jf (qs_p50 s)),
         (''p95_latency_ms'', jopt jf (qs_p95 s)),
         (''by_deployment'', JArr (map by_deployment_json (qw_by_deployment q))),
         (''recent_probes'', JArr (map (recent_probe_json e) (qw_recent q)))])))"

section \<open>Freshness\<close>

definition indexer_freshness :: "api_env \<Rightarrow> str \<Rightarrow> api_db \<Rightarrow> response" where
  "indexer_freshness e address d = (let a = to_lower address;
     rows = take 500 (desc_by fr_sampled_at (filter (\<lambda>r. fr_indexer_address r = a \<and> ev_now e - day_us < fr_sampled_at r) (ap_freshness d)))
   in answer (ask e 0 (Some rows)) (\<lambda>rows. Inr (JObj [(''indexer_address'', JStr a),
     (''samples'', JArr (map (\<lambda>s. JObj [(''deployment_id'', JStr (fr_deployment_id s)),
        (''chainhead_lag_blocks'', jint (fr_chainhead_lag_blocks s)), (''sampled_at'', jtime (ev_iso e) (fr_sampled_at s))]) rows))])))"

section \<open>The deployments\<close>

record deployment_row =
  dy_deployment_id :: str
  dy_total_probes :: int
  dy_avg_latency :: "int option"
  dy_p50 :: "f64 option"
  dy_p95 :: "f64 option"
  dy_last_probe_at :: int
  dy_unique_indexers :: int

definition deployment_row_of :: "probe_db \<Rightarrow> str \<times> (str \<times> probe_row) list \<Rightarrow> deployment_row" where
  "deployment_row_of d g = (case g of (dep, ps) \<Rightarrow>
     (let obs = filter (\<lambda>(_, o'). ob_response_hash o' \<noteq> None) (concat (map (probe_observations d \<circ> fst) ps));
          ls = map (ob_latency_ms \<circ> snd) obs in
      \<lparr>dy_deployment_id = dep, dy_total_probes = count_distinct (map fst ps), dy_avg_latency = avg_int ls,
       dy_p50 = percentile_cont (1 / 2) ls, dy_p95 = percentile_cont (95 / 100) ls,
       dy_last_probe_at = Max (set (map (pr_dispatched_at \<circ> snd) ps)), dy_unique_indexers = count_distinct (map fst obs)\<rparr>))"

definition deployment_rows :: "int \<Rightarrow> probe_db \<Rightarrow> deployment_row list" where
  "deployment_rows since d = desc_by dy_total_probes (map (deployment_row_of d)
     (group_pairs (map (\<lambda>(pid, p). (pr_deployment_id p, (pid, p))) (filter (\<lambda>(_, p). since < pr_dispatched_at p) (probes d)))))"

definition deployments_route :: "api_env \<Rightarrow> api_db \<Rightarrow> response" where
  "deployments_route e d = answer (ask e 0 (Some (deployment_rows (ev_now e - 7 * day_us) (ap_probe d)))) (\<lambda>rows.
     Inr (JObj [(''deployments'', JArr (map (\<lambda>r. JObj [
        (''deployment_id'', JStr (dy_deployment_id r)), (''total_probes'', jint (dy_total_probes r)),
        (''avg_latency_ms'', jopt jint (dy_avg_latency r)),
        (''p50_latency_ms'', jopt (jint \<circ> i64_of_f \<circ> fround) (dy_p50 r)),
        (''p95_latency_ms'', jopt (jint \<circ> i64_of_f \<circ> fround) (dy_p95 r)),
        (''last_probe_at'', jtime (ev_iso e) (dy_last_probe_at r)), (''unique_indexers'', jint (dy_unique_indexers r))]) rows))]))"

section \<open>Quality of a deployment\<close>

record deployment_indexer =
  di_indexer_address :: str
  di_indexer_url :: "str option"
  di_total_probes :: int
  di_divergent_probes :: int
  di_avg_latency :: "int option"
  di_last_seen :: int

definition url_on_file :: "qos_db \<Rightarrow> str \<Rightarrow> str option" where
  \<comment> \<open>\<open>max(indexer_url)\<close> over the allocations mapped to an address; an empty one counts.\<close>
  "url_on_file s a = text_max (List.map_filter (\<lambda>(key, who). if who = Some a
     then (case map_of (qd_alloc_urls s) key of Some u \<Rightarrow> u | None \<Rightarrow> None) else None) (jd_allocation_map (qd_judge s)))"

definition deployment_indexer_rows :: "api_env \<Rightarrow> str \<Rightarrow> int \<Rightarrow> qos_db \<Rightarrow> deployment_indexer list option" where
  "deployment_indexer_rows e dep ds s = map_option (\<lambda>js. desc_by di_total_probes (map (\<lambda>(a, rs).
      \<lparr>di_indexer_address = a, di_indexer_url = url_on_file s a, di_total_probes = total_probes_of rs,
       di_divergent_probes = divergent_probes_of rs, di_avg_latency = avg_int (map jr_latency_ms (answered_rows rs)),
       di_last_seen = Max (set (map jr_dispatched_at rs))\<rparr>)
     (group_pairs (map (\<lambda>j. (jr_indexer_address j, j)) (filter (\<lambda>j. jr_deployment_id j = dep) js)))))
     (judged_in_window e ds (qd_judge s))"

definition recent_divergence_rows :: "str \<Rightarrow> probe_db \<Rightarrow> (str \<times> probe_row \<times> int) list" where
  "recent_divergence_rows dep d = take 10 (desc_by (\<lambda>(_, p, _). pr_dispatched_at p) (List.map_filter (\<lambda>(pid, v).
     case map_of (probes d) pid of None \<Rightarrow> None
     | Some p \<Rightarrow> if pr_deployment_id p = dep then Some (pid, p, dv_cluster_count v) else None) (split_events d)))"

definition deployment_quality :: "api_env \<Rightarrow> str \<Rightarrow> int option \<Rightarrow> api_db \<Rightarrow> response" where
  "deployment_quality e dep ds d = (let n = or_else 7 ds in
     answer (ask e 0 (deployment_indexer_rows e dep n (ap_qos d))) (\<lambda>ixs.
       answer (ask e 1 (Some (recent_divergence_rows dep (ap_probe d)))) (\<lambda>rec.
         Inr (JObj [(''deployment_id'', JStr dep), (''days'', jint n),
           (''indexers'', JArr (map (\<lambda>r. JObj [(''indexer_address'', JStr (di_indexer_address r)),
              (''resolved_indexer'', JStr (di_indexer_address r)), (''indexer_url'', jopt JStr (di_indexer_url r)),
              (''total_probes'', jint (di_total_probes r)), (''divergent_probes'', jint (di_divergent_probes r)),
              (''divergence_rate'', jf (rate (di_divergent_probes r) (di_total_probes r))),
              (''avg_latency_ms'', jopt jint (di_avg_latency r)), (''last_seen'', jtime (ev_iso e) (di_last_seen r))]) ixs)),
           (''recent_divergences'', JArr (map (\<lambda>(pid, p, n). JObj [(''probe_id'', JStr pid),
              (''block_number'', jint (pr_block_number p)), (''query_category'', JStr (pr_query_category p)),
              (''dispatched_at'', jtime (ev_iso e) (pr_dispatched_at p)), (''cluster_count'', jint n)]) rec))]))))"

section \<open>The lists\<close>

interpretation feed_list: listing "\<lambda>(d, dep). feed_events d dep" ve_created_at
  by unfold_locales (simp only: split_def feed_events_def desc_by_sorted)

interpretation deployment_list: listing "\<lambda>(since, d). deployment_rows since d" dy_total_probes
  by unfold_locales (simp only: split_def deployment_rows_def desc_by_sorted)

end
