(* ===== verification/Routes_Score.thy ===== *)
theory Routes_Score
  imports Api
begin

text \<open>
  The handlers over what the scoring cycle published, \<open>foghorn-api/src/routes.rs\<close>: the leaderboard, one
  indexer's scorecard, the triage list, the verdicts, the deployments nobody can agree on and the swarms.
\<close>

section \<open>The leaderboard\<close>

record indexers_params =
  ip_window :: "int option"
  ip_limit :: "int option"
  ip_offset :: "int option"
  ip_order :: "str option"

record board_row =
  br_score :: indexer_score
  br_profile :: "profile_row option"
  br_verdict_count :: int
  br_needs_attention :: bool

definition board_row_of :: "scorer_db \<Rightarrow> indexer_score \<Rightarrow> board_row" where
  "board_row_of s r = (let a = sc_indexer_address r in
     \<lparr>br_score = r, br_profile = map_of (sd_profiles s) a,
      br_verdict_count = int (length (filter (\<lambda>((v, _), _). v = a) (sd_verdicts s))),
      br_needs_attention = list_ex (\<lambda>((i, _, _), _). i = a) (sd_attention s)\<rparr>)"

definition board :: "bool \<Rightarrow> int \<Rightarrow> scorer_db \<Rightarrow> board_row list" where
  "board asc window s = (let rows = map (\<lambda>(_, r, _). board_row_of s r) (filter (\<lambda>((_, w), _). w = window) (sd_scores s));
     by_score = (\<lambda>r. composite (br_score r))
   in desc_by (\<lambda>r. rated (br_score r)) (if asc then sort_key by_score rows else desc_by by_score rows))"

definition board_rows :: "indexers_params \<Rightarrow> scorer_db \<Rightarrow> board_row list option" where
  "board_rows q s = page_of_rows (min (or_else 100 (ip_limit q)) 500) (or_else 0 (ip_offset q))
     (board (ip_order q = Some ''asc'') (or_else 30 (ip_window q)) s)"

definition indexer_row_json :: "board_row \<Rightarrow> json" where
  "indexer_row_json r = (let s = br_score r; p = br_profile r in JObj [
     (''indexer_address'', JStr (sc_indexer_address s)), (''ens_name'', jopt JStr (Option.bind p pf_ens_name)),
     (''composite'', jf (composite s)), (''grade'', JStr (grade s)), (''rated'', JBool (rated s)),
     (''sub_scores'', JObj [(''correctness'', jopt jf (sc_correctness s)), (''availability'', jopt jf (sc_availability s)),
        (''freshness'', jopt jf (sc_freshness s)), (''coverage'', jopt jf (sc_coverage s)), (''value'', jopt jf (sc_value s))]),
     (''self_stake_grt'', jopt jf (Option.bind p pf_self_stake_grt)),
     (''allocation_count'', jopt jint (Option.bind p pf_allocation_count)),
     (''reo_status'', jopt JStr (Option.bind p pf_reo_status)),
     (''qos_query_count'', jopt jint (Option.bind p pf_qos_query_count)),
     (''probe_count'', jint (probe_count s)), (''sybil_flag'', JBool (sybil_flag s)),
     (''sybil_cluster_id'', jopt JStr (sc_sybil_cluster_id s)), (''verdict_count'', jint (br_verdict_count r)),
     (''needs_attention'', JBool (br_needs_attention r)), (''reasons'', JArr (map JStr (reasons s)))])"

definition indexers_route :: "api_env \<Rightarrow> indexers_params \<Rightarrow> api_db \<Rightarrow> response" where
  "indexers_route e q d = answer (ask e 0 (board_rows q (ap_scorer d))) (\<lambda>rows.
     Inr (JObj ((''window_days'', jint (or_else 30 (ip_window q))) # counted_list ''indexers'' (map indexer_row_json rows))))"

section \<open>One indexer\<close>

definition profile_json :: "profile_row \<Rightarrow> json" where
  "profile_json p = JObj [(''ens_name'', jopt JStr (pf_ens_name p)), (''url'', jopt JStr (pf_url p)),
     (''created_at'', jopt jint (pf_created_at p)), (''self_stake_grt'', jopt jf (pf_self_stake_grt p)),
     (''delegated_grt'', jopt jf (pf_delegated_grt p)), (''allocation_count'', jopt jint (pf_allocation_count p)),
     (''query_fees_collected_grt'', jopt jf (pf_query_fees_collected_grt p)), (''reo_status'', jopt JStr (pf_reo_status p)),
     (''reo_source'', jopt JStr (pf_reo_source p)), (''lodestar_score'', jopt jf (pf_lodestar_score p)),
     (''lodestar_grade'', jopt JStr (pf_lodestar_grade p)),
     (''qos'', JObj [(''query_count'', jopt jint (pf_qos_query_count p)), (''success_rate'', jopt jf (pf_qos_success_rate p)),
        (''latency_ms'', jopt jf (pf_qos_latency_ms p)), (''blocks_behind'', jopt jf (pf_qos_blocks_behind p))])]"

definition score_json :: "api_env \<Rightarrow> int \<times> indexer_score \<times> int \<Rightarrow> json" where
  "score_json e r = (case r of (w, s, tm) \<Rightarrow> JObj [(''window_days'', jint w), (''composite'', jf (composite s)),
     (''grade'', JStr (grade s)), (''rated'', JBool (rated s)), (''sub_scores'', sub_scores s),
     (''probe_count'', jint (probe_count s)), (''sybil_flag'', JBool (sybil_flag s)),
     (''reasons'', JArr (map JStr (reasons s))), (''computed_at'', jtime (ev_iso e) tm)])"

definition verdict_fields :: "api_env \<Rightarrow> str \<times> verdict_row \<Rightarrow> (str \<times> json) list" where
  "verdict_fields e r = (case r of (kind, v) \<Rightarrow> [(''kind'', JStr kind), (''severity'', JStr (vr_severity v)),
     (''title'', JStr (vr_title v)), (''evidence'', vr_evidence v), (''window_days'', jopt jint (vr_window_days v)),
     (''first_seen'', jtime (ev_iso e) (vr_first_seen v)), (''last_seen'', jtime (ev_iso e) (vr_last_seen v))])"

definition attention_fields :: "api_env \<Rightarrow> (str \<times> str) \<times> attention_row \<Rightarrow> (str \<times> json) list" where
  "attention_fields e r = (case r of ((kind, dep), a) \<Rightarrow> [(''kind'', JStr kind), (''deployment_id'', JStr dep),
     (''severity'', JStr (ar_severity a)), (''urgency'', jf (ar_urgency a)), (''title'', JStr (ar_title a)),
     (''detail'', ar_detail a), (''first_seen'', jtime (ev_iso e) (ar_first_seen a)), (''last_seen'', jtime (ev_iso e) (ar_last_seen a))])"

definition cluster_fields :: "sybil_cluster \<Rightarrow> (str \<times> json) list" where
  "cluster_fields c = [(''cluster_id'', JStr (cl_id c)), (''confidence'', jf (cl_confidence c)),
     (''member_count'', jint (cl_member_count c)), (''members'', JArr (map JStr (cl_members c))), (''signals'', cl_signals c)]"

definition scores_of :: "str \<Rightarrow> scorer_db \<Rightarrow> (int \<times> indexer_score \<times> int) list" where
  "scores_of a s = sort_key fst (List.map_filter (\<lambda>((i, w), r). if i = a then Some (w, r) else None) (sd_scores s))"

definition verdicts_of :: "str \<Rightarrow> scorer_db \<Rightarrow> (str \<times> verdict_row) list" where
  "verdicts_of a s = desc_by (vr_last_seen \<circ> snd) (List.map_filter (\<lambda>((i, k), v). if i = a then Some (k, v) else None) (sd_verdicts s))"

definition attention_of :: "str \<Rightarrow> scorer_db \<Rightarrow> ((str \<times> str) \<times> attention_row) list" where
  "attention_of a s = desc_by (ar_urgency \<circ> snd) (List.map_filter (\<lambda>((i, k, dep), r). if i = a then Some ((k, dep), r) else None) (sd_attention s))"

definition swarm_of :: "str \<Rightarrow> scorer_db \<Rightarrow> sybil_cluster option" where
  \<comment> \<open>The first row whose members hold the address.\<close>
  "swarm_of a s = find (\<lambda>c. a \<in> set (cl_members c)) (map (sr_cluster \<circ> snd) (sd_sybil s))"

definition indexer_scorecard :: "api_env \<Rightarrow> str \<Rightarrow> api_db \<Rightarrow> response" where
  "indexer_scorecard e address d = (let a = to_lower address; s = ap_scorer d in
     answer (ask e 0 (Some (scores_of a s))) (\<lambda>scores.
       if scores = [] then Inl HTTP_404
       else answer (ask e 1 (Some (map_of (sd_profiles s) a))) (\<lambda>p.
         answer (ask e 2 (Some (verdicts_of a s))) (\<lambda>vs.
           answer (ask e 3 (Some (attention_of a s))) (\<lambda>as.
             answer (ask e 4 (Some (swarm_of a s))) (\<lambda>c.
               Inr (JObj [(''indexer_address'', JStr a), (''profile'', jopt profile_json p),
                 (''scores'', JArr (map (score_json e) scores)), (''verdicts'', JArr (map (JObj \<circ> verdict_fields e) vs)),
                 (''needs_attention'', JArr (map (JObj \<circ> attention_fields e) as)),
                 (''sybil_cluster'', jopt (JObj \<circ> cluster_fields) c)])))))))"

section \<open>The lists\<close>

definition attention_rows :: "str option \<Rightarrow> scorer_db \<Rightarrow> ((str \<times> str \<times> str) \<times> attention_row) list" where
  "attention_rows kind s = desc_by (ar_urgency \<circ> snd) (desc_by (ar_last_seen \<circ> snd)
     (filter (\<lambda>((_, k, _), _). opt_test (\<lambda>x. k = x) kind) (sd_attention s)))"

definition needs_attention :: "api_env \<Rightarrow> int option \<Rightarrow> str option \<Rightarrow> api_db \<Rightarrow> response" where
  "needs_attention e limit kind d = (let s = ap_scorer d in
     answer (ask e 0 (page_of_rows (min (or_else 100 limit) 500) 0 (attention_rows kind s))) (\<lambda>rows.
       Inr (JObj (counted_list ''items'' (map (\<lambda>((a, k, dep), r). let p = map_of (sd_profiles s) a in JObj
         ([(''indexer_address'', JStr a), (''ens_name'', jopt JStr (Option.bind p pf_ens_name)),
           (''self_stake_grt'', jopt jf (Option.bind p pf_self_stake_grt)),
           (''reo_status'', jopt JStr (Option.bind p pf_reo_status))] @ attention_fields e ((k, dep), r))) rows)))))"

definition severity_rank :: "str \<Rightarrow> int" where
  "severity_rank s = (if s = ''critical'' then 0 else if s = ''high'' then 1 else if s = ''medium'' then 2 else 3)"

definition verdict_rows :: "str option \<Rightarrow> str option \<Rightarrow> scorer_db \<Rightarrow> ((str \<times> str) \<times> verdict_row) list" where
  "verdict_rows kind sev s = sort_key (severity_rank \<circ> vr_severity \<circ> snd) (desc_by (vr_last_seen \<circ> snd)
     (filter (\<lambda>((_, k), v). opt_test (\<lambda>x. k = x) kind \<and> opt_test (\<lambda>x. vr_severity v = x) sev) (sd_verdicts s)))"

definition verdicts_route :: "api_env \<Rightarrow> int option \<Rightarrow> str option \<Rightarrow> str option \<Rightarrow> api_db \<Rightarrow> response" where
  "verdicts_route e limit kind sev d = (let s = ap_scorer d in
     answer (ask e 0 (page_of_rows (min (or_else 100 limit) 500) 0 (verdict_rows kind sev s))) (\<lambda>rows.
       Inr (JObj (counted_list ''verdicts'' (map (\<lambda>((a, k), v). JObj ([(''indexer_address'', JStr a),
         (''ens_name'', jopt JStr (Option.bind (map_of (sd_profiles s) a) pf_ens_name))] @ verdict_fields e (k, v))) rows)))))"

definition nondet_rows :: "judge_db \<Rightarrow> (str \<times> nondet_row) list" where
  "nondet_rows d = desc_by (nd_divergence_rate \<circ> snd) (desc_by (nd_divergent_probes \<circ> snd) (jd_nondeterministic d))"

definition nondeterministic_route :: "api_env \<Rightarrow> api_db \<Rightarrow> response" where
  "nondeterministic_route e d = answer (ask e 0 (Some (nondet_rows (ap_judge d)))) (\<lambda>rows.
     Inr (JObj (counted_list ''deployments'' (map (\<lambda>(dep, r). JObj [(''deployment_id'', JStr dep),
        (''divergent_probes'', jint (nd_divergent_probes r)), (''total_probes'', jint (nd_total_probes r)),
        (''divergence_rate'', jf (nd_divergence_rate r)), (''sample_fields'', JArr (map JStr (nd_sample_fields r))),
        (''first_seen'', jopt (jtime (ev_iso e)) (map_of (ap_nondet_first_seen d) dep)),
        (''last_seen'', jtime (ev_iso e) (nd_last_seen r))]) rows))))"

definition swarm_rows :: "scorer_db \<Rightarrow> sybil_row list" where
  "swarm_rows s = desc_by (cl_confidence \<circ> sr_cluster) (desc_by (cl_member_count \<circ> sr_cluster) (map snd (sd_sybil s)))"

definition sybil_clusters :: "api_env \<Rightarrow> api_db \<Rightarrow> response" where
  "sybil_clusters e d = answer (ask e 0 (Some (swarm_rows (ap_scorer d)))) (\<lambda>rows.
     Inr (JObj (counted_list ''clusters'' (map (\<lambda>r. JObj (cluster_fields (sr_cluster r)
       @ [(''detected_at'', jtime (ev_iso e) (sr_detected_at r))])) rows))))"

section \<open>What the lists show first\<close>

interpretation triage_list: listing "\<lambda>(kind, s). attention_rows kind s" "ar_urgency \<circ> snd"
  by unfold_locales (simp only: split_def attention_rows_def desc_by_sorted)

interpretation board_list: listing "\<lambda>(asc, window, s). board asc window s" "\<lambda>r. rated (br_score r)"
  by unfold_locales (simp only: split_def board_def desc_by_sorted Let_def)

interpretation nondet_list: listing nondet_rows "nd_divergence_rate \<circ> snd"
  by unfold_locales (simp only: nondet_rows_def desc_by_sorted)

interpretation swarm_list: listing swarm_rows "cl_confidence \<circ> sr_cluster"
  by unfold_locales (simp only: swarm_rows_def desc_by_sorted)

text \<open>The triage page leaves out nothing more urgent than what it shows, and no page of the board shows an
  unrated indexer while a rated one is left for a later page.\<close>

lemma triage_shows_most_urgent:
  assumes "page_of_rows limit 0 (attention_rows kind s) = Some ys" "x \<in> set ys" "y \<in> set (attention_rows kind s)" "y \<notin> set ys"
  shows "ar_urgency (snd y) \<le> ar_urgency (snd x)"
  using triage_list.first_page_best[of limit "(kind, s)" ys x y] assms by simp

lemma unrated_come_last:
  assumes "x \<in> set (take n (board asc window s))" "y \<in> set (drop n (board asc window s))" "\<not> rated (br_score x)"
  shows "\<not> rated (br_score y)"
  using board_list.left_out_below[of x n "(asc, window, s)" y] assms by simp

end
