(* ===== verification/Routes_Qos.thy ===== *)
theory Routes_Qos
  imports Api
begin

text \<open>
  The handlers over the QoS feed, \<open>foghorn-api/src/routes.rs\<close>: the allocations' quality beside our own points,
  the state of both oracles, their agreement, realised fees, conflicting attestations and single buckets.
\<close>

section \<open>Quality of allocations\<close>

text \<open>Our own half: an error block, not an error, when its query fails.\<close>

definition mix_or_zero :: "api_env \<Rightarrow> nat \<Rightarrow> int \<Rightarrow> api_db \<Rightarrow> dispatch_count" where
  "mix_or_zero e n hours d = ask_or e n \<lparr>dm_paid = 0, dm_total = 0\<rparr> (dispatch_mix (ev_now e) hours (ap_probe d))"

definition measured_block :: "api_env \<Rightarrow> nat \<Rightarrow> daily_filter \<Rightarrow> api_db \<Rightarrow> json" where
  "measured_block e n f d = (if ev_up e n then
     (let rows = daily_points f (foghorn_qos (ap_qos d)); gw = (case rows of r # _ \<Rightarrow> dr_gateway_id r | [] \<Rightarrow> None) in
      jset ''allocationDailyDataPoints'' (JArr (map row_to_oracle_json rows))
        (measured_provenance gw (Some (mix_or_zero e (n + 1) 24 d))))
   else JObj [(''source'', JStr ''foghorn''), (''error'', JStr ''unavailable'')])"

definition alloc_fields :: "alloc_qos_row \<Rightarrow> (str \<times> json) list" where
  "alloc_fields r = [(''success_rate'', jf (aq_success_rate r)), (''blocks_behind'', jf (aq_blocks_behind r)),
     (''query_count'', jint (aq_query_count r))]"

definition alloc_rows_where :: "(str \<times> str \<Rightarrow> bool) \<Rightarrow> api_db \<Rightarrow> ((str \<times> str) \<times> alloc_qos_row) list" where
  "alloc_rows_where p d = desc_by (aq_query_count \<circ> snd) (filter (p \<circ> fst) (ap_alloc_qos d))"

definition deployment_qos :: "api_env \<Rightarrow> str \<Rightarrow> api_db \<Rightarrow> response" where
  "deployment_qos e dep d = answer (ask e 0 (Some (alloc_rows_where (\<lambda>(_, dp). dp = dep) d))) (\<lambda>rows.
     let ixs = JArr (map (\<lambda>((ix, _), r). JObj ((''indexer_address'', JStr ix) # alloc_fields r)) rows) in
     Inr (JObj [(''deployment_id'', JStr dep), (''indexers'', ixs),
       (''oracle'', JObj [(''source'', JStr ''edgeandnode-qos-oracle''), (''indexers'', ixs)]),
       (''measured'', measured_block e 1 (for_deployment dep) d)]))"

definition indexer_allocations_qos :: "api_env \<Rightarrow> str \<Rightarrow> api_db \<Rightarrow> response" where
  "indexer_allocations_qos e address d = answer (ask e 0 (Some (alloc_rows_where (\<lambda>(ix, _). ix = to_lower address) d))) (\<lambda>rows.
     let dps = JArr (map (\<lambda>((_, dp), r). JObj ((''deployment_id'', JStr dp) # alloc_fields r)) rows) in
     Inr (JObj [(''indexer_address'', JStr (to_lower address)), (''deployments'', dps),
       (''oracle'', JObj [(''source'', JStr ''edgeandnode-qos-oracle''), (''deployments'', dps)]),
       (''measured'', measured_block e 1 (for_indexer address) d)]))"

section \<open>The state of both oracles\<close>

definition last_measured :: "probe_db \<Rightarrow> int option" where
  "last_measured d = newest_of (map (pr_dispatched_at \<circ> snd) (filter (\<lambda>(pid, _). list_ex (\<lambda>((q, _), _). q = pid) (observations d)) (probes d)))"

definition peer_data_age :: "int \<Rightarrow> int option \<Rightarrow> int option" where
  "peer_data_age now start = (case start of None \<Rightarrow> None
     | Some s \<Rightarrow> if 0 < s then Some (max 0 (now div 1000000 - (s + 86400))) else None)"

record paid_count =
  pc_served :: int
  pc_denied :: int
  pc_refused :: int

definition paid_rows :: "int \<Rightarrow> probe_db \<Rightarrow> observation_row list" where
  "paid_rows since d = List.map_filter (\<lambda>((pid, _), o'). case map_of (probes d) pid of
      None \<Rightarrow> None
    | Some p \<Rightarrow> if since \<le> pr_dispatched_at p \<and> ((case ob_error_class o' of Some c \<Rightarrow> starts_with c ''payment_'' | None \<Rightarrow> False)
        \<or> ob_dispatch_mode o' = ''paid'') then Some o' else None) (observations d)"

definition paid_counts :: "int \<Rightarrow> probe_db \<Rightarrow> paid_count" where
  "paid_counts since d = (let rows = paid_rows since d; count = (\<lambda>p. int (length (filter p rows))) in
     \<lparr>pc_served = count (\<lambda>o'. ob_error_class o' = None \<and> ob_response_hash o' \<noteq> None),
      pc_denied = count (\<lambda>o'. ob_error_class o' = Some ''payment_denylisted''),
      pc_refused = count (\<lambda>o'. ob_error_class o' = Some ''payment_refused'')\<rparr>)"

text \<open>A time the health table holds as the seconds it was given.\<close>

definition stamp_us :: "f64 \<Rightarrow> int" where
  "stamp_us s = f_int_round (fmul s (F 1000000))"

definition health_json :: "api_env \<Rightarrow> health_row \<Rightarrow> json" where
  "health_json e h = JObj [(''indexed_block'', jopt jint (he_indexed_block h)),
     (''has_indexing_errors'', jopt JBool (he_has_indexing_errors h)),
     (''newest_message_at'', jopt (jtime (ev_rfc e) \<circ> stamp_us) (he_newest_message_at h)),
     (''newest_message_accepted'', jopt JBool (he_newest_message_valid h)),
     (''rejection_reason'', jopt JStr (he_newest_message_error h)),
     (''note'', JStr ''A deployment can be at chain tip with no indexing errors and still turn every message away. If `newest_message_accepted` is false, its data stopped at that point however healthy it otherwise looks.'')]"

definition PAID_NOTE :: str where
  "PAID_NOTE = ''Direct-to-indexer probes, paid with TAP receipts, where WE choose who answers rather than a gateway choosing for us. Refusals are OUR problem '' @ emdash @ '' an indexer's tap-agent has not yet observed our escrow deposit '' @ emdash @ '' and are excluded from every measurement and grade rather than counted against the operator.''"

definition age_json :: "int \<Rightarrow> int option \<Rightarrow> json" where
  "age_json now t = jopt (jint \<circ> age_secs now) t"

record oracle_seen =
  ov_posted :: "int option"
  ov_bucket :: "int option"
  ov_lag :: "int option"

definition oracle_view :: "watch_db \<Rightarrow> oracle_seen" where
  "oracle_view w = (let ms = messages_seen w; m = latest_message ms in
     \<lparr>ov_posted = newest_of (map om_posted_at ms), ov_bucket = Option.bind m om_bucket_ts, ov_lag = Option.bind m om_lag_seconds\<rparr>)"

record qos_snapshot =
  qe_oracle :: oracle_seen
  qe_ingested_at :: "int option"
  qe_peer_day :: "int option"
  qe_peer_day_start :: "int option"
  qe_subgraph :: "health_row option"
  qe_feed :: feed_status
  qe_last_measured :: "int option"
  qe_paid :: paid_count

text \<open>What the eight queries give, each with its own fallback.\<close>

definition qos_state :: "api_env \<Rightarrow> api_db \<Rightarrow> qos_snapshot" where
  "qos_state e d = (let aq = map snd (ap_alloc_qos d) in
     \<lparr>qe_oracle = ask_or e 0 \<lparr>ov_posted = None, ov_bucket = None, ov_lag = None\<rparr> (oracle_view (ap_watch d)),
      qe_ingested_at = ask_or e 1 None (newest_of (map aq_updated_at aq)),
      qe_peer_day = ask_or e 2 None (newest_of (map aq_day_number aq)),
      qe_peer_day_start = ask_or e 2 None (newest_of (map aq_day_start aq)),
      qe_subgraph = ask_or e 3 None (ap_health d),
      qe_feed = ask_or e 4 \<lparr>gs_bucket = None, gs_computed = None\<rparr> (foghorn_status (foghorn_qos (ap_qos d))),
      qe_last_measured = ask_or e 5 None (last_measured (ap_probe d)),
      qe_paid = ask_or e 6 \<lparr>pc_served = 0, pc_denied = 0, pc_refused = 0\<rparr> (paid_counts (ev_now e - 24 * hour_us) (ap_probe d))\<rparr>)"

definition peer_source :: "api_env \<Rightarrow> qos_snapshot \<Rightarrow> json" where
  "peer_source e s = JObj [(''source'', JStr ''edgeandnode-qos-oracle''),
     (''last_update'', jopt (jtime (ev_rfc e)) (ov_posted (qe_oracle s))),
     (''age_seconds'', age_json (ev_now e) (ov_posted (qe_oracle s))),
     (''measured_from'', JStr (''DataEdge transactions on Gnosis '' @ emdash @ '' the publisher itself'')),
     (''last_bucket_published'', jopt (jtime (ev_rfc e)) (ov_bucket (qe_oracle s))),
     (''publish_lag_seconds'', jopt jint (ov_lag (qe_oracle s))),
     (''lodestar_last_ingested_at'', jopt (jtime (ev_rfc e)) (qe_ingested_at s)),
     (''data'', JObj [(''newest_day_number'', jopt jint (qe_peer_day s)), (''newest_day_start'', jopt jint (qe_peer_day_start s)),
        (''age_seconds'', jopt jint (peer_data_age (ev_now e) (qe_peer_day_start s)))]),
     (''subgraph'', jopt (health_json e) (qe_subgraph s)),
     (''note'', JStr ''read from the chain it publishes to, so a stalled publisher cannot look fresh'')]"

definition own_source :: "api_env \<Rightarrow> nat \<Rightarrow> qos_snapshot \<Rightarrow> json" where
  "own_source e interval s = JObj [(''source'', JStr ''lodestar-oracle''), (''gateway_id'', JStr ''lodestar''),
     (''age_seconds'', age_json (ev_now e) (qe_last_measured s)),
     (''last_measured'', jopt (jtime (ev_rfc e)) (qe_last_measured s)),
     (''expected_interval_seconds'', jint (int interval)),
     (''last_bucket'', jopt (jtime (ev_rfc e)) (gs_bucket (qe_feed s))),
     (''last_computed'', jopt (jtime (ev_rfc e)) (gs_computed (qe_feed s))),
     (''note'', JStr ''measured by Lodestar; no external publisher in the path'')]"

definition qos_status :: "api_env \<Rightarrow> nat \<Rightarrow> api_db \<Rightarrow> response" where
  "qos_status e interval d = (let s = qos_state e d; p = qe_paid s in
     Inr (JObj [(''checked_at'', jtime (ev_rfc e) (ev_now e)),
       (''paid_dispatch'', JObj [(''window_hours'', jint 24), (''served'', jint (pc_served p)),
          (''refused_denylisted'', jint (pc_denied p)), (''refused_unfunded'', jint (pc_refused p)), (''note'', JStr PAID_NOTE)]),
       (''sources'', JArr [peer_source e s, own_source e interval s])]))"

section \<open>Agreement\<close>

record compare_row =
  co_pair :: "str \<times> str"
  co_probes :: int
  co_mine_success :: "f64 option"
  co_mine_behind :: "f64 option"
  co_mine_correctness :: "f64 option"
  co_comparable :: int
  co_oracle :: alloc_qos_row

definition mine_groups :: "int \<Rightarrow> (bucket_key, fq_row) table \<Rightarrow> ((str \<times> str) \<times> fq_row list) list" where
  "mine_groups since t = group_pairs (map (\<lambda>((ix, dp, _), r). ((ix, dp), r)) (filter (\<lambda>((_, _, b, _), _). since \<le> b) t))"

definition compare_row_of :: "(str \<times> str) \<times> fq_row list \<Rightarrow> alloc_qos_row \<Rightarrow> compare_row" where
  "compare_row_of g o' = (case g of (k, rows) \<Rightarrow>
     (let all = sum_list (map fq_query_count rows); comparable = sum_list (map fq_comparable_count rows);
          divergent = sum_list (map fq_divergent_count rows) in
      \<lparr>co_pair = k, co_probes = all, co_mine_success = per_count (f_of_int (sum_list (map fq_num_200 rows))) all,
       co_mine_behind = f_avg (somes (map fq_avg_behind rows)),
       co_mine_correctness = (if 0 < comparable then Some (fsub (F 1) (fdiv (f_of_int divergent) (f_of_int comparable))) else None),
       co_comparable = comparable, co_oracle = o'\<rparr>))"

definition success_gap :: "compare_row \<Rightarrow> f64" where
  "success_gap r = fabs (fsub (or_else (F 0) (co_mine_success r)) (aq_success_rate (co_oracle r)))"

definition compare_rows :: "int \<Rightarrow> api_db \<Rightarrow> compare_row list" where
  "compare_rows since d = take 2000 (desc_by success_gap (List.map_filter (\<lambda>g. map_option (compare_row_of g) (map_of (ap_alloc_qos d) (fst g)))
     (mine_groups since (foghorn_qos (ap_qos d)))))"

definition co_delta :: "compare_row \<Rightarrow> f64 option" where
  "co_delta r = map_option (\<lambda>a. fsub a (aq_success_rate (co_oracle r))) (co_mine_success r)"

definition co_counted :: "int \<Rightarrow> compare_row \<Rightarrow> bool" where
  "co_counted min_probes r \<longleftrightarrow> min_probes \<le> co_probes r \<and> co_delta r \<noteq> None"

definition co_blind :: "int \<Rightarrow> compare_row \<Rightarrow> bool" where
  "co_blind min_probes r \<longleftrightarrow> co_counted min_probes r \<and> min_probes \<le> co_comparable r
     \<and> fle (F (99 / 100)) (aq_success_rate (co_oracle r))
     \<and> (case co_mine_correctness r of Some c \<Rightarrow> flt c (F 1) | None \<Rightarrow> False)"

record compare_acc =
  ca_err_sum :: f64
  ca_err_n :: nat
  ca_disagree :: nat
  ca_blind :: nat
  ca_pairs :: "json list"

definition compare_json :: "int \<Rightarrow> compare_row \<Rightarrow> json" where
  "compare_json m r = JObj [(''indexer_address'', JStr (fst (co_pair r))), (''deployment_id'', JStr (snd (co_pair r))),
     (''probes'', jint (co_probes r)), (''counted_in_aggregate'', JBool (co_counted m r)),
     (''foghorn'', JObj [(''success_rate'', jopt jf (co_mine_success r)), (''blocks_behind'', jopt jf (co_mine_behind r)),
        (''correctness_rate'', jopt jf (co_mine_correctness r)), (''comparable_responses'', jint (co_comparable r))]),
     (''oracle'', JObj (alloc_fields (co_oracle r))),
     (''success_rate_delta'', jopt jf (co_delta r)), (''oracle_blind_spot'', JBool (co_blind m r))]"

definition compare_step :: "int \<Rightarrow> compare_row \<Rightarrow> compare_acc \<Rightarrow> compare_acc" where
  "compare_step m r acc = (let
     acc1 = (case co_delta r of
         Some dl \<Rightarrow> if m \<le> co_probes r then acc\<lparr>ca_err_sum := fadd (ca_err_sum acc) (fabs dl), ca_err_n := ca_err_n acc + 1,
             ca_disagree := ca_disagree acc + (if fle (F (1 / 10)) (fabs dl) then 1 else 0)\<rparr> else acc
       | None \<Rightarrow> acc);
     acc2 = (if co_blind m r then acc1\<lparr>ca_blind := ca_blind acc1 + 1\<rparr> else acc1)
   in acc2\<lparr>ca_pairs := ca_pairs acc2 @ [compare_json m r]\<rparr>)"

definition compare_all :: "int \<Rightarrow> compare_row list \<Rightarrow> compare_acc" where
  "compare_all m rows = fold (compare_step m) rows \<lparr>ca_err_sum = F 0, ca_err_n = 0, ca_disagree = 0, ca_blind = 0, ca_pairs = []\<rparr>"

definition BLIND_MEANS :: str where
  "BLIND_MEANS = ''oracle success rate >= 99% while Foghorn measured incorrect data '' @ emdash @ '' served fast, well-formed, and wrong''"

definition compare_days :: "int option \<Rightarrow> int" where
  "compare_days ds = clamp_int 1 30 (or_else 3 ds)"

definition qos_compare :: "api_env \<Rightarrow> int option \<Rightarrow> int option \<Rightarrow> api_db \<Rightarrow> response" where
  "qos_compare e ds mp d = (let n = compare_days ds; m = max 1 (or_else 20 mp); since = ev_now e - n * day_us in
     answer (ask e 0 (Some (compare_rows since d))) (\<lambda>rows. let acc = compare_all m rows in
       Inr (JObj [(''window_days'', jint n), (''min_probes_for_aggregate'', jint m),
         (''coverage'', JObj [(''overlapping_pairs'', jint (int (length rows))),
            (''foghorn_pairs'', jint (ask_or e 1 0 (int (length (mine_groups since (foghorn_qos (ap_qos d))))))),
            (''oracle_pairs'', jint (ask_or e 2 0 (int (length (ap_alloc_qos d))))),
            (''note'', JStr ''Coverage differs because the oracle sees whatever its gateway routed while Foghorn sees whatever it probed. Neither is a subset of the other.'')]),
         (''agreement'', JObj [(''pairs_in_aggregate'', jint (int (ca_err_n acc))),
            (''mean_absolute_success_rate_error'', if 0 < ca_err_n acc then jf (fdiv (ca_err_sum acc) (f_of_int (int (ca_err_n acc)))) else JNull),
            (''pairs_disagreeing_over_10pct'', jint (int (ca_disagree acc))), (''oracle_blind_spots'', jint (int (ca_blind acc))),
            (''oracle_blind_spot_means'', JStr BLIND_MEANS)]),
         (''not_compared'', JObj [(''query_count'', JStr (''probes dispatched vs organic queries routed '' @ emdash @ '' a category error, not a disagreement''))]),
         (''pairs'', JArr (ca_pairs acc))])))"

section \<open>Realised fees\<close>

record fee_sum =
  fs_indexer_address :: str
  fs_settlements :: int
  fs_deployments :: int
  fs_payers :: int
  fs_collected :: rat
  fs_curators :: rat
  fs_latest :: int

definition fee_sum_of :: "str \<times> fee_row list \<Rightarrow> fee_sum" where
  "fee_sum_of g = (case g of (ix, rows) \<Rightarrow> \<lparr>fs_indexer_address = ix, fs_settlements = int (length rows),
     fs_deployments = count_distinct (map fe_deployment_id rows), fs_payers = count_distinct (map fe_payer rows),
     fs_collected = sum_list (map fe_tokens_collected rows), fs_curators = sum_list (map (or_else 0 \<circ> fe_tokens_curators) rows),
     fs_latest = Max (set (map fe_block_timestamp rows))\<rparr>)"

definition fee_sums :: "int \<Rightarrow> fee_table \<Rightarrow> fee_sum list" where
  "fee_sums since t = desc_by fs_collected (map fee_sum_of
     (group_pairs (map (\<lambda>(_, r). (fe_indexer_address r, r)) (filter (\<lambda>(_, r). since \<le> fe_block_timestamp r) t))))"

definition grt :: "rat \<Rightarrow> f64" where
  "grt wei = fdiv (F wei) (F (10 ^ 18))"

definition fee_sum_json :: "api_env \<Rightarrow> fee_sum \<Rightarrow> json" where
  "fee_sum_json e r = JObj [(''indexer_address'', JStr (fs_indexer_address r)), (''settlements'', jint (fs_settlements r)),
     (''deployments'', jint (fs_deployments r)), (''payers'', jint (fs_payers r)), (''grt_collected'', jf (grt (fs_collected r))),
     (''grt_to_curators'', jf (grt (fs_curators r))), (''latest_settlement'', jtime (ev_rfc e) (fs_latest r))]"

definition FEES_MEAN :: str where
  "FEES_MEAN = ''GRT an indexer actually collected for queries it served, across ALL payers. Not our probe spend, and not a per-query rate '' @ emdash @ '' settlement is periodic and covers many queries at once, so there is no denominator to divide by.''"

definition qos_fees :: "api_env \<Rightarrow> int option \<Rightarrow> int option \<Rightarrow> api_db \<Rightarrow> response" where
  "qos_fees e ds limit d = (let n = clamp_int 1 365 (or_else 30 ds); l = clamp_int 1 1000 (or_else 200 limit) in
     answer (ask e 0 (page_of_rows l 0 (fee_sums (ev_now e - n * day_us) (ap_fees d)))) (\<lambda>rows.
       Inr (JObj [(''source'', JStr ''arbitrum-one''),
         (''measured_from'', JStr ''QueryFeesCollected on the SubgraphService, indexed by our own nuthatch nest''),
         (''window_days'', jint n), (''means'', JStr FEES_MEAN),
         (''not_comparable_to'', JStr ''the QoS feed's avg_query_fee, which is per-query within a bucket and stays null because our buckets count probes rather than demand''),
         (''total_settlements_indexed'', jint (ask_or e 1 0 (int (length (ap_fees d))))),
         (''newest_settlement'', jopt (jtime (ev_rfc e)) (ask_or e 1 None (newest_of (map (fe_block_timestamp \<circ> snd) (ap_fees d))))),
         (''indexers'', JArr (map (fee_sum_json e) rows))])))"

section \<open>Conflicting attestations\<close>

type_synonym signer = "str \<times> str \<times> observation_row"

text \<open>The signed answers of a window: the probe's id and the request it answered, with the signing key, the
  response id and the observation.\<close>

definition signed_answers :: "int \<Rightarrow> probe_db \<Rightarrow> ((str \<times> str option) \<times> signer) list" where
  "signed_answers since d = List.map_filter (\<lambda>((pid, key), o'). case (ob_response_cid o', map_of (probes d) pid) of
      (Some c, Some p) \<Rightarrow> if since \<le> pr_dispatched_at p then Some ((pid, ob_request_cid o'), (key, c, o')) else None
    | _ \<Rightarrow> None) (observations d)"

record conflict =
  cf_probe_id :: str
  cf_request_cid :: "str option"
  cf_signers :: "signer list"

definition distinct_answers :: "signer list \<Rightarrow> int" where
  "distinct_answers ss = count_distinct (map (fst \<circ> snd) ss)"

definition distinct_payloads :: "signer list \<Rightarrow> int" where
  "distinct_payloads ss = count_distinct (somes (map (ob_response_hash \<circ> snd \<circ> snd) ss))"

definition conflicts :: "int \<Rightarrow> probe_db \<Rightarrow> conflict list" where
  "conflicts since d = desc_by (\<lambda>c. case map_of (probes d) (cf_probe_id c) of Some p \<Rightarrow> pr_dispatched_at p | None \<Rightarrow> 0)
     (map (\<lambda>((pid, rq), ss). \<lparr>cf_probe_id = pid, cf_request_cid = rq, cf_signers = sort_key fst ss\<rparr>)
       (filter (\<lambda>(_, ss). 2 \<le> length ss \<and> 1 < distinct_answers ss) (group_pairs (signed_answers since d))))"

definition signer_json :: "judge_db \<Rightarrow> signer \<Rightarrow> json" where
  "signer_json j s = (case s of (key, c, o') \<Rightarrow> let paid = (ob_dispatch_mode o' = ''paid'') in JObj [
     (''indexer'', jopt JStr (case resolved j key of Some a \<Rightarrow> Some a | None \<Rightarrow> if paid then Some key else None)),
     (''resolved'', JBool (resolved j key \<noteq> None \<or> paid)), (''signing_key'', JStr key), (''response_cid'', JStr c),
     (''attestation'', jopt id (ob_attestation o'))])"

definition data_differs :: "conflict \<Rightarrow> bool" where
  "data_differs c \<longleftrightarrow> 1 < distinct_payloads (cf_signers c)"

definition conflict_json :: "api_env \<Rightarrow> judge_db \<Rightarrow> conflict \<Rightarrow> json" where
  "conflict_json e j c = (let p = map_of (probes (jd_probe j)) (cf_probe_id c) in JObj [
     (''probe_id'', JStr (cf_probe_id c)), (''deployment_id'', jopt (JStr \<circ> pr_deployment_id) p),
     (''block_number'', jopt (jint \<circ> pr_block_number) p), (''observed_at'', jopt (jtime (ev_rfc e) \<circ> pr_dispatched_at) p),
     (''request_cid'', jopt JStr (cf_request_cid c)), (''distinct_answers'', jint (distinct_answers (cf_signers c))),
     (''distinct_payloads'', jint (distinct_payloads (cf_signers c))), (''data_differs'', JBool (data_differs c)),
     (''signers'', JArr (map (signer_json j) (cf_signers c)))])"

definition conflict_rows :: "int \<Rightarrow> int option \<Rightarrow> int option \<Rightarrow> probe_db \<Rightarrow> conflict list" where
  "conflict_rows now ds limit d = take (nat (clamp_int 1 500 (or_else 100 limit)))
     (conflicts (now - clamp_int 1 90 (or_else 7 ds) * day_us) d)"

definition qos_conflicts :: "api_env \<Rightarrow> int option \<Rightarrow> int option \<Rightarrow> api_db \<Rightarrow> response" where
  "qos_conflicts e ds limit d = answer (ask e 0 (Some (conflict_rows (ev_now e) ds limit (ap_probe d)))) (\<lambda>rows.
     Inr (JObj [(''window_days'', jint (clamp_int 1 90 (or_else 7 ds))), (''count'', jint (int (length rows))),
       (''means'', JStr ''Indexers that answered the identical request on the same deployment and signed different responseCIDs. Under DisputeManager any two of them form a conflicting-attestation dispute, filable with no deposit.''),
       (''read_data_differs_first'', JStr ''When `data_differs` is false the signers returned THE SAME DATA with different byte serialisation. DisputeManager compares bytes so it would still accept the dispute, but nobody served anything wrong and it should not be read as though they had. Only `data_differs: true` means the answers actually disagree.''),
       (''not_a_verdict'', JStr ''A conflict shows the signers disagreed. It does not show which is wrong, and it does not mean exactly one of them is: they can all be wrong, and a non-deterministic subgraph makes honest indexers disagree forever. Deciding is an arbitrator's job, not ours.''),
       (''how_to_check'', JStr ''Recover the signer from each attestation; it is the allocation id, and the chain maps it to the indexer. Nothing here needs taking on our word.''),
       (''conflicts'', JArr (map (conflict_json e (ap_judge d)) rows))]))"

section \<open>Single buckets\<close>

record bucket_params =
  bp_indexer :: "str option"
  bp_deployment :: "str option"
  bp_hours :: "int option"
  bp_limit :: "int option"

definition bucket_rows :: "int \<Rightarrow> bucket_params \<Rightarrow> (bucket_key, fq_row) table \<Rightarrow> (bucket_key \<times> fq_row) list" where
  "bucket_rows now q t = take (nat (clamp_int 1 5000 (or_else 500 (bp_limit q)))) (desc_by (\<lambda>((_, _, b, _), _). b)
     (filter (\<lambda>((ix, dp, b, _), _). opt_test (\<lambda>a. ix = to_lower a) (bp_indexer q) \<and> opt_test (\<lambda>x. dp = x) (bp_deployment q)
        \<and> now - clamp_int 1 720 (or_else 24 (bp_hours q)) * hour_us \<le> b) t))"

definition bucket_json :: "api_env \<Rightarrow> bucket_key \<times> fq_row \<Rightarrow> json" where
  "bucket_json e x = (case x of ((ix, dp, b, w), r) \<Rightarrow> JObj [(''indexer_wallet'', JStr ix), (''subgraph_deployment_ipfs_hash'', JStr dp),
     (''bucket_start'', jtime (ev_rfc e) b), (''bucket_secs'', jint w), (''gateway_id'', JStr (fq_gateway_id r)),
     (''chain_id'', JStr (fq_chain_id r)), (''query_count'', jint (fq_query_count r)),
     (''num_indexer_200_responses'', jint (fq_num_200 r)), (''proportion_indexer_200_responses'', jf (fq_proportion_200 r)),
     (''avg_indexer_latency_ms'', jopt jf (fq_avg_latency r)), (''max_indexer_latency_ms'', jopt jf (fq_max_latency r)),
     (''stdev_indexer_latency_ms'', jopt jf (fq_stdev_latency r)), (''latency_p50_ms'', jopt jint (fq_p50 r)),
     (''latency_p95_ms'', jopt jint (fq_p95 r)), (''latency_p99_ms'', jopt jint (fq_p99 r)),
     (''avg_indexer_blocks_behind'', jopt jf (fq_avg_behind r)), (''max_indexer_blocks_behind'', jopt jf (fq_max_behind r)),
     (''comparable_count'', jint (fq_comparable_count r)), (''divergent_count'', jint (fq_divergent_count r)),
     (''correctness_rate'', jopt jf (fq_correctness_rate r))])"

definition qos_buckets :: "api_env \<Rightarrow> bucket_params \<Rightarrow> api_db \<Rightarrow> response" where
  "qos_buckets e q d = (let hours = clamp_int 1 720 (or_else 24 (bp_hours q)) in
     answer (ask e 0 (Some (bucket_rows (ev_now e) q (foghorn_qos (ap_qos d))))) (\<lambda>rows.
       Inr (jset ''buckets'' (JArr (map (bucket_json e) rows)) (jset ''window_hours'' (jint hours)
         (measured_provenance None (Some (mix_or_zero e 1 hours d)))))))"

section \<open>The lists\<close>

interpretation fee_list: listing "\<lambda>(since, t). fee_sums since t" fs_collected
  by unfold_locales (simp only: split_def fee_sums_def desc_by_sorted)

interpretation alloc_list: listing "\<lambda>(p, d). alloc_rows_where p d" "aq_query_count \<circ> snd"
  by unfold_locales (simp only: split_def alloc_rows_where_def desc_by_sorted)

end
