(* ===== verification/Routes_Props.thy ===== *)
theory Routes_Props
  imports Routes_Probe Routes_Score Routes_Qos Qos_Props
begin

text \<open>
  What the public pages promise: the quality page counts what the grade counts, the feed of disagreements and
  the conflicts name nobody without stored evidence, a blind spot of the other oracle rests on enough probes,
  and our own age is the age of the last measurement.
\<close>

section \<open>Quality\<close>

lemma judged_deployment:
  assumes "j \<in> set (judged_probes d since ex)"
  shows "\<exists>p. map_of (probes (jd_probe d)) (jr_probe_id j) = Some p \<and> jr_deployment_id j = pr_deployment_id p"
  using assms unfolding judged_probes_def set_map_filter
  by (auto simp: judged_row_of_def recent_probe_def split: option.splits if_splits)

lemma fault_answered: "j \<in> set (judged_probes d since ex) \<Longrightarrow> jr_fault j \<Longrightarrow> jr_response_hash j \<noteq> None"
  unfolding judged_probes_def set_map_filter
  by (auto simp: judged_row_of_def minority_def split: option.splits if_splits)

text \<open>A count of distinct probes splits over the deployments, each probe being of one.\<close>

lemma split_count:
  assumes "\<And>j k. j \<in> set js \<Longrightarrow> k \<in> set js \<Longrightarrow> jr_probe_id j = jr_probe_id k \<Longrightarrow> jr_deployment_id j = jr_deployment_id k"
  shows "(\<Sum>(dep, rs) \<leftarrow> group_pairs (map (\<lambda>j. (jr_deployment_id j, j)) js). count_distinct (map jr_probe_id (filter P rs)))
    = count_distinct (map jr_probe_id (filter P js))"
proof -
  let ?g = "group_pairs (map (\<lambda>j. (jr_deployment_id j, j)) js)" and ?deps = "jr_deployment_id ` set js"
  let ?ids = "\<lambda>dep. jr_probe_id ` {j \<in> set js. P j \<and> jr_deployment_id j = dep}"
  have v: "values_at dep (map (\<lambda>j. (jr_deployment_id j, j)) js) = filter (\<lambda>j. jr_deployment_id j = dep) js" for dep
    using values_at_map[of dep jr_deployment_id id js] by simp
  have "(\<Sum>(dep, rs) \<leftarrow> ?g. count_distinct (map jr_probe_id (filter P rs))) = (\<Sum>(dep, rs) \<leftarrow> ?g. int (card (?ids dep)))"
  proof (rule arg_cong[of _ _ sum_list], rule map_cong[OF refl], clarify)
    fix dep rs
    assume "(dep, rs) \<in> set ?g"
    then have "rs = filter (\<lambda>j. jr_deployment_id j = dep) js" by (simp add: group_entry v)
    then show "count_distinct (map jr_probe_id (filter P rs)) = int (card (?ids dep))"
      by (simp add: count_distinct_card) (metis (no_types, lifting) Collect_cong)
  qed
  also have "\<dots> = (\<Sum>dep \<leftarrow> map fst ?g. int (card (?ids dep)))" by (simp add: comp_def split_def)
  also have "\<dots> = (\<Sum>dep \<in> ?deps. int (card (?ids dep)))"
  proof -
    have "distinct (map fst ?g)" using twf_group by (simp add: twf_def)
    moreover have "set (map fst ?g) = ?deps" by (simp add: group_keys image_image)
    ultimately show ?thesis by (simp only: sum_list_distinct_conv_sum_set)
  qed
  also have "\<dots> = int (card (\<Union>dep \<in> ?deps. ?ids dep))"
  proof -
    have "?ids i \<inter> ?ids k = {}" if ik: "i \<noteq> k" for i k
    proof (rule equals0I)
      fix x
      assume "x \<in> ?ids i \<inter> ?ids k"
      then obtain u v where "u \<in> set js" "v \<in> set js" "jr_probe_id u = jr_probe_id v" "jr_deployment_id u = i" "jr_deployment_id v = k"
        by blast
      then show False using assms[of u v] ik by simp
    qed
    then have "card (\<Union>dep \<in> ?deps. ?ids dep) = (\<Sum>dep \<in> ?deps. card (?ids dep))" by (intro card_UN_disjoint) auto
    then show ?thesis by simp
  qed
  also have "(\<Union>dep \<in> ?deps. ?ids dep) = jr_probe_id ` {j \<in> set js. P j}" by auto
  finally show ?thesis by (simp add: count_distinct_card)
qed

lemma summary_is_aggregate:
  "total_probes_of (of_indexer a (judged_probes d since True)) = ag_probes_answered (opt_or (map_of (probe_agg_rows d since) a) agg_default)
   \<and> divergent_probes_of (of_indexer a (judged_probes d since True)) = ag_faults (opt_or (map_of (probe_agg_rows d since) a) agg_default)"
proof -
  have m: "map_of (probe_agg_rows d since) a = map_option (agg_of d) (map_of (group_pairs (agg_items d since)) a)"
    by (simp add: probe_agg_rows_def map_of_map)
  show ?thesis
  proof (cases "values_at a (agg_items d since) = []")
    case True
    then have "of_indexer a (judged_probes d since True) = []"
      using agg_counts[OF refl, of d a since] by (simp add: of_indexer_def agg_of_def)
    then show ?thesis using True
      by (simp add: m map_of_group opt_or_def agg_default_def total_probes_of_def divergent_probes_of_def answered_rows_def count_distinct_def)
  next
    case False
    then show ?thesis using agg_counts[OF refl, of d a since]
      by (simp add: m map_of_group opt_or_def of_indexer_def total_probes_of_def divergent_probes_of_def answered_rows_def)
  qed
qed

text \<open>
  C29. The public quality page and the grade count alike: when the queries succeed and the window reaches back to
  a time the database has, the page's answered and divergent probes are the answers and faults of the
  aggregate the grade of that window is computed from; the probes listed by deployment add up to them, never
  more divergent than answered; and every recent probe it marks divergent is one of those faults.
\<close>

theorem quality_page_matches_grade:
  assumes "pg_back (ev_now e) (n * day_us) = Some since" "ev_up e = (\<lambda>_. True)"
    and "g = opt_or (map_of (probe_agg_rows d since) a) agg_default"
  shows "\<exists>q. quality_rows e a n d = Inr q
    \<and> qs_total_probes (qw_summary q) = ag_probes_answered g \<and> qs_divergent_probes (qw_summary q) = ag_faults g
    \<and> (\<Sum>(dep, total, dv) \<leftarrow> qw_by_deployment q. total) = ag_probes_answered g
    \<and> (\<Sum>(dep, total, dv) \<leftarrow> qw_by_deployment q. dv) = ag_faults g \<and> ag_faults g \<le> ag_probes_answered g
    \<and> int (card (jr_probe_id ` {j \<in> set (qw_recent q). jr_fault j})) \<le> ag_faults g"
proof -
  let ?js = "of_indexer a (judged_probes d since True)"
  define q where "q = \<lparr>qw_summary = quality_summary ?js, qw_by_deployment = quality_by_deployment ?js,
     qw_recent = take 20 (desc_by jr_dispatched_at ?js)\<rparr>"
  have q: "quality_rows e a n d = Inr q" "qw_summary q = quality_summary ?js"
    "qw_by_deployment q = quality_by_deployment ?js" "qw_recent q = take 20 (desc_by jr_dispatched_at ?js)"
    by (simp_all add: q_def quality_rows_def judged_in_window_def ask_def assms Let_def)
  have one: "jr_deployment_id j = jr_deployment_id k" if "j \<in> set ?js" "k \<in> set ?js" "jr_probe_id j = jr_probe_id k" for j k
    using that judged_deployment[of j d since True] judged_deployment[of k d since True] by (auto simp: of_indexer_def)
  have split: "(\<Sum>(dep, rs) \<leftarrow> group_pairs (map (\<lambda>j. (jr_deployment_id j, j)) ?js). count_distinct (map jr_probe_id (filter P rs)))
      = count_distinct (map jr_probe_id (filter P ?js))" for P by (rule split_count) (rule one)
  have faults: "filter jr_fault ?js = filter jr_fault (answered_rows ?js)"
    unfolding answered_rows_def filter_filter
    by (rule filter_cong[OF refl]) (use fault_answered in \<open>auto simp: of_indexer_def\<close>)
  have le: "divergent_probes_of ?js \<le> total_probes_of ?js"
    unfolding divergent_probes_of_def total_probes_of_def faults count_distinct_card by (auto intro!: card_mono)
  have recent: "jr_probe_id ` {j \<in> set (qw_recent q). jr_fault j} \<subseteq> jr_probe_id ` {j \<in> set ?js. jr_fault j}"
    unfolding q(4) by (auto dest!: in_set_takeD)
  have "int (card (jr_probe_id ` {j \<in> set (qw_recent q). jr_fault j})) \<le> divergent_probes_of ?js"
    using card_mono[OF _ recent] by (simp add: divergent_probes_of_def count_distinct_card)
  moreover have "(\<Sum>(dep, total, dv) \<leftarrow> quality_by_deployment ?js. total) = total_probes_of ?js"
    "(\<Sum>(dep, total, dv) \<leftarrow> quality_by_deployment ?js. dv) = divergent_probes_of ?js"
    using split[of "\<lambda>j. jr_response_hash j \<noteq> None"] split[of jr_fault]
    by (simp_all add: quality_by_deployment_def total_probes_of_def divergent_probes_of_def answered_rows_def comp_def split_def)
  moreover have "qs_total_probes (qw_summary q) = total_probes_of ?js" "qs_divergent_probes (qw_summary q) = divergent_probes_of ?js"
    by (simp_all add: q(2) quality_summary_def Let_def)
  moreover have "total_probes_of ?js = ag_probes_answered g" "divergent_probes_of ?js = ag_faults g"
    using summary_is_aggregate[of a d since] by (simp_all add: assms(3))
  ultimately show ?thesis using le by (intro exI[of _ q]) (simp only: q(1) q(3) simp_thms)
qed

definition demo_env :: api_env where
  "demo_env = \<lparr>ev_now = 86400000000, ev_up = (\<lambda>_. True), ev_iso = show_int, ev_rfc = show_int\<rparr>"

theorem quality_page_matches_grade_witness:
  "\<exists>q. quality_rows demo_env ''0xi'' 1 sample_judge_db = Inr q \<and> qs_total_probes (qw_summary q) = 1 \<and> qs_divergent_probes (qw_summary q) = 0"
proof -
  have w: "pg_back (ev_now demo_env) (1 * day_us) = Some 0" "ev_up demo_env = (\<lambda>_. True)"
    by (simp_all add: demo_env_def pg_back_def day_us_def)
  show ?thesis using quality_page_matches_grade[OF w refl, where d = sample_judge_db and a = "''0xi''"] by (auto simp: sample_agg opt_or_def)
qed

section \<open>The feed of disagreements\<close>

definition listed_split :: "probe_db \<Rightarrow> str \<Rightarrow> bool" where
  "listed_split d pid \<longleftrightarrow> (\<exists>ev \<in> set (feed_events d None). ve_probe_id ev = pid)"

lemma feed_event_iff: "ev \<in> set (feed_events d dep) \<longleftrightarrow> (\<exists>pid v p. (pid, v) \<in> set (divergences d) \<and> 1 < dv_cluster_count v
    \<and> map_of (probes d) pid = Some p \<and> opt_test (\<lambda>x. pr_deployment_id p = x) dep
    \<and> ev = \<lparr>ve_probe_id = pid, ve_probe = p, ve_cluster_count = dv_cluster_count v, ve_diff_patches = dv_diff_patches v,
        ve_indexer_count = int (length (probe_observations d pid)), ve_created_at = dv_created_at v\<rparr>)"
  unfolding feed_events_def set_desc_by set_map_filter split_events_def
  by (fastforce split: option.splits if_splits)

lemma listed_iff: "listed_split d pid \<longleftrightarrow> (\<exists>v. (pid, v) \<in> set (divergences d) \<and> 1 < dv_cluster_count v) \<and> map_of (probes d) pid \<noteq> None"
proof
  assume "listed_split d pid"
  then show "(\<exists>v. (pid, v) \<in> set (divergences d) \<and> 1 < dv_cluster_count v) \<and> map_of (probes d) pid \<noteq> None"
    by (fastforce simp: listed_split_def feed_event_iff)
next
  assume "(\<exists>v. (pid, v) \<in> set (divergences d) \<and> 1 < dv_cluster_count v) \<and> map_of (probes d) pid \<noteq> None"
  then obtain v p where v: "(pid, v) \<in> set (divergences d)" "1 < dv_cluster_count v" "map_of (probes d) pid = Some p" by blast
  let ?ev = "\<lparr>ve_probe_id = pid, ve_probe = p, ve_cluster_count = dv_cluster_count v, ve_diff_patches = dv_diff_patches v,
    ve_indexer_count = int (length (probe_observations d pid)), ve_created_at = dv_created_at v\<rparr>"
  have "?ev \<in> set (feed_events d None)" unfolding feed_event_iff using v by (auto simp: opt_test_def)
  then show "listed_split d pid" unfolding listed_split_def by (rule rev_bexI) simp
qed

definition answers_of :: "probe_db \<Rightarrow> str \<Rightarrow> str list" where
  \<comment> \<open>The hashes of a probe's stored answers.\<close>
  "answers_of d pid = somes (map (ob_response_hash \<circ> snd) (probe_observations d pid))"

lemma map_filter_map: "List.map_filter f (map g xs) = List.map_filter (f \<circ> g) xs"
  by (induction xs) (simp_all add: map_filter_simps split: option.split)

lemma probe_observations_append: "observations d' = observations d @ map (\<lambda>o'. ((pid, a o'), w o')) obs \<Longrightarrow>
    probe_observations d' q = probe_observations d q @ (if q = pid then map (\<lambda>o'. (a o', w o')) obs else [])"
  by (auto simp: probe_observations_def map_filter_append map_filter_map comp_def List.map_filter_def)

lemma fresh_observations: "fresh_probe pid d \<Longrightarrow> probe_observations d pid = []"
  by (auto simp: fresh_probe_def probe_observations_def List.map_filter_def filter_empty_conv split: prod.splits)

lemma count_answers: "length (filter (\<lambda>x. x = h) (somes xs)) = length (filter (\<lambda>x. x = Some h) xs)"
  by (induction xs) (auto simp: somes_def map_filter_simps split: option.splits)

lemma set_somes: "h \<in> set (somes xs) \<longleftrightarrow> Some h \<in> set xs"
  by (induction xs) (auto simp: somes_def map_filter_simps split: option.splits)

lemma two_in: "finite A \<Longrightarrow> 1 < card A \<longleftrightarrow> (\<exists>x \<in> A. \<exists>y \<in> A. x \<noteq> y)"
  using card_le_Suc0_iff_eq[of A] by auto

lemma many_iff: "1 < count_distinct xs \<longleftrightarrow> (\<exists>x \<in> set xs. \<exists>y \<in> set xs. x \<noteq> y)"
  using two_in[of "set xs"] by (simp add: count_distinct_card)

text \<open>
  C26. The public feed names a probe only on stored evidence, and always then: after a fresh probe is clustered
  and stored, it is listed exactly when two of its stored answers have the same hash and two have different
  ones, so a unanimous probe and two indexers that contradict each other alone are not; every other probe is
  listed or not as before.
\<close>

theorem feed_lists_corroborated_splits:
  assumes "permutes ord" "length obs < 2 ^ 31" "compute_clusters parse jdiff ord (map cluster_input_of obs) = Some r"
    and "\<forall>o' \<in> set obs. ro_response_hash o' \<noteq> Some ''''" "fresh_probe pid d" "distinct (map ro_indexer_address obs)"
    and "fst (store_results jsonb pid p obs r d)" and "d' = snd (store_results jsonb pid p obs r d)"
  shows "listed_split d' q = (if q = pid
      then (\<exists>h. 2 \<le> length (filter (\<lambda>x. x = h) (answers_of d' pid))) \<and> (\<exists>h \<in> set (answers_of d' pid). \<exists>k \<in> set (answers_of d' pid). h \<noteq> k)
      else listed_split d q)"
proof -
  let ?in = "map cluster_input_of obs" and ?w = "\<lambda>o'. the (observation_of jsonb o')"
  have hash: "map ci_response_hash ?in = map ro_response_hash obs" by (simp add: cluster_input_of_def)
  have rows: "ob_response_hash (?w o') = ro_response_hash o'" if "o' \<in> set obs" for o'
    using that assms(7) row_hash by (fastforce simp: store_ok_iff)
  have obs': "observations d' = observations d @ map (\<lambda>o'. ((pid, ro_indexer_address o'), ?w o')) obs"
    using stored_observations[OF assms(5,6,7)] by (simp add: assms(8))
  have mine: "map (ob_response_hash \<circ> snd) (probe_observations d' pid) = map ro_response_hash obs"
    using rows by (simp add: probe_observations_append[OF obs'] fresh_observations[OF assms(5)])
  have count: "length (filter (\<lambda>x. x = h) (answers_of d' pid)) = hash_count h ?in" for h
    unfolding answers_of_def mine count_answers hash_count_def by (simp add: filter_map comp_def cluster_input_of_def)
  have set: "set (answers_of d' pid) = {h. Some h \<in> ci_response_hash ` set ?in}"
    unfolding answers_of_def mine by (auto simp: set_somes cluster_input_of_def image_iff)
  have split: "1 < cluster_count r \<longleftrightarrow> (\<exists>h \<in> set (answers_of d' pid). \<exists>k \<in> set (answers_of d' pid). h \<noteq> k)"
  proof -
    have "1 < cluster_count r \<longleftrightarrow> 1 < card (set (answers_of d' pid))"
      using divergence_count(1)[OF assms(1) _ assms(3)] assms(2) by (simp add: set)
    then show ?thesis using two_in[of "set (answers_of d' pid)"] by blast
  qed
  have none: "map_of (divergences d) pid = None" "map_of (probes d) pid = None" using assms(5) by (simp_all add: fresh_probe_def)
  have "\<forall>i \<in> set ?in. ci_response_hash i \<noteq> Some ''''" using assms(4) by (auto simp: cluster_input_of_def)
  from divergence_row[OF assms(1) _ assms(3) this none(1) assms(7)] assms(2)
  have row: "map_of (divergences d') pid = (if \<exists>h. 2 \<le> hash_count h ?in then Some (divergence_of r (pr_dispatched_at p)) else None)"
    by (simp add: assms(8))
  have pr: "map_of (probes d') q = (if q = pid then Some p else map_of (probes d) q)" for q
    by (simp add: assms(8) store_probes map_of_tput_new none(2))
  let ?v = "divergence_of r (pr_dispatched_at p)"
  have "divergences d' = divergences d \<or> divergences d' = divergences d @ [(pid, ?v)]"
    unfolding assms(8) store_divergences by (auto simp: tput_new_def)
  then have dv: "divergences d' = divergences d @ (if \<exists>h. 2 \<le> hash_count h ?in then [(pid, ?v)] else [])"
    using row none(1) by (auto simp: map_add_def split: if_splits)
  have old: "(pid, v) \<notin> set (divergences d)" for v using none(1) by (force simp: map_of_eq_None_iff)
  have "(\<exists>v. (pid, v) \<in> set (divergences d') \<and> 1 < dv_cluster_count v) \<longleftrightarrow> (\<exists>h. 2 \<le> hash_count h ?in) \<and> 1 < cluster_count r"
    using old by (auto simp: dv divergence_of_def)
  then have "listed_split d' pid = ((\<exists>h. 2 \<le> length (filter (\<lambda>x. x = h) (answers_of d' pid))) \<and> (\<exists>h \<in> set (answers_of d' pid). \<exists>k \<in> set (answers_of d' pid). h \<noteq> k))"
    unfolding listed_iff count split by (simp add: pr)
  moreover have "listed_split d' q = listed_split d q" if "q \<noteq> pid" using that by (auto simp: listed_iff pr dv)
  ultimately show ?thesis by simp
qed

theorem feed_lists_corroborated_splits_witness:
  "\<exists>r. compute_clusters (\<lambda>_. None) (\<lambda>_ _. JArr []) rev (map cluster_input_of three_paid) = Some r
     \<and> listed_split (snd (store_results (\<lambda>_. None) ''q'' sample_row three_paid r empty_db)) ''q''"
proof -
  note defs = three_paid_def paid_answer_def observation_defs cluster_input_of_def
  have "\<exists>r. compute_clusters (\<lambda>_. None) (\<lambda>_ _. JArr []) rev (map cluster_input_of three_paid) = Some r"
    by (rule compute_total[OF permutes_rev]) (simp add: defs)
  then obtain r where r: "compute_clusters (\<lambda>_. None) (\<lambda>_ _. JArr []) rev (map cluster_input_of three_paid) = Some r" ..
  let ?s = "store_results (\<lambda>_. None) ''q'' sample_row three_paid r empty_db"
  have ok: "fst ?s" by (simp add: store_ok_iff observation_of_def defs)
  have fresh: "fresh_probe ''q'' empty_db" by (simp add: fresh_probe_def empty_db_def)
  have dist: "distinct (map ro_indexer_address three_paid)" by (simp add: defs)
  have h: "answers_of (snd ?s) ''q'' = [''h1'', ''h2'', ''h1'']"
    unfolding answers_of_def probe_observations_append[OF stored_observations[OF fresh dist ok]] fresh_observations[OF fresh]
    by (simp add: three_paid_def) (simp add: defs observation_of_def somes_def map_filter_simps)
  have two: "\<exists>x. 2 \<le> length (filter (\<lambda>y. y = x) [''h1'', ''h2'', ''h1''])" by (intro exI[of _ "''h1''"]) simp
  have "length three_paid < 2 ^ 31" "\<forall>o' \<in> set three_paid. ro_response_hash o' \<noteq> Some ''''" by (simp_all add: defs)
  from feed_lists_corroborated_splits[OF permutes_rev this(1) r this(2) fresh dist ok refl, of "''q''"] two
  show ?thesis using r by (auto simp: h)
qed

end
