(* ===== verification/Routes_Qos_Props.thy ===== *)
theory Routes_Qos_Props
  imports Routes_Qos Routes_Props Feed_Props Feed_Api_Props Probe_Props
begin

text \<open>
  The pages that accuse and the page that says how old everything is: conflicts are exactly the signed
  contradictions, a blind spot of the other oracle rests on enough evidence of ours, and our age is the age of
  the last measurement whatever is recomputed. A failing measurement never takes the other half of a page down.
\<close>

section \<open>Conflicts\<close>

definition signed_by_someone :: "int \<Rightarrow> probe_db \<Rightarrow> str \<Rightarrow> str option \<Rightarrow> str \<Rightarrow> observation_row \<Rightarrow> bool" where
  \<comment> \<open>A stored answer of a probe of the window that carries a signed response id.\<close>
  "signed_by_someone since d pid rq c o' \<longleftrightarrow> (\<exists>key. ((pid, key), o') \<in> set (observations d)) \<and> ob_response_cid o' = Some c
     \<and> ob_request_cid o' = rq \<and> (\<exists>p. map_of (probes d) pid = Some p \<and> since \<le> pr_dispatched_at p)"

lemma signed_answer_iff: "((pid, rq), (key, c, o')) \<in> set (signed_answers since d) \<longleftrightarrow> ((pid, key), o') \<in> set (observations d)
    \<and> ob_response_cid o' = Some c \<and> ob_request_cid o' = rq \<and> (\<exists>p. map_of (probes d) pid = Some p \<and> since \<le> pr_dispatched_at p)"
proof -
  let ?f = "\<lambda>((pid, key), o'). case (ob_response_cid o', map_of (probes d) pid) of
      (Some c, Some p) \<Rightarrow> if since \<le> pr_dispatched_at p then Some ((pid, ob_request_cid o'), (key, c, o')) else None | _ \<Rightarrow> None"
  have "?f ((q, k), w) = Some ((pid, rq), (key, c, o')) \<longleftrightarrow> q = pid \<and> k = key \<and> w = o' \<and> ob_response_cid w = Some c
      \<and> ob_request_cid w = rq \<and> (\<exists>p. map_of (probes d) q = Some p \<and> since \<le> pr_dispatched_at p)" for q k w
    by (cases "ob_response_cid w"; cases "map_of (probes d) q") auto
  then have "(\<exists>r \<in> set (observations d). ?f r = Some ((pid, rq), (key, c, o'))) \<longleftrightarrow> ((pid, key), o') \<in> set (observations d)
      \<and> ob_response_cid o' = Some c \<and> ob_request_cid o' = rq \<and> (\<exists>p. map_of (probes d) pid = Some p \<and> since \<le> pr_dispatched_at p)"
    by (metis (no_types, lifting) old.prod.exhaust)
  then show ?thesis unfolding signed_answers_def set_map_filter .
qed

lemma cid_in: "x \<in> set (map (fst \<circ> snd) ss) \<longleftrightarrow> (\<exists>k u. (k, x, u) \<in> set ss)"
  by force

lemma hash_in: "h \<in> set (somes (map (ob_response_hash \<circ> snd \<circ> snd) ss)) \<longleftrightarrow> (\<exists>k x u. (k, x, u) \<in> set ss \<and> ob_response_hash u = Some h)"
  by (force simp: set_somes image_iff)

lemma signed_iff: "signed_by_someone since d pid rq c o' \<longleftrightarrow> (\<exists>key. (key, c, o') \<in> set (values_at (pid, rq) (signed_answers since d)))"
  by (auto simp: signed_by_someone_def values_at_def signed_answer_iff image_iff)

lemma conflict_signers:
  "(\<exists>c \<in> set (conflicts since d). cf_probe_id c = pid \<and> cf_request_cid c = rq \<and> P (cf_signers c)) \<longleftrightarrow>
   (let ss = values_at (pid, rq) (signed_answers since d) in 1 < distinct_answers ss \<and> P (sort_key fst ss))"
proof -
  have long: "2 \<le> length ss" if "1 < distinct_answers ss" for ss
    using that card_length[of "map (fst \<circ> snd) ss"] by (simp add: distinct_answers_def count_distinct_card)
  have mem: "(pid, rq) \<in> fst ` set (signed_answers since d)" if "1 < distinct_answers (values_at (pid, rq) (signed_answers since d))"
    using that values_at_Nil[of "(pid, rq)" "signed_answers since d"] by (auto simp: distinct_answers_def count_distinct_def)
  show ?thesis
  proof
    assume "\<exists>c \<in> set (conflicts since d). cf_probe_id c = pid \<and> cf_request_cid c = rq \<and> P (cf_signers c)"
    then show "let ss = values_at (pid, rq) (signed_answers since d) in 1 < distinct_answers ss \<and> P (sort_key fst ss)"
      by (auto simp: conflicts_def group_entry Let_def)
  next
    assume a: "let ss = values_at (pid, rq) (signed_answers since d) in 1 < distinct_answers ss \<and> P (sort_key fst ss)"
    let ?ss = "values_at (pid, rq) (signed_answers since d)"
    let ?c = "\<lparr>cf_probe_id = pid, cf_request_cid = rq, cf_signers = sort_key fst ?ss\<rparr>"
    have "((pid, rq), ?ss) \<in> set (group_pairs (signed_answers since d))" using a mem by (simp add: group_entry Let_def)
    then have "?c \<in> set (conflicts since d)"
      using a long by (force simp: conflicts_def Let_def image_iff)
    then show "\<exists>c \<in> set (conflicts since d). cf_probe_id c = pid \<and> cf_request_cid c = rq \<and> P (cf_signers c)"
      using a by (intro bexI[of _ ?c]) (simp_all add: Let_def)
  qed
qed

text \<open>
  C31. The page of disputable divergences is exact. A probe is on it, under the request that was signed, exactly
  when two of the window's stored answers to that probe carry that request and different signed response ids;
  and it says that the data differs exactly when, besides, two of the signed answers have different hashes.
\<close>

theorem conflicts_are_signed_contradictions:
  "(\<exists>c \<in> set (conflicts since d). cf_probe_id c = pid \<and> cf_request_cid c = rq) =
     (\<exists>x y u v. signed_by_someone since d pid rq x u \<and> signed_by_someone since d pid rq y v \<and> x \<noteq> y)
   \<and> (\<exists>c \<in> set (conflicts since d). cf_probe_id c = pid \<and> cf_request_cid c = rq \<and> data_differs c) =
     ((\<exists>x y u v. signed_by_someone since d pid rq x u \<and> signed_by_someone since d pid rq y v \<and> x \<noteq> y)
      \<and> (\<exists>x y u v h k. signed_by_someone since d pid rq x u \<and> signed_by_someone since d pid rq y v
          \<and> ob_response_hash u = Some h \<and> ob_response_hash v = Some k \<and> h \<noteq> k))"
proof -
  let ?ss = "values_at (pid, rq) (signed_answers since d)"
  have a: "1 < distinct_answers ?ss \<longleftrightarrow>
      (\<exists>x y u v. signed_by_someone since d pid rq x u \<and> signed_by_someone since d pid rq y v \<and> x \<noteq> y)"
    unfolding distinct_answers_def many_iff Bex_def cid_in signed_iff by blast
  have p: "1 < distinct_payloads (sort_key fst ?ss) \<longleftrightarrow> (\<exists>x y u v h k. signed_by_someone since d pid rq x u
      \<and> signed_by_someone since d pid rq y v \<and> ob_response_hash u = Some h \<and> ob_response_hash v = Some k \<and> h \<noteq> k)"
    unfolding distinct_payloads_def many_iff Bex_def hash_in signed_iff set_sort by blast
  show ?thesis
    using conflict_signers[of since d pid rq "\<lambda>_. True"] conflict_signers[of since d pid rq "\<lambda>ss. 1 < distinct_payloads ss"]
    by (simp add: a p Let_def data_differs_def)
qed

text \<open>
  A signed error has no hash. Beside a signed answer it makes a conflict in which the data is said not to differ.
\<close>

definition signed_row :: "str option \<Rightarrow> str \<Rightarrow> observation_row" where
  "signed_row h c = \<lparr>ob_response_hash = h, ob_latency_ms = 3, ob_meta_block_number = None, ob_meta_block_hash = None,
     ob_http_status = Some 200, ob_error_class = (if h = None then Some ''graphql_error'' else None), ob_stake_weight = Fin 1,
     ob_dispatch_mode = ''paid'', ob_request_cid = Some ''rq'', ob_response_cid = Some c, ob_attestation = None\<rparr>"

lemma signed_error_is_not_data:
  "map data_differs (conflicts 0 \<lparr>probes = [(''p'', sample_row)], observations = [((''p'', ''0xa''), signed_row (Some ''h1'') ''c1''),
     ((''p'', ''0xb''), signed_row None ''c2'')], divergences = []\<rparr>) = [False]"
proof -
  have "pr_dispatched_at sample_row = 5" by (simp add: sample_row_def)
  then have s: "signed_answers 0 \<lparr>probes = [(''p'', sample_row)], observations = [((''p'', ''0xa''), signed_row (Some ''h1'') ''c1''),
      ((''p'', ''0xb''), signed_row None ''c2'')], divergences = []\<rparr> =
    [((''p'', Some ''rq''), (''0xa'', ''c1'', signed_row (Some ''h1'') ''c1'')), ((''p'', Some ''rq''), (''0xb'', ''c2'', signed_row None ''c2''))]"
    by (simp add: signed_answers_def map_filter_simps signed_row_def)
  show ?thesis unfolding conflicts_def s
    by (simp add: group_pairs_def mm_push_def distinct_answers_def count_distinct_def desc_by_def data_differs_def
        distinct_payloads_def somes_def map_filter_simps signed_row_def)
qed

section \<open>Agreement\<close>

definition own_window :: "int \<Rightarrow> api_db \<Rightarrow> str \<times> str \<Rightarrow> fq_row list" where
  \<comment> \<open>The buckets of a pair that start in the window.\<close>
  "own_window since d k = values_at k (map (\<lambda>((ix, dp, _), r). ((ix, dp), r))
     (filter (\<lambda>((_, _, b, _), _). since \<le> b) (foghorn_qos (ap_qos d))))"

definition evidence :: "int \<Rightarrow> api_db \<Rightarrow> int \<Rightarrow> str \<times> str \<Rightarrow> bool" where
  "evidence since d m k \<longleftrightarrow> (let rows = own_window since d k in m \<le> sum_list (map fq_query_count rows)
     \<and> m \<le> sum_list (map fq_comparable_count rows) \<and> 1 \<le> sum_list (map fq_divergent_count rows))
     \<and> (\<exists>o'. map_of (ap_alloc_qos d) k = Some o' \<and> fle (F (99 / 100)) (aq_success_rate o'))"

lemma compare_row_from: "r \<in> set (compare_rows since d) \<Longrightarrow> \<exists>o'. map_of (ap_alloc_qos d) (co_pair r) = Some o'
    \<and> r = compare_row_of (co_pair r, own_window since d (co_pair r)) o'"
proof -
  assume "r \<in> set (compare_rows since d)"
  then have "r \<in> set (List.map_filter (\<lambda>g. map_option (compare_row_of g) (map_of (ap_alloc_qos d) (fst g)))
      (mine_groups since (foghorn_qos (ap_qos d))))" unfolding compare_rows_def by (auto dest!: in_set_takeD)
  then obtain k rows o' where g: "(k, rows) \<in> set (mine_groups since (foghorn_qos (ap_qos d)))"
    "map_of (ap_alloc_qos d) k = Some o'" "r = compare_row_of (k, rows) o'" unfolding set_map_filter by auto
  have "rows = own_window since d k" using g(1) unfolding mine_groups_def group_entry own_window_def by simp
  moreover have "co_pair r = k" by (simp add: g(3) compare_row_of_def Let_def)
  ultimately show ?thesis using g(2,3) by (intro exI[of _ o']) simp
qed

lemma no_divergence_no_blame: "0 < n \<Longrightarrow> fsub (F 1) (fdiv (f_of_int 0) (f_of_int n)) = F 1"
  using f_of_int_pos[of n] by (cases "f_of_int n") (auto simp: f_of_int_small fsub_def split: if_splits)

lemma compare_all_counts:
  "(let acc = fold (compare_step m) rows acc0 in
     ca_err_n acc = ca_err_n acc0 + length (filter (co_counted m) rows) \<and> ca_blind acc = ca_blind acc0 + length (filter (co_blind m) rows)
     \<and> ca_disagree acc \<le> ca_disagree acc0 + length (filter (co_counted m) rows)
     \<and> ca_pairs acc = ca_pairs acc0 @ map (compare_json m) rows)"
proof (induction rows arbitrary: acc0)
  case (Cons r rows)
  have "ca_err_n (compare_step m r acc0) = ca_err_n acc0 + (if co_counted m r then 1 else 0)"
    "ca_blind (compare_step m r acc0) = ca_blind acc0 + (if co_blind m r then 1 else 0)"
    "ca_disagree (compare_step m r acc0) \<le> ca_disagree acc0 + (if co_counted m r then 1 else 0)"
    "ca_pairs (compare_step m r acc0) = ca_pairs acc0 @ [compare_json m r]"
    by (auto simp: compare_step_def co_counted_def Let_def split: option.splits)
  then show ?case using Cons.IH[of "compare_step m r acc0"] by (cases "co_counted m r") (simp_all add: Let_def)
qed simp

text \<open>
  C34. A blind spot of the other oracle is not a guess: every pair the comparison counts as one rests, in the
  window, on at least the asked number of our probes and of comparable answers, at least one of which diverged,
  and on the other oracle's success rate of 99 per cent; the count is that of the pairs shown as such, and never
  more than the pairs the error is averaged over.
\<close>

theorem blind_spots_carry_evidence:
  assumes "list_all (\<lambda>(_, r). 0 \<le> fq_divergent_count r) (foghorn_qos (ap_qos d))" "1 \<le> m"
  shows "(let rows = compare_rows since d; acc = compare_all m rows; blind = filter (co_blind m) rows in
    co_pair ` set blind \<subseteq> {k. evidence since d m k} \<and> ca_blind acc = length blind \<and> ca_blind acc \<le> ca_err_n acc
    \<and> ca_disagree acc \<le> ca_err_n acc \<and> ca_pairs acc = map (compare_json m) rows)"
proof -
  let ?rows = "compare_rows since d"
  have "evidence since d m (co_pair r)" if r: "r \<in> set ?rows" "co_blind m r" for r
  proof -
    obtain o' where o': "map_of (ap_alloc_qos d) (co_pair r) = Some o'"
      "r = compare_row_of (co_pair r, own_window since d (co_pair r)) o'" using compare_row_from[OF r(1)] by blast
    let ?w = "own_window since d (co_pair r)"
    have cols: "co_probes r = sum_list (map fq_query_count ?w)" "co_comparable r = sum_list (map fq_comparable_count ?w)" "co_oracle r = o'"
      "co_mine_correctness r = (if 0 < sum_list (map fq_comparable_count ?w) then Some (fsub (F 1)
         (fdiv (f_of_int (sum_list (map fq_divergent_count ?w))) (f_of_int (sum_list (map fq_comparable_count ?w))))) else None)"
      by (subst o'(2), simp add: compare_row_of_def Let_def)+
    have "0 \<le> sum_list (map fq_divergent_count ?w)"
      using assms(1) by (fastforce simp: own_window_def values_at_def list_all_iff intro!: sum_list_nonneg)
    moreover have "sum_list (map fq_divergent_count ?w) \<noteq> 0"
      using r(2) no_divergence_no_blame by (auto simp: co_blind_def cols(4) split: if_splits)
    ultimately have "1 \<le> sum_list (map fq_divergent_count ?w)" by linarith
    then show ?thesis using r(2) o'(1) by (simp add: co_blind_def co_counted_def evidence_def Let_def cols(1-3))
  qed
  moreover have "length (filter (co_blind m) rs) \<le> length (filter (co_counted m) rs)" for rs
    by (induction rs) (auto simp: co_blind_def)
  ultimately show ?thesis
    using compare_all_counts[of m ?rows "\<lparr>ca_err_sum = F 0, ca_err_n = 0, ca_disagree = 0, ca_blind = 0, ca_pairs = []\<rparr>"]
    by (auto simp: compare_all_def Let_def)
qed

definition blind_bucket :: fq_row where
  "blind_bucket = (demo_bucket 2)\<lparr>fq_num_200 := 2, fq_comparable_count := 2, fq_divergent_count := 1\<rparr>"

definition blind_db :: api_db where
  "blind_db = \<lparr>ap_scorer = \<lparr>sd_qos = sample_qos_db\<lparr>foghorn_qos := [((''0xa'', ''Qm'', 0, 300), blind_bucket)]\<rparr>, sd_profiles = [],
       sd_sybil = [], sd_scores = [], sd_verdicts = [], sd_attention = []\<rparr>,
     ap_freshness = [], ap_alloc_qos = [((''0xa'', ''Qm''), \<lparr>aq_day_number = 1, aq_day_start = 86400, aq_success_rate = Fin 1,
       aq_blocks_behind = Fin 0, aq_query_count = 50, aq_updated_at = 0\<rparr>)],
     ap_fees = [], ap_watch = \<lparr>wa_messages = [], wa_payloads = []\<rparr>, ap_health = None, ap_nondet_first_seen = []\<rparr>"

theorem blind_spots_carry_evidence_witness:
  "evidence 0 blind_db 2 (''0xa'', ''Qm'') \<and> ca_blind (compare_all 2 (compare_rows 0 blind_db)) = 1"
proof -
  have fd: "foghorn_qos (ap_qos blind_db) = [((''0xa'', ''Qm'', 0, 300), blind_bucket)]" by (simp add: blind_db_def)
  have p: "list_all (\<lambda>(_, r). 0 \<le> fq_divergent_count r) (foghorn_qos (ap_qos blind_db))" by (simp add: fd blind_bucket_def)
  have b: "fq_query_count blind_bucket = 2" "fq_num_200 blind_bucket = 2" "fq_comparable_count blind_bucket = 2"
    "fq_divergent_count blind_bucket = 1" "fq_avg_behind blind_bucket = None" by (simp_all add: blind_bucket_def demo_bucket_def)
  let ?o = "\<lparr>aq_day_number = 1, aq_day_start = 86400, aq_success_rate = Fin 1, aq_blocks_behind = Fin 0, aq_query_count = 50, aq_updated_at = 0\<rparr>"
  let ?r = "compare_row_of ((''0xa'', ''Qm''), [blind_bucket]) ?o"
  have rows: "compare_rows 0 blind_db = [?r]"
    by (simp add: compare_rows_def mine_groups_def fd group_pairs_def mm_push_def blind_db_def map_filter_simps desc_by_def)
  have "F (99 / 100) \<le> F 1" using F_mono[of "99 / 100" 1] by (simp add: less_eq_f64_def)
  then have high: "fle (F (99 / 100)) (Fin 1)" by (simp add: less_eq_f64_def)
  have half: "F (1 - 1 / 2) = Fin (1 / 2)" using F_half by simp
  have blind: "co_blind 2 ?r"
    by (simp add: co_blind_def co_counted_def co_delta_def compare_row_of_def b Let_def per_count_def f_of_int_small high F_half fsub_def half)
  have one: "filter (co_blind 2) (compare_rows 0 blind_db) = [?r]" unfolding rows using blind by simp
  have k: "co_pair ?r = (''0xa'', ''Qm'')" by (simp add: compare_row_of_def Let_def)
  have "(1::int) \<le> 2" by simp
  from blind_spots_carry_evidence[OF p this, of 0, unfolded Let_def one] show ?thesis by (simp add: k)
qed

section \<open>Age\<close>

definition with_qos :: "qos_db \<Rightarrow> api_db \<Rightarrow> api_db" where
  "with_qos q d = d\<lparr>ap_scorer := (ap_scorer d)\<lparr>sd_qos := q\<rparr>\<rparr>"

definition with_probes :: "probe_db \<Rightarrow> api_db \<Rightarrow> api_db" where
  "with_probes p d = with_qos ((ap_qos d)\<lparr>qd_judge := (ap_judge d)\<lparr>jd_probe := p\<rparr>\<rparr>) d"

definition own_age :: "api_env \<Rightarrow> nat \<Rightarrow> api_db \<Rightarrow> json" where
  "own_age e interval d = jidx (own_source e interval (qos_state e d)) ''age_seconds''"

lemma newest_snoc: "newest_of (ts @ [t]) = Some (case newest_of ts of None \<Rightarrow> t | Some u \<Rightarrow> max u t)"
  by (auto simp: newest_of_def max.commute)

lemma last_measured_store:
  assumes "fresh_probe pid d" "distinct (map ro_indexer_address obs)" "fst (store_results jsonb pid p obs r d)"
  shows "last_measured (snd (store_results jsonb pid p obs r d)) = (if obs = [] then last_measured d
    else Some (case last_measured d of None \<Rightarrow> pr_dispatched_at p | Some t \<Rightarrow> max t (pr_dispatched_at p)))"
proof -
  let ?d' = "snd (store_results jsonb pid p obs r d)"
  let ?seen = "\<lambda>d (pid, _). list_ex (\<lambda>((q, _), _). q = pid) (observations d)"
  have new: "map_of (probes d) pid = None" and none: "\<forall>x \<in> set (observations d). fst (fst x) \<noteq> pid"
    using assms(1) by (simp_all add: fresh_probe_def)
  have pr: "probes ?d' = probes d @ [(pid, p)]" using new by (simp add: store_probes tput_new_def)
  note ob = stored_observations[OF assms]
  have old: "filter (?seen ?d') (probes d) = filter (?seen d) (probes d)"
  proof (rule filter_cong[OF refl])
    fix x
    assume "x \<in> set (probes d)"
    then have "fst x \<noteq> pid" using new by (auto simp: map_of_eq_None_iff)
    then show "?seen ?d' x = ?seen d x" by (cases x) (auto simp: ob list_ex_iff)
  qed
  have mine: "?seen ?d' (pid, p) \<longleftrightarrow> obs \<noteq> []"
    using none unfolding prod.case ob list_ex_append by (cases obs) (auto simp: list_ex_iff)
  have "map (pr_dispatched_at \<circ> snd) (filter (?seen ?d') (probes ?d'))
      = map (pr_dispatched_at \<circ> snd) (filter (?seen d) (probes d)) @ (if obs = [] then [] else [pr_dispatched_at p])"
    unfolding pr filter_append old using mine by simp
  then show ?thesis unfolding last_measured_def by (cases "obs = []") (simp_all only: if_True if_False append_Nil2 newest_snoc simp_thms)
qed

text \<open>
  C21. Our own feed cannot look fresher than its last measurement. The age the status page gives us is that of the
  newest probe somebody was asked for and is on record; recomputing the feed, however often, leaves it as it
  is; and storing a probe sets it to that probe's, if it is the newest, when there is an observation, and
  leaves it as it is when there is none.
\<close>

theorem age_follows_measurement:
  assumes "ev_up e 5" "fresh_probe pid (ap_probe d)" "distinct (map ro_indexer_address obs)"
    and "fst (store_results jsonb pid p obs r (ap_probe d))"
  shows "own_age e interval (with_qos (snd (rollup_once fsqrt cfg now (ap_qos d))) d) = own_age e interval d
    \<and> own_age e interval (with_probes (snd (store_results jsonb pid p obs r (ap_probe d))) d) =
      (if obs = [] then own_age e interval d
       else age_json (ev_now e) (Some (case last_measured (ap_probe d) of None \<Rightarrow> pr_dispatched_at p | Some t \<Rightarrow> max t (pr_dispatched_at p))))"
proof -
  have age: "own_age e interval x = age_json (ev_now e) (last_measured (ap_probe x))" for x
    using assms(1) by (simp add: own_age_def own_source_def qos_state_def jidx_def ask_or_def Let_def)
  have "ap_probe (with_qos (snd (rollup_once fsqrt cfg now (ap_qos d))) d) = ap_probe d"
    by (simp add: with_qos_def rollup_judge)
  moreover have "ap_probe (with_probes q d) = q" for q by (simp add: with_probes_def with_qos_def)
  ultimately show ?thesis by (simp only: age last_measured_store[OF assms(2-4)] if_distrib[of "age_json (ev_now e)"] simp_thms)
qed

theorem age_follows_measurement_witness:
  "own_age demo_env 60 (with_probes (snd (store_results (\<lambda>_. None) ''q'' (sample_row\<lparr>pr_dispatched_at := 9000000\<rparr>)
     [gateway_error_observation ''x''] empty_clusters (ap_probe blind_db))) blind_db) = jint 86391"
proof -
  let ?p = "sample_row\<lparr>pr_dispatched_at := 9000000\<rparr>" and ?o = "[gateway_error_observation ''x'']"
  have db: "ap_probe blind_db = jd_probe sample_judge_db" by (simp add: blind_db_def sample_qos_db_def)
  have last: "last_measured (ap_probe blind_db) = Some 5"
    by (simp add: db last_measured_def sample_judge_db_def newest_of_def sample_row_def)
  have "fresh_probe ''q'' (ap_probe blind_db)" by (simp add: db fresh_probe_def sample_judge_db_def)
  moreover have "fst (store_results (\<lambda>_. None) ''q'' ?p ?o empty_clusters (ap_probe blind_db))"
    by (simp add: store_ok_iff observation_of_def observation_defs)
  ultimately have "own_age demo_env 60 (with_probes (snd (store_results (\<lambda>_. None) ''q'' ?p ?o empty_clusters (ap_probe blind_db))) blind_db)
      = age_json (ev_now demo_env) (Some 9000000)"
    using age_follows_measurement[of demo_env "''q''" blind_db ?o] by (simp add: last demo_env_def)
  then show ?thesis by (simp add: age_json_def jopt_def age_secs_def demo_env_def)
qed

section \<open>One half failing\<close>

text \<open>When our own rollup cannot be read the page still shows the oracle's rows, beside an error of ours.\<close>

lemma measured_never_blanks_oracle:
  "\<exists>b b'. deployment_qos (e\<lparr>ev_up := (\<lambda>n. n = 0)\<rparr>) dep d = Inr b \<and> deployment_qos (e\<lparr>ev_up := (\<lambda>_. True)\<rparr>) dep d = Inr b'
     \<and> jidx b ''indexers'' = jidx b' ''indexers'' \<and> jidx b ''oracle'' = jidx b' ''oracle''
     \<and> jget ''error'' (jidx b ''measured'') = Some (JStr ''unavailable'')
     \<and> jget ''allocationDailyDataPoints'' (jidx b' ''measured'') =
         Some (JArr (map row_to_oracle_json (daily_points (for_deployment dep) (foghorn_qos (ap_qos d)))))"
  by (simp add: deployment_qos_def ask_def measured_block_def jidx_def Let_def measured_provenance_def)

text \<open>The statistics never fail: a count that cannot be read is zero.\<close>

lemma stats_always_answers: "\<exists>body. stats e d = Inr body"
  by (simp add: stats_def Let_def)

text \<open>The feed takes an indexer and ignores it.\<close>

lemma feed_ignores_indexer: "feed_route e (q\<lparr>fp_indexer := a\<rparr>) d = feed_route e q d"
  by (simp add: feed_route_def feed_rows_def)

end
