(* ===== verification/Server.thy ===== *)
theory Server
  imports Routes_Probe Routes_Score Routes_Qos Subscriptions
begin

text \<open>
  The HTTP server, \<open>foghorn-api/src/main.rs\<close>: the routes, what \<open>axum\<close> extracts from a request for each
  handler, and one request served over the tables. Parsing an id, reading a JSON body into a struct and
  executing a GraphQL document are third-party code and parameters; a path is its decoded segments, a query
  its decoded pairs. Bodies of rejections, CORS headers and methods other than GET and POST are left out.
\<close>

section \<open>Routes\<close>

datatype http_method = GET | POST

datatype endpoint = Health | Stats | Feed_list | Probe_detail str | Indexer_quality str | Indexer_freshness str
  | Deployments | Deployment_quality str | Indexers | Indexer_scorecard str | Needs_attention | Verdicts | Sybil_list
  | Nondeterministic | Deployment_qos str | Indexer_allocations_qos str | Qos_status | Qos_buckets | Qos_compare
  | Qos_fees | Qos_conflicts | Qos_graphql | Alert_create | Alert_get str | Alert_delete str

definition plain_routes :: "(str \<times> endpoint) list" where
  "plain_routes = [(''health'', Health), (''stats'', Stats), (''feed'', Feed_list), (''deployments'', Deployments),
     (''indexers'', Indexers), (''needs-attention'', Needs_attention), (''verdicts'', Verdicts), (''sybil'', Sybil_list),
     (''nondeterministic'', Nondeterministic)]"

definition qos_routes :: "(str \<times> endpoint) list" where
  "qos_routes = [(''status'', Qos_status), (''buckets'', Qos_buckets), (''compare'', Qos_compare), (''fees'', Qos_fees),
     (''conflicts'', Qos_conflicts), (''graphql'', Qos_graphql)]"

definition indexer_routes :: "(str \<times> (str \<Rightarrow> endpoint)) list" where
  "indexer_routes = [(''quality'', Indexer_quality), (''freshness'', Indexer_freshness), (''scorecard'', Indexer_scorecard),
     (''allocations-qos'', Indexer_allocations_qos)]"

definition deployment_routes :: "(str \<times> (str \<Rightarrow> endpoint)) list" where
  "deployment_routes = [(''quality'', Deployment_quality), (''qos'', Deployment_qos)]"

text \<open>A parameter of a path is not empty.\<close>

definition under :: "(str \<times> (str \<Rightarrow> endpoint)) list \<Rightarrow> str \<Rightarrow> str \<Rightarrow> endpoint option" where
  "under rs x name = (if x = '''' then None else map_option (\<lambda>f. f x) (map_of rs name))"

definition route :: "str list \<Rightarrow> endpoint option" where
  "route path = (case path of
      [v, a] \<Rightarrow> if v = ''v1'' then map_of plain_routes a else None
    | [v, a, b] \<Rightarrow> if v \<noteq> ''v1'' then None
        else if a = ''probe'' then under [(a, Probe_detail)] b a
        else if a = ''qos'' then map_of qos_routes b
        else if a = ''alerts'' \<and> b = ''subscriptions'' then Some Alert_create else None
    | [v, a, b, c] \<Rightarrow> if v \<noteq> ''v1'' then None
        else if a = ''indexer'' then under indexer_routes b c
        else if a = ''deployment'' then under deployment_routes b c
        else if a = ''alerts'' \<and> b = ''subscriptions'' then under [(a, Alert_get)] c a else None
    | [v, a, b, c, f] \<Rightarrow> if v = ''v1'' \<and> a = ''alerts'' \<and> b = ''subscriptions'' \<and> f = ''delete''
        then under [(a, Alert_delete)] c a else None
    | _ \<Rightarrow> None)"

definition takes :: "endpoint \<Rightarrow> http_method \<Rightarrow> bool" where
  "takes ep m = (case ep of Qos_graphql \<Rightarrow> True | Alert_create \<Rightarrow> m = POST | Alert_delete _ \<Rightarrow> m = POST | _ \<Rightarrow> m = GET)"

section \<open>Requests\<close>

record http_request =
  rq_method :: http_method
  rq_path :: "str list"
  rq_query :: "(str \<times> str) list"
  rq_create :: "int + create_subscription"
  rq_token :: "int + str"

text \<open>The two bodies are what \<open>axum\<close> makes of them, the status of its rejection on the left.\<close>

definition HTTP_400 :: int where "HTTP_400 = 400"

definition parse_i32 :: "str \<Rightarrow> int option" where
  "parse_i32 s = Option.bind (parse_i64 s) (\<lambda>n. if - (2 ^ 31) \<le> n \<and> n < 2 ^ 31 then Some n else None)"

text \<open>An optional field of a query struct: absent, once and readable, or the request is refused.\<close>

definition q_field :: "(str \<Rightarrow> 'a option) \<Rightarrow> str \<Rightarrow> http_request \<Rightarrow> int + 'a option" where
  "q_field parse name r = (case filter (\<lambda>(k, _). k = name) (rq_query r) of
      [] \<Rightarrow> Inr None
    | [(_, v)] \<Rightarrow> (case parse v of Some x \<Rightarrow> Inr (Some x) | None \<Rightarrow> Inl HTTP_400)
    | _ \<Rightarrow> Inl HTTP_400)"

definition feed_params_of :: "http_request \<Rightarrow> int + feed_params" where
  "feed_params_of r = answer (q_field parse_i64 ''limit'' r) (\<lambda>l. answer (q_field parse_i64 ''offset'' r) (\<lambda>off.
     answer (q_field Some ''deployment_id'' r) (\<lambda>dep. answer (q_field Some ''indexer'' r) (\<lambda>ix.
       Inr \<lparr>fp_limit = l, fp_offset = off, fp_deployment_id = dep, fp_indexer = ix\<rparr>))))"

definition indexers_params_of :: "http_request \<Rightarrow> int + indexers_params" where
  "indexers_params_of r = answer (q_field parse_i32 ''window'' r) (\<lambda>w. answer (q_field parse_i64 ''limit'' r) (\<lambda>l.
     answer (q_field parse_i64 ''offset'' r) (\<lambda>off. answer (q_field Some ''order'' r) (\<lambda>ord.
       Inr \<lparr>ip_window = w, ip_limit = l, ip_offset = off, ip_order = ord\<rparr>))))"

definition bucket_params_of :: "http_request \<Rightarrow> int + bucket_params" where
  "bucket_params_of r = answer (q_field Some ''indexer'' r) (\<lambda>ix. answer (q_field Some ''deployment'' r) (\<lambda>dep.
     answer (q_field parse_i32 ''hours'' r) (\<lambda>h. answer (q_field parse_i64 ''limit'' r) (\<lambda>l.
       Inr \<lparr>bp_indexer = ix, bp_deployment = dep, bp_hours = h, bp_limit = l\<rparr>))))"

section \<open>Replies\<close>

datatype reply_body = Empty | Json json | Html str

type_synonym server_reply = "int \<times> reply_body"

definition reply_of :: "response \<Rightarrow> server_reply" where
  "reply_of r = (case r of Inl c \<Rightarrow> (c, Empty) | Inr j \<Rightarrow> (200, Json j))"

definition refuse :: "refusal \<Rightarrow> server_reply" where
  "refuse x = (case x of (c, m) \<Rightarrow> (c, Json (JObj [(''error'', JStr m)])))"

definition alert_reply :: "int \<Rightarrow> refusal + json \<Rightarrow> server_reply" where
  "alert_reply ok r = (case r of Inl x \<Rightarrow> refuse x | Inr j \<Rightarrow> (ok, Json j))"

section \<open>Serving\<close>

record server =
  sv_env :: api_env
  sv_version :: str
  sv_interval :: nat
  sv_parse_uuid :: "str \<Rightarrow> str option"
  sv_execute :: "http_request \<Rightarrow> api_db \<Rightarrow> response"
  sv_playground :: str
  sv_sha :: "str \<Rightarrow> str"
  sv_web :: web
  sv_new_id :: str
  sv_new_token :: str

definition with_uuid :: "server \<Rightarrow> str \<Rightarrow> (str \<Rightarrow> response) \<Rightarrow> response" where
  "with_uuid sv x f = (case sv_parse_uuid sv x of Some i \<Rightarrow> f i | None \<Rightarrow> Inl HTTP_400)"

definition days_of :: "http_request \<Rightarrow> int + int option" where
  "days_of r = q_field parse_i32 ''days'' r"

text \<open>The handlers that only read.\<close>

definition read_endpoint :: "server \<Rightarrow> endpoint \<Rightarrow> http_request \<Rightarrow> api_db \<Rightarrow> response" where
  "read_endpoint sv ep r a = (let e = sv_env sv in case ep of
      Health \<Rightarrow> health (sv_version sv)
    | Stats \<Rightarrow> stats e a
    | Feed_list \<Rightarrow> answer (feed_params_of r) (\<lambda>p. feed_route e p a)
    | Probe_detail x \<Rightarrow> with_uuid sv x (\<lambda>i. probe_detail e i a)
    | Indexer_quality x \<Rightarrow> answer (days_of r) (\<lambda>ds. indexer_quality e x ds a)
    | Indexer_freshness x \<Rightarrow> indexer_freshness e x a
    | Deployments \<Rightarrow> deployments_route e a
    | Deployment_quality x \<Rightarrow> answer (days_of r) (\<lambda>ds. deployment_quality e x ds a)
    | Indexers \<Rightarrow> answer (indexers_params_of r) (\<lambda>p. indexers_route e p a)
    | Indexer_scorecard x \<Rightarrow> indexer_scorecard e x a
    | Needs_attention \<Rightarrow> answer (q_field parse_i64 ''limit'' r) (\<lambda>l. answer (q_field Some ''kind'' r) (\<lambda>k. needs_attention e l k a))
    | Verdicts \<Rightarrow> answer (q_field parse_i64 ''limit'' r) (\<lambda>l. answer (q_field Some ''kind'' r) (\<lambda>k.
        answer (q_field Some ''severity'' r) (\<lambda>s. verdicts_route e l k s a)))
    | Sybil_list \<Rightarrow> sybil_clusters e a
    | Nondeterministic \<Rightarrow> nondeterministic_route e a
    | Deployment_qos x \<Rightarrow> deployment_qos e x a
    | Indexer_allocations_qos x \<Rightarrow> indexer_allocations_qos e x a
    | Qos_status \<Rightarrow> qos_status e (sv_interval sv) a
    | Qos_buckets \<Rightarrow> answer (bucket_params_of r) (\<lambda>p. qos_buckets e p a)
    | Qos_compare \<Rightarrow> answer (days_of r) (\<lambda>ds. answer (q_field parse_i64 ''min_probes'' r) (\<lambda>m. qos_compare e ds m a))
    | Qos_fees \<Rightarrow> answer (days_of r) (\<lambda>ds. answer (q_field parse_i64 ''limit'' r) (\<lambda>l. qos_fees e ds l a))
    | Qos_conflicts \<Rightarrow> answer (days_of r) (\<lambda>ds. answer (q_field parse_i64 ''limit'' r) (\<lambda>l. qos_conflicts e ds l a))
    | _ \<Rightarrow> sv_execute sv r a)"

definition token_of :: "http_request \<Rightarrow> int + str" where
  "token_of r = answer (q_field Some ''token'' r) (\<lambda>t. Inr (or_else '''' t))"

definition handle :: "server \<Rightarrow> endpoint \<Rightarrow> http_request \<Rightarrow> api_db \<Rightarrow> sub_db \<Rightarrow> server_reply \<times> sub_db" where
  "handle sv ep r a d = (case ep of
      Alert_create \<Rightarrow> (case rq_create r of Inl c \<Rightarrow> ((c, Empty), d)
        | Inr req \<Rightarrow> (case create_sub (sv_sha sv) (sv_web sv) (sv_new_id sv) (sv_new_token sv) (ev_now (sv_env sv)) req d of
            (out, d') \<Rightarrow> (alert_reply 201 out, d')))
    | Alert_get x \<Rightarrow> (case sv_parse_uuid sv x of None \<Rightarrow> ((HTTP_400, Empty), d)
        | Some i \<Rightarrow> (case token_of r of Inl c \<Rightarrow> ((c, Empty), d)
            | Inr t \<Rightarrow> (alert_reply 200 (describe_sub (sv_sha sv) (jtime (ev_iso (sv_env sv))) i t d), d)))
    | Alert_delete x \<Rightarrow> (case sv_parse_uuid sv x of None \<Rightarrow> ((HTTP_400, Empty), d)
        | Some i \<Rightarrow> (case rq_token r of Inl c \<Rightarrow> ((c, Empty), d)
            | Inr t \<Rightarrow> (case remove_sub (sv_sha sv) i t d of (out, d') \<Rightarrow> (alert_reply 200 out, d'))))
    | Qos_graphql \<Rightarrow> (if rq_method r = GET then (200, Html (sv_playground sv)) else reply_of (sv_execute sv r a), d)
    | _ \<Rightarrow> (reply_of (read_endpoint sv ep r a), d))"

definition serve :: "server \<Rightarrow> http_request \<Rightarrow> api_db \<Rightarrow> sub_db \<Rightarrow> server_reply \<times> sub_db" where
  "serve sv r a d = (case route (rq_path r) of
      None \<Rightarrow> ((HTTP_404, Empty), d)
    | Some ep \<Rightarrow> if takes ep (rq_method r) then handle sv ep r a d else ((405, Empty), d))"

end
