(* ===== verification/Server_Props.thy ===== *)
theory Server_Props
  imports Server Subscriptions_Props
begin

text \<open>
  What a request can change, and the limits of the subscriptions while requests and cycles interleave. A
  creation checks the limits, posts, and only then inserts, without a transaction around the three.
\<close>

section \<open>What a request changes\<close>

lemma only_alert_posts_change:
  assumes "serve sv r a d = (rep, d')" "d' \<noteq> d"
  shows "rq_method r = POST \<and> (route (rq_path r) = Some Alert_create \<or> (\<exists>x. route (rq_path r) = Some (Alert_delete x)))"
  using assms by (auto simp: serve_def handle_def takes_def split: option.splits endpoint.splits if_splits sum.splits prod.splits)

lemma other_paths_404: "route (rq_path r) = None \<Longrightarrow> serve sv r a d = ((404, Empty), d)"
  by (simp add: serve_def HTTP_404_def)

lemma bad_query_400:
  assumes "filter (\<lambda>(k, _). k = name) (rq_query r) = [(k, v)]" "parse v = None"
  shows "q_field parse name r = Inl 400"
  using assms by (simp add: q_field_def HTTP_400_def)

section \<open>A creation in two halves\<close>

definition begin_create :: "web \<Rightarrow> create_subscription \<Rightarrow> sub_db \<Rightarrow> refusal + validated" where
  "begin_create w req d = (case validate req of
      Inl m \<Rightarrow> Inl (400, m)
    | Inr v \<Rightarrow> (case check_limits d v of
        Some r \<Rightarrow> Inl r
      | None \<Rightarrow> (case deliver_events w (va_webhook_url v) (va_indexer v) [hello_event v] of
          Inl e \<Rightarrow> Inl (422, ''The test post failed: '' @ e @ ''.'')
        | Inr _ \<Rightarrow> Inr v)))"

lemma create_sub_halves: "snd (create_sub sha w i token now req d) =
    (case begin_create w req d of Inl _ \<Rightarrow> d | Inr v \<Rightarrow> insert_sub sha i token now v d)"
  by (simp add: create_sub_def begin_create_def split: sum.split option.split)

section \<open>Requests and cycles, interleaved\<close>

text \<open>
  The tables and the creations in flight: checked and posted, not yet inserted. At most \<open>n\<close> are in flight at a
  time. Any other request, and a cycle of the subscription loop, is one step; a creation may be given up.
\<close>

inductive svc :: "nat \<Rightarrow> sub_db \<Rightarrow> validated list \<Rightarrow> bool" for n where
  svc_start: "svc n \<lparr>subs = [], sub_states = []\<rparr> []"
| svc_begin: "svc n d vs \<Longrightarrow> length vs < n \<Longrightarrow> begin_create w req d = Inr v \<Longrightarrow> svc n d (v # vs)"
| svc_insert: "svc n d vs \<Longrightarrow> v \<in> set vs \<Longrightarrow> map_of (subs d) i = None \<Longrightarrow>
    svc n (insert_sub sha i token now v d) (remove1 v vs)"
| svc_lost: "svc n d vs \<Longrightarrow> svc n d (remove1 v vs)"
| svc_serve: "svc n d vs \<Longrightarrow> route (rq_path r) \<noteq> Some Alert_create \<Longrightarrow> serve sv r a d = (rep, d') \<Longrightarrow> svc n d' vs"
| svc_cycle: "svc n d vs \<Longrightarrow> subscription_cycle c w now d = Some d' \<Longrightarrow> svc n d' vs"

section \<open>Counting the enabled subscriptions\<close>

definition enabled_count :: "(sub_row \<Rightarrow> bool) \<Rightarrow> sub_db \<Rightarrow> nat" where
  "enabled_count p d = length (filter p (enabled_subs d))"

definition on_request :: "(sub_row \<Rightarrow> bool) \<Rightarrow> bool" where
  "on_request p \<longleftrightarrow> (\<forall>r r'. same_request r r' \<longrightarrow> p r' = p r)"

lemma on_request_fields [simp]: "on_request (\<lambda>r. sb_url r = u)" "on_request (\<lambda>r. sb_indexer r = ix)"
  by (simp_all add: on_request_def same_request_def)

definition enabled_ids :: "(sub_row \<Rightarrow> bool) \<Rightarrow> sub_db \<Rightarrow> str set" where
  "enabled_ids p d = {i. \<exists>r. map_of (subs d) i = Some r \<and> sb_disabled_at r = None \<and> p r}"

lemma enabled_count_card:
  assumes "twf (subs d)"
  shows "enabled_count p d = card (enabled_ids p d)" "finite (enabled_ids p d)"
proof -
  let ?t = "filter (\<lambda>(_, r). sb_disabled_at r = None \<and> p r) (subs d)"
  have m: "filter q (map snd xs) = map snd (filter (q \<circ> snd) xs)" for q and xs :: "(str \<times> sub_row) list"
    by (induction xs) auto
  have l: "enabled_count p d = length ?t"
    by (simp add: enabled_count_def enabled_subs_def m split_def comp_def conj_commute)
  have "distinct (map fst ?t)" using assms by (simp add: twf_def distinct_map_filter)
  then have c: "card (fst ` set ?t) = length ?t" using distinct_card[of "map fst ?t"] by simp
  have me: "(i, r) \<in> set (subs d) \<longleftrightarrow> map_of (subs d) i = Some r" for i r using assms by (simp add: twf_def)
  have s: "fst ` set ?t = enabled_ids p d"
    by (rule set_eqI) (auto simp: enabled_ids_def image_iff Bex_def me)
  show "enabled_count p d = card (enabled_ids p d)" using l c s by simp
  show "finite (enabled_ids p d)" by (simp flip: s)
qed

lemma enabled_count_mono:
  assumes "twf (subs d)" "twf (subs d')" "enabled_ids p d' \<subseteq> enabled_ids p d"
  shows "enabled_count p d' \<le> enabled_count p d"
  using assms enabled_count_card by (simp add: card_mono)

lemma insert_count:
  assumes "map_of (subs d) i = None"
  shows "enabled_count (\<lambda>r. sb_url r = u) (insert_sub sha i token now v d)
      = enabled_count (\<lambda>r. sb_url r = u) d + (if va_webhook_url v = u then 1 else 0)"
    "enabled_count (\<lambda>r. sb_indexer r = ix) (insert_sub sha i token now v d)
      = enabled_count (\<lambda>r. sb_indexer r = ix) d + (if va_indexer v = ix then 1 else 0)"
proof -
  have "i \<notin> fst ` set (subs d)" using assms by (simp add: map_of_eq_None_iff)
  then show "enabled_count (\<lambda>r. sb_url r = u) (insert_sub sha i token now v d)
      = enabled_count (\<lambda>r. sb_url r = u) d + (if va_webhook_url v = u then 1 else 0)"
    "enabled_count (\<lambda>r. sb_indexer r = ix) (insert_sub sha i token now v d)
      = enabled_count (\<lambda>r. sb_indexer r = ix) d + (if va_indexer v = ix then 1 else 0)"
    by (simp_all add: enabled_count_def enabled_subs_def insert_sub_def tput_fresh)
qed

text \<open>Enabled subscriptions and creations in flight of one webhook, and of one indexer.\<close>

definition held :: "(sub_row \<Rightarrow> bool) \<Rightarrow> (validated \<Rightarrow> bool) \<Rightarrow> sub_db \<Rightarrow> validated list \<Rightarrow> nat" where
  "held p q d vs = enabled_count p d + length (filter q vs)"

text \<open>An operation that enables nothing, and what the limits rely on of it.\<close>

locale quiet_op =
  fixes step :: "'a \<Rightarrow> sub_db \<Rightarrow> sub_db"
  assumes keeps_keys: "twf (subs d) \<Longrightarrow> twf (subs (step x d))"
    and enables_nothing: "twf (subs d) \<Longrightarrow> on_request p \<Longrightarrow> enabled_ids p (step x d) \<subseteq> enabled_ids p d"
begin

lemma held_mono: "twf (subs d) \<Longrightarrow> on_request p \<Longrightarrow> held p q (step x d) vs \<le> held p q d vs"
  by (simp add: held_def enabled_count_mono keeps_keys enables_nothing)

end

text \<open>A removal, and a cycle, enable nothing.\<close>

lemma remove_enables_nothing:
  assumes "twf (subs d)"
  shows "twf (subs (snd (remove_sub sha i t d)))" "enabled_ids p (snd (remove_sub sha i t d)) \<subseteq> enabled_ids p d"
proof -
  have m: "map_of (tdel (\<lambda>k _. k = i) t) j = (if j = i then None else map_of t j)" for t :: "(str, sub_row) table" and j
    by (induction t) (auto simp: tdel_def)
  show "twf (subs (snd (remove_sub sha i t d)))" "enabled_ids p (snd (remove_sub sha i t d)) \<subseteq> enabled_ids p d"
    using assms by (auto simp: remove_sub_def enabled_ids_def m split: option.splits if_splits)
qed

interpretation removal: quiet_op "\<lambda>(sha, i, t) d. snd (remove_sub sha i t d)"
  by unfold_locales (simp_all add: split_def remove_enables_nothing)

lemma effect_row:
  assumes "sub_effect now w s snap rs = (Some r', st)" 
  shows "\<exists>r. fst rs = Some r \<and> same_request r r'"
  using assms by (auto simp: sub_effect_def saved_row_def failed_row_def same_request_def Let_def split_def
    split: option.splits if_splits sum.splits)

lemma cycle_keys:
  assumes "subscription_cycle c w now d = Some d'"
  shows "map fst (subs d') = map fst (subs d)"
proof -
  have "map fst (subs (fold (\<lambda>s. sub_step now w s (f (su_indexer s))) ss x)) = map fst (subs x)" for f ss x
    by (induction ss arbitrary: x) simp_all
  then show ?thesis using assms
    by (auto simp: subscription_cycle_def Let_def sub_loop_fold cache_ok_def split: if_splits option.splits)
qed

lemma cycle_enables_nothing:
  assumes c: "subscription_cycle c w now d = Some d'" and w: "twf (subs d)" and p: "on_request p"
  shows "twf (subs d') \<and> enabled_ids p d' \<subseteq> enabled_ids p d"
proof (cases "current_epoch c")
  case None
  then have "d' = d" using c by (simp add: subscription_cycle_def Let_def split: if_splits)
  then show ?thesis using w by simp
next
  case (Some ep)
  have "i \<in> enabled_ids p d" if i: "i \<in> enabled_ids p d'" for i
  proof -
    obtain r' where r': "map_of (subs d') i = Some r'" "sb_disabled_at r' = None" "p r'" using i by (auto simp: enabled_ids_def)
    then have "i \<in> fst ` set (subs d)" using cycle_keys[OF c] by (metis map_of_eq_None_iff option.distinct(1) set_map)
    then obtain r where r: "map_of (subs d) i = Some r" by (metis map_of_eq_None_iff not_None_eq)
    have at: "sub_at d' i = (if sb_disabled_at r = None
        then sub_effect now w (as_sub d i r) (fetch_snapshot c ep (sb_indexer r)) (sub_at d i) else sub_at d i)"
      using cycle_at[OF w Some r, where w = w and now = now] c by auto
    show ?thesis
    proof (cases "sb_disabled_at r = None")
      case True
      have "sub_effect now w (as_sub d i r) (fetch_snapshot c ep (sb_indexer r)) (sub_at d i) = (Some r', map_of (sub_states d') i)"
        using at True r'(1) by (simp add: sub_at_def)
      from effect_row[OF this] have "same_request r r'" using r by (simp add: sub_at_def)
      then show ?thesis using True r r'(3) p by (auto simp: enabled_ids_def on_request_def)
    next
      case False
      then have "sub_at d' i = sub_at d i" using at by (simp only: if_False simp_thms)
      then have "r' = r" using r r'(1) by (simp add: sub_at_def)
      then show ?thesis using False r'(2) by simp
    qed
  qed
  moreover have "twf (subs d')" using cycle_keys[OF c] w by (simp add: twf_def)
  ultimately show ?thesis by blast
qed

definition cycle_op :: "lodestar_client \<times> (str \<Rightarrow> web) \<times> int \<Rightarrow> sub_db \<Rightarrow> sub_db" where
  "cycle_op x d = (case x of (c, w, now) \<Rightarrow> case subscription_cycle c w now d of Some d' \<Rightarrow> d' | None \<Rightarrow> d)"

interpretation cycles: quiet_op cycle_op
proof
  fix d :: sub_db and x :: "lodestar_client \<times> (str \<Rightarrow> web) \<times> int" and p
  assume t: "twf (subs d)"
  obtain c w now where x: "x = (c, w, now)" by (cases x)
  show "twf (subs (cycle_op x d))"
    using cycle_enables_nothing[OF _ t on_request_fields(1)] t by (simp add: cycle_op_def x split: option.split)
  show "on_request p \<Longrightarrow> enabled_ids p (cycle_op x d) \<subseteq> enabled_ids p d"
    using cycle_enables_nothing[OF _ t] by (simp add: cycle_op_def x split: option.split)
qed

text \<open>Any request but a creation is a read or a removal.\<close>

definition request_op :: "server \<times> http_request \<times> api_db \<Rightarrow> sub_db \<Rightarrow> sub_db" where
  "request_op x d = (case x of (sv, r, a) \<Rightarrow> if route (rq_path r) = Some Alert_create then d else snd (serve sv r a d))"

lemma request_is_removal: "request_op (sv, r, a) d = d \<or> (\<exists>i t. request_op (sv, r, a) d = snd (remove_sub (sv_sha sv) i t d))"
proof (cases "request_op (sv, r, a) d = d")
  case False
  obtain rep d' where s: "serve sv r a d = (rep, d')" by (cases "serve sv r a d")
  have n: "route (rq_path r) \<noteq> Some Alert_create" "d' \<noteq> d" using False by (auto simp: request_op_def s split: if_splits)
  then obtain x where "rq_method r = POST" "route (rq_path r) = Some (Alert_delete x)"
    using only_alert_posts_change[OF s] by blast
  then obtain i t out where "remove_sub (sv_sha sv) i t d = (out, d')"
    using s n(2) by (auto simp: serve_def handle_def takes_def split: option.splits sum.splits prod.splits)
  then show ?thesis using n(1) s by (intro disjI2 exI[of _ i] exI[of _ t]) (simp add: request_op_def)
qed simp

interpretation requests: quiet_op request_op
proof
  fix d :: sub_db and x :: "server \<times> http_request \<times> api_db" and p
  assume t: "twf (subs d)"
  obtain sv r a where x: "x = (sv, r, a)" by (cases x)
  consider "request_op x d = d" | i k where "request_op x d = snd (remove_sub (sv_sha sv) i k d)"
    using request_is_removal x by blast
  then have "twf (subs (request_op x d)) \<and> (on_request p \<longrightarrow> enabled_ids p (request_op x d) \<subseteq> enabled_ids p d)"
  proof cases
    case 1
    then show ?thesis using t by simp
  next
    case (2 i k)
    then show ?thesis using removal.keeps_keys[OF t, of "(sv_sha sv, i, k)"] removal.enables_nothing[OF t, of p "(sv_sha sv, i, k)"] by simp
  qed
  then show "twf (subs (request_op x d))" "on_request p \<Longrightarrow> enabled_ids p (request_op x d) \<subseteq> enabled_ids p d" by simp_all
qed

section \<open>The limits\<close>

lemma begin_within:
  assumes "begin_create w req d = Inr v"
  shows "enabled_count (\<lambda>r. sb_url r = va_webhook_url v) d \<le> 9" "enabled_count (\<lambda>r. sb_indexer r = va_indexer v) d \<le> 99"
  using assms by (auto simp: begin_create_def check_limits_def enabled_count_def MAX_PER_WEBHOOK_def MAX_PER_INDEXER_def
    split: sum.splits option.splits if_splits)

lemma filter_remove1_le: "length (filter q (remove1 v vs)) \<le> length (filter q vs)"
  by (induction vs) auto

lemma filter_remove1: "v \<in> set vs \<Longrightarrow> length (filter q (remove1 v vs)) + (if q v then 1 else 0) = length (filter q vs)"
  by (induction vs) auto

lemma svc_bounds:
  assumes "svc n d vs"
  shows "twf (subs d) \<and> length vs \<le> n \<and> held (\<lambda>r. sb_url r = u) (\<lambda>v. va_webhook_url v = u) d vs \<le> 9 + n
    \<and> held (\<lambda>r. sb_indexer r = ix) (\<lambda>v. va_indexer v = ix) d vs \<le> 99 + n"
  using assms
proof (induction rule: svc.induct)
  case svc_start
  then show ?case by (simp add: twf_def held_def enabled_count_def enabled_subs_def)
next
  case (svc_begin d vs w req v)
  have l: "length (filter q vs) + 1 \<le> n" for q using svc_begin.hyps(2) length_filter_le[of q vs] by linarith
  have "held (\<lambda>r. sb_url r = u) (\<lambda>v. va_webhook_url v = u) d (v # vs) \<le> 9 + n"
    using begin_within(1)[OF svc_begin.hyps(3)] l[of "\<lambda>v. va_webhook_url v = u"] svc_begin.IH
    by (cases "va_webhook_url v = u") (simp_all add: held_def)
  moreover have "held (\<lambda>r. sb_indexer r = ix) (\<lambda>v. va_indexer v = ix) d (v # vs) \<le> 99 + n"
    using begin_within(2)[OF svc_begin.hyps(3)] l[of "\<lambda>v. va_indexer v = ix"] svc_begin.IH
    by (cases "va_indexer v = ix") (simp_all add: held_def)
  ultimately show ?case using svc_begin by simp
next
  case (svc_insert d vs v i sha token now)
  have l: "length (remove1 v vs) \<le> n" using svc_insert.IH filter_remove1_le[of "\<lambda>_. True" v vs] by simp
  have t: "twf (subs (insert_sub sha i token now v d))" using svc_insert.IH by (simp add: insert_sub_def)
  have "held (\<lambda>r. sb_url r = u) (\<lambda>v. va_webhook_url v = u) (insert_sub sha i token now v d) (remove1 v vs)
      = held (\<lambda>r. sb_url r = u) (\<lambda>v. va_webhook_url v = u) d vs"
    using filter_remove1[OF svc_insert.hyps(2), of "\<lambda>v. va_webhook_url v = u"]
    by (simp add: held_def insert_count(1)[OF svc_insert.hyps(3)])
  moreover have "held (\<lambda>r. sb_indexer r = ix) (\<lambda>v. va_indexer v = ix) (insert_sub sha i token now v d) (remove1 v vs)
      = held (\<lambda>r. sb_indexer r = ix) (\<lambda>v. va_indexer v = ix) d vs"
    using filter_remove1[OF svc_insert.hyps(2), of "\<lambda>v. va_indexer v = ix"]
    by (simp add: held_def insert_count(2)[OF svc_insert.hyps(3)])
  ultimately show ?case using svc_insert.IH l t by simp
next
  case (svc_lost d vs v)
  have "length (remove1 v vs) \<le> length vs" by (simp add: length_remove1)
  moreover have "held p q d (remove1 v vs) \<le> held p q d vs" for p q by (simp add: held_def filter_remove1_le)
  ultimately show ?case using svc_lost.IH by (meson order_trans)
next
  case (svc_serve d vs r sv a rep d')
  have "request_op (sv, r, a) d = d'" using svc_serve.hyps by (simp add: request_op_def)
  then have "twf (subs d')" "on_request p \<Longrightarrow> held p q d' vs \<le> held p q d vs" for p q
    using svc_serve.IH requests.keeps_keys[of d "(sv, r, a)"] requests.held_mono[of d p q "(sv, r, a)" vs] by simp_all
  then show ?case using svc_serve.IH on_request_fields by (meson order_trans)
next
  case (svc_cycle d vs c w now d')
  have "cycle_op (c, w, now) d = d'" using svc_cycle.hyps by (simp add: cycle_op_def)
  then have "twf (subs d')" "on_request p \<Longrightarrow> held p q d' vs \<le> held p q d vs" for p q
    using svc_cycle.IH cycles.keeps_keys[of d "(c, w, now)"] cycles.held_mono[of d p q "(c, w, now)" vs] by simp_all
  then show ?case using svc_cycle.IH on_request_fields by (meson order_trans)
qed

text \<open>
  C25. However requests and cycles interleave, the limits hold up to the creations in flight: with at most n of
  them at a time, from checking the limit over the test post to the insert, no webhook ever has more than 9 + n
  enabled subscriptions and no indexer more than 99 + n; one at a time, those are the documented 10 and 100.
  No other request and no cycle enables anything.
\<close>

theorem limits_hold_while_interleaved:
  assumes "svc n d vs"
  shows "length (filter (\<lambda>r. sb_url r = u) (enabled_subs d)) \<le> 9 + n
    \<and> length (filter (\<lambda>r. sb_indexer r = ix) (enabled_subs d)) \<le> 99 + n"
  using svc_bounds[OF assms, of u ix] by (auto simp: held_def enabled_count_def)

text \<open>A sample creation that is accepted while the limits allow it.\<close>

definition demo_web :: web where
  "demo_web = (\<lambda>_ _. Some [V4 [93, 184, 216, 34]], \<lambda>_ _. Some 204)"

definition demo_accepted :: validated where
  "demo_accepted = \<lparr>va_indexer = ''0x'' @ replicate 40 (CHR ''a''), va_webhook_url = hook_url,
    va_kinds = [''poi'', ''reo''], va_signal_move_pct = F 20\<rparr>"

lemma demo_posts: "deliver_events demo_web hook_url ix evs = Inr ()"
proof -
  have public: "is_public_v4 [93, 184, 216, 34]" by (simp add: is_public_v4_def Let_def)
  have all: "fst (post_all (\<lambda>_ _. Some 204) a n bs) = Inr ()" for a n bs
    by (induction bs arbitrary: n) (simp_all add: ok_status_def split_def)
  show ?thesis by (simp add: demo_web_def deliver_events_def deliver_def hook_url_ok public all)
qed

lemma demo_begins:
  assumes "enabled_count (\<lambda>r. sb_url r = hook_url) d \<le> 9" "enabled_count (\<lambda>r. sb_indexer r = va_indexer demo_accepted) d \<le> 99"
  shows "begin_create demo_web demo_request d = Inr demo_accepted"
proof -
  have "check_limits d demo_accepted = None" using assms
    by (simp add: check_limits_def enabled_count_def MAX_PER_WEBHOOK_def MAX_PER_INDEXER_def demo_accepted_def)
  then show ?thesis using demo_valid by (simp add: begin_create_def demo_accepted_def demo_posts)
qed

lemma fresh_key: "\<exists>i :: str. map_of t i = None"
proof -
  have "\<exists>i :: str. i \<notin> fst ` set t" by (rule ex_new_if_finite) (simp_all add: infinite_UNIV_listI)
  then show ?thesis by (simp add: map_of_eq_None_iff)
qed

definition demo_full :: "nat \<Rightarrow> sub_db \<Rightarrow> bool" where
  "demo_full k d \<longleftrightarrow> enabled_count (\<lambda>r. sb_url r = hook_url) d = k \<and> enabled_count (\<lambda>r. sb_indexer r = va_indexer demo_accepted) d = k"

lemma demo_insert:
  assumes "svc n d vs" "demo_full k d" "demo_accepted \<in> set vs"
  shows "\<exists>d'. svc n d' (remove1 demo_accepted vs) \<and> demo_full (k + 1) d'"
proof -
  obtain i where i: "map_of (subs d) i = None" using fresh_key by blast
  show ?thesis
    using svc_insert[OF assms(1,3) i] assms(2) insert_count[OF i, where v = demo_accepted]
    by (intro exI[of _ "insert_sub id i [] 0 demo_accepted d"]) (simp add: demo_full_def demo_accepted_def)
qed

lemma demo_begin: "svc n d vs \<Longrightarrow> demo_full k d \<Longrightarrow> k \<le> 9 \<Longrightarrow> length vs < n \<Longrightarrow> svc n d (demo_accepted # vs)"
  by (rule svc_begin[where w = demo_web and req = demo_request]) (simp_all add: demo_begins demo_full_def)

lemma demo_fill:
  assumes "0 < n" "k \<le> 10"
  shows "\<exists>d. svc n d [] \<and> demo_full k d"
  using assms(2)
proof (induction k)
  case 0
  have "demo_full 0 \<lparr>subs = [], sub_states = []\<rparr>" by (simp add: demo_full_def enabled_count_def enabled_subs_def)
  then show ?case using svc_start by blast
next
  case (Suc k)
  then obtain d where "svc n d []" "demo_full k d" by auto
  then show ?case using demo_insert[OF demo_begin, of n d "[]" k] Suc.prems assms(1) by simp
qed

text \<open>The bound is met: two creations at the same time leave a webhook with eleven.\<close>

lemma concurrent_creates_exceed: "\<exists>d. svc 2 d [] \<and> length (filter (\<lambda>r. sb_url r = hook_url) (enabled_subs d)) = 11"
proof -
  obtain d where "svc 2 d []" "demo_full 9 d" using demo_fill[of 2 9] by auto
  then have "svc 2 d [demo_accepted, demo_accepted]" "demo_full 9 d" by (auto intro!: demo_begin)
  from demo_insert[OF this] obtain d1 where "svc 2 d1 [demo_accepted]" "demo_full 10 d1" by auto
  from demo_insert[OF this] obtain d2 where "svc 2 d2 []" "demo_full 11 d2" by auto
  then show ?thesis by (auto simp: demo_full_def enabled_count_def)
qed

theorem limits_hold_while_interleaved_witness:
  "\<exists>d. svc 1 d [] \<and> demo_full 10 d \<and> length (filter (\<lambda>r. sb_url r = hook_url) (enabled_subs d)) \<le> 10"
proof -
  obtain d where d: "svc 1 d []" "demo_full 10 d" using demo_fill[of 1 10] by auto
  then show ?thesis using limits_hold_while_interleaved[OF d(1), of hook_url] by auto
qed

end
