(* ===== verification/Tasks.thy ===== *)
theory Tasks
  imports Config Allocations Escrow
begin

text \<open>
  What the probe process runs, \<open>foghorn-probe/src/main.rs\<close>: the loops its configuration spawns, the checks each
  makes at its entry, and the chain tip two of them share (\<open>allocations.rs\<close>). Whether an HTTP client can be
  built is a parameter, one answer for each client.
\<close>

section \<open>The tasks\<close>

record http_peer =
  hp_base_url :: str
  hp_auth :: "(str \<times> str) option"

datatype task =
    Ingest_task lodestar_config "str option"
  | Subscription_task str "str option"
  | Status_task status_probe_config
  | Peer_task peer_oracle_config "str option"
  | Dataedge_task data_edge_config
  | Tip_task str
  | Fee_task http_peer nat
  | Allocation_task "str option" nat "http_peer option"
  | Escrow_task tap_config str
  | Rollup_task qos_rollup_config
  | Score_task scoring_config "str option"
  | Roster_task str
  | Self_watch_task str
  | Oracle_watch_task str

record client_builds =
  cb_lodestar :: bool
  cb_nest :: bool
  cb_fee_nest :: bool
  cb_ingest :: bool
  cb_peer :: bool
  cb_tip :: bool
  cb_roster :: bool
  cb_self_watch :: bool
  cb_oracle_watch :: bool

definition gateway_key :: "foghorn_config \<Rightarrow> str option" where
  "gateway_key cfg = map_option gw_api_key (gateway cfg)"

definition new_nest :: "nest_config \<Rightarrow> bool \<Rightarrow> http_peer option" where
  "new_nest n builds = (if nest_enabled n \<and> nest_url n \<noteq> '''' \<and> builds
     then Some \<lparr>hp_base_url = trim_end_matches (CHR ''/'') (nest_url n),
       hp_auth = (case (nest_username n, nest_password n) of (Some u, Some p) \<Rightarrow> Some (u, p) | _ \<Rightarrow> None)\<rparr>
     else None)"

definition arbitrum_rpc :: "foghorn_config \<Rightarrow> str" where
  "arbitrum_rpc cfg = (case map_of (rpc_urls cfg) ''arbitrum-one'' of Some u \<Rightarrow> u | None \<Rightarrow> ''https://arb1.arbitrum.io/rpc'')"

definition lodestar_tasks :: "client_builds \<Rightarrow> foghorn_config \<Rightarrow> task list" where
  "lodestar_tasks b cfg = (case lodestar cfg of
      None \<Rightarrow> []
    | Some l \<Rightarrow> Ingest_task l (gateway_key cfg) # (if cb_lodestar b
        then [Subscription_task (trim_end_matches (CHR ''/'') (ls_base_url l)) (ls_api_key l)] else []))"

definition paying_tasks :: "client_builds \<Rightarrow> foghorn_config \<Rightarrow> task list" where
  "paying_tasks b cfg = (if tap_enabled (tap cfg) then
     Tip_task (arbitrum_rpc cfg)
     # (case new_nest (nest_cfg cfg) (cb_fee_nest b) of Some n \<Rightarrow> [Fee_task n 300] | None \<Rightarrow> [])
     @ [Allocation_task (gateway_key cfg) (tap_allocation_sync_secs (tap cfg)) (new_nest (nest_cfg cfg) (cb_nest b)),
        Escrow_task (tap cfg) (arbitrum_rpc cfg)]
   else [])"

definition alert_tasks :: "foghorn_config \<Rightarrow> task list" where
  "alert_tasks cfg = (case alert_webhook cfg of
      Some w \<Rightarrow> if w \<noteq> '''' then [Roster_task w, Self_watch_task w, Oracle_watch_task w] else []
    | None \<Rightarrow> [])"

definition spawned :: "client_builds \<Rightarrow> foghorn_config \<Rightarrow> task list" where
  "spawned b cfg = lodestar_tasks b cfg @ [Status_task (status_probe cfg)]
     @ (if po_enabled (peer_oracle cfg) then [Peer_task (peer_oracle cfg) (gateway_key cfg)] else [])
     @ [Dataedge_task (data_edge cfg)] @ paying_tasks b cfg
     @ [Rollup_task (qos_rollup cfg), Score_task (scoring cfg) (gateway_key cfg)] @ alert_tasks cfg"

text \<open>What is checked at a loop's entry, its HTTP client included: a task that fails it returns at once.\<close>

definition starts :: "client_builds \<Rightarrow> task \<Rightarrow> bool" where
  "starts b t = (case t of
      Ingest_task _ _ \<Rightarrow> cb_ingest b
    | Status_task c \<Rightarrow> sp_enabled c
    | Peer_task _ key \<Rightarrow> key \<noteq> None \<and> cb_peer b
    | Dataedge_task c \<Rightarrow> de_enabled c
    | Tip_task _ \<Rightarrow> cb_tip b
    | Allocation_task key _ _ \<Rightarrow> key \<noteq> None
    | Escrow_task c _ \<Rightarrow> tap_enabled c
    | Rollup_task c \<Rightarrow> qr_enabled c
    | Roster_task _ \<Rightarrow> cb_roster b
    | Self_watch_task _ \<Rightarrow> cb_self_watch b
    | Oracle_watch_task _ \<Rightarrow> cb_oracle_watch b
    | _ \<Rightarrow> True)"

definition running :: "client_builds \<Rightarrow> foghorn_config \<Rightarrow> task list" where
  "running b cfg = filter (starts b) (spawned b cfg)"

text \<open>The process: one argument asks for a rebuild of the feed and ends, otherwise the tasks run beside the
  scheduler.\<close>

datatype probe_process = Reroll qos_rollup_config | Run "task list" foghorn_config

definition probe_main :: "client_builds \<Rightarrow> foghorn_config \<Rightarrow> str list \<Rightarrow> probe_process" where
  "probe_main b cfg args = (case args of
      _ # a # _ \<Rightarrow> if a = ''reroll-qos'' then Reroll (qos_rollup cfg) else Run (spawned b cfg) cfg
    | _ \<Rightarrow> Run (spawned b cfg) cfg)"

section \<open>The chain tip\<close>

text \<open>\<open>u64::from_str_radix(s, 16)\<close>.\<close>

definition parse_hex_u64 :: "str \<Rightarrow> nat option" where
  "parse_hex_u64 s = (case hex_number (case strip_prefix ''+'' s of Some r \<Rightarrow> r | None \<Rightarrow> s) of
      Some n \<Rightarrow> if n < 2 ^ 64 then Some n else None | None \<Rightarrow> None)"

definition block_number_call :: json where
  "block_number_call = JObj [(''jsonrpc'', JStr ''2.0''), (''id'', jint 1), (''method'', JStr ''eth_blockNumber''),
     (''params'', JArr [])]"

definition fetch_block_number :: "rpc \<Rightarrow> nat option" where
  "fetch_block_number rpc = Option.bind (rpc block_number_call) (\<lambda>v.
     Option.bind (Option.bind (jget ''result'' v) as_str) (\<lambda>hex. parse_hex_u64 (trim_0x hex)))"

text \<open>The shared cell: zero until a read succeeds, and a failed read keeps it.\<close>

definition tip_step :: "rpc \<Rightarrow> nat \<Rightarrow> nat" where
  "tip_step rpc cell = (case fetch_block_number rpc of Some n \<Rightarrow> n | None \<Rightarrow> cell)"

definition tip_reader :: "nat \<Rightarrow> nat option" where
  "tip_reader cell = (if cell = 0 then None else Some cell)"

text \<open>One turn of the allocation loop, reading the cell.\<close>

definition allocation_turn :: "(str \<Rightarrow> 8 word list option) \<Rightarrow> (8 word list \<Rightarrow> str) \<Rightarrow> (str \<Rightarrow> rat option) \<Rightarrow> int \<Rightarrow>
    nest option \<Rightarrow> nat \<Rightarrow> (str \<Rightarrow> json option) \<Rightarrow> active_table \<Rightarrow> active_table" where
  "allocation_turn unhex b58 numeric now n cell fetch t = allocation_sync_pass unhex b58 numeric now n (tip_reader cell) fetch t"

section \<open>What runs\<close>

lemma scoring_always_runs: "Score_task (scoring cfg) (gateway_key cfg) \<in> set (spawned b cfg)"
  "starts b (Score_task (scoring cfg) k)"
  by (simp_all add: spawned_def starts_def)

text \<open>Without TAP nothing reads escrow, allocations or fees; and a nest of our own does not replace the
  gateway, for without a gateway key the allocation sync does not start.\<close>

lemma no_tap_no_paying_task:
  assumes "\<not> tap_enabled (tap cfg)"
  shows "Escrow_task c u \<notin> set (spawned b cfg)" "Allocation_task k s n \<notin> set (spawned b cfg)"
    "Fee_task p i \<notin> set (spawned b cfg)" "Tip_task u \<notin> set (spawned b cfg)"
  using assms by (auto simp: spawned_def lodestar_tasks_def paying_tasks_def alert_tasks_def split: option.splits if_splits)

lemma nest_needs_gateway_key:
  assumes "gateway cfg = None" "Allocation_task k s n \<in> set (spawned b cfg)"
  shows "\<not> starts b (Allocation_task k s n)"
proof -
  have "k = gateway_key cfg"
    using assms(2) by (auto simp: spawned_def lodestar_tasks_def paying_tasks_def alert_tasks_def split: option.splits if_splits)
  then show ?thesis using assms(1) by (simp add: starts_def gateway_key_def)
qed

text \<open>The tip only has to be known: its value decides nothing, and it is known for good after one good read.\<close>

lemma tip_value_ignored:
  assumes "0 < a" "0 < c"
  shows "allocation_turn unhex b58 numeric now n a fetch t = allocation_turn unhex b58 numeric now n c fetch t"
  using assms by (simp add: allocation_turn_def tip_reader_def allocation_sync_pass_def split: option.split)

lemma tip_kept: "0 < cell \<Longrightarrow> fetch_block_number rpc = None \<Longrightarrow> tip_reader (tip_step rpc cell) = Some cell"
  by (simp add: tip_step_def tip_reader_def)

end
