(* ===== verification/Fixtures.thy ===== *)
theory Fixtures
  imports Routes_Probe
begin

text \<open>
  The seeds of the repository's database tests, \<open>foghorn-core/src/testdb.rs\<close>, as tables, and what the tests
  expect of them, proved of the model: the aggregate behind the grades, the public quality page and the
  detection of non-deterministic deployments give the numbers written beside the seeds. Creating and dropping
  a database is left out; a fresh probe id is an argument.
\<close>

section \<open>Names\<close>

definition INDEXER :: str where "INDEXER = ''0x00000000000000000000000000000000000000a1''"
definition PEER_J :: str where "PEER_J = ''0x00000000000000000000000000000000000000a2''"
definition PEER_L :: str where "PEER_L = ''0x00000000000000000000000000000000000000a3''"
definition PEER_PAID :: str where "PEER_PAID = ''0x00000000000000000000000000000000000000a4''"
definition KEY_INDEXER :: str where "KEY_INDEXER = ''0x00000000000000000000000000000000000000b1''"
definition KEY_J :: str where "KEY_J = ''0x00000000000000000000000000000000000000b2''"
definition KEY_L :: str where "KEY_L = ''0x00000000000000000000000000000000000000b3''"
definition KEY_UNRESOLVED :: str where "KEY_UNRESOLVED = ''0x00000000000000000000000000000000000000b9''"
definition KEY_UNRESOLVED_2 :: str where "KEY_UNRESOLVED_2 = ''0x00000000000000000000000000000000000000b8''"
definition KEY_UNRESOLVED_3 :: str where "KEY_UNRESOLVED_3 = ''0x00000000000000000000000000000000000000b7''"

definition DEPLOYMENT :: str where "DEPLOYMENT = ''QmTestDeterministicDeploymentAAAAAAAAAAAAAAAAA''"
definition NONDETERMINISTIC_DEPLOYMENT :: str where "NONDETERMINISTIC_DEPLOYMENT = ''QmTestNondeterministicDeploymentBBBBBBBBBBBBBB''"
definition ROTATING_DEPLOYMENT :: str where "ROTATING_DEPLOYMENT = ''QmTestRotatingMinorityDeploymentCCCCCCCCCCCCCC''"
definition UNATTRIBUTED_DEPLOYMENT :: str where "UNATTRIBUTED_DEPLOYMENT = ''QmTestUnattributedRotationDeploymentDDDDDDDDDD''"

lemmas names = INDEXER_def PEER_J_def PEER_L_def PEER_PAID_def KEY_INDEXER_def KEY_J_def KEY_L_def KEY_UNRESOLVED_def
  KEY_UNRESOLVED_2_def KEY_UNRESOLVED_3_def DEPLOYMENT_def NONDETERMINISTIC_DEPLOYMENT_def ROTATING_DEPLOYMENT_def
  UNATTRIBUTED_DEPLOYMENT_def

section \<open>Which database\<close>

text \<open>The environment's \<open>CI\<close> and the URL of the server: an error when a run in CI has none, no database without one
  elsewhere.\<close>

definition test_database_url :: "str option \<Rightarrow> str option \<Rightarrow> str + str option" where
  "test_database_url ci url = (case (case url of Some u \<Rightarrow> if u \<noteq> '''' then Some u else None | None \<Rightarrow> None, ci) of
      (Some u, _) \<Rightarrow> Inr (Some u)
    | (None, Some c) \<Rightarrow> if c \<noteq> '''' \<and> c \<noteq> ''false''
        then Inl ''CI is set and FOGHORN_TEST_DATABASE_URL is not: the database tests would pass without running''
        else Inr None
    | (None, None) \<Rightarrow> Inr None)"

text \<open>\<open>rsplit_once\<close>: the split at the last separator.\<close>

definition rsplit_once :: "char \<Rightarrow> str \<Rightarrow> (str \<times> str) option" where
  "rsplit_once c s = map_option (\<lambda>(a, b). (rev b, rev a)) (split_once c (rev s))"

definition with_database :: "str \<Rightarrow> str \<Rightarrow> str" where
  "with_database url name =
     (let (base, query) = (case split_once (CHR ''?'') url of Some (b, q) \<Rightarrow> (b, Some q) | None \<Rightarrow> (url, None));
          base = (case rsplit_once (CHR ''/'') base of Some (b, _) \<Rightarrow> b | None \<Rightarrow> base)
      in case query of Some q \<Rightarrow> base @ ''/'' @ name @ ''?'' @ q | None \<Rightarrow> base @ ''/'' @ name)"

lemma rsplit_once_last: "CHR ''/'' \<notin> set b \<Longrightarrow> rsplit_once (CHR ''/'') (a @ CHR ''/'' # b) = Some (a, b)"
proof -
  have "c \<notin> set x \<Longrightarrow> split_once c (x @ c # y) = Some (x, y)" for c x y by (induction x) auto
  from this [of "CHR ''/''" "rev b" "rev a"] show "CHR ''/'' \<notin> set b \<Longrightarrow> rsplit_once (CHR ''/'') (a @ CHR ''/'' # b) = Some (a, b)"
    by (simp add: rsplit_once_def)
qed

text \<open>Only the name of the database is replaced; the query, which may hold a slash, is kept.\<close>

lemma with_database_renames:
  assumes "CHR ''?'' \<notin> set a" "CHR ''?'' \<notin> set old" "CHR ''/'' \<notin> set old"
  shows "with_database (a @ ''/'' @ old @ ''?'' @ q) name = a @ ''/'' @ name @ ''?'' @ q"
    and "with_database (a @ ''/'' @ old) name = a @ ''/'' @ name"
proof -
  have "c \<notin> set x \<Longrightarrow> split_once c (x @ c # y) = Some (x, y)" "c \<notin> set x \<Longrightarrow> split_once c x = None" for c x y
    by (induction x) auto
  from this(1) [of "CHR ''?''" "a @ ''/'' @ old" q] this(2) [of "CHR ''?''" "a @ ''/'' @ old"] rsplit_once_last [OF assms(3), of a] assms
  show "with_database (a @ ''/'' @ old @ ''?'' @ q) name = a @ ''/'' @ name @ ''?'' @ q"
    "with_database (a @ ''/'' @ old) name = a @ ''/'' @ name"
    by (simp_all add: with_database_def)
qed

lemma test_database_url_cases: "\<exists>e. test_database_url (Some ''true'') None = Inl e" "\<exists>e. test_database_url (Some ''1'') (Some '''') = Inl e"
  "test_database_url None None = Inr None" "test_database_url (Some ''false'') None = Inr None"
  "test_database_url (Some ''true'') (Some ''postgres://x/y'') = Inr (Some ''postgres://x/y'')"
  by (simp_all add: test_database_url_def)

section \<open>Inserts\<close>

text \<open>Columns a seed leaves out are null, or the table's default; a null list of patches has no elements, like
  the empty one.\<close>

definition probe_seed :: "str \<Rightarrow> str \<Rightarrow> int \<Rightarrow> probe_db \<Rightarrow> probe_db" where
  "probe_seed pid dep at_us d = d\<lparr>probes := probes d @ [(pid, \<lparr>pr_deployment_id = dep, pr_block_hash = ''0xblock'',
     pr_block_number = 1000, pr_query_hash = ''0xquery'', pr_query_category = ''Q_byid'', pr_query_text = ''{}'',
     pr_dispatched_at = at_us\<rparr>)]\<rparr>"

definition answer_seed :: "str \<Rightarrow> str \<Rightarrow> str \<Rightarrow> f64 \<Rightarrow> str \<Rightarrow> probe_db \<Rightarrow> probe_db" where
  "answer_seed pid addr hash stake mode d = d\<lparr>observations := observations d @ [((pid, addr),
     \<lparr>ob_response_hash = Some hash, ob_latency_ms = 100, ob_meta_block_number = None, ob_meta_block_hash = None,
      ob_http_status = Some 200, ob_error_class = None, ob_stake_weight = stake, ob_dispatch_mode = mode,
      ob_request_cid = None, ob_response_cid = None, ob_attestation = None\<rparr>)]\<rparr>"

definition failure_seed :: "str \<Rightarrow> str \<Rightarrow> str \<Rightarrow> int \<Rightarrow> str \<Rightarrow> probe_db \<Rightarrow> probe_db" where
  "failure_seed pid addr err status mode d = d\<lparr>observations := observations d @ [((pid, addr),
     \<lparr>ob_response_hash = None, ob_latency_ms = 100, ob_meta_block_number = None, ob_meta_block_hash = None,
      ob_http_status = Some status, ob_error_class = Some err, ob_stake_weight = F 1, ob_dispatch_mode = mode,
      ob_request_cid = None, ob_response_cid = None, ob_attestation = None\<rparr>)]\<rparr>"

definition divergence_seed :: "int \<Rightarrow> str \<Rightarrow> str \<Rightarrow> int \<Rightarrow> str \<Rightarrow> f64 \<Rightarrow> probe_db \<Rightarrow> probe_db" where
  "divergence_seed now pid count_hash count_size stake_hash stake_weight d = d\<lparr>divergences := divergences d @ [(pid,
     \<lparr>dv_cluster_count = 2, dv_diff_patches = JArr [], dv_largest_by_count_hash = count_hash,
      dv_largest_by_count_size = count_size, dv_largest_by_stake_hash = stake_hash,
      dv_largest_by_stake_weight = stake_weight, dv_created_at = now\<rparr>)]\<rparr>"

section \<open>Seeds\<close>

definition gw :: "str \<Rightarrow> str \<Rightarrow> str \<Rightarrow> probe_db \<Rightarrow> probe_db" where
  "gw pid key hash = answer_seed pid key hash (F 1) ''gateway''"

definition disagreement_probes :: "int \<Rightarrow> int \<Rightarrow> probe_db \<Rightarrow> probe_db" where
  "disagreement_probes now at_us = fold id [
     probe_seed ''p1'' DEPLOYMENT at_us, gw ''p1'' KEY_INDEXER ''a'', gw ''p1'' KEY_J ''a'',
       answer_seed ''p1'' KEY_L ''b'' (F 5) ''gateway'', divergence_seed now ''p1'' ''a'' 2 ''b'' (F 5),
     probe_seed ''p2'' DEPLOYMENT at_us, gw ''p2'' KEY_INDEXER ''c'', gw ''p2'' KEY_J ''d'',
     probe_seed ''p3'' DEPLOYMENT at_us, gw ''p3'' KEY_INDEXER ''e'', gw ''p3'' KEY_J ''f'', gw ''p3'' KEY_L ''f'',
       answer_seed ''p3'' PEER_PAID ''f'' (F 1) ''paid'', divergence_seed now ''p3'' ''f'' 3 ''f'' (F 3),
     probe_seed ''p4'' NONDETERMINISTIC_DEPLOYMENT at_us, gw ''p4'' KEY_INDEXER ''g'', gw ''p4'' KEY_J ''h'',
       gw ''p4'' KEY_L ''h'', divergence_seed now ''p4'' ''h'' 2 ''h'' (F 2),
     probe_seed ''p5'' DEPLOYMENT at_us, failure_seed ''p5'' KEY_INDEXER ''http_error'' 500 ''gateway'',
       failure_seed ''p5'' INDEXER ''payment_denylisted'' 402 ''paid'',
     probe_seed ''p6'' DEPLOYMENT at_us, gw ''p6'' KEY_UNRESOLVED ''a'']"

definition no_probes :: probe_db where
  "no_probes = \<lparr>probes = [], observations = [], divergences = []\<rparr>"

definition seed_disagreement :: "int \<Rightarrow> int \<Rightarrow> judge_db" where
  "seed_disagreement now at_us = \<lparr>jd_probe = disagreement_probes now at_us no_probes,
     jd_allocation_map = [(KEY_INDEXER, Some INDEXER), (KEY_J, Some PEER_J), (KEY_L, Some PEER_L), (KEY_UNRESOLVED, None)],
     jd_nondeterministic = [(NONDETERMINISTIC_DEPLOYMENT, \<lparr>nd_divergent_probes = 10, nd_total_probes = 10,
       nd_divergence_rate = F 1, nd_sample_fields = [], nd_last_seen = now\<rparr>)]\<rparr>"

text \<open>A minority of one that rotates over three indexers, and over keys nobody could attribute.\<close>

definition rotating_probe :: "int \<Rightarrow> int \<Rightarrow> str \<times> str \<Rightarrow> probe_db \<Rightarrow> probe_db" where
  "rotating_probe now at_us x d = (case x of (pid, minor) \<Rightarrow>
     divergence_seed now pid ''even'' 2 ''even'' (F 2)
       (fold (\<lambda>key. gw pid key (if key = minor then ''odd'' else ''even'')) [KEY_INDEXER, KEY_J, KEY_L]
         (probe_seed pid ROTATING_DEPLOYMENT at_us d)))"

definition stray_probe :: "int \<Rightarrow> int \<Rightarrow> str \<times> str \<Rightarrow> probe_db \<Rightarrow> probe_db" where
  "stray_probe now at_us x d = (case x of (pid, stray) \<Rightarrow>
     divergence_seed now pid ''even'' 2 ''even'' (F 2) (failure_seed pid PEER_L ''payment_denylisted'' 402 ''paid''
       (gw pid stray ''odd'' (gw pid KEY_J ''even'' (gw pid KEY_INDEXER ''even'' (probe_seed pid UNATTRIBUTED_DEPLOYMENT at_us d))))))"

definition add_keys :: "(str \<times> str option) list \<Rightarrow> judge_db \<Rightarrow> judge_db" where
  "add_keys ks d = d\<lparr>jd_allocation_map := fold (\<lambda>(k, v). tput_new k v) ks (jd_allocation_map d)\<rparr>"

definition seed_rotating_minority :: "int \<Rightarrow> int \<Rightarrow> judge_db \<Rightarrow> judge_db" where
  "seed_rotating_minority now at_us d = (add_keys [(KEY_INDEXER, Some INDEXER), (KEY_J, Some PEER_J), (KEY_L, Some PEER_L)] d)
     \<lparr>jd_probe := fold (rotating_probe now at_us)
        [(''r1'', KEY_INDEXER), (''r2'', KEY_J), (''r3'', KEY_L), (''r4'', KEY_INDEXER)] (jd_probe d)\<rparr>"

definition seed_unattributed_rotation :: "int \<Rightarrow> int \<Rightarrow> judge_db \<Rightarrow> judge_db" where
  "seed_unattributed_rotation now at_us d = (add_keys [(KEY_INDEXER, Some INDEXER), (KEY_J, Some PEER_J), (KEY_UNRESOLVED, None),
       (KEY_UNRESOLVED_2, None), (KEY_UNRESOLVED_3, None)] d)
     \<lparr>jd_probe := fold (stray_probe now at_us) [(''u1'', KEY_UNRESOLVED), (''u2'', KEY_UNRESOLVED_2),
        (''u3'', KEY_UNRESOLVED_3), (''u4'', KEY_UNRESOLVED)] (jd_probe d)\<rparr>"

definition seed_answer :: "str \<Rightarrow> int \<Rightarrow> judge_db \<Rightarrow> judge_db" where
  "seed_answer pid at_us d = d\<lparr>jd_probe := answer_seed pid INDEXER ''a'' (F 1) ''paid'' (probe_seed pid DEPLOYMENT at_us (jd_probe d))\<rparr>"

section \<open>What the tests expect\<close>

definition expected_peers :: "judge_db \<Rightarrow> (int option) list" where
  "expected_peers d = (let agg = load_probe_agg d 0 in map (\<lambda>a. map_option ag_faults (map_of agg a)) [PEER_L, PEER_J])"

definition expected_quality :: "judge_db \<Rightarrow> (str \<times> int \<times> int) list" where
  "expected_quality d = (let js = of_indexer INDEXER (judged_probes d 0 True) in
     ('''', total_probes_of js, divergent_probes_of js) # quality_by_deployment js)"

text \<open>\<open>the_probe_aggregate_resolves_identity_and_ignores_refused_payments\<close>\<close>

lemma agg_of_the_indexer: "map_of (load_probe_agg (seed_disagreement 9 5) 0) INDEXER
    = Some \<lparr>ag_probes_answered = 4, ag_faults = 1, ag_errors = 1, ag_total = 5\<rparr>"
  by code_simp

lemma agg_of_the_peers: "expected_peers (seed_disagreement 9 5) = [Some 1, Some 0]"
  by code_simp

text \<open>\<open>quality_counts_every_probe_the_indexer_answered\<close>\<close>

lemma quality_of_the_indexer: "expected_quality (seed_disagreement 9 5)
    = [('''', 4, 1), (DEPLOYMENT, 3, 1), (NONDETERMINISTIC_DEPLOYMENT, 1, 0)]"
  by code_simp

text \<open>\<open>refused_payments_and_unattributed_answers_alone_do_not_flag_a_deployment\<close>\<close>

lemma only_rotation_is_flagged:
  "nondet_found (seed_rotating_minority 9 5 (seed_unattributed_rotation 9 5
     \<lparr>jd_probe = no_probes, jd_allocation_map = [], jd_nondeterministic = []\<rparr>)) 0 = [(ROTATING_DEPLOYMENT, 4, 4)]"
  by code_simp

end
