(* ===== verification/Evidence.thy ===== *)
theory Evidence
  imports Scorer_Props Feed_Props
begin

text \<open>
  The components together. A run interleaves probe rounds, key attribution, scoring cycles, rollups and
  ingests in any order, a round that fails halfway included. What the tables hold in every run: a stored
  cluster is as large as the stored answers that share its hash, and no hash has more; so a judged fault,
  and with it a public accusation, rests on a strict majority of stored answers.
\<close>

section \<open>The invariant of the probe tables\<close>

definition copies :: "probe_db \<Rightarrow> str \<Rightarrow> str \<Rightarrow> nat" where
  \<comment> \<open>The stored answers of a probe that have a hash.\<close>
  "copies d pid h = length (filter (\<lambda>((q, _), o'). q = pid \<and> ob_response_hash o' = Some h) (observations d))"

definition backed :: "probe_db \<Rightarrow> bool" where
  "backed d \<longleftrightarrow> (\<forall>pid. map_of (probes d) pid = None \<longrightarrow> fresh_probe pid d)
     \<and> (\<forall>pid v. map_of (divergences d) pid = Some v \<longrightarrow>
          dv_largest_by_count_size v = int (copies d pid (dv_largest_by_count_hash v))
          \<and> (\<forall>h. int (copies d pid h) \<le> dv_largest_by_count_size v))"

lemma backedD:
  assumes "backed d" and "map_of (divergences d) pid = Some v"
  shows "dv_largest_by_count_size v = int (copies d pid (dv_largest_by_count_hash v))"
    and "copies d pid h \<le> copies d pid (dv_largest_by_count_hash v)"
proof -
  show s: "dv_largest_by_count_size v = int (copies d pid (dv_largest_by_count_hash v))"
    using assms unfolding backed_def by blast
  have "int (copies d pid h) \<le> dv_largest_by_count_size v" using assms unfolding backed_def by blast
  then show "copies d pid h \<le> copies d pid (dv_largest_by_count_hash v)" using s by simp
qed

text \<open>Two hashes of one probe share its answers.\<close>

lemma copies_disjoint:
  assumes "h \<noteq> h'"
  shows "copies (jd_probe d) pid h + copies (jd_probe d) pid h' \<le> responders d pid"
proof -
  have "length (filter (\<lambda>((q, _), o'). q = pid \<and> ob_response_hash o' = Some h) xs)
      + length (filter (\<lambda>((q, _), o'). q = pid \<and> ob_response_hash o' = Some h') xs)
      \<le> length (filter (\<lambda>((q, _), o'). q = pid \<and> ob_response_hash o' \<noteq> None) xs)"
    for xs :: "((str \<times> str) \<times> observation_row) list"
    using assms by (induction xs) auto
  then show ?thesis by (simp add: copies_def responders_def)
qed

lemma copies_other:
  assumes "q \<noteq> pid"
  shows "copies (snd (store_results jsonb pid p obs r d)) q h = copies d q h"
proof -
  have f: "filter (\<lambda>((x, _), o'). x = q \<and> ob_response_hash o' = Some h) xs
      = filter (\<lambda>((x, _), o'). x = q \<and> ob_response_hash o' = Some h) (filter (\<lambda>y. fst (fst y) \<noteq> pid) xs)"
    for xs :: "((str \<times> str) \<times> observation_row) list"
    using assms by (induction xs) auto
  show ?thesis unfolding copies_def
    using f [of "observations (snd (store_results jsonb pid p obs r d))"] f [of "observations d"]
    by (simp only: store_other_rows)
qed

lemma copies_stored:
  assumes "fresh_probe pid d" and "distinct (map ro_indexer_address obs)" and "fst (store_results jsonb pid p obs r d)"
  shows "copies (snd (store_results jsonb pid p obs r d)) pid h = hash_count h (map cluster_input_of obs)"
proof -
  have rh: "ob_response_hash (the (observation_of jsonb x)) = ro_response_hash x" if "x \<in> set obs" for x
    using assms(3) that row_hash by (fastforce simp: store_ok_iff)
  have "filter (\<lambda>((q, _), o'). q = pid \<and> ob_response_hash o' = Some h) (observations d) = []"
    using assms(1) by (auto simp: fresh_probe_def filter_empty_conv)
  moreover have "filter (\<lambda>((q, _), o'). q = pid \<and> ob_response_hash o' = Some h)
      (map (\<lambda>o'. ((pid, ro_indexer_address o'), the (observation_of jsonb o'))) obs)
    = map (\<lambda>o'. ((pid, ro_indexer_address o'), the (observation_of jsonb o')))
        (filter (\<lambda>x. ro_response_hash x = Some h) obs)"
    unfolding filter_map comp_def by (intro arg_cong2 [where f = map] refl filter_cong) (simp_all add: rh)
  ultimately show ?thesis
    by (simp add: copies_def stored_observations [OF assms] hash_count_def filter_map comp_def cluster_input_of_def)
qed

lemma store_unknown:
  assumes "backed d" and "map_of (probes (snd (store_results jsonb pid p obs r d))) q = None"
  shows "fresh_probe q (snd (store_results jsonb pid p obs r d))" (is "fresh_probe q ?d")
proof -
  have q: "q \<noteq> pid" "map_of (probes d) q = None"
    using assms(2) by (auto simp: store_probes map_of_tput_new split: if_splits option.splits)
  then have old: "fresh_probe q d" using assms(1) by (simp add: backed_def)
  have "fst (fst y) \<noteq> q" if "y \<in> set (observations ?d)" for y
  proof (cases "fst (fst y) = pid")
    case False
    then have "y \<in> set (filter (\<lambda>x. fst (fst x) \<noteq> pid) (observations ?d))" using that by simp
    then show ?thesis unfolding store_other_rows using old by (simp add: fresh_probe_def)
  qed (use q(1) in simp)
  then show ?thesis using assms(2) q(1) old by (simp add: fresh_probe_def store_divergences map_of_tput_new)
qed

text \<open>Storing a probe keeps the invariant, when one of its statements fails too.\<close>

lemma store_backed:
  assumes "backed d" and "map_of (probes d) pid = None" and "permutes ord" and "length obs < 2 ^ 31"
    and "compute_clusters parse jdiff ord (map cluster_input_of obs) = Some r"
    and "distinct (map ro_indexer_address obs)"
  shows "backed (snd (store_results jsonb pid p obs r d))" (is "backed ?d")
proof -
  have fresh: "fresh_probe pid d" using assms(1,2) by (simp add: backed_def)
  have "dv_largest_by_count_size v = int (copies ?d q (dv_largest_by_count_hash v))
      \<and> (\<forall>h. int (copies ?d q h) \<le> dv_largest_by_count_size v)" if v: "map_of (divergences ?d) q = Some v" for q v
  proof (cases "q = pid")
    case False
    then have "map_of (divergences ?d) q = map_of (divergences d) q" by (simp add: store_divergences map_of_tput_new)
    then show ?thesis using False backedD [OF assms(1), of q v] v by (simp add: copies_other)
  next
    case True
    then have r: "fst (store_results jsonb pid p obs r d)" "2 \<le> largest_by_count_size r" "v = divergence_of r (pr_dispatched_at p)"
      using v fresh by (auto simp: store_divergences map_of_tput_new fresh_probe_def split: if_splits)
    have "length (map cluster_input_of obs) < 2 ^ 31" using assms(4) by simp
    note l = largest_cluster [OF assms(3) this assms(5)]
    have "int (hash_count h (map cluster_input_of obs)) \<le> largest_by_count_size r" for h by (rule l(2))
    moreover have "largest_by_count_size r = int (hash_count (largest_by_count_hash r) (map cluster_input_of obs))"
      using l(1) r(2) by (auto simp: empty_clusters_def)
    ultimately show ?thesis by (simp add: True copies_stored [OF fresh assms(6) r(1)] r(3) divergence_of_def)
  qed
  then show ?thesis unfolding backed_def using store_unknown [OF assms(1)] by blast
qed

section \<open>Rounds\<close>

text \<open>How many observations one query can bring: the paid targets, and the gateway's or the direct ones.\<close>

definition widest :: "foghorn_config \<Rightarrow> nat option \<Rightarrow> nat" where
  "widest cfg paid = (case paid of Some cap \<Rightarrow> cap | None \<Rightarrow> 0)
     + (case gateway cfg of Some gw \<Rightarrow> gw_probe_count gw | None \<Rightarrow> length (opted_in_indexers cfg))"

lemma observe_length: "observe L W cfg paid n j = Some raw \<Longrightarrow> length raw \<le> widest cfg paid"
  by (auto simp: observe_def widest_def paid_observations_def gateway_observations_def direct_observations_def
      split: option.splits if_splits)

lemma dedup_put_length: "length (dedup_put o' best) \<le> Suc (length best)"
  by (induction o' best rule: dedup_put.induct) auto

lemma dedup_length: "length (dedup_by_address obs) \<le> length obs"
proof -
  have "length (foldl (\<lambda>best o'. dedup_put o' best) best obs) \<le> length best + length obs" for best
  proof (induction obs arbitrary: best)
    case (Cons o' obs)
    show ?case using Cons.IH [of "dedup_put o' best"] dedup_put_length [of o' best] by simp
  qed simp
  from this [of "[]"] show ?thesis by (simp add: dedup_by_address_def)
qed

lemma jobs_backed:
  assumes "widest cfg paid < 2 ^ 31" and "\<And>n. permutes (wd_order W n)" and "inj (wd_uuid W)"
  shows "backed d \<Longrightarrow> (\<forall>i\<ge>n. map_of (probes d) (wd_uuid W i) = None) \<Longrightarrow> backed (snd (run_jobs L W cfg paid n js d))"
proof (induction js arbitrary: n d)
  case (Cons j js)
  show ?case
  proof (cases "observe L W cfg paid n j")
    case (Some raw)
    let ?obs = "dedup_by_address raw"
    let ?p = "\<lparr>pr_deployment_id = ts_id (jb_test_set j), pr_block_hash = jb_block_hash j,
       pr_block_number = i64w (int (jb_block_number j)), pr_query_hash = wd_sha256 W (jb_query j),
       pr_query_category = jb_category j, pr_query_text = jb_query j, pr_dispatched_at = wd_now W n\<rparr>"
    show ?thesis
    proof (cases "compute_clusters (lib_parse L) (wd_jdiff W) (wd_order W n) (map cluster_input_of ?obs)")
      case None
      then show ?thesis using Some Cons.prems(1) by simp
    next
      case (Some r)
      have "length ?obs < 2 ^ 31"
        using dedup_length [of raw] observe_length [OF \<open>observe L W cfg paid n j = Some raw\<close>] assms(1) by simp
      moreover have "distinct (map ro_indexer_address ?obs)" using dedup_inv [of raw] by simp
      ultimately have b: "backed (snd (store_results (wd_jsonb W) (wd_uuid W n) ?p ?obs r d))"
        using store_backed [OF Cons.prems(1) _ assms(2) _ Some] Cons.prems(2) by simp
      have "\<forall>i\<ge>Suc n. map_of (probes (snd (store_results (wd_jsonb W) (wd_uuid W n) ?p ?obs r d))) (wd_uuid W i) = None"
        using Cons.prems(2) assms(3) by (auto simp: store_probes map_of_tput_new inj_eq)
      from Cons.IH [OF b this] b show ?thesis
        using \<open>observe L W cfg paid n j = Some raw\<close> Some by (auto simp: Let_def split: prod.split)
    qed
  qed (simp add: Cons.prems)
qed simp

lemma round_backed:
  assumes "widest cfg paid < 2 ^ 31" and "\<And>n. permutes (wd_order W n)" and "inj (wd_uuid W)"
    and "\<And>i. map_of (probes d) (wd_uuid W i) = None" and "backed d"
  shows "backed (snd (run_probe_round L W cfg paid tss d))"
  unfolding run_probe_round_def by (rule jobs_backed [OF assms(1-3,5)]) (simp add: assms(4))

section \<open>The components that write other tables\<close>

abbreviation probe_tables :: "scorer_db \<Rightarrow> probe_db" where
  "probe_tables s \<equiv> jd_probe (qd_judge (sd_qos s))"

locale bystander =
  fixes view :: "'s \<Rightarrow> probe_db" and step :: "'x \<Rightarrow> 's \<Rightarrow> 's"
  assumes kept: "view (step x s) = view s"
begin

lemma fold_kept: "view (fold step xs s) = view s"
  by (induction xs arbitrary: s) (simp_all add: kept)

lemma backed_kept: "backed (view s) \<Longrightarrow> backed (view (step x s))"
  by (simp add: kept)

end

abbreviation feed_probes :: "qos_db \<Rightarrow> probe_db" where
  "feed_probes q \<equiv> jd_probe (qd_judge q)"

definition on_feed :: "(qos_db \<Rightarrow> qos_db) \<Rightarrow> scorer_db \<Rightarrow> scorer_db" where
  "on_feed f s = s\<lparr>sd_qos := f (sd_qos s)\<rparr>"

text \<open>What leaves the probes alone in the feed's tables leaves them alone in all of them.\<close>

locale feed_bystander = bystander feed_probes step for step :: "'x \<Rightarrow> qos_db \<Rightarrow> qos_db"

sublocale feed_bystander \<subseteq> whole: bystander probe_tables "\<lambda>x. on_feed (step x)"
  by unfold_locales (simp add: on_feed_def kept)

interpretation requests: feed_bystander "\<lambda>(dep, ts, reason). add_reroll dep ts reason"
  by unfold_locales (auto simp: add_reroll_def)

lemma judge_fold: "(\<And>x z. qd_judge (f x z) = qd_judge z) \<Longrightarrow> qd_judge (fold f xs q) = qd_judge q"
  by (induction xs arbitrary: q) simp_all

interpretation attributions: feed_bystander "\<lambda>(key, ix, url, now). record_attribution key ix url now"
proof (unfold_locales, clarify)
  fix key ix url now q
  show "feed_probes (record_attribution key ix url now q) = feed_probes q"
    unfolding record_attribution_def Let_def by (subst judge_fold) (auto split: prod.split)
qed

interpretation marks: feed_bystander "\<lambda>(key, now). mark_unresolved key now"
  by unfold_locales (auto simp: mark_unresolved_def)

interpretation flags: feed_bystander "\<lambda>(prn, since, now). flag_nondeterministic prn since now"
proof (unfold_locales, clarify)
  fix prn since now q
  show "feed_probes (flag_nondeterministic prn since now q) = feed_probes q"
    by (simp add: flag_nondeterministic_def detect_nondeterministic_def request_deployment_reroll_def Let_def judge_fold)
qed

interpretation chunks: feed_bystander "\<lambda>(now, ids, reply). resolve_chunk now ids reply"
proof (unfold_locales, clarify)
  fix now ids reply q
  have a: "feed_probes (fold (\<lambda>a. record_attribution (k a) (i a) (u a) now) xs q) = feed_probes q" for k i u xs q
    using attributions.fold_kept [of "map (\<lambda>a. (k a, i a, u a, now)) xs" q] by (simp add: fold_map comp_def)
  have m: "feed_probes (fold (\<lambda>key. mark_unresolved key now) xs q) = feed_probes q" for xs q
    using marks.fold_kept [of "map (\<lambda>k. (k, now)) xs" q] by (simp add: fold_map comp_def)
  show "feed_probes (resolve_chunk now ids reply q) = feed_probes q"
    by (simp add: resolve_chunk_def Let_def a m split: option.split)
qed

interpretation resolver: feed_bystander "\<lambda>(fetch, now). resolve_allocation_keys fetch now"
proof (unfold_locales, clarify)
  fix fetch now q
  have "feed_probes (fold (\<lambda>c. resolve_chunk now (map to_lower c) (fetch (map to_lower c))) xs q) = feed_probes q" for xs q
    using chunks.fold_kept [of "map (\<lambda>c. (now, map to_lower c, fetch (map to_lower c))) xs" q] by (simp add: fold_map comp_def)
  then show "feed_probes (resolve_allocation_keys fetch now q) = feed_probes q"
    by (simp add: resolve_allocation_keys_def Let_def)
qed

interpretation rollups: feed_bystander "\<lambda>(fsqrt, cfg, now) q. snd (rollup_once fsqrt cfg now q)"
  by unfold_locales (auto simp: rollup_judge)

interpretation rebuilds: feed_bystander "\<lambda>(fsqrt, cfg, now) q. snd (reroll_all fsqrt cfg now q)"
  by unfold_locales (auto simp: rebuild_judge)

interpretation ingests: bystander probe_tables "\<lambda>rows s. s\<lparr>sd_profiles := rows\<rparr>"
  by unfold_locales simp

interpretation scorings: bystander probe_tables
  "\<lambda>(sha, sord, fetch, prn, ord, cfg, run_start, now) s. snd (run_score_once sha sord fetch prn ord cfg run_start now s)"
proof (unfold_locales, clarify)
  fix sha sord fetch prn ord cfg run_start now s
  obtain sybils s1 where c: "cycle_start sha sord fetch prn now s = (sybils, s1)" by fastforce
  obtain n s' where r: "run_score_once sha sord fetch prn ord cfg run_start now s = (n, s')" by fastforce
  have "sd_qos s' = sd_qos s1" by (rule cycle_touches [OF c refl r])
  moreover have "feed_probes (sd_qos s1) = probe_tables s"
    using c flags.kept [of "(prn, now - days 7, now)"] by (auto simp: cycle_start_def Let_def split: option.splits)
  ultimately show "probe_tables (snd (run_score_once sha sord fetch prn ord cfg run_start now s)) = probe_tables s"
    by (simp add: r)
qed

section \<open>Runs of the oracle\<close>

definition regular :: "foghorn_config \<Rightarrow> nat option \<Rightarrow> 'a world \<Rightarrow> scorer_db \<Rightarrow> bool" where
  \<comment> \<open>New identifiers, a hash map that iterates over all it holds, and fewer answers to a query than an i32 counts.\<close>
  "regular cfg paid W s \<longleftrightarrow> inj (wd_uuid W) \<and> (\<forall>i. map_of (probes (probe_tables s)) (wd_uuid W i) = None)
     \<and> (\<forall>n. permutes (wd_order W n)) \<and> widest cfg paid < 2 ^ 31"

definition probing :: "lib \<Rightarrow> 'a world \<Rightarrow> foghorn_config \<Rightarrow> nat option \<Rightarrow> test_set list \<Rightarrow> scorer_db \<Rightarrow> scorer_db" where
  "probing L W cfg paid tss = on_feed (\<lambda>q. q\<lparr>qd_judge := (qd_judge q)\<lparr>jd_probe :=
     snd (run_probe_round L W cfg paid tss (jd_probe (qd_judge q)))\<rparr>\<rparr>)"

text \<open>The worlds of the rounds so far, the time of the last scoring cycle, and the tables.\<close>

inductive oracle_run :: "lib \<Rightarrow> foghorn_config \<Rightarrow> nat option \<Rightarrow> 'a world list \<Rightarrow> int \<Rightarrow> scorer_db \<Rightarrow> bool"
  for L cfg paid where
  start: "probe_tables s = empty_db \<Longrightarrow> sd_verdicts s = [] \<Longrightarrow> sd_attention s = [] \<Longrightarrow> oracle_run L cfg paid [] t s"
| probed: "oracle_run L cfg paid Ws t s \<Longrightarrow> regular cfg paid W s \<Longrightarrow>
    oracle_run L cfg paid (W # Ws) t (probing L W cfg paid tss s)"
| resolved_keys: "oracle_run L cfg paid Ws t s \<Longrightarrow>
    oracle_run L cfg paid Ws t (on_feed (resolve_allocation_keys fetch now) s)"
| scored: "oracle_run L cfg paid Ws t s \<Longrightarrow> t < run_start \<Longrightarrow> run_start \<le> now \<Longrightarrow>
    oracle_run L cfg paid Ws now (snd (run_score_once sha sord fetch prn ord (scoring cfg) run_start now s))"
| rolled_up: "oracle_run L cfg paid Ws t s \<Longrightarrow>
    oracle_run L cfg paid Ws t (on_feed (\<lambda>q. snd (rollup_once fsqrt (qos_rollup cfg) now q)) s)"
| rebuilt: "oracle_run L cfg paid Ws t s \<Longrightarrow>
    oracle_run L cfg paid Ws t (on_feed (\<lambda>q. snd (reroll_all fsqrt (qos_rollup cfg) now q)) s)"
| ingested: "oracle_run L cfg paid Ws t s \<Longrightarrow> oracle_run L cfg paid Ws t (s\<lparr>sd_profiles := rows\<rparr>)"

lemma probing_backed: "regular cfg paid W s \<Longrightarrow> backed (probe_tables s) \<Longrightarrow> backed (probe_tables (probing L W cfg paid tss s))"
  by (simp add: regular_def probing_def on_feed_def) (intro round_backed; simp)

lemma run_backed: "oracle_run L cfg paid Ws t s \<Longrightarrow> backed (probe_tables s)"
proof (induction rule: oracle_run.induct)
  case (start s t)
  then show ?case by (simp add: backed_def fresh_probe_def empty_db_def)
next
  case (probed Ws t s W tss)
  then show ?case by (intro probing_backed)
next
  case (scored Ws t s run_start now sha sord fetch prn ord)
  then show ?case using scorings.backed_kept [of s "(sha, sord, fetch, prn, ord, scoring cfg, run_start, now)"] by simp
next
  case (resolved_keys Ws t s fetch now)
  then show ?case using resolver.whole.backed_kept [of s "(fetch, now)"] by simp
next
  case (rolled_up Ws t s fsqrt now)
  then show ?case using rollups.whole.backed_kept [of s "(fsqrt, qos_rollup cfg, now)"] by simp
next
  case (rebuilt Ws t s fsqrt now)
  then show ?case using rebuilds.whole.backed_kept [of s "(fsqrt, qos_rollup cfg, now)"] by simp
qed simp

end
