(* ===== verification/Loops.thy ===== *)
theory Loops
  imports Tasks Evidence Alerter Status Oracle_Watch Fees Subscriptions
begin

text \<open>
  The loops of the probe process on the tables they share: one turn of each, the work of the component it runs
  between two sleeps, an error logged and forgotten. A run of the process interleaves turns of the tasks its
  configuration started with rounds of the scheduler; it is a run of the oracle (theory \<open>Evidence\<close>) on the
  tables of probes and grades.
\<close>

section \<open>The tables of the process\<close>

record process_db =
  px_scorer :: scorer_db
  px_active :: active_table
  px_escrow :: escrow_table
  px_fees :: fee_table
  px_alloc_qos :: "(str \<times> str, alloc_qos_row) table"
  px_samples :: "status_sample list"
  px_watch :: watch_db
  px_peer :: "health_row option"
  px_alerter :: alerter_db
  px_subs :: sub_db
  px_tip :: nat

section \<open>One turn of each loop\<close>

definition ingest_turn :: "str option \<Rightarrow> lodestar_client \<Rightarrow> int \<Rightarrow> json option \<Rightarrow> (int \<Rightarrow> str \<Rightarrow> json option) \<Rightarrow> int \<Rightarrow> int \<Rightarrow>
    process_db \<Rightarrow> process_db" where
  \<comment> \<open>The roster, then the other oracle's figures when there is a gateway key for them.\<close>
  "ingest_turn key c now latest fetch started now' s =
     (let s1 = s\<lparr>px_scorer := (px_scorer s)\<lparr>sd_profiles := snd (run_ingest_once now c (sd_profiles (px_scorer s)))\<rparr>\<rparr> in
      case key of None \<Rightarrow> s1
      | Some _ \<Rightarrow> s1\<lparr>px_alloc_qos := snd (ingest_allocation_qos latest fetch started now' (px_alloc_qos s1))\<rparr>)"

definition subscription_turn :: "lodestar_client \<Rightarrow> (str \<Rightarrow> web) \<Rightarrow> int \<Rightarrow> process_db \<Rightarrow> process_db" where
  "subscription_turn c w now s = s\<lparr>px_subs := subscription_loop [(c, w, now)] (px_subs s)\<rparr>"

definition status_turn :: "(int \<Rightarrow> str) \<Rightarrow> (str \<Rightarrow> status_reply) \<Rightarrow> (status_sample list list \<Rightarrow> status_sample list list) \<Rightarrow>
    status_probe_config \<Rightarrow> process_db \<Rightarrow> process_db" where
  "status_turn show_status http arrive cfg s = s\<lparr>px_samples := snd (run_status_once show_status http arrive (sp_concurrency cfg)
     (load_targets (sd_profiles (px_scorer s)) (sd_qos (px_scorer s))) (px_samples s))\<rparr>"

definition peer_turn :: "(jnum \<Rightarrow> str) \<Rightarrow> int \<Rightarrow> json option \<Rightarrow> process_db \<Rightarrow> process_db" where
  "peer_turn num_text now reply s = s\<lparr>px_peer := snd (check_subgraph_health num_text now reply (px_peer s))\<rparr>"

definition dataedge_turn :: "(str \<Rightarrow> oracle_payload option) \<Rightarrow> (int \<Rightarrow> bool) \<Rightarrow> (str \<Rightarrow> int option) \<Rightarrow> data_edge_config \<Rightarrow>
    (str \<Rightarrow> str reply) \<Rightarrow> (str \<Rightarrow> json option) \<Rightarrow> explorer_tx list option \<Rightarrow> process_db \<Rightarrow> process_db" where
  "dataedge_turn decode valid_ts parse_time cfg get parse page s =
     s\<lparr>px_watch := snd (poll_once decode valid_ts parse_time (capture_of cfg get parse) page (px_watch s))\<rparr>"

definition tip_turn :: "rpc \<Rightarrow> process_db \<Rightarrow> process_db" where
  "tip_turn rpc s = s\<lparr>px_tip := tip_step rpc (px_tip s)\<rparr>"

definition fee_turn :: "(fee_table \<Rightarrow> nat option \<times> fee_table) \<Rightarrow> process_db \<Rightarrow> process_db option" where
  "fee_turn pass s = map_option (\<lambda>t. s\<lparr>px_fees := t\<rparr>) (drain_fees pass (px_fees s))"

definition active_turn :: "(str \<Rightarrow> 8 word list option) \<Rightarrow> (8 word list \<Rightarrow> str) \<Rightarrow> (str \<Rightarrow> rat option) \<Rightarrow> int \<Rightarrow> nest option \<Rightarrow>
    (str \<Rightarrow> json option) \<Rightarrow> process_db \<Rightarrow> process_db" where
  "active_turn unhex b58 numeric now n fetch s =
     s\<lparr>px_active := allocation_turn unhex b58 numeric now n (px_tip s) fetch (px_active s)\<rparr>"

definition escrow_turn :: "(str \<Rightarrow> rat option) \<Rightarrow> rpc \<Rightarrow> tap_config \<Rightarrow> process_db \<Rightarrow> process_db" where
  "escrow_turn numeric rpc cfg s = s\<lparr>px_escrow := snd (escrow_sync numeric rpc cfg (px_active s) (px_escrow s))\<rparr>"

definition rollup_turn :: "(f64 \<Rightarrow> f64) \<Rightarrow> qos_rollup_config \<Rightarrow> int \<Rightarrow> process_db \<Rightarrow> process_db" where
  "rollup_turn fsqrt cfg now s = s\<lparr>px_scorer := on_feed (\<lambda>q. snd (rollup_once fsqrt cfg now q)) (px_scorer s)\<rparr>"

definition score_turn :: "(str \<Rightarrow> str) \<Rightarrow> ((nat \<times> nat list) list \<Rightarrow> (nat \<times> nat list) list) \<Rightarrow> (str list \<Rightarrow> str \<Rightarrow> json option) \<Rightarrow>
    (json \<Rightarrow> str) \<Rightarrow> (str list \<Rightarrow> str list) \<Rightarrow> scoring_config \<Rightarrow> str option \<Rightarrow> int \<Rightarrow> int \<Rightarrow> process_db \<Rightarrow> process_db" where
  \<comment> \<open>The allocation sets of the swarm detection need the gateway key.\<close>
  "score_turn sha sord fetch prn ord cfg key run_start now s = s\<lparr>px_scorer :=
     snd (run_score_once sha sord (map_option (\<lambda>_. fetch) key) prn ord cfg run_start now (px_scorer s))\<rparr>"

definition roster_turn :: "((str, indexer_alert) table \<Rightarrow> (str, indexer_alert) table) \<Rightarrow> (nat \<Rightarrow> json \<Rightarrow> int option) \<Rightarrow> int \<Rightarrow>
    process_db \<Rightarrow> process_db" where
  "roster_turn ord post now s = s\<lparr>px_alerter := snd (alert_cycle ord post now (px_scorer s) (px_alerter s))\<rparr>"

definition self_watch_turn :: "(int \<Rightarrow> str) \<Rightarrow> (nat \<Rightarrow> json \<Rightarrow> int option) \<Rightarrow> int \<Rightarrow> process_db \<Rightarrow> process_db" where
  "self_watch_turn rfc post now s = s\<lparr>px_alerter := snd (alert_score_stall rfc post now (px_scorer s) (px_alerter s))\<rparr>"

definition oracle_watch_turn :: "(int \<Rightarrow> str) \<Rightarrow> (nat \<Rightarrow> json \<Rightarrow> int option) \<Rightarrow> int \<Rightarrow> process_db \<Rightarrow> process_db" where
  "oracle_watch_turn rfc post now s =
     s\<lparr>px_alerter := snd (alert_oracle_stall rfc post now (messages_seen (px_watch s)) (px_alerter s))\<rparr>"

text \<open>A turn of the scheduler: a round that pays from the tables as they are, then, behind a gateway, the new keys.\<close>

definition funded :: "process_db \<Rightarrow> 'a world \<Rightarrow> 'a world" where
  "funded s W = W\<lparr>wd_active := px_active s, wd_escrow := px_escrow s\<rparr>"

definition scheduler_turn :: "lib \<Rightarrow> 'a world \<Rightarrow> foghorn_config \<Rightarrow> nat option \<Rightarrow> test_set list \<Rightarrow>
    (str list \<Rightarrow> allocation_node list option option) \<Rightarrow> int \<Rightarrow> process_db \<Rightarrow> process_db" where
  "scheduler_turn L W cfg paid tss fetch now s =
     (let s1 = probing L (funded s W) cfg paid tss (px_scorer s) in
      s\<lparr>px_scorer := (case gateway cfg of None \<Rightarrow> s1 | Some _ \<Rightarrow> on_feed (resolve_allocation_keys fetch now) s1)\<rparr>)"

section \<open>Runs of the process\<close>

text \<open>The first row of tables is what the process finds in the database. The other process, the API, may change
  the subscriptions at any time. \<open>paid\<close> and the test sets are fixed before the first round.\<close>

inductive process_run :: "client_builds \<Rightarrow> foghorn_config \<Rightarrow> lib \<Rightarrow> nat option \<Rightarrow> test_set list \<Rightarrow> process_db \<Rightarrow>
    'a world list \<Rightarrow> int \<Rightarrow> process_db \<Rightarrow> bool" for b cfg L paid tss s0 where
  began: "process_run b cfg L paid tss s0 [] t s0"
| round: "process_run b cfg L paid tss s0 Ws t s \<Longrightarrow> regular cfg paid W (px_scorer s) \<Longrightarrow>
    process_run b cfg L paid tss s0 (W # Ws) t (scheduler_turn L W cfg paid tss fetch now s)"
| ingest: "process_run b cfg L paid tss s0 Ws t s \<Longrightarrow> Ingest_task l key \<in> set (running b cfg) \<Longrightarrow>
    process_run b cfg L paid tss s0 Ws t (ingest_turn key c now latest fetch' started now' s)"
| subscriptions: "process_run b cfg L paid tss s0 Ws t s \<Longrightarrow> Subscription_task url ls_key \<in> set (running b cfg) \<Longrightarrow>
    process_run b cfg L paid tss s0 Ws t (subscription_turn c w now s)"
| status: "process_run b cfg L paid tss s0 Ws t s \<Longrightarrow> Status_task sc \<in> set (running b cfg) \<Longrightarrow>
    process_run b cfg L paid tss s0 Ws t (status_turn show_status http arrive sc s)"
| peer: "process_run b cfg L paid tss s0 Ws t s \<Longrightarrow> Peer_task pc key \<in> set (running b cfg) \<Longrightarrow>
    process_run b cfg L paid tss s0 Ws t (peer_turn num_text now reply s)"
| dataedge: "process_run b cfg L paid tss s0 Ws t s \<Longrightarrow> Dataedge_task dc \<in> set (running b cfg) \<Longrightarrow>
    process_run b cfg L paid tss s0 Ws t (dataedge_turn decode valid_ts parse_time dc get parse page s)"
| tip: "process_run b cfg L paid tss s0 Ws t s \<Longrightarrow> Tip_task url \<in> set (running b cfg) \<Longrightarrow>
    process_run b cfg L paid tss s0 Ws t (tip_turn rpc s)"
| fees: "process_run b cfg L paid tss s0 Ws t s \<Longrightarrow> Fee_task peer every \<in> set (running b cfg) \<Longrightarrow>
    fee_turn pass s = Some s' \<Longrightarrow> process_run b cfg L paid tss s0 Ws t s'"
| allocations: "process_run b cfg L paid tss s0 Ws t s \<Longrightarrow> Allocation_task key every np \<in> set (running b cfg) \<Longrightarrow>
    (np = None \<longrightarrow> n = None) \<Longrightarrow> process_run b cfg L paid tss s0 Ws t (active_turn unhex b58 numeric now n fetch'' s)"
| escrow: "process_run b cfg L paid tss s0 Ws t s \<Longrightarrow> Escrow_task tc url \<in> set (running b cfg) \<Longrightarrow>
    process_run b cfg L paid tss s0 Ws t (escrow_turn numeric rpc tc s)"
| rollup: "process_run b cfg L paid tss s0 Ws t s \<Longrightarrow> Rollup_task qc \<in> set (running b cfg) \<Longrightarrow>
    process_run b cfg L paid tss s0 Ws t (rollup_turn fsqrt qc now s)"
| score: "process_run b cfg L paid tss s0 Ws t s \<Longrightarrow> Score_task sc' key \<in> set (running b cfg) \<Longrightarrow> t < run_start \<Longrightarrow>
    run_start \<le> now \<Longrightarrow>
    process_run b cfg L paid tss s0 Ws now (score_turn sha sord fetch''' prn ord sc' key run_start now s)"
| roster: "process_run b cfg L paid tss s0 Ws t s \<Longrightarrow> Roster_task hook \<in> set (running b cfg) \<Longrightarrow>
    process_run b cfg L paid tss s0 Ws t (roster_turn rord post now s)"
| self_watch: "process_run b cfg L paid tss s0 Ws t s \<Longrightarrow> Self_watch_task hook \<in> set (running b cfg) \<Longrightarrow>
    process_run b cfg L paid tss s0 Ws t (self_watch_turn rfc post now s)"
| oracle_watch: "process_run b cfg L paid tss s0 Ws t s \<Longrightarrow> Oracle_watch_task hook \<in> set (running b cfg) \<Longrightarrow>
    process_run b cfg L paid tss s0 Ws t (oracle_watch_turn rfc post now s)"
| api: "process_run b cfg L paid tss s0 Ws t s \<Longrightarrow> process_run b cfg L paid tss s0 Ws t (s\<lparr>px_subs := d\<rparr>)"

lemmas turn_defs = ingest_turn_def subscription_turn_def status_turn_def peer_turn_def dataedge_turn_def tip_turn_def
  fee_turn_def active_turn_def escrow_turn_def rollup_turn_def score_turn_def roster_turn_def self_watch_turn_def
  oracle_watch_turn_def scheduler_turn_def

text \<open>The configuration of a running task is the one the process was given.\<close>

lemma running_config: "Score_task sc key \<in> set (running b cfg) \<Longrightarrow> sc = scoring cfg \<and> key = gateway_key cfg"
  "Rollup_task qc \<in> set (running b cfg) \<Longrightarrow> qc = qos_rollup cfg"
  by (auto simp: running_def spawned_def lodestar_tasks_def paying_tasks_def alert_tasks_def split: option.splits if_splits)

lemma funded_regular: "regular cfg paid (funded s W) = regular cfg paid W"
  by (simp add: regular_def funded_def fun_eq_iff)

section \<open>A run of the process is a run of the oracle\<close>

definition unprobed :: "process_db \<Rightarrow> bool" where
  "unprobed s \<longleftrightarrow> probe_tables (px_scorer s) = empty_db \<and> sd_verdicts (px_scorer s) = [] \<and> sd_attention (px_scorer s) = []"

lemma scheduler_runs:
  assumes "oracle_run L cfg paid Ws t (px_scorer s)" and "regular cfg paid W (px_scorer s)"
  shows "oracle_run L cfg paid (funded s W # Ws) t (px_scorer (scheduler_turn L W cfg paid tss fetch now s))"
proof -
  have "oracle_run L cfg paid (funded s W # Ws) t (probing L (funded s W) cfg paid tss (px_scorer s))"
    by (rule oracle_run.probed [OF assms(1)]) (simp add: funded_regular assms(2))
  from this oracle_run.resolved_keys [OF this, of fetch now] show ?thesis
    by (cases "gateway cfg") (simp_all add: scheduler_turn_def Let_def)
qed

lemma process_oracle:
  assumes "process_run b cfg L paid tss s0 (Ws :: 'a world list) t s" and "unprobed s0"
  shows "\<exists>Vs. oracle_run L cfg paid (Vs :: 'a world list) t (px_scorer s)"
  using assms
proof (induction rule: process_run.induct)
  case (began t)
  then show ?case by (intro exI [of _ "[]"] oracle_run.start) (simp_all add: unprobed_def)
next
  case (round Ws t s W fetch now)
  then obtain Vs :: "'a world list" where "oracle_run L cfg paid Vs t (px_scorer s)" by blast
  from scheduler_runs [OF this round.hyps(2)] show ?case by blast
next
  case (ingest Ws t s l key c now latest fetch' started now')
  then obtain Vs :: "'a world list" where "oracle_run L cfg paid Vs t (px_scorer s)" by blast
  from oracle_run.ingested [OF this] show ?case by (auto simp: ingest_turn_def Let_def split: option.split)
next
  case (rollup Ws t s qc fsqrt now)
  then obtain Vs :: "'a world list" where "oracle_run L cfg paid Vs t (px_scorer s)" by blast
  from oracle_run.rolled_up [OF this] show ?case using running_config(2) [OF rollup.hyps(2)] by (auto simp: rollup_turn_def)
next
  case (score Ws t s sc' key run_start now sha sord fetch''' prn ord)
  then obtain Vs :: "'a world list" where "oracle_run L cfg paid Vs t (px_scorer s)" by blast
  from oracle_run.scored [OF this score.hyps(3,4)] show ?case
    by (intro exI [of _ Vs]) (simp add: score_turn_def running_config(1) [OF score.hyps(2)])
next
  case (fees Ws t s peer every pass s')
  then show ?case by (auto simp: fee_turn_def)
qed (auto simp: turn_defs)

section \<open>What the configuration switches off\<close>

lemma idle_tasks:
  "\<not> tap_enabled (tap cfg) \<Longrightarrow> Tip_task u \<notin> set (running b cfg) \<and> Fee_task p i \<notin> set (running b cfg)
    \<and> Allocation_task k e n \<notin> set (running b cfg) \<and> Escrow_task c u \<notin> set (running b cfg)"
  "alert_webhook cfg = None \<or> alert_webhook cfg = Some '''' \<Longrightarrow> Roster_task h \<notin> set (running b cfg)
    \<and> Self_watch_task h \<notin> set (running b cfg) \<and> Oracle_watch_task h \<notin> set (running b cfg)"
  "gateway cfg = None \<Longrightarrow> Peer_task pc k \<notin> set (running b cfg) \<and> Allocation_task k e n \<notin> set (running b cfg)
    \<and> (Ingest_task l k \<in> set (running b cfg) \<longrightarrow> k = None)"
  "lodestar cfg = None \<Longrightarrow> Ingest_task l k \<notin> set (running b cfg)"
  using no_tap_no_paying_task
  by (auto simp: running_def starts_def gateway_key_def spawned_def lodestar_tasks_def paying_tasks_def alert_tasks_def
      split: option.splits if_splits)

lemma score_profiles: "sd_profiles (snd (run_score_once sha sord fetch prn ord cfg run_start now s)) = sd_profiles s"
proof -
  obtain sybils s1 where c: "cycle_start sha sord fetch prn now s = (sybils, s1)" by fastforce
  obtain n s' where r: "run_score_once sha sord fetch prn ord cfg run_start now s = (n, s')" by fastforce
  have "sd_profiles s' = sd_profiles s" by (rule cycle_touches [OF c refl r])
  then show ?thesis by (simp add: r)
qed

lemma tap_off:
  assumes "process_run b cfg L paid tss s0 Ws t s" and "\<not> tap_enabled (tap cfg)"
  shows "px_active s = px_active s0 \<and> px_escrow s = px_escrow s0 \<and> px_fees s = px_fees s0 \<and> px_tip s = px_tip s0"
  using assms by (induction rule: process_run.induct) (auto simp: turn_defs Let_def idle_tasks(1) split: option.split)

lemma webhook_off:
  assumes "process_run b cfg L paid tss s0 Ws t s" and "alert_webhook cfg = None \<or> alert_webhook cfg = Some ''''"
  shows "px_alerter s = px_alerter s0"
  using assms by (induction rule: process_run.induct)
    (auto simp: turn_defs Let_def idle_tasks(2) [OF assms(2)] split: option.split)

lemma gateway_off:
  assumes "process_run b cfg L paid tss s0 Ws t s" and "gateway cfg = None"
  shows "px_active s = px_active s0 \<and> px_peer s = px_peer s0 \<and> px_alloc_qos s = px_alloc_qos s0"
  using assms by (induction rule: process_run.induct)
    (auto simp: turn_defs Let_def idle_tasks(3) [OF assms(2)] dest: idle_tasks(3) [OF assms(2), THEN conjunct2, THEN conjunct2, rule_format]
      split: option.split)

lemma lodestar_off:
  assumes "process_run b cfg L paid tss s0 Ws t s" and "lodestar cfg = None"
  shows "sd_profiles (px_scorer s) = sd_profiles (px_scorer s0) \<and> px_alloc_qos s = px_alloc_qos s0"
  using assms by (induction rule: process_run.induct)
    (auto simp: turn_defs Let_def idle_tasks(4) [OF assms(2)] score_profiles probing_def on_feed_def split: option.split)

end
