(* ===== verification/Evidence_Props.thy ===== *)
theory Evidence_Props
  imports Loops
begin

text \<open>
  What the runs of theories \<open>Evidence\<close> and \<open>Loops\<close> come to: a judged fault, and with it a public accusation, rests on
  strict majorities of stored answers; and one run from the probes to the accusation.
\<close>

section \<open>What a fault rests on\<close>

lemma process_backed: "process_run b cfg L paid tss s0 Ws t s \<Longrightarrow> unprobed s0 \<Longrightarrow> backed (probe_tables (px_scorer s))"
  using process_oracle run_backed by blast

definition outvoted :: "judge_db \<Rightarrow> str \<Rightarrow> str option \<Rightarrow> bool" where
  \<comment> \<open>More than half of the stored answers of the probe agree on another hash.\<close>
  "outvoted d pid a \<longleftrightarrow> (\<exists>h h'. a = Some h \<and> h' \<noteq> h \<and> responders d pid < 2 * copies (jd_probe d) pid h')"

lemma minority_outvoted:
  assumes "backed (jd_probe d)"
  shows "minority d pid o' \<longleftrightarrow> map_of (divergences (jd_probe d)) pid \<noteq> None \<and> outvoted d pid (ob_response_hash o')"
proof (cases "map_of (divergences (jd_probe d)) pid")
  case (Some v)
  let ?H = "dv_largest_by_count_hash v" and ?c = "copies (jd_probe d) pid"
  note b = backedD [OF assms Some]
  have "minority d pid o' \<longleftrightarrow> (\<exists>h. ob_response_hash o' = Some h \<and> h \<noteq> ?H \<and> responders d pid < 2 * ?c ?H)"
    by (auto simp: minority_def Some b(1) split: option.split)
  moreover have "(h \<noteq> ?H \<and> responders d pid < 2 * ?c ?H) \<longleftrightarrow> (\<exists>h'. h' \<noteq> h \<and> responders d pid < 2 * ?c h')" for h
  proof
    assume "\<exists>h'. h' \<noteq> h \<and> responders d pid < 2 * ?c h'"
    then obtain h' where h': "h' \<noteq> h" "responders d pid < 2 * ?c h'" by blast
    then show "h \<noteq> ?H \<and> responders d pid < 2 * ?c ?H"
      using b(2) [of h'] copies_disjoint [OF h'(1), of d pid] by auto
  next
    assume "h \<noteq> ?H \<and> responders d pid < 2 * ?c ?H"
    then show "\<exists>h'. h' \<noteq> h \<and> responders d pid < 2 * ?c h'" by (intro exI [of _ ?H]) auto
  qed
  ultimately show ?thesis using Some by (auto simp: outvoted_def)
qed (simp add: minority_def split: option.split)

text \<open>
  C2. Every fault, in every run of the process, is an answer outvoted by a strict majority: whatever rounds, failed
  ones included, attributions, scoring cycles, rollups, ingests and turns of the other loops came before in whatever
  order, a judged answer is a fault exactly when its probe has a cluster row, more than half of the probe's stored
  answers agree on a hash other than its own, and, where the judgement excuses them, its deployment is not flagged
  non-deterministic.
\<close>

theorem faults_rest_on_majorities:
  assumes "process_run b cfg L paid tss s0 Ws t s" and "unprobed s0" and "d = qd_judge (sd_qos (px_scorer s))"
    and "j \<in> set (judged_probes d since excuse)"
  shows "jr_fault j \<longleftrightarrow> map_of (divergences (jd_probe d)) (jr_probe_id j) \<noteq> None
    \<and> outvoted d (jr_probe_id j) (jr_response_hash j)
    \<and> (excuse \<longrightarrow> map_of (jd_nondeterministic d) (jr_deployment_id j) = None)"
proof -
  obtain r where "judged_row_of d since excuse r = Some j"
    using assms(4) by (auto simp: judged_probes_def set_map_filter)
  then obtain pid addr o' where o': "judged_row_of d since excuse ((pid, addr), o') = Some j" by (metis surj_pair)
  have "backed (jd_probe d)" using process_backed [OF assms(1,2)] assms(3) by simp
  from minority_outvoted [OF this, of pid o'] o' show ?thesis
    by (auto simp: judged_row_of_def split: option.splits if_splits)
qed

section \<open>What an accusation rests on\<close>

definition contradicted :: "judge_db \<Rightarrow> int \<Rightarrow> str \<Rightarrow> str \<Rightarrow> bool" where
  \<comment> \<open>In this probe, dispatched in the window for a deployment that is not flagged, an answer that counts against
    this indexer is outvoted.\<close>
  "contradicted d since a pid \<longleftrightarrow> (\<exists>addr o' p. ((pid, addr), o') \<in> set (observations (jd_probe d))
     \<and> map_of (probes (jd_probe d)) pid = Some p \<and> since < pr_dispatched_at p
     \<and> map_of (jd_nondeterministic d) (pr_deployment_id p) = None
     \<and> counted d addr o' \<and> to_lower (identity d addr) = a \<and> outvoted d pid (ob_response_hash o'))"

lemma fault_contradicted:
  assumes "backed (jd_probe d)" and "j \<in> set (judged_probes d since True)" and "jr_fault j"
  shows "contradicted d since (to_lower (jr_indexer_address j)) (jr_probe_id j)"
proof -
  obtain r where r: "r \<in> set (observations (jd_probe d))" "judged_row_of d since True r = Some j"
    using assms(2) by (auto simp: judged_probes_def set_map_filter)
  obtain pid addr o' where o': "r = ((pid, addr), o')" by (metis surj_pair)
  show ?thesis using r assms(3) minority_outvoted [OF assms(1), of pid o'] unfolding o' contradicted_def
    by (auto simp: judged_row_of_def recent_probe_def split: option.splits if_splits) blast
qed

lemma load_agg_row: "map_of (load_probe_agg d since) a = Some g \<Longrightarrow>
    \<exists>a'. (a', g) \<in> set (probe_agg_rows d since) \<and> to_lower a' = a"
proof -
  have "map_of (foldl (\<lambda>m (a, g). tput (to_lower a) g m) m rows) a = Some g \<Longrightarrow>
      map_of m a = Some g \<or> (\<exists>a'. (a', g) \<in> set rows \<and> to_lower a' = a)"
    for rows :: "(str \<times> probe_agg) list" and m
    by (induction rows arbitrary: m) (fastforce split: if_splits)+
  from this [of "[]"] show "map_of (load_probe_agg d since) a = Some g \<Longrightarrow>
    \<exists>a'. (a', g) \<in> set (probe_agg_rows d since) \<and> to_lower a' = a"
    by (simp add: load_probe_agg_def)
qed

lemma faults_contradicted:
  assumes "backed (jd_probe d)" and "map_of (load_probe_agg d since) a = Some g"
  shows "\<exists>ps. distinct ps \<and> ag_faults g = int (length ps) \<and> (\<forall>pid \<in> set ps. contradicted d since a pid)"
proof -
  obtain a' where a': "(a', g) \<in> set (probe_agg_rows d since)" "to_lower a' = a" using load_agg_row [OF assms(2)] by blast
  then obtain items where "(a', items) \<in> set (group_pairs (agg_items d since))" "g = agg_of d items"
    by (auto simp: probe_agg_rows_def)
  then have "agg_of d (values_at a' (agg_items d since)) = g" by (simp add: group_entry)
  note c = agg_counts [OF this]
  let ?ps = "map jr_probe_id (filter jr_fault (filter (\<lambda>j. jr_indexer_address j = a') (judged_probes d since True)))"
  have "contradicted d since a pid" if "pid \<in> set ?ps" for pid
    using that fault_contradicted [OF assms(1)] a'(2) by auto
  moreover have "ag_faults g = int (length (remdups ?ps))" using c by (simp add: count_distinct_def)
  ultimately show ?thesis by (intro exI [of _ "remdups ?ps"]) simp
qed

text \<open>After a run the public tables have one row per key, none seen later than the last cycle.\<close>

definition seen_by :: "int \<Rightarrow> scorer_db \<Rightarrow> bool" where
  "seen_by t s \<longleftrightarrow> twf (sd_verdicts s) \<and> (\<forall>k r. map_of (sd_verdicts s) k = Some r \<longrightarrow> vr_last_seen r \<le> t)"

lemma cycle_verdicts:
  assumes "seen_by t0 s" and "t0 < run_start" and "run_start \<le> now"
    and "cycle_start sha sord fetch prn now s = (sybils, s1)" and "t = load_tables cfg now sybils (primary cfg) s1"
    and "run_score_once sha sord fetch prn ord cfg run_start now s = (n, s')"
  shows "seen_by now s'"
    and "map_of (sd_verdicts s') k \<noteq> None \<longleftrightarrow> k \<in> verdict_key ` set (emitted oc_verdicts ord cfg t)"
    and "sd_qos s' = sd_qos s1"
proof -
  obtain vs where
    V: "touched vr_first_seen vr_last_seen now (verdict_key ` set (emitted oc_verdicts ord cfg t)) (sd_verdicts s) vs"
    and s': "sd_verdicts s' = tdel (\<lambda>_ r. vr_last_seen r < run_start) vs" "sd_qos s' = sd_qos s1"
    by (rule cycle_touches [OF assms(4-6)])
  show "sd_qos s' = sd_qos s1" by (rule s'(2))
  have wf: "twf (sd_verdicts s)" and old: "\<forall>k r. map_of (sd_verdicts s) k = Some r \<longrightarrow> vr_last_seen r < run_start"
    using assms(1,2) by (auto simp: seen_by_def intro: le_less_trans)
  have row: "(if k \<in> verdict_key ` set (emitted oc_verdicts ord cfg t)
      then \<exists>r. map_of (sd_verdicts s') k = Some r \<and> vr_last_seen r = now else map_of (sd_verdicts s') k = None)" for k
    using touched_prune [OF V wf old assms(3), of k] touchedD(2) [OF V, of k] by (auto simp: s'(1) seen_row_def)
  from row [of k] show "map_of (sd_verdicts s') k \<noteq> None \<longleftrightarrow> k \<in> verdict_key ` set (emitted oc_verdicts ord cfg t)"
    by (auto split: if_splits)
  have "vr_last_seen r \<le> now" if "map_of (sd_verdicts s') k = Some r" for k r
    using row [of k] that by (auto split: if_splits)
  then show "seen_by now s'" using touchedD(1) [OF V wf] by (simp add: seen_by_def s'(1) twf_tdel)
qed

lemma run_seen: "oracle_run L cfg paid Ws t s \<Longrightarrow> seen_by t s"
proof (induction rule: oracle_run.induct)
  case (scored Ws t s run_start now sha sord fetch prn ord)
  obtain sybils s1 where c: "cycle_start sha sord fetch prn now s = (sybils, s1)" by fastforce
  obtain n s' where r: "run_score_once sha sord fetch prn ord (scoring cfg) run_start now s = (n, s')" by fastforce
  from cycle_verdicts(1) [OF scored.IH scored.hyps(2,3) c refl r] show ?case by (simp add: r)
qed (simp_all add: seen_by_def probing_def on_feed_def twf_def)

lemma emitted_bad_data:
  assumes "(a, ''serving-bad-data'') \<in> verdict_key ` set (emitted oc_verdicts ord cfg t)"
  shows "is_serving_bad_data (assemble t a (primary cfg)) cfg"
proof -
  obtain b v where v: "v \<in> set (oc_verdicts (judge (assemble t b (primary cfg)) cfg))" "verdict_key v = (a, ''serving-bad-data'')"
    using assms by (auto simp: emitted_def)
  have "vd_indexer_address v = b" using verdict_address [OF v(1)] by (simp add: assemble_def Let_def)
  then have b: "b = a" using v(2) by (simp add: verdict_key_def)
  have "is_serving_bad_data i cfg" if "v \<in> set (derive_verdicts i cfg sc)" for i sc
    using that v(2) by (auto simp: derive_verdicts_def mk_verdict_def verdict_key_def Let_def split: if_splits option.splits)
  then show ?thesis using v(1) unfolding b
    by (auto simp: judge_def judge_unrated_def judge_rated_def Let_def split: if_splits)
qed

text \<open>
  C1. Nobody is publicly accused of serving bad data without the evidence: whatever came before, when a scoring
  cycle leaves the verdict in the public table there are at least as many different probes as the configured
  minimum, each dispatched within the longest window for a deployment not flagged non-deterministic, in which an
  answer that counts against the accused is outvoted by more than half of the stored answers.
\<close>

theorem accusation_needs_majorities:
  assumes "process_run b cfg L paid tss s0 (Ws :: 'a world list) t s" and "unprobed s0" and "t < run_start" and "run_start \<le> now"
    and "s' = score_turn sha sord fetch prn ord (scoring cfg) (gateway_key cfg) run_start now s"
    and "map_of (sd_verdicts (px_scorer s')) (a, ''serving-bad-data'') \<noteq> None"
  shows "\<exists>ps. distinct ps \<and> bad_data_min_faults (scoring cfg) \<le> int (length ps)
    \<and> (\<forall>pid \<in> set ps. contradicted (qd_judge (sd_qos (px_scorer s'))) (now - days (primary (scoring cfg))) a pid)"
proof -
  let ?fetch = "map_option (\<lambda>_. fetch) (gateway_key cfg)"
  obtain sybils s1 where c: "cycle_start sha sord ?fetch prn now (px_scorer s) = (sybils, s1)" by fastforce
  obtain n s2 where r: "run_score_once sha sord ?fetch prn ord (scoring cfg) run_start now (px_scorer s) = (n, s2)" by fastforce
  have s': "px_scorer s' = s2" using assms(5) r by (simp add: score_turn_def)
  obtain Vs :: "'a world list" where run: "oracle_run L cfg paid Vs t (px_scorer s)" using process_oracle [OF assms(1,2)] by blast
  let ?d = "qd_judge (sd_qos s1)" and ?t = "load_tables (scoring cfg) now sybils (primary (scoring cfg)) s1"
  note v = cycle_verdicts [OF run_seen [OF run] assms(3,4) c refl r]
  have "oracle_run L cfg paid Vs now s2" using oracle_run.scored [OF run assms(3,4)] r by (metis snd_conv)
  then have b: "backed (jd_probe ?d)" using run_backed v(3) by metis
  have "is_serving_bad_data (assemble ?t a (primary (scoring cfg))) (scoring cfg)"
    by (rule emitted_bad_data) (use assms(6) v(2) s' in blast)
  then have f: "bad_data_min_faults (scoring cfg) \<le> ag_faults (opt_or (map_of (st_agg ?t) a) agg_default)"
    by (simp add: is_serving_bad_data_def assemble_def Let_def)
  have agg: "st_agg ?t = load_probe_agg ?d (now - days (primary (scoring cfg)))" by (simp add: load_tables_def)
  show ?thesis
  proof (cases "map_of (st_agg ?t) a")
    case None
    then show ?thesis using f by (intro exI [of _ "[]"]) (simp add: opt_or_def agg_default_def)
  next
    case (Some g)
    then show ?thesis using faults_contradicted [OF b Some [unfolded agg]] f by (auto simp: opt_or_def v(3) s')
  qed
qed

section \<open>One run, end to end\<close>

text \<open>Three indexers are asked directly, one of them answers differently.\<close>

definition split_lib :: lib where
  "split_lib = \<lparr>lib_parse = (\<lambda>s. if s = ''good'' then Some (JObj [(''data'', JObj [])])
       else if s = ''bad'' then Some (JObj [(''data'', JObj [(''a'', JBool True)])]) else None),
     lib_text = (\<lambda>_. ''text''), lib_quote = quote, lib_float = write_float,
     lib_digest = (\<lambda>s. if length s < 12 then ''h1'' else ''h2''), lib_unhex = (\<lambda>_. None), lib_hex = (\<lambda>_. ''signer''),
     lib_keccak = (\<lambda>_. []), lib_recover = (\<lambda>_ _ _ _. None)\<rparr>"

definition split_world :: "unit world" where
  "split_world = sample_world\<lparr>wd_direct := (\<lambda>_ url _ _. Response 200 7 None
     (Some (if hd url = CHR ''b'' then ''bad'' else ''good'')))\<rparr>"

definition direct_indexer :: "char \<Rightarrow> indexer_config" where
  "direct_indexer c = \<lparr>ic_address = [CHR ''0'', CHR ''x'', c], ic_url = [c], ic_auth_token = None, ic_stake_grt = None\<rparr>"

definition split_scoring :: scoring_config where
  "split_scoring = scoring_default\<lparr>bad_data_min_faults := 1\<rparr>"

definition split_config :: foghorn_config where
  "split_config = sample_config\<lparr>opted_in_indexers := map direct_indexer ''abc'', scoring := split_scoring\<rparr>"

definition blank_db :: scorer_db where
  "blank_db = idle_db\<lparr>sd_profiles := [], sd_verdicts := []\<rparr>"

definition split_answer :: "char \<Rightarrow> str \<Rightarrow> str \<Rightarrow> raw_observation" where
  "split_answer c h raw = \<lparr>ro_indexer_address = [CHR ''0'', CHR ''x'', c], ro_response_hash = Some h, ro_raw_response = Some raw,
     ro_latency_ms = 7, ro_meta_block_number = None, ro_meta_block_hash = None, ro_http_status = Some 200,
     ro_error_class = None, ro_stake_weight = Fin 1, ro_request_cid = None, ro_response_cid = None,
     ro_attestation = None, ro_dispatch_mode = ''paid''\<rparr>"

definition split_obs :: "raw_observation list" where
  "split_obs = [split_answer (CHR ''a'') ''h1'' ''good'', split_answer (CHR ''b'') ''h2'' ''bad'', split_answer (CHR ''c'') ''h1'' ''good'']"

lemma split_probe: "execute_probe split_lib (wd_direct split_world 0)
    \<lparr>pq_indexer_address = [CHR ''0'', CHR ''x'', c], pq_indexer_url = [c], pq_deployment_ipfs_hash = ''Qm1'', pq_query = ''q'',
     pq_block_hash = ''0xb'', pq_auth_token = None, pq_stake_weight = Fin 1\<rparr>
  = (if c = CHR ''b'' then split_answer c ''h2'' ''bad'' else split_answer c ''h1'' ''good'')" if "c \<in> set ''abc''"
proof -
  have "c = CHR ''a'' \<or> c = CHR ''b'' \<or> c = CHR ''c''" using that by simp
  then show ?thesis by (elim disjE; simp only:; code_simp)
qed

abbreviation split_job :: job where
  "split_job \<equiv> \<lparr>jb_test_set = sample_test_set, jb_category = ''Q_byid'', jb_query = ''q'', jb_block_number = 4, jb_block_hash = ''0xb''\<rparr>"

lemma split_fields: "gateway split_config = None" "opted_in_indexers split_config = map direct_indexer ''abc''"
  "scoring split_config = split_scoring" "ts_ipfs_hash sample_test_set = ''Qm1''" "ts_id sample_test_set = ''Qm1''"
  by (simp_all add: split_config_def sample_config_def foghorn_default_def sample_test_set_def)

lemma split_observed: "observe split_lib split_world split_config None 0 split_job = Some split_obs"
  "dedup_by_address split_obs = split_obs"
proof -
  have "direct_observations split_lib split_world split_config 0 split_job = split_obs"
    by (simp add: direct_observations_def split_fields direct_indexer_def parse_stake_weight_def split_probe split_obs_def
        F_def [symmetric] del: F_def)
  then show "observe split_lib split_world split_config None 0 split_job = Some split_obs"
    by (simp add: observe_def split_fields paid_observations_def)
  show "dedup_by_address split_obs = split_obs" by (simp add: dedup_by_address_def split_obs_def split_answer_def)
qed

lemma split_jobs: "concat (map (jobs_of split_world split_config) (enumerate 0 [sample_test_set])) = [split_job]"
proof -
  have "jobs_of split_world split_config = jobs_of sample_world sample_config"
    by (intro ext) (simp add: jobs_of_def split_world_def split_config_def split: option.split prod.split)
  then show ?thesis by (simp only: sample_jobs)
qed

definition split_row :: probe_row where
  "split_row = \<lparr>pr_deployment_id = ''Qm1'', pr_block_hash = ''0xb'', pr_block_number = 4, pr_query_hash = ''q'',
     pr_query_category = ''Q_byid'', pr_query_text = ''q'', pr_dispatched_at = 0\<rparr>"

definition split_stored :: "divergence_row \<Rightarrow> probe_db" where
  "split_stored v = \<lparr>probes = [('''', split_row)],
     observations = map (\<lambda>o'. (('''', ro_indexer_address o'), the (observation_of (\<lambda>_. None) o'))) split_obs,
     divergences = [('''', v)]\<rparr>"

lemma split_round: "\<exists>v. run_probe_round split_lib split_world split_config None [sample_test_set] empty_db = (RoundOk 1, split_stored v)
    \<and> dv_largest_by_count_hash v = ''h1'' \<and> dv_largest_by_count_size v = 2"
proof -
  let ?I = "map cluster_input_of split_obs"
  have w: "wd_order split_world 0 = (\<lambda>m. m)" "wd_uuid split_world 0 = ''''" "wd_now split_world 0 = 0"
    "wd_sha256 split_world ''q'' = ''q''" "wd_jsonb split_world = lib_parse sample_lib"
    by (simp_all add: split_world_def sample_world_def)
  obtain r where r: "compute_clusters (lib_parse split_lib) (wd_jdiff split_world) (\<lambda>m. m) ?I = Some r"
    using compute_total [OF permutes_id] by (force simp: split_obs_def split_answer_def cluster_input_of_def)
  have n: "answered ?I = 3" "hash_count ''h1'' ?I = 2"
    by (simp_all add: answered_def hash_count_def split_obs_def split_answer_def cluster_input_of_def)
  have "length ?I < 2 ^ 31" by (simp add: split_obs_def)
  note l = largest_cluster [OF permutes_id this r]
  have big: "largest_by_count_hash r = ''h1''" by (rule l(3)) (simp add: n)
  then have size: "largest_by_count_size r = 2" using l(1) n by simp
  have ok: "fst (store_results jsonb pid split_row split_obs r empty_db)" for jsonb pid
    by (simp add: store_ok_iff split_obs_def split_answer_def observation_of_def)
  have dist: "distinct (map ro_indexer_address split_obs)" by (simp add: split_obs_def split_answer_def)
  have st: "snd (store_results (wd_jsonb split_world) '''' split_row split_obs r empty_db) = split_stored (divergence_of r 0)"
  proof (rule probe_db.equality)
    have fresh: "fresh_probe '''' empty_db" by (simp add: fresh_probe_def empty_db_def)
    have same: "map (\<lambda>o'. (('''', ro_indexer_address o'), the (observation_of jsonb o'))) split_obs
        = observations (split_stored (divergence_of r 0))" for jsonb
      by (simp add: split_stored_def split_obs_def split_answer_def observation_of_def)
    show "observations (snd (store_results (wd_jsonb split_world) '''' split_row split_obs r empty_db))
        = observations (split_stored (divergence_of r 0))"
      unfolding stored_observations [OF fresh dist ok] same by (simp add: empty_db_def)
  qed (use ok big size in \<open>simp_all add: store_probes store_divergences split_stored_def empty_db_def tput_new_def split_row_def\<close>)
  have st': "store_results (wd_jsonb split_world) '''' split_row split_obs r empty_db = (True, split_stored (divergence_of r 0))"
    using ok [of "wd_jsonb split_world" "''''"] st by (metis prod.collapse)
  have "i64w 4 = 4" by (simp add: i64w_def)
  then have "run_probe_round split_lib split_world split_config None [sample_test_set] empty_db
      = (RoundOk 1, split_stored (divergence_of r 0))"
    unfolding run_probe_round_def split_jobs using r st' by (simp add: split_observed split_fields w(1-4) split_row_def)
  then show ?thesis using big size by (auto simp: divergence_of_def)
qed

definition split_db :: "divergence_row \<Rightarrow> scorer_db" where
  "split_db v = on_feed (\<lambda>q. q\<lparr>qd_judge := (qd_judge q)\<lparr>jd_probe := split_stored v\<rparr>\<rparr>) blank_db"

definition no_clients :: client_builds where
  "no_clients = \<lparr>cb_lodestar = False, cb_nest = False, cb_fee_nest = False, cb_ingest = False, cb_peer = False, cb_tip = False,
     cb_roster = False, cb_self_watch = False, cb_oracle_watch = False\<rparr>"

definition lone_scorer :: "scorer_db \<Rightarrow> process_db" where
  "lone_scorer s = \<lparr>px_scorer = s, px_active = [], px_escrow = [], px_fees = [], px_alloc_qos = [], px_samples = [],
     px_watch = \<lparr>wa_messages = [], wa_payloads = []\<rparr>, px_peer = None,
     px_alerter = \<lparr>ad_members = [], ad_last_post = None, ad_last_fingerprint = None, ad_flags = []\<rparr>,
     px_subs = \<lparr>subs = [], sub_states = []\<rparr>, px_tip = 0\<rparr>"

abbreviation split_process :: "unit world list \<Rightarrow> process_db \<Rightarrow> bool" where
  "split_process Ws s \<equiv> process_run no_clients split_config split_lib None [sample_test_set] (lone_scorer blank_db) Ws 0 s"

lemma blank_unprobed: "unprobed (lone_scorer blank_db)"
  by (simp add: unprobed_def lone_scorer_def blank_db_def idle_db_def)

lemma split_run:
  obtains v where "split_process [split_world] (lone_scorer (split_db v))"
    and "dv_largest_by_count_hash v = ''h1''" and "dv_largest_by_count_size v = 2"
proof -
  obtain v where v: "run_probe_round split_lib split_world split_config None [sample_test_set] empty_db = (RoundOk 1, split_stored v)"
      "dv_largest_by_count_hash v = ''h1''" "dv_largest_by_count_size v = 2"
    using split_round by blast
  have b: "probe_tables blank_db = empty_db" by (simp add: blank_db_def idle_db_def)
  have "inj (wd_uuid split_world)" using sample_inj by (simp add: split_world_def)
  moreover have "widest split_config None = 3" by (simp add: widest_def split_fields)
  ultimately have "regular split_config None split_world (px_scorer (lone_scorer blank_db))"
    using permutes_id by (simp add: regular_def lone_scorer_def b empty_db_def) (simp add: split_world_def sample_world_def)
  from process_run.round [OF process_run.began this]
  have "split_process [split_world] (scheduler_turn split_lib split_world split_config None [sample_test_set] (\<lambda>_. None) 0 (lone_scorer blank_db))" .
  moreover have "funded (lone_scorer blank_db) split_world = split_world"
    by (simp add: funded_def lone_scorer_def split_world_def sample_world_def)
  ultimately have "split_process [split_world] (lone_scorer (split_db v))"
    using b v(1) by (simp add: scheduler_turn_def split_fields probing_def split_db_def) (simp add: on_feed_def lone_scorer_def)
  then show thesis using that v(2,3) by blast
qed

definition split_judgement :: "char \<Rightarrow> str \<Rightarrow> bool \<Rightarrow> judged_row" where
  "split_judgement c h f = \<lparr>jr_indexer_address = [CHR ''0'', CHR ''x'', c], jr_probe_id = '''', jr_deployment_id = ''Qm1'',
     jr_query_category = ''Q_byid'', jr_dispatched_at = 0, jr_latency_ms = 7, jr_response_hash = Some h, jr_fault = f\<rparr>"

definition split_judge :: "divergence_row \<Rightarrow> judge_db" where
  "split_judge v = \<lparr>jd_probe = split_stored v, jd_allocation_map = [], jd_nondeterministic = []\<rparr>"

lemma split_judge_db: "qd_judge (sd_qos (split_db v)) = split_judge v"
  by (simp add: split_db_def on_feed_def blank_db_def idle_db_def split_judge_def)

definition split_row_of :: "char \<times> str \<Rightarrow> observation_row" where
  "split_row_of x = (case x of (c, h) \<Rightarrow> the (observation_of (\<lambda>_. None) (split_answer c h '''')))"

lemma split_tables: "probes (split_stored v) = [('''', split_row)]" "divergences (split_stored v) = [('''', v)]"
  "observations (split_stored v) = map (\<lambda>(c, h). (('''', [CHR ''0'', CHR ''x'', c]), split_row_of (c, h)))
     [(CHR ''a'', ''h1''), (CHR ''b'', ''h2''), (CHR ''c'', ''h1'')]"
  "jd_probe (split_judge v) = split_stored v" "jd_allocation_map (split_judge v) = []" "jd_nondeterministic (split_judge v) = []"
  by (simp_all add: split_row_of_def split_stored_def split_obs_def split_answer_def observation_of_def split_judge_def)

lemma split_row_of_fields: "ob_response_hash (split_row_of (c, h)) = Some h" "ob_dispatch_mode (split_row_of (c, h)) = ''paid''"
  "ob_error_class (split_row_of (c, h)) = None" "ob_latency_ms (split_row_of (c, h)) = 7"
  by (simp_all add: split_row_of_def split_answer_def observation_of_def)

lemma split_recent: "since < 0 \<Longrightarrow> recent_probe (split_judge v) since '''' = Some split_row"
  by (simp add: recent_probe_def split_tables split_row_def)

lemma split_counted: "counted (split_judge v) addr (split_row_of (c, h))" "identity (split_judge v) addr = addr"
  by (simp_all add: counted_def resolved_def identity_def split_row_of_fields split_tables)

lemma split_minority:
  assumes "dv_largest_by_count_hash v = ''h1''" and "dv_largest_by_count_size v = 2"
  shows "minority (split_judge v) '''' (split_row_of (c, h)) \<longleftrightarrow> h \<noteq> ''h1''"
  by (simp add: minority_def responders_def split_tables split_row_of_fields assms)

lemma split_judged:
  assumes "dv_largest_by_count_hash v = ''h1''" and "dv_largest_by_count_size v = 2" and "since < 0"
  shows "judged_probes (split_judge v) since excuse =
    [split_judgement (CHR ''a'') ''h1'' False, split_judgement (CHR ''b'') ''h2'' True, split_judgement (CHR ''c'') ''h1'' False]"
  by (simp add: judged_probes_def split_tables map_filter_simps judged_row_of_def split_recent [OF assms(3)] split_counted
      split_minority [OF assms(1,2)] split_row_of_fields split_judgement_def split_row_def)

text \<open>One probe is too little to flag a deployment, so the cycle starts from these tables.\<close>

lemma split_start:
  assumes "dv_largest_by_count_hash v = ''h1''" and "dv_largest_by_count_size v = 2"
  shows "cycle_start (\<lambda>x. x) (\<lambda>x. x) None (\<lambda>_. []) 9 (split_db v) = ([], split_db v)"
proof -
  have q: "\<not> nondet_qualifies js dep" if "length (filter jr_fault js) \<le> 2" for js dep
  proof -
    have "length (remdups (map jr_probe_id (filter jr_fault (filter (\<lambda>j. jr_response_hash j \<noteq> None \<and> jr_deployment_id j = dep) js))))
        \<le> length (filter jr_fault js)"
      by (rule order_trans [OF length_remdups_leq]) (induction js; simp)
    then show ?thesis using that by (simp add: nondet_qualifies_def dep_totals_def count_distinct_def Let_def del: filter_filter)
  qed
  have "(- (604800000000::int)) + 9 < 0" by simp
  then have "nondet_found (split_judge v) (9 - days 7) = []"
    using q by (simp add: nondet_found_def Let_def split_judged [OF assms] days_def split_judgement_def filter_empty_conv)
  then have f: "flag_nondeterministic (\<lambda>_. []) (9 - days 7) 9 (sd_qos (split_db v)) = sd_qos (split_db v)"
    by (simp add: flag_nondeterministic_def detect_nondeterministic_def split_judge_db tdel_def)
      (simp add: split_judge_def split_db_def on_feed_def blank_db_def idle_db_def)
  have "detect_and_store (\<lambda>x. x) (\<lambda>x. x) None 9 (sd_profiles (split_db v)) (sd_sybil (split_db v)) = Some ([], [])"
    by (simp add: split_db_def on_feed_def blank_db_def idle_db_def detect_and_store_def candidates_with_def map_filter_simps
        find_swarms_def links_def group_pairs_def tdel_def)
  moreover have "sd_sybil (split_db v) = []" by (simp add: split_db_def on_feed_def blank_db_def idle_db_def)
  ultimately show ?thesis by (simp add: cycle_start_def f)
qed

lemma split_agg:
  assumes "dv_largest_by_count_hash v = ''h1''" and "dv_largest_by_count_size v = 2" and "since < 0"
  obtains g where "map_of (load_probe_agg (split_judge v) since) ''0xb'' = Some g"
    and "ag_faults g = 1" and "ag_probes_answered g = 1"
proof -
  have "agg_items (split_judge v) since = map (\<lambda>(c, h). ([CHR ''0'', CHR ''x'', c], ('''', ''Qm1'', split_row_of (c, h))))
      [(CHR ''a'', ''h1''), (CHR ''b'', ''h2''), (CHR ''c'', ''h1'')]"
    by (simp add: agg_items_def split_tables map_filter_simps split_recent [OF assms(3)] split_counted split_row_def)
  then show thesis
    by (intro that [of "\<lparr>ag_probes_answered = 1, ag_faults = 1, ag_errors = 0, ag_total = 1\<rparr>"])
      (simp_all add: load_probe_agg_def probe_agg_rows_def group_pairs_def mm_push_def to_lower_def char_lower_def
        agg_of_def count_distinct_def split_minority [OF assms(1,2)] split_row_of_fields split_tables)
qed

lemma bad_data_emitted:
  assumes "is_serving_bad_data (assemble t a (primary cfg)) cfg" and "is_rated (assemble t a (primary cfg)) cfg"
    and "a \<in> set (score_keys ord t)"
  shows "(a, ''serving-bad-data'') \<in> verdict_key ` set (emitted oc_verdicts ord cfg t)"
proof -
  let ?i = "assemble t a (primary cfg)"
  have a: "si_indexer_address ?i = a" by (simp add: assemble_def Let_def)
  let ?vs = "derive_verdicts ?i cfg (composite_of ?i cfg)"
  have "?vs \<noteq> [] \<and> verdict_key (hd ?vs) = (a, ''serving-bad-data'')"
    by (simp add: derive_verdicts_def assms(1) mk_verdict_def verdict_key_def a)
  then have "(a, ''serving-bad-data'') \<in> verdict_key ` set ?vs" by (metis hd_in_set image_eqI)
  moreover have "oc_verdicts (judge ?i cfg) = derive_verdicts ?i cfg (composite_of ?i cfg)"
    using assms(2) by (simp add: judge_def judge_rated_def Let_def)
  ultimately have "(a, ''serving-bad-data'') \<in> verdict_key ` set (oc_verdicts (judge ?i cfg))" by simp
  then show ?thesis using assms(3) by (auto simp: emitted_def)
qed

theorem faults_rest_on_majorities_witness:
  "\<exists>v j. split_process [split_world] (lone_scorer (split_db v))
     \<and> j \<in> set (judged_probes (qd_judge (sd_qos (split_db v))) (- 1) False) \<and> jr_indexer_address j = ''0xb'' \<and> jr_fault j
     \<and> outvoted (qd_judge (sd_qos (split_db v))) (jr_probe_id j) (jr_response_hash j)"
proof -
  obtain v where run: "split_process [split_world] (lone_scorer (split_db v))"
    and v: "dv_largest_by_count_hash v = ''h1''" "dv_largest_by_count_size v = 2"
    by (rule split_run)
  let ?j = "split_judgement (CHR ''b'') ''h2'' True" and ?d = "qd_judge (sd_qos (px_scorer (lone_scorer (split_db v))))"
  have d: "?d = split_judge v" by (simp add: lone_scorer_def split_judge_db)
  have j: "?j \<in> set (judged_probes ?d (- 1) False)" by (simp add: d split_judged [OF v])
  have "jr_fault ?j" "jr_indexer_address ?j = ''0xb''" by (simp_all add: split_judgement_def)
  with faults_rest_on_majorities [OF run blank_unprobed refl j] run j show ?thesis
    unfolding d split_judge_db by blast
qed

theorem accusation_needs_majorities_witness:
  "\<exists>v s'. split_process [split_world] (lone_scorer (split_db v))
     \<and> s' = score_turn (\<lambda>x. x) (\<lambda>x. x) (\<lambda>_ _. None) (\<lambda>_. []) (\<lambda>x. x) split_scoring None 8 9 (lone_scorer (split_db v))
     \<and> map_of (sd_verdicts (px_scorer s')) (''0xb'', ''serving-bad-data'') \<noteq> None
     \<and> (\<exists>pid. contradicted (qd_judge (sd_qos (px_scorer s'))) (9 - days 30) ''0xb'' pid)"
proof -
  obtain v where run: "split_process [split_world] (lone_scorer (split_db v))"
    and v: "dv_largest_by_count_hash v = ''h1''" "dv_largest_by_count_size v = 2"
    by (rule split_run)
  have key: "gateway_key split_config = None" by (simp add: gateway_key_def split_fields)
  let ?s' = "score_turn (\<lambda>x. x) (\<lambda>x. x) (\<lambda>_ _. None) (\<lambda>_. []) (\<lambda>x. x) (scoring split_config) (gateway_key split_config) 8 9 (lone_scorer (split_db v))"
  obtain n s2 where r: "run_score_once (\<lambda>x. x) (\<lambda>x. x) None (\<lambda>_. []) (\<lambda>x. x) (scoring split_config) 8 9 (split_db v) = (n, s2)"
    by fastforce
  then have s2: "px_scorer ?s' = s2" by (simp add: score_turn_def key lone_scorer_def)
  have f: "bad_data_min_faults split_scoring = 1" by (simp add: split_scoring_def)
  have p: "primary split_scoring = 30" by (simp add: primary_def score_windows_def split_scoring_def scoring_default_def)
  let ?t = "load_tables (scoring split_config) 9 [] (primary (scoring split_config)) (split_db v)"
  have "9 - days 30 < 0" by (simp add: days_def)
  from split_agg [OF v this] obtain g where g: "map_of (st_agg ?t) ''0xb'' = Some g" "ag_faults g = 1" "ag_probes_answered g = 1"
    by (auto simp: load_tables_def split_judge_db split_fields p)
  have "fle (bad_data_min_rate split_scoring) (fdiv (f_of_int 1) (f_of_int 1))" by code_simp
  then have e: "(''0xb'', ''serving-bad-data'') \<in> verdict_key ` set (emitted oc_verdicts (\<lambda>x. x) (scoring split_config) ?t)"
    using g domI [of "map_of (st_agg ?t)", OF g(1)] by (intro bad_data_emitted) (simp_all add: is_serving_bad_data_def
      fault_rate_def assemble_def Let_def opt_or_def split_fields split_scoring_def is_rated_def is_active_def
      is_measured_def correctness_score_def score_keys_def dom_map_of_conv_image_fst)
  have "seen_by 0 (split_db v)" by (simp add: seen_by_def split_db_def on_feed_def blank_db_def twf_def)
  then have m: "map_of (sd_verdicts (px_scorer ?s')) (''0xb'', ''serving-bad-data'') \<noteq> None"
    using cycle_verdicts(2) [OF _ _ _ split_start [OF v] refl r, of 0] e s2 by simp
  obtain ps where "bad_data_min_faults (scoring split_config) \<le> int (length ps)"
      "\<forall>pid \<in> set ps. contradicted (qd_judge (sd_qos (px_scorer ?s'))) (9 - days (primary (scoring split_config))) ''0xb'' pid"
    using accusation_needs_majorities [OF run blank_unprobed _ _ refl m] by auto
  then have "\<exists>pid. contradicted (qd_judge (sd_qos (px_scorer ?s'))) (9 - days 30) ''0xb'' pid"
    using f p by (cases ps) (auto simp: split_fields)
  then show ?thesis using run m by (auto simp: split_fields key)
qed

section \<open>What the configuration switches off\<close>

text \<open>
  C15. What the configuration switches off is left alone. In every run of the process: without TAP the allocation,
  escrow and fee tables and the chain tip are as the process found them; without an alert
  webhook nothing is posted to a channel, so its tables are as they were; without a gateway key neither the
  allocation table nor the other oracle's figures or health are touched; without \<open>lodestar\<close> the profiles are not.
\<close>

theorem switched_off_left_alone:
  assumes "process_run b cfg L paid tss s0 Ws t s"
  shows "(\<not> tap_enabled (tap cfg) \<longrightarrow> px_active s = px_active s0 \<and> px_escrow s = px_escrow s0 \<and> px_fees s = px_fees s0
        \<and> px_tip s = px_tip s0)
    \<and> (alert_webhook cfg = None \<or> alert_webhook cfg = Some '''' \<longrightarrow> px_alerter s = px_alerter s0)
    \<and> (gateway cfg = None \<longrightarrow> px_active s = px_active s0 \<and> px_peer s = px_peer s0 \<and> px_alloc_qos s = px_alloc_qos s0)
    \<and> (lodestar cfg = None \<longrightarrow> sd_profiles (px_scorer s) = sd_profiles (px_scorer s0) \<and> px_alloc_qos s = px_alloc_qos s0)"
  using tap_off [OF assms] webhook_off [OF assms] gateway_off [OF assms] lodestar_off [OF assms] by blast

theorem switched_off_left_alone_witness:
  "\<exists>v. split_process [split_world] (lone_scorer (split_db v)) \<and> \<not> tap_enabled (tap split_config)
     \<and> px_escrow (lone_scorer (split_db v)) = px_escrow (lone_scorer blank_db)
     \<and> px_alerter (lone_scorer (split_db v)) = px_alerter (lone_scorer blank_db)"
proof -
  obtain v where run: "split_process [split_world] (lone_scorer (split_db v))" by (rule split_run)
  have "\<not> tap_enabled (tap split_config)" "alert_webhook split_config = None"
    by (simp_all add: split_config_def sample_config_def foghorn_default_def tap_default_def)
  with switched_off_left_alone [OF run] run show ?thesis by blast
qed

end
