(* ===== verification/Spec2Isabelle.thy ===== *)
theory Spec2Isabelle
  imports Score_Props Feed_Props Scorer_Props Alerter_Props Subscriptions_Props Fees_Props Feed_Api_Props
    Escrow Status Oracle_Watch_Props Autodiscover Graphql_Props Routes_Props Routes_Qos_Props Server_Props Tasks Fixtures Evidence_Props
begin

text \<open>
  A model of Foghorn, an oracle that probes the indexers of a decentralised query network, compares
  their answers and grades them.

  \<^bold>\<open>The program and its theories.\<close> One pass of the program goes: the allocation sync learns whom it
  can probe and pay (\<open>nest.rs\<close>, \<open>allocations.rs\<close>: theory Allocations); the scheduler pins a block and
  turns each test query into probes (\<open>scheduler.rs\<close>, \<open>discovery.rs\<close>: Scheduler); the executor sends one
  probe and classifies what comes back (\<open>executor.rs\<close>: Executor); the body is stripped of volatile
  fields, written canonically and hashed (\<open>normalize.rs\<close>, \<open>deployment.rs\<close>: Normalize); the hashes of
  one probe are clustered (\<open>cluster.rs\<close>: Cluster) and stored; the judged-answers query reads the store
  back as faults (\<open>judged.rs\<close>) and the scorer aggregates it per indexer and finds deployments whose
  subgraph, not an indexer, is at fault (\<open>scorer.rs\<close>: Judged); \<open>score.rs\<close> turns the aggregate into
  sub-scores, a composite, a grade, verdicts and attention items (Score, Score_Props); the scoring
  cycle loads its tables, grades everyone over two windows and writes and prunes the public tables
  (\<open>scorer.rs\<close>: Scorer, Scorer_Props). Beside it, the swarm detector links indexers that move together
  (\<open>sybil.rs\<close>: Sybil), the ingest reads Lodestar's roster and figures (\<open>ingest.rs\<close>, \<open>lodestar.rs\<close>: Ingest),
  and the rollup recounts the judged answers per minute bucket (\<open>qos.rs\<close>, \<open>resolver.rs\<close>: Qos, Qos_Props,
  Feed_Props). The operator's channel gets a debounced roster of failing indexers (\<open>alerter.rs\<close>: Alerter,
  Alerter_Props), and anyone may subscribe a webhook to an indexer (\<open>foghorn-core/src/alerts.rs\<close>:
  Alerts, Addresses, Alerts_Props; \<open>subscriptions.rs\<close> and \<open>foghorn-api/src/alerts.rs\<close>: Subscriptions,
  Subscriptions_Props). The settlements an indexer collected and the escrow we hold with it are read from
  our nest and the chain (\<open>fees.rs\<close>: Fees, Fees_Props; \<open>escrow.rs\<close>: Escrow); the status endpoints are probed
  for freshness (\<open>status.rs\<close>: Status); the other oracle's publisher and subgraph are watched (\<open>dataedge.rs\<close>,
  \<open>peer.rs\<close>: Oracle_Watch, Oracle_Watch_Props); test sets are found without a hand (\<open>autodiscover.rs\<close>:
  Autodiscover). What is published is read back by the daily feed (\<open>foghorn-api/src/qos.rs\<close>: Feed_Api,
  Feed_Api_Props), the oracle-compatible GraphQL schema over it (\<open>graphql.rs\<close>: Graphql, Graphql_Props) and
  the JSON handlers (\<open>routes.rs\<close>: Api holds what they share, Routes_Probe those over probes and judged
  answers, Routes_Score those over grades, Routes_Qos those over the feed, the chain and attestations;
  Routes_Props, Routes_Qos_Props). The routes and one request served are in Server, with Server_Props
  (\<open>foghorn-api/src/main.rs\<close>); the tasks a configuration spawns and the chain tip they share in Tasks
  (\<open>foghorn-probe/src/main.rs\<close>); the seeds of the database tests in Fixtures (\<open>testdb.rs\<close>), where the numbers
  those tests expect are proved of the model. Loops has one turn of each of the probe process's loops on the tables
  they share, and the runs of the process; Evidence the runs of the oracle they amount to, with what every component
  leaves alone; Evidence_Props what both come to. Numbers parses and prints integers and binary64 decimals.

  \<^bold>\<open>State.\<close> PostgreSQL tables are association lists keyed by their primary key (Prelude): an insert
  with \<open>ON CONFLICT DO UPDATE\<close> is \<open>tput\<close>, with \<open>DO NOTHING\<close> \<open>tput_new\<close>, a \<open>DELETE\<close> is \<open>tdel\<close>; the locale
  \<open>keyed_store\<close> states what the components rely on and is interpreted on these operations; \<open>seen_table\<close> is
  the contract of the two tables the scoring cycle prunes, \<open>listing\<close> that of the ordered lists the handlers
  page, \<open>quiet_op\<close> that of the operations that enable no subscription, \<open>bystander\<close> that of the operations that
  leave the probes alone and \<open>feed_bystander\<close> that of those among them that work on the feed's tables, each
  interpreted where the model provides it. A handler
  is a function from the tables to a result and the tables; a transaction that fails returns the
  tables it was given, a statement outside a transaction keeps the effect of the ones before it.
  SQL row order without \<open>ORDER BY\<close>, and ties within one, are table order. The statements one operation issues
  (the flags and the reroll requests of \<open>flag_nondeterministic\<close>, say) are one step in the runs of the state
  machines, whether or not the source wraps them in a transaction.

  \<^bold>\<open>Numbers.\<close> \<open>f64\<close> is binary64 over the rationals (F64): rounding to nearest, ties to even, overflow
  to infinity, subnormals, NaN; the two zeros are identified. Narrowing casts to \<open>i32\<close> are \<open>i32w\<close>.
  Byte strings are lists of \<open>8 word\<close>, offsets \<open>64 word\<close> with checked addition written out. Text is its bytes;
  \<open>trim\<close> and \<open>to_lower\<close> treat the ASCII letters and blanks of addresses, URLs and ids and leave other bytes as
  they are, where the source's functions know all of Unicode.

  \<^bold>\<open>Parameters.\<close> Code that is not in the repository is an argument: JSON parsing and string quoting
  (\<open>serde_json\<close>), SHA-256 and keccak, secp256k1 recovery, base58 and hex, the HTTP and TAP clients,
  \<open>json_patch::diff\<close>, the iteration order of a hash map (any permutation). A theorem that needs
  something of one of them says so in a hypothesis, and its witness instantiates it.

  \<^bold>\<open>State machines.\<close> \<open>feed_run\<close> interleaves probe rounds, attribution, nondeterminism flags and rollups;
  \<open>alert_run\<close> interleaves scoring and alert cycles; \<open>svc\<close> interleaves HTTP requests, creations in flight and
  subscription cycles; \<open>oracle_run\<close> interleaves probe rounds, attribution, scoring cycles, rollups and ingests;
  \<open>process_run\<close> interleaves the scheduler with turns of the tasks a configuration started, and refines
  \<open>oracle_run\<close>; all are inductive, and what is proved of them is proved by rule induction over every run.

  \<^bold>\<open>Loops and bounds.\<close> Only the keyset paginations have fuel, 40 pages of allocations and 60 of daily points, the
  bounds the source itself has; every other recursion is structural or has a termination proof.

  \<^bold>\<open>What the lemmas show.\<close> Score_Props: sub-scores stay on their scale, the composite is bounded,
  penalties and faults never help (weights and penalties in the ranges the defaults respect), an unmeasured indexer is unrated and what it then gets, the
  canonical oracle's figures do not enter, verdicts are exactly those whose condition holds.
  Normalize: the canonical text is injective up to key order and duplicates, so hashes agree exactly
  when the data does. Cluster: the majority is found, whatever the hash order. Allocations: a refresh
  replaces the table with all a ready and current nest answered or leaves it, targets are exactly the payable rows. Probe_Props and Round_Props:
  evidence is verified, a hash means success, payment failures are told apart, one observation per
  address and the best, storing twice is storing once, a row of the divergence table exists exactly
  for corroborated probes, a round records every probe. Judged: a fault is exactly an answer against
  a strict majority, refusals to pay are no evidence, rotation is needed to excuse a deployment, the
  grades read the same faults as every other surface. Sybil: union-find returns the connected
  components, crowding alone is a public swarm. Qos_Props and Feed_Props: a roll recounts whole buckets,
  its counts are the judged ones, and in every run whose rollups come often enough the feed catches up.
  Scorer_Props: what a cycle leaves is what it found. Addresses: the octet tests keep to the reserved blocks, the
  host a URL names is the one that is checked. Alerts_Props: every change is told once, all posts go to one
  resolved address that is not reserved, Discord bodies fit. Alerter_Props: a state that lasts is told, a flicker is not.
  Subscriptions_Props: a failed post keeps the old state and is retried, a webhook that keeps failing is
  stopped, a subscription is removed by its token only. Fees_Props: the draining loop ends and what it
  leaves behind. Escrow: who is never paid. Oracle_Watch_Props: the headlines the channel reads alternate and end with what holds.
  Server_Props: only the two alert posts change anything, and the limits on subscriptions hold up to the
  creations in flight. Tasks: what runs without TAP, and that the tip's value decides nothing. Evidence_Props: in every run of
  the process a fault, and a public accusation, rests on strict majorities of stored answers, and what the
  configuration switches off is left alone.
  Feed_Api_Props: the days add up to the buckets. Graphql_Props: the ingest, pointed at our own endpoint, reads
  our feed exactly, up to its sixty pages, and a nested query stays below its parent. Routes_Props and Routes_Qos_Props: the public
  pages say what the grades and the judged answers say, an accusation needs its evidence, a conflict is two
  signatures over different answers, and our own age goes by measurements alone.

  \<^bold>\<open>Not modelled.\<close> Parsing and executing a GraphQL document (\<open>async_graphql\<close>) and its playground page;
  CORS headers and the bodies of rejected requests; connecting the pool and the migrations; creating and
  dropping a test database; the unit tests beside the code (of the database tests, the seeds and what they expect
  are in theory \<open>Fixtures\<close>); sleeps between cycles (a run takes the turns in any order), logging, and writes to
  the database that fail for reasons outside the program (a handler's reads may fail: its environment says which).
\<close>

end
